(* ===== verification/Prelude.thy ===== *)
theory Prelude
  imports Main "HOL-Library.List_Lexorder" "HOL-Library.Char_ord"
begin

text \<open>
  Shared vocabulary of the development: programs over an explicit state that may fail,
  the rules that take such programs apart, and generic facts on lists that the
  components share.

  A fallible Go call \<open>x, err := f(ctx, ...)\<close> is a program of type \<open>('s, 'e, 'a) prog\<close>: from a state
  it yields either an error (\<open>Inl\<close>) or a value (\<open>Inr\<close>), and the state after the call.
\<close>

type_synonym ('s, 'e, 'a) prog = "'s \<Rightarrow> ('e + 'a) \<times> 's"

named_theorems prog_elims "equations that take a successful or failing run apart"
named_theorems frame_rules "rules showing that a program only touches the database part"
named_theorems inv_rules "preservation of the database invariant by the operations"
named_theorems wire_defs "definitions of the wire messages and of their fields"

section \<open>Programs\<close>

definition ret :: "'a \<Rightarrow> ('s, 'e, 'a) prog" where
  "ret x = (\<lambda>s. (Inr x, s))"

definition throw :: "'e \<Rightarrow> ('s, 'e, 'a) prog" where
  "throw e = (\<lambda>s. (Inl e, s))"

definition bindE :: "('s, 'e, 'a) prog \<Rightarrow> ('a \<Rightarrow> ('s, 'e, 'b) prog) \<Rightarrow> ('s, 'e, 'b) prog" where
  "bindE m k = (\<lambda>s. case m s of (Inl e, s') \<Rightarrow> (Inl e, s') | (Inr x, s') \<Rightarrow> k x s')"

definition catchE :: "('s, 'e, 'a) prog \<Rightarrow> ('e \<Rightarrow> ('s, 'e, 'a) prog) \<Rightarrow> ('s, 'e, 'a) prog" where
  "catchE m h = (\<lambda>s. case m s of (Inl e, s') \<Rightarrow> h e s' | (Inr x, s') \<Rightarrow> (Inr x, s'))"

text \<open>\<open>for _, x := range xs { if err := f(x); err != nil { return err } }\<close>\<close>

fun for_each :: "('a \<Rightarrow> ('s, 'e, unit) prog) \<Rightarrow> 'a list \<Rightarrow> ('s, 'e, unit) prog" where
  "for_each f [] = ret ()"
| "for_each f (x # xs) = bindE (f x) (\<lambda>_. for_each f xs)"

text \<open>A loop whose body converts each row, stopping at the first conversion error.\<close>

fun map_err :: "('a \<Rightarrow> 'e + 'b) \<Rightarrow> 'a list \<Rightarrow> 'e + 'b list" where
  "map_err f [] = Inr []"
| "map_err f (x # xs) =
     (case f x of Inl e \<Rightarrow> Inl e
      | Inr y \<Rightarrow> (case map_err f xs of Inl e \<Rightarrow> Inl e | Inr ys \<Rightarrow> Inr (y # ys)))"

definition lift_result :: "'e + 'a \<Rightarrow> ('s, 'e, 'a) prog" where
  "lift_result r = (\<lambda>s. (r, s))"

lemma ret_apply [simp]: "ret x s = (Inr x, s)"
  by (simp add: ret_def)

lemma throw_apply [simp]: "throw e s = (Inl e, s)"
  by (simp add: throw_def)

lemma lift_result_apply [simp]: "lift_result r s = (r, s)"
  by (simp add: lift_result_def)

lemma bindE_Inr [prog_elims]:
  "bindE m k s = (Inr y, s'') \<longleftrightarrow> (\<exists>x s'. m s = (Inr x, s') \<and> k x s' = (Inr y, s''))"
  by (auto simp: bindE_def split: prod.splits sum.splits)

lemma bindE_Inl [prog_elims]:
  "bindE m k s = (Inl e, s'') \<longleftrightarrow>
     m s = (Inl e, s'') \<or> (\<exists>x s'. m s = (Inr x, s') \<and> k x s' = (Inl e, s''))"
  by (auto simp: bindE_def split: prod.splits sum.splits)

lemma catchE_Inr [prog_elims]:
  "catchE m h s = (Inr y, s'') \<longleftrightarrow>
     m s = (Inr y, s'') \<or> (\<exists>e s'. m s = (Inl e, s') \<and> h e s' = (Inr y, s''))"
  by (auto simp: catchE_def split: prod.splits sum.splits)

lemma catchE_Inl [prog_elims]:
  "catchE m h s = (Inl e', s'') \<longleftrightarrow> (\<exists>e s'. m s = (Inl e, s') \<and> h e s' = (Inl e', s''))"
  by (auto simp: catchE_def split: prod.splits sum.splits)

lemma map_err_Inr_iff:
  "map_err f xs = Inr ys \<longleftrightarrow> list_all2 (\<lambda>x y. f x = Inr y) xs ys"
proof (induction xs arbitrary: ys)
  case Nil
  then show ?case by auto
next
  case (Cons x xs)
  then show ?case
    by (cases ys) (auto split: sum.splits simp flip: Cons.IH)
qed

lemma list_all2_in_left: "list_all2 P xs ys \<Longrightarrow> x \<in> set xs \<Longrightarrow> \<exists>y \<in> set ys. P x y"
  by (induction rule: list_all2_induct) auto

lemma list_all2_in_right: "list_all2 P xs ys \<Longrightarrow> y \<in> set ys \<Longrightarrow> \<exists>x \<in> set xs. P x y"
  by (induction rule: list_all2_induct) auto

lemma map_err_ok:
  "(\<And>x. x \<in> set xs \<Longrightarrow> f x = Inr (g x)) \<Longrightarrow> map_err f xs = Inr (map g xs)"
  by (induction xs) auto

lemma map_err_Inl:
  "x \<in> set xs \<Longrightarrow> f x = Inl e \<Longrightarrow> \<exists>e'. map_err f xs = Inl e'"
  by (induction xs) (auto split: sum.splits)

lemma map_err_map:
  assumes "map_err f xs = Inr ys" and "\<And>x y. f x = Inr y \<Longrightarrow> g y = h x"
  shows "map g ys = map h xs"
  using assms(1) by (induction xs arbitrary: ys) (auto simp: assms(2) split: sum.splits)

section \<open>Contracts of programs\<close>

text \<open>
  A contract is a reflexive and transitive relation between the states before and after a
  call; a program obeys it when every run, failing runs included, relates the two states.
  The locale gives the rules by which a composed program obeys what its parts obey; the
  interpretations supply the relations: preserved invariants, frames, histories.
\<close>

definition obeys :: "('s \<Rightarrow> 's \<Rightarrow> bool) \<Rightarrow> ('s, 'e, 'a) prog \<Rightarrow> bool" where
  "obeys R m \<longleftrightarrow> (\<forall>s. R s (snd (m s)))"

lemma obeysI: "(\<And>s r s'. m s = (r, s') \<Longrightarrow> R s s') \<Longrightarrow> obeys R m"
  by (simp add: obeys_def) (metis prod.collapse)

lemma obeysD: "obeys R m \<Longrightarrow> m s = (r, s') \<Longrightarrow> R s s'"
  by (metis obeys_def snd_conv)

lemma obeys_apply: "obeys R m \<Longrightarrow> R s (snd (m s))"
  by (simp add: obeys_def)

locale contract =
  fixes R :: "'s \<Rightarrow> 's \<Rightarrow> bool"
  assumes refl [simp]: "R s s"
    and trans: "R s t \<Longrightarrow> R t u \<Longrightarrow> R s u"
begin

lemma ret: "obeys R (ret x)"
  by (simp add: obeys_def)

lemma throw: "obeys R (throw e)"
  by (simp add: obeys_def)

lemma lift_result: "obeys R (lift_result r)"
  by (simp add: obeys_def)

lemma bindE:
  assumes "obeys R m" and "\<And>x. obeys R (k x)"
  shows "obeys R (bindE m k)"
proof (rule obeysI)
  fix s r s' assume run: "bindE m k s = (r, s')"
  obtain r1 s1 where m: "m s = (r1, s1)" by fastforce
  then have "R s s1" using assms(1) by (metis obeysD)
  moreover have "R s1 s'"
    using run m assms(2) by (cases r1) (auto simp: bindE_def dest: obeysD)
  ultimately show "R s s'" by (rule trans)
qed

lemma catchE:
  assumes "obeys R m" and "\<And>e. obeys R (h e)"
  shows "obeys R (catchE m h)"
proof (rule obeysI)
  fix s r s' assume run: "catchE m h s = (r, s')"
  obtain r1 s1 where m: "m s = (r1, s1)" by fastforce
  then have "R s s1" using assms(1) by (metis obeysD)
  moreover have "R s1 s'"
    using run m assms(2) by (cases r1) (auto simp: catchE_def dest: obeysD)
  ultimately show "R s s'" by (rule trans)
qed

lemma for_each: "(\<And>x. x \<in> set xs \<Longrightarrow> obeys R (f x)) \<Longrightarrow> obeys R (for_each f xs)"
  by (induction xs) (auto intro: ret bindE)

lemmas rules = ret throw lift_result bindE catchE for_each

end

lemma obeys_if: "obeys R m \<Longrightarrow> obeys R n \<Longrightarrow> obeys R (if b then m else n)"
  by simp

lemma obeys_option:
  "obeys R m \<Longrightarrow> (\<And>x. obeys R (f x)) \<Longrightarrow> obeys R (case v of None \<Rightarrow> m | Some x \<Rightarrow> f x)"
  by (simp split: option.split)

lemma obeys_list:
  "obeys R m \<Longrightarrow> (\<And>x xs. obeys R (f x xs)) \<Longrightarrow> obeys R (case v of [] \<Rightarrow> m | x # xs \<Rightarrow> f x xs)"
  by (simp split: list.split)

lemma obeys_sum:
  "(\<And>x. obeys R (f x)) \<Longrightarrow> (\<And>y. obeys R (g y)) \<Longrightarrow>
     obeys R (case v of Inl x \<Rightarrow> f x | Inr y \<Rightarrow> g y)"
  by (simp split: sum.split)

lemma obeys_prod: "(\<And>x y. obeys R (f x y)) \<Longrightarrow> obeys R (case v of (x, y) \<Rightarrow> f x y)"
  by (simp split: prod.split)

lemma obeys_let: "(\<And>x. obeys R (f x)) \<Longrightarrow> obeys R (let x = v in f x)"
  by simp

lemmas obeys_cases = obeys_if obeys_option obeys_list obeys_sum obeys_prod obeys_let

text \<open>Running an action and keeping its outcome as a value, as \<open>if err := f(); err != nil\<close> does.\<close>

definition attempt :: "('s, 'e, 'a) prog \<Rightarrow> ('s, 'f, 'e + 'a) prog" where
  "attempt m = (\<lambda>s. case m s of (r, s') \<Rightarrow> (Inr r, s'))"

lemma attempt_Inr [prog_elims]: "attempt m s = (Inr r, s') \<longleftrightarrow> m s = (r, s')"
  by (auto simp: attempt_def split: prod.splits)

lemma attempt_Inl [simp]: "attempt m s \<noteq> (Inl e, s')"
  by (auto simp: attempt_def split: prod.splits)

lemma snd_attempt [simp]: "snd (attempt m s) = snd (m s)"
  by (simp add: attempt_def split: prod.splits)

lemma obeys_attempt: "obeys R m \<Longrightarrow> obeys R (attempt m)"
  by (simp add: obeys_def)

text \<open>An error that is only logged: \<open>if err := f(); err != nil { log }\<close>.\<close>

definition logged :: "('s, 'e, 'a) prog \<Rightarrow> ('s, 'f, unit) prog" where
  "logged m = (\<lambda>s. (Inr (), snd (m s)))"

lemma logged_run [prog_elims]: "logged m s = (r, s') \<longleftrightarrow> r = Inr () \<and> s' = snd (m s)"
  by (auto simp: logged_def)

lemma snd_logged [simp]: "snd (logged m s) = snd (m s)"
  by (simp add: logged_def)

lemma bindE_logged [simp]: "bindE (logged m) k s = k () (snd (m s))"
  by (simp add: bindE_def logged_def)

lemma obeys_logged: "obeys R m \<Longrightarrow> obeys R (logged m)"
  by (simp add: obeys_def)

section \<open>Association by key in a list of rows\<close>

text \<open>
  A table is the list of its rows in insertion order; a key column is looked up with
  \<open>find\<close>, and an \<open>UPDATE ... WHERE key = ?\<close> maps the rows.
\<close>

definition update_where :: "('r \<Rightarrow> bool) \<Rightarrow> ('r \<Rightarrow> 'r) \<Rightarrow> 'r list \<Rightarrow> 'r list" where
  "update_where P f rows = map (\<lambda>r. if P r then f r else r) rows"

lemma update_where_Nil [simp]: "update_where P f [] = []"
  by (simp add: update_where_def)

lemma update_where_Cons [simp]:
  "update_where P f (r # rs) = (if P r then f r else r) # update_where P f rs"
  by (simp add: update_where_def)

lemma length_update_where [simp]: "length (update_where P f rs) = length rs"
  by (simp add: update_where_def)

lemma set_update_where:
  "set (update_where P f rs) = {r \<in> set rs. \<not> P r} \<union> f ` {r \<in> set rs. P r}"
  by (auto simp: update_where_def)

lemma map_update_where:
  "(\<And>r. P r \<Longrightarrow> k (f r) = k r) \<Longrightarrow> map k (update_where P f rs) = map k rs"
  by (auto simp: update_where_def)

lemma find_append_None:
  "find P (xs @ ys) = (case find P xs of None \<Rightarrow> find P ys | Some x \<Rightarrow> Some x)"
  by (induction xs) auto

lemma find_SomeD: "find P xs = Some x \<Longrightarrow> x \<in> set xs \<and> P x"
  by (induction xs) (auto split: if_splits)

lemma find_key_distinct:
  assumes "distinct (map k xs)" and "x \<in> set xs"
  shows "find (\<lambda>y. k y = k x) xs = Some x"
  using assms by (induction xs) (auto simp: image_iff)

lemma filter_key_distinct:
  assumes "distinct (map k xs)" and "x \<in> set xs"
  shows "filter (\<lambda>y. k y = k x) xs = [x]"
  using assms
proof (induction xs)
  case (Cons a xs)
  show ?case
  proof (cases "a = x")
    case True
    with Cons.prems(1) have "filter (\<lambda>y. k y = k x) xs = []"
      by (auto simp: filter_empty_conv image_iff)
    with True show ?thesis by simp
  next
    case False
    with Cons show ?thesis by (auto simp: image_iff)
  qed
qed simp

lemma find_key_None_iff: "find (\<lambda>y. k y = v) xs = None \<longleftrightarrow> v \<notin> k ` set xs"
  by (induction xs) auto

lemma find_update_where_other:
  assumes "\<And>r. P r \<Longrightarrow> \<not> Q r" and "\<And>r. P r \<Longrightarrow> \<not> Q (f r)"
  shows "find Q (update_where P f rs) = find Q rs"
  using assms by (induction rs) auto

lemma find_update_where_same:
  assumes "\<And>r. k (f r) = k r"
  shows "find (\<lambda>r. k r = v) (update_where (\<lambda>r. k r = v) f rs) =
    map_option f (find (\<lambda>r. k r = v) rs)"
  by (induction rs) (auto simp: assms)

lemma find_update_where_key:
  assumes "\<And>r. k (f r) = k r"
  shows "find (\<lambda>r. k r = v) (update_where P f rs) =
    map_option (\<lambda>r. if P r then f r else r) (find (\<lambda>r. k r = v) rs)"
  by (induction rs) (auto simp: assms)

lemma find_conv_hd_filter:
  "find P xs = (case filter P xs of [] \<Rightarrow> None | y # _ \<Rightarrow> Some y)"
  by (induction xs) auto

section \<open>Ordering of query results\<close>

text \<open>
  \<open>ORDER BY k ASC\<close> and \<open>ORDER BY k DESC\<close>. Rows with equal keys come in insertion
  (rowid) order; no property of the development depends on that choice.
\<close>

definition order_asc :: "('r \<Rightarrow> 'k::linorder) \<Rightarrow> 'r list \<Rightarrow> 'r list" where
  "order_asc k rows = sort_key k rows"

definition order_desc :: "('r \<Rightarrow> 'k::linorder) \<Rightarrow> 'r list \<Rightarrow> 'r list" where
  "order_desc k rows = rev (sort_key k (rev rows))"

lemma set_order_asc [simp]: "set (order_asc k rs) = set rs"
  by (simp add: order_asc_def)

lemma set_order_desc [simp]: "set (order_desc k rs) = set rs"
  by (simp add: order_desc_def)

lemma length_order_asc [simp]: "length (order_asc k rs) = length rs"
  by (simp add: order_asc_def)

lemma length_order_desc [simp]: "length (order_desc k rs) = length rs"
  by (simp add: order_desc_def)

lemma order_asc_hd_least:
  assumes "order_asc k rs = r # rest" and "x \<in> set rs"
  shows "k r \<le> k x"
proof -
  have "sorted (map k (r # rest))"
    using assms(1) sorted_sort_key [of k rs] by (simp add: order_asc_def)
  moreover have "x \<in> set (r # rest)"
    using assms by (metis set_order_asc)
  ultimately show ?thesis by auto
qed

lemma order_desc_hd_greatest:
  assumes "order_desc k rs = r # rest" and "x \<in> set rs"
  shows "k x \<le> k r"
proof -
  have "sort_key k (rev rs) = rev rest @ [r]"
    using assms(1) by (metis order_desc_def rev_eq_Cons_iff)
  then have "sorted (map k (rev rest @ [r]))"
    by (metis sorted_sort_key)
  moreover have "x \<in> set (rev rest @ [r])"
    using assms by (metis set_order_desc set_rev rev.simps(2))
  ultimately show ?thesis by (auto simp: sorted_append)
qed

end
