(* ===== verification/GoStrings.thy ===== *)
theory GoStrings
  imports Prelude
begin

text \<open>
  The parts of Go's \<open>strings\<close> and \<open>strconv\<close> packages the program uses, on byte strings
  (\<^typ>\<open>string\<close> is a list of 8-bit \<^typ>\<open>char\<close>, as a Go string is a sequence of bytes).

  \<open>strings.ToLower\<close> is modelled on the ASCII letters; the program applies it to repository
  names, which GitHub restricts to ASCII. \<open>strings.TrimSpace\<close> strips every Unicode space,
  each given by its UTF-8 encoding.
\<close>

section \<open>Prefixes and suffixes\<close>

definition has_prefix :: "string \<Rightarrow> string \<Rightarrow> bool" where
  "has_prefix s p \<longleftrightarrow> take (length p) s = p"

definition has_suffix :: "string \<Rightarrow> string \<Rightarrow> bool" where
  "has_suffix s p \<longleftrightarrow> length p \<le> length s \<and> drop (length s - length p) s = p"

definition trim_prefix :: "string \<Rightarrow> string \<Rightarrow> string" where
  "trim_prefix s p = (if has_prefix s p then drop (length p) s else s)"

definition trim_suffix :: "string \<Rightarrow> string \<Rightarrow> string" where
  "trim_suffix s p = (if has_suffix s p then take (length s - length p) s else s)"

lemma has_prefix_append [simp]: "has_prefix (p @ s) p"
  by (simp add: has_prefix_def)

lemma has_prefix_iff: "has_prefix s p \<longleftrightarrow> (\<exists>r. s = p @ r)"
proof
  assume "has_prefix s p"
  then have "s = p @ drop (length p) s"
    by (metis append_take_drop_id has_prefix_def)
  then show "\<exists>r. s = p @ r" by blast
qed auto

lemma trim_prefix_append [simp]: "trim_prefix (p @ s) p = s"
  by (simp add: trim_prefix_def)

lemma trim_prefix_no: "\<not> has_prefix s p \<Longrightarrow> trim_prefix s p = s"
  by (simp add: trim_prefix_def)

section \<open>Searching, splitting, replacing\<close>

text \<open>\<open>strings.Contains(s, sub)\<close> and \<open>strings.Index(s, sub)\<close>.\<close>

fun index_of :: "string \<Rightarrow> string \<Rightarrow> nat option" where
  "index_of [] sub = (if sub = [] then Some 0 else None)"
| "index_of (c # cs) sub =
     (if has_prefix (c # cs) sub then Some 0 else map_option Suc (index_of cs sub))"

definition contains_str :: "string \<Rightarrow> string \<Rightarrow> bool" where
  "contains_str s sub \<longleftrightarrow> index_of s sub \<noteq> None"

text \<open>\<open>strings.Split(s, sep)\<close> for a separator of one byte.\<close>

fun split_byte :: "char \<Rightarrow> string \<Rightarrow> string list" where
  "split_byte sep [] = [[]]"
| "split_byte sep (c # cs) =
     (if c = sep then [] # split_byte sep cs
      else (case split_byte sep cs of [] \<Rightarrow> [[c]] | w # ws \<Rightarrow> (c # w) # ws))"

text \<open>\<open>strings.SplitN(s, sep, n)\<close> for a separator of one byte and \<open>0 < n\<close>.\<close>

fun split_byte_n :: "char \<Rightarrow> nat \<Rightarrow> string \<Rightarrow> string list" where
  "split_byte_n sep (Suc (Suc n)) s =
     (case dropWhile (\<lambda>c. c \<noteq> sep) s of
        [] \<Rightarrow> [s]
      | _ # rest \<Rightarrow> takeWhile (\<lambda>c. c \<noteq> sep) s # split_byte_n sep (Suc n) rest)"
| "split_byte_n sep n s = [s]"

text \<open>\<open>strings.ReplaceAll(s, old, new)\<close> for an \<open>old\<close> of one byte.\<close>

definition replace_byte :: "char \<Rightarrow> string \<Rightarrow> string \<Rightarrow> string" where
  "replace_byte old new s = concat (map (\<lambda>c. if c = old then new else [c]) s)"

lemma split_byte_nonempty [simp]: "split_byte sep s \<noteq> []"
  by (induction s) (auto split: list.splits)

lemma split_byte_no_sep: "w \<in> set (split_byte sep s) \<Longrightarrow> sep \<notin> set w"
proof (induction s arbitrary: w)
  case (Cons c cs)
  then show ?case
    by (cases "split_byte sep cs") (auto split: if_splits)
qed simp

lemma split_byte_free: "sep \<notin> set s \<Longrightarrow> split_byte sep s = [s]"
  by (induction s) auto

lemma split_byte_append_sep:
  "sep \<notin> set w \<Longrightarrow> split_byte sep (w @ sep # s) = w # split_byte sep s"
  by (induction w) auto

lemma replace_byte_free: "old \<notin> set s \<Longrightarrow> replace_byte old new s = s"
  by (induction s) (auto simp: replace_byte_def)

lemma replace_byte_removes: "old \<notin> set new \<Longrightarrow> old \<notin> set (replace_byte old new s)"
  by (auto simp: replace_byte_def split: if_splits)

lemma replace_byte_append [simp]:
  "replace_byte old new (s @ t) = replace_byte old new s @ replace_byte old new t"
  by (simp add: replace_byte_def)

section \<open>Case and white space\<close>

definition lower_byte :: "char \<Rightarrow> char" where
  "lower_byte c =
     (let n = of_char c :: nat in if 65 \<le> n \<and> n \<le> 90 then char_of (n + 32) else c)"

definition to_lower :: "string \<Rightarrow> string" where
  "to_lower s = map lower_byte s"

lemma lower_byte_idem [simp]: "lower_byte (lower_byte c) = lower_byte c"
proof -
  have "of_char c < (256 :: nat)" by (rule nat_of_char_less_256)
  then show ?thesis by (auto simp: lower_byte_def Let_def)
qed

lemma to_lower_idem [simp]: "to_lower (to_lower s) = to_lower s"
  by (simp add: to_lower_def)

lemma to_lower_eq_Nil [simp]: "to_lower s = [] \<longleftrightarrow> s = []"
  by (simp add: to_lower_def)

text \<open>
  \<open>unicode.IsSpace\<close>, each rune by its UTF-8 bytes: the ASCII spaces, U+0085, U+00A0,
  U+1680, U+2000..U+200A, U+2028, U+2029, U+202F, U+205F and U+3000.
\<close>

definition bytes :: "nat list \<Rightarrow> string" where
  "bytes ns = map char_of ns"

definition space_runes :: "string list" where
  "space_runes = map bytes
     ([[9], [10], [11], [12], [13], [32], [0xC2, 0x85], [0xC2, 0xA0], [0xE1, 0x9A, 0x80]]
      @ map (\<lambda>i. [0xE2, 0x80, i]) [0x80, 0x81, 0x82, 0x83, 0x84, 0x85, 0x86, 0x87, 0x88, 0x89,
          0x8A, 0xA8, 0xA9, 0xAF]
      @ [[0xE2, 0x81, 0x9F], [0xE3, 0x80, 0x80]])"

lemma space_runes_nonempty: "r \<in> set space_runes \<Longrightarrow> r \<noteq> []"
  by (auto simp: space_runes_def bytes_def)

function trim_left_runes :: "string list \<Rightarrow> string \<Rightarrow> string" where
  "trim_left_runes rs s =
     (case find (\<lambda>r. r \<noteq> [] \<and> has_prefix s r) rs of
        None \<Rightarrow> s
      | Some r \<Rightarrow> trim_left_runes rs (drop (length r) s))"
  by pat_completeness auto
termination
proof (relation "measure (\<lambda>(rs, s). length s)", goal_cases)
  case (2 rs s r)
  then have "r \<noteq> []" and "has_prefix s r"
    by (auto dest!: find_SomeD sym [of "Some r"])
  then show ?case
    by (auto simp: has_prefix_iff)
qed simp

declare trim_left_runes.simps [simp del]

definition trim_left_space :: "string \<Rightarrow> string" where
  "trim_left_space s = trim_left_runes space_runes s"

definition trim_right_space :: "string \<Rightarrow> string" where
  "trim_right_space s = rev (trim_left_runes (map rev space_runes) (rev s))"

definition trim_space :: "string \<Rightarrow> string" where
  "trim_space s = trim_right_space (trim_left_space s)"

lemma trim_left_runes_none:
  "\<forall>r \<in> set rs. r = [] \<or> \<not> has_prefix s r \<Longrightarrow> trim_left_runes rs s = s"
  by (subst trim_left_runes.simps) (auto split: option.splits dest: find_SomeD)

text \<open>A byte that neither starts a space rune nor ends one stops the trimming.\<close>

definition plain_byte :: "char \<Rightarrow> bool" where
  "plain_byte c \<longleftrightarrow> (let n = of_char c :: nat in 33 \<le> n \<and> n < 127)"

lemma plain_byte_not_space:
  assumes "plain_byte c" and "r \<in> set space_runes"
  shows "c \<notin> set r"
proof -
  have "\<forall>r \<in> set space_runes. \<forall>x \<in> set r. \<not> plain_byte x"
    by (simp add: space_runes_def bytes_def plain_byte_def Let_def)
  with assms show ?thesis by auto
qed

lemma trim_left_space_plain: "plain_byte c \<Longrightarrow> trim_left_space (c # s) = c # s"
  unfolding trim_left_space_def
proof (rule trim_left_runes_none, intro ballI)
  fix r assume c: "plain_byte c" and r: "r \<in> set space_runes"
  show "r = [] \<or> \<not> has_prefix (c # s) r"
  proof (cases r)
    case (Cons x xs)
    with plain_byte_not_space [OF c r] show ?thesis by (auto simp: has_prefix_def)
  qed simp
qed

lemma trim_right_space_plain: "plain_byte c \<Longrightarrow> trim_right_space (s @ [c]) = s @ [c]"
proof -
  assume c: "plain_byte c"
  have "trim_left_runes (map rev space_runes) (c # rev s) = c # rev s"
  proof (rule trim_left_runes_none, intro ballI)
    fix r assume "r \<in> set (map rev space_runes)"
    then obtain q where q: "q \<in> set space_runes" "r = rev q" by auto
    show "r = [] \<or> \<not> has_prefix (c # rev s) r"
    proof (cases r)
      case (Cons x xs)
      with q have "x \<in> set q" by (metis list.set_intros(1) set_rev)
      with plain_byte_not_space [OF c q(1)] Cons show ?thesis
        by (auto simp: has_prefix_def)
    qed simp
  qed
  then show ?thesis by (simp add: trim_right_space_def)
qed

lemma trim_space_plain_word:
  assumes "s \<noteq> []" and "\<forall>c \<in> set s. plain_byte c"
  shows "trim_space s = s"
proof -
  obtain c cs where s: "s = c # cs" using assms(1) by (cases s) auto
  then have l: "trim_left_space s = s"
    using assms(2) by (simp add: trim_left_space_plain)
  obtain t d where "s = t @ [d]" using assms(1) by (cases s rule: rev_cases) auto
  then show ?thesis
    using assms(2) l by (simp add: trim_space_def trim_right_space_plain)
qed

section \<open>Character classes\<close>

definition is_digit :: "char \<Rightarrow> bool" where
  "is_digit c \<longleftrightarrow> (let n = of_char c :: nat in 48 \<le> n \<and> n \<le> 57)"

definition is_lower :: "char \<Rightarrow> bool" where
  "is_lower c \<longleftrightarrow> (let n = of_char c :: nat in 97 \<le> n \<and> n \<le> 122)"

definition is_upper :: "char \<Rightarrow> bool" where
  "is_upper c \<longleftrightarrow> (let n = of_char c :: nat in 65 \<le> n \<and> n \<le> 90)"

definition is_letter :: "char \<Rightarrow> bool" where
  "is_letter c \<longleftrightarrow> is_lower c \<or> is_upper c"

section \<open>Decimal numbers\<close>

definition dig :: "nat \<Rightarrow> char" where
  "dig n = char_of (48 + n mod 10)"

text \<open>Exactly \<open>w\<close> decimal digits of \<open>n\<close>, most significant first.\<close>

fun digs :: "nat \<Rightarrow> nat \<Rightarrow> string" where
  "digs 0 n = []"
| "digs (Suc w) n = digs w (n div 10) @ [dig n]"

text \<open>\<open>strconv.Itoa\<close>.\<close>

fun nat_str :: "nat \<Rightarrow> string" where
  "nat_str n = (if n < 10 then [dig n] else nat_str (n div 10) @ [dig n])"

declare nat_str.simps [simp del]

definition itoa :: "int \<Rightarrow> string" where
  "itoa i = (if i < 0 then ''-'' @ nat_str (nat (- i)) else nat_str (nat i))"

definition digit_val :: "char \<Rightarrow> nat" where
  "digit_val c = of_char c - 48"

definition digits_val :: "string \<Rightarrow> nat" where
  "digits_val s = foldl (\<lambda>n c. 10 * n + digit_val c) 0 s"

lemma of_char_dig [simp]: "of_char (dig n) = (48 + n mod 10 :: nat)"
  by (simp add: dig_def)

lemma is_digit_dig [simp]: "is_digit (dig n)"
  by (simp add: is_digit_def Let_def)

lemma digit_val_dig [simp]: "digit_val (dig n) = n mod 10"
  by (simp add: digit_val_def)

lemma length_digs [simp]: "length (digs w n) = w"
  by (induction w arbitrary: n) auto

lemma digs_all_digits [simp]: "list_all is_digit (digs w n)"
  by (induction w arbitrary: n) auto

lemma digits_val_snoc [simp]: "digits_val (s @ [c]) = 10 * digits_val s + digit_val c"
  by (simp add: digits_val_def)

lemma digits_val_digs: "digits_val (digs w n) = n mod 10 ^ w"
proof (induction w arbitrary: n)
  case 0
  then show ?case by (simp add: digits_val_def)
next
  case (Suc w)
  have "10 * (n div 10 mod 10 ^ w) + n mod 10 = n mod (10 * 10 ^ w)"
    by (simp add: mod_mult2_eq)
  with Suc show ?case by simp
qed

lemma digits_val_nat_str [simp]: "digits_val (nat_str n) = n"
proof (induction n rule: nat_str.induct)
  case (1 n)
  show ?case
  proof (cases "n < 10")
    case True
    then show ?thesis by (simp add: nat_str.simps [of n] digits_val_def)
  next
    case False
    with "1" show ?thesis by (simp add: nat_str.simps [of n])
  qed
qed

lemma nat_str_inject [simp]: "nat_str m = nat_str n \<longleftrightarrow> m = n"
  by (metis digits_val_nat_str)

lemma nat_str_digits: "list_all is_digit (nat_str n)"
proof (induction n rule: nat_str.induct)
  case (1 n)
  then show ?case by (cases "n < 10") (simp_all add: nat_str.simps [of n])
qed

lemma nat_str_nonempty [simp]: "nat_str n \<noteq> []"
  by (simp add: nat_str.simps [of n])

text \<open>Fixed-width decimals compare like the numbers they stand for.\<close>

lemma append_less_same [simp]: "xs @ u < xs @ v \<longleftrightarrow> u < (v :: 'a::order list)"
  by (induction xs) auto

lemma append_less_prefix:
  "length u = length v \<Longrightarrow> u < v \<Longrightarrow> u @ x < v @ (y :: 'a::order list)"
proof (induction u v rule: list_induct2)
  case (Cons a u b v)
  then show ?case by auto
qed simp

lemma dig_less_iff: "dig m < dig n \<longleftrightarrow> m mod 10 < n mod 10"
  by (simp add: less_char_def)

lemma digs_less:
  assumes "a < b" and "b < 10 ^ w"
  shows "digs w a < digs w b"
  using assms
proof (induction w arbitrary: a b)
  case (Suc w)
  show ?case
  proof (cases "a div 10 < b div 10")
    case True
    have "b div 10 < 10 ^ w" using Suc.prems(2) by auto
    with True Suc.IH show ?thesis
      by (simp add: append_less_prefix)
  next
    case False
    moreover have "a div 10 \<le> b div 10" using Suc.prems(1) by (simp add: div_le_mono)
    ultimately have eq: "a div 10 = b div 10" by simp
    then have "a mod 10 < b mod 10"
      using Suc.prems(1) div_mult_mod_eq [of a 10] div_mult_mod_eq [of b 10] by linarith
    with eq show ?thesis by (simp add: dig_less_iff)
  qed
qed simp

lemma digs_less_append:
  "a < b \<Longrightarrow> b < 10 ^ w \<Longrightarrow> digs w a @ x < digs w b @ y"
  by (rule append_less_prefix) (simp_all add: digs_less)

end
