(* ===== verification/Database.thy ===== *)
theory Database
  imports Prelude GoStrings
begin

text \<open>
  The SQLite database of the hub: the four tables of internal/db/sqlite/migrations with
  their constraints, and the statements of internal/db/sqlite/*.sql.go, each as a function
  from the tables to a driver error or to its result and the tables after it. A table is the
  list of its rows in rowid order. Time columns hold the text \<open>time.RFC3339Nano\<close> gives, and
  \<open>ORDER BY\<close> compares texts byte by byte.
\<close>

section \<open>Rows\<close>

record preview_row =
  row_id :: string
  row_repo :: string
  row_pr :: int
  row_sha :: "string option"
  row_branch :: string
  row_status :: string
  row_agent :: "string option"
  row_container :: "string option"
  row_host :: "string option"
  row_port :: "int option"
  row_labels :: string
  row_error :: "string option"
  row_created :: string
  row_updated :: string
  row_clone_url :: string
  row_urls :: string
  row_adhoc :: int

record event_row =
  ev_id :: string
  ev_preview :: string
  ev_from :: "string option"
  ev_to :: string
  ev_message :: string
  ev_created :: string

record agent_row =
  arow_id :: string
  arow_name :: string
  arow_token_hash :: string
  arow_labels :: string
  arow_status :: string
  arow_last_seen :: "string option"
  arow_created :: string

record secret_row =
  sec_repo :: string
  sec_key :: string
  sec_value :: string
  sec_updated :: string

record tables =
  tb_previews :: "preview_row list"
  tb_events :: "event_row list"
  tb_agents :: "agent_row list"
  tb_secrets :: "secret_row list"

text \<open>
  The errors the hub tells apart: the sentinels of internal/store/errors.go,
  \<open>sql.ErrNoRows\<close>, the constraint violations of the driver, any other driver failure, and a
  row that does not decode.
\<close>

datatype store_err =
    ErrNotFound | ErrDuplicate | ErrStaleState | ErrShaConflict
  | SqlErrNoRows | UniqueViolation | FkViolation | DriverFault | DecodeError

type_synonym 'a stmt = "tables \<Rightarrow> store_err + 'a \<times> tables"

definition query :: "(tables \<Rightarrow> 'a) \<Rightarrow> 'a stmt" where
  "query f = (\<lambda>t. Inr (f t, t))"

definition query_one :: "(tables \<Rightarrow> 'r list) \<Rightarrow> 'r stmt" where
  "query_one f = (\<lambda>t. case f t of [] \<Rightarrow> Inl SqlErrNoRows | r # _ \<Rightarrow> Inr (r, t))"

lemma query_iff [simp]: "query f t = Inr (x, t') \<longleftrightarrow> x = f t \<and> t' = t"
  by (auto simp: query_def)

lemma query_no_error [simp]: "query f t \<noteq> Inl e"
  by (simp add: query_def)

lemma query_one_iff:
  "query_one f t = Inr (r, t') \<longleftrightarrow> (\<exists>rs. f t = r # rs) \<and> t' = t"
  by (auto simp: query_one_def split: list.splits)

lemma query_one_error: "query_one f t = Inl e \<longleftrightarrow> f t = [] \<and> e = SqlErrNoRows"
  by (auto simp: query_one_def split: list.splits)

section \<open>The agents statements\<close>

definition createAgent :: "agent_row \<Rightarrow> unit stmt" where
  "createAgent a = (\<lambda>t.
     if arow_id a \<in> arow_id ` set (tb_agents t) \<or> arow_name a \<in> arow_name ` set (tb_agents t)
     then Inl UniqueViolation
     else Inr ((), t\<lparr>tb_agents := tb_agents t @ [a]\<rparr>))"

definition getAgentByName :: "string \<Rightarrow> agent_row stmt" where
  "getAgentByName nm = query_one (\<lambda>t. filter (\<lambda>a. arow_name a = nm) (tb_agents t))"

definition getAgentByID :: "string \<Rightarrow> agent_row stmt" where
  "getAgentByID i = query_one (\<lambda>t. filter (\<lambda>a. arow_id a = i) (tb_agents t))"

definition listAgents :: "agent_row list stmt" where
  "listAgents = query (\<lambda>t. order_desc arow_created (tb_agents t))"

text \<open>Statements run with \<open>Exec\<close> give the number of rows they affect.\<close>

definition updateAgentStatus :: "string \<Rightarrow> string option \<Rightarrow> string \<Rightarrow> nat stmt" where
  "updateAgentStatus st seen i = (\<lambda>t.
     Inr (length (filter (\<lambda>a. arow_id a = i) (tb_agents t)),
          t\<lparr>tb_agents := update_where (\<lambda>a. arow_id a = i)
              (\<lambda>a. a\<lparr>arow_status := st, arow_last_seen := seen\<rparr>) (tb_agents t)\<rparr>))"

text \<open>\<open>previews.assigned_agent_id REFERENCES agents(id) ON DELETE SET NULL\<close>.\<close>

definition deleteAgent :: "string \<Rightarrow> nat stmt" where
  "deleteAgent i = (\<lambda>t.
     Inr (length (filter (\<lambda>a. arow_id a = i) (tb_agents t)),
          t\<lparr>tb_agents := filter (\<lambda>a. arow_id a \<noteq> i) (tb_agents t),
            tb_previews := update_where (\<lambda>r. row_agent r = Some i)
              (\<lambda>r. r\<lparr>row_agent := None\<rparr>) (tb_previews t)\<rparr>))"

definition resetAllOnlineAgents :: "string \<Rightarrow> nat stmt" where
  "resetAllOnlineAgents now = (\<lambda>t.
     Inr (length (filter (\<lambda>a. arow_status a = ''online'') (tb_agents t)),
          t\<lparr>tb_agents := update_where (\<lambda>a. arow_status a = ''online'')
              (\<lambda>a. a\<lparr>arow_status := ''offline'', arow_last_seen := Some now\<rparr>) (tb_agents t)\<rparr>))"

section \<open>The previews statements\<close>

definition getPreviewByID :: "string \<Rightarrow> preview_row stmt" where
  "getPreviewByID i = query_one (\<lambda>t. filter (\<lambda>r. row_id r = i) (tb_previews t))"

definition getPreviewByRepoAndSha :: "string \<Rightarrow> string option \<Rightarrow> preview_row stmt" where
  "getPreviewByRepoAndSha repo sha = query_one (\<lambda>t.
     filter (\<lambda>r. row_repo r = repo \<and> sha \<noteq> None \<and> row_sha r = sha) (tb_previews t))"

definition active_statuses :: "string list" where
  "active_statuses = [''queued'', ''assigned'', ''building'', ''running'']"

definition getActivePreviewByRepoAndPR :: "string \<Rightarrow> int \<Rightarrow> preview_row stmt" where
  "getActivePreviewByRepoAndPR repo pr = query_one (\<lambda>t. order_desc row_created
     (filter (\<lambda>r. row_repo r = repo \<and> row_pr r = pr \<and> row_status r \<in> set active_statuses)
        (tb_previews t)))"

definition getAdhocPreviewByBranch :: "string \<Rightarrow> string \<Rightarrow> preview_row stmt" where
  "getAdhocPreviewByBranch repo branch = query_one (\<lambda>t. order_desc row_created
     (filter (\<lambda>r. row_repo r = repo \<and> row_branch r = branch \<and> row_adhoc r = 1)
        (tb_previews t)))"

definition findPreviewByHost :: "int \<Rightarrow> preview_row stmt" where
  "findPreviewByHost pr = query_one (\<lambda>t. order_desc row_created
     (filter (\<lambda>r. row_pr r = pr) (tb_previews t)))"

definition listAllPreviews :: "preview_row list stmt" where
  "listAllPreviews = query (\<lambda>t. order_desc row_created (tb_previews t))"

definition listQueuedPreviewsForLabels :: "preview_row list stmt" where
  "listQueuedPreviewsForLabels = query (\<lambda>t.
     take 50 (order_asc row_created (filter (\<lambda>r. row_status r = ''queued'') (tb_previews t))))"

definition listRunningPreviewsByAgent :: "string \<Rightarrow> preview_row list stmt" where
  "listRunningPreviewsByAgent ag = query (\<lambda>t. order_asc row_updated
     (filter (\<lambda>r. row_status r = ''running'' \<and> row_agent r = Some ag) (tb_previews t)))"

definition listStaleAssignedPreviews :: "string \<Rightarrow> preview_row list stmt" where
  "listStaleAssignedPreviews cutoff = query (\<lambda>t. order_asc row_updated
     (filter (\<lambda>r. row_status r = ''assigned'' \<and> row_updated r < cutoff) (tb_previews t)))"

definition listByAgent :: "string \<Rightarrow> string list \<Rightarrow> preview_row list stmt" where
  "listByAgent ag sts = query (\<lambda>t. order_asc row_updated
     (filter (\<lambda>r. row_agent r = Some ag \<and> row_status r \<in> set sts) (tb_previews t)))"

definition listPreviewRepos :: "string list stmt" where
  "listPreviewRepos = query (\<lambda>t. sort (remdups (map row_repo (tb_previews t))))"

text \<open>
  \<open>INSERT INTO previews ... ON CONFLICT(repo_full_name, commit_sha) DO UPDATE\<close>. A NULL sha
  conflicts with nothing. The conflict target is checked before the primary key; without a
  conflict there, a clash of ids is a constraint violation.
\<close>

definition same_sha_key :: "preview_row \<Rightarrow> preview_row \<Rightarrow> bool" where
  "same_sha_key p r \<longleftrightarrow> row_repo r = row_repo p \<and> row_sha p \<noteq> None \<and> row_sha r = row_sha p"

definition overwrite_row :: "preview_row \<Rightarrow> preview_row \<Rightarrow> preview_row" where
  "overwrite_row p r = r\<lparr>row_pr := row_pr p, row_branch := row_branch p,
     row_labels := row_labels p, row_clone_url := row_clone_url p, row_updated := row_updated p\<rparr>"

definition upsertPreview :: "preview_row \<Rightarrow> unit stmt" where
  "upsertPreview p = (\<lambda>t.
     if \<exists>r \<in> set (tb_previews t). same_sha_key p r
     then Inr ((), t\<lparr>tb_previews := update_where (same_sha_key p) (overwrite_row p) (tb_previews t)\<rparr>)
     else if row_id p \<in> row_id ` set (tb_previews t) then Inl UniqueViolation
     else Inr ((), t\<lparr>tb_previews := tb_previews t @ [p]\<rparr>))"

definition insertPreviewEvent :: "event_row \<Rightarrow> unit stmt" where
  "insertPreviewEvent e = (\<lambda>t.
     if ev_id e \<in> ev_id ` set (tb_events t) then Inl UniqueViolation
     else if ev_preview e \<notin> row_id ` set (tb_previews t) then Inl FkViolation
     else Inr ((), t\<lparr>tb_events := tb_events t @ [e]\<rparr>))"

text \<open>\<open>COALESCE(new, old)\<close>.\<close>

definition coalesce :: "'a option \<Rightarrow> 'a option \<Rightarrow> 'a option" where
  "coalesce a b = (case a of None \<Rightarrow> b | Some _ \<Rightarrow> a)"

lemma coalesce_simps [simp]: "coalesce None b = b" "coalesce (Some x) b = Some x"
  "coalesce a None = a"
  by (auto simp: coalesce_def split: option.splits)

record status_fields =
  u_status :: string
  u_updated :: string
  u_container :: "string option"
  u_host :: "string option"
  u_port :: "int option"
  u_urls :: string
  u_error :: "string option"
  u_agent :: "string option"
  u_sha :: "string option"

text \<open>\<open>preview_urls\<close> is bound to a plain string, so its COALESCE always takes the new value.\<close>

definition write_fields :: "status_fields \<Rightarrow> preview_row \<Rightarrow> preview_row" where
  "write_fields u r = r\<lparr>row_status := u_status u, row_updated := u_updated u,
     row_container := coalesce (u_container u) (row_container r),
     row_host := coalesce (u_host u) (row_host r),
     row_port := coalesce (u_port u) (row_port r),
     row_urls := u_urls u,
     row_error := coalesce (u_error u) (row_error r),
     row_agent := coalesce (u_agent u) (row_agent r),
     row_sha := coalesce (row_sha r) (u_sha u)\<rparr>"

definition sha_taken :: "preview_row \<Rightarrow> preview_row list \<Rightarrow> bool" where
  "sha_taken r rows \<longleftrightarrow> (\<exists>q \<in> set rows. row_id q \<noteq> row_id r \<and> same_sha_key r q)"

definition updatePreviewStatusFields :: "status_fields \<Rightarrow> string \<Rightarrow> nat stmt" where
  "updatePreviewStatusFields u i = (\<lambda>t.
     let hit = filter (\<lambda>r. row_id r = i) (tb_previews t) in
     if hit \<noteq> [] \<and> u_agent u \<noteq> None \<and> the (u_agent u) \<notin> arow_id ` set (tb_agents t)
     then Inl FkViolation
     else if \<exists>r \<in> set hit. sha_taken (write_fields u r) (tb_previews t)
     then Inl UniqueViolation
     else Inr (length hit, t\<lparr>tb_previews :=
            update_where (\<lambda>r. row_id r = i) (write_fields u) (tb_previews t)\<rparr>))"

definition claim_row :: "string \<Rightarrow> string \<Rightarrow> preview_row \<Rightarrow> preview_row" where
  "claim_row ag now r =
     r\<lparr>row_status := ''assigned'', row_agent := Some ag, row_updated := now\<rparr>"

definition claim_candidates :: "string list \<Rightarrow> tables \<Rightarrow> preview_row list" where
  "claim_candidates ids t = order_asc row_created
     (filter (\<lambda>r. row_status r = ''queued'' \<and> row_id r \<in> set ids) (tb_previews t))"

definition claimPreview :: "string \<Rightarrow> string \<Rightarrow> string list \<Rightarrow> preview_row stmt" where
  "claimPreview ag now ids = (\<lambda>t.
     case claim_candidates ids t of
       [] \<Rightarrow> Inl SqlErrNoRows
     | r # _ \<Rightarrow>
         if ag \<notin> arow_id ` set (tb_agents t) then Inl FkViolation
         else Inr (claim_row ag now r, t\<lparr>tb_previews :=
                update_where (\<lambda>q. row_id q = row_id r) (claim_row ag now) (tb_previews t)\<rparr>))"

definition assignedPreviewIDs :: "string list stmt" where
  "assignedPreviewIDs = query (\<lambda>t.
     map row_id (filter (\<lambda>r. row_status r = ''assigned'') (tb_previews t)))"

definition resetAllAssignedPreviews :: "string \<Rightarrow> nat stmt" where
  "resetAllAssignedPreviews now = (\<lambda>t.
     Inr (length (filter (\<lambda>r. row_status r = ''assigned'') (tb_previews t)),
          t\<lparr>tb_previews := update_where (\<lambda>r. row_status r = ''assigned'')
             (\<lambda>r. r\<lparr>row_status := ''queued'', row_agent := None, row_updated := now\<rparr>)
             (tb_previews t)\<rparr>))"

definition events_of :: "tables \<Rightarrow> string \<Rightarrow> event_row list" where
  "events_of t i = filter (\<lambda>e. ev_preview e = i) (tb_events t)"

text \<open>\<open>ORDER BY created_at ASC, id ASC LIMIT ? OFFSET ?\<close>.\<close>

definition listPreviewEvents :: "string \<Rightarrow> nat \<Rightarrow> nat \<Rightarrow> event_row list stmt" where
  "listPreviewEvents i lim off = query (\<lambda>t.
     take lim (drop off (order_asc ev_created (order_asc ev_id (events_of t i)))))"

section \<open>The repo_secrets statements\<close>

definition secret_key_is :: "string \<Rightarrow> string \<Rightarrow> secret_row \<Rightarrow> bool" where
  "secret_key_is repo k x \<longleftrightarrow> sec_repo x = repo \<and> sec_key x = k"

definition listRepoSecrets :: "string \<Rightarrow> secret_row list stmt" where
  "listRepoSecrets repo = query (\<lambda>t.
     order_asc sec_key (filter (\<lambda>x. sec_repo x = repo) (tb_secrets t)))"

definition listRepoSecretRepos :: "string list stmt" where
  "listRepoSecretRepos = query (\<lambda>t. sort (remdups (map sec_repo (tb_secrets t))))"

definition upsertRepoSecret :: "secret_row \<Rightarrow> unit stmt" where
  "upsertRepoSecret x = (\<lambda>t.
     Inr ((), t\<lparr>tb_secrets :=
       (if \<exists>y \<in> set (tb_secrets t). secret_key_is (sec_repo x) (sec_key x) y
        then update_where (secret_key_is (sec_repo x) (sec_key x))
          (\<lambda>y. y\<lparr>sec_value := sec_value x, sec_updated := sec_updated x\<rparr>) (tb_secrets t)
        else tb_secrets t @ [x])\<rparr>))"

definition deleteRepoSecret :: "string \<Rightarrow> string \<Rightarrow> unit stmt" where
  "deleteRepoSecret repo k = (\<lambda>t.
     Inr ((), t\<lparr>tb_secrets := filter (\<lambda>x. \<not> secret_key_is repo k x) (tb_secrets t)\<rparr>))"

definition deleteAllRepoSecretsFor :: "string \<Rightarrow> unit stmt" where
  "deleteAllRepoSecretsFor repo = (\<lambda>t.
     Inr ((), t\<lparr>tb_secrets := filter (\<lambda>x. sec_repo x \<noteq> repo) (tb_secrets t)\<rparr>))"

end
