(* ===== verification/Protocol.thy ===== *)
theory Protocol
  imports Prelude
begin

text \<open>
  The wire format between hub and agent (internal/protocol/messages.go). An envelope pairs a
  type name with the JSON of the payload struct; here it is a datatype with one constructor
  per message type, carrying the payload record. An \<open>omitempty\<close> pointer is an option.
\<close>

definition ProtoVersion :: string where "ProtoVersion = ''v1''"

record HelloData =
  hello_version :: string
  hello_host :: string
  hello_running :: "string list option"  \<comment> \<open>None: the key \<open>running_previews\<close> is absent\<close>

record WelcomeData =
  welcome_version :: string
  welcome_agent :: string

record JobAssignData =
  ja_preview :: string
  ja_repo :: string
  ja_url :: string
  ja_sha :: string
  ja_branch :: string
  ja_labels :: "string list"
  ja_env :: "(string \<times> string) list"

record StatusUpdateData =
  su_preview :: string
  su_status :: string
  su_message :: string
  su_container :: "string option"
  su_host :: "string option"
  su_port :: "int option"
  su_error :: "string option"
  su_urls :: "(string \<times> string) list"
  su_sha :: "string option"

datatype envelope =
    Hello HelloData
  | Welcome WelcomeData
  | Ping int
  | Pong int
  | Ready string int
  | JobAssign JobAssignData
  | StatusUpdate StatusUpdateData
  | LogLine string string string int
  | JobTeardown string
  | UnknownType string

text \<open>The \<open>type\<close> field of an envelope.\<close>

fun type_name :: "envelope \<Rightarrow> string" where
  "type_name (Hello _) = ''HELLO''"
| "type_name (Welcome _) = ''WELCOME''"
| "type_name (Ping _) = ''PING''"
| "type_name (Pong _) = ''PONG''"
| "type_name (Ready _ _) = ''READY''"
| "type_name (JobAssign _) = ''JOB_ASSIGN''"
| "type_name (StatusUpdate _) = ''STATUS_UPDATE''"
| "type_name (LogLine _ _ _ _) = ''LOG''"
| "type_name (JobTeardown _) = ''JOB_TEARDOWN''"
| "type_name (UnknownType t) = t"

text \<open>\<open>hasRunningPreviewsKey\<close> of internal/hub/ws_handler.go.\<close>

definition hasRunningPreviewsKey :: "HelloData \<Rightarrow> bool" where
  "hasRunningPreviewsKey h \<longleftrightarrow> hello_running h \<noteq> None"

end
