(* ===== verification/GoTime.thy ===== *)
theory GoTime
  imports GoStrings
begin

text \<open>
  The part of Go's \<open>time\<close> package behind the TEXT columns of the database: an instant in UTC
  is a number of nanoseconds since the start of year 0, \<open>iso8601\<close> is
  \<open>t.UTC().Format(time.RFC3339Nano)\<close> (the constant of that name in
  internal/db/sqlite/agent_store.go), and \<open>parse_time\<close> is \<open>time.Parse\<close> on that layout.
  Instants before year 0 and zone offsets other than \<open>Z\<close> are left out: every writer formats
  a clock reading after \<open>UTC()\<close>.

  RFC3339Nano drops the trailing zeros of the fraction, so comparing two columns as text
  orders them by second but not always within a second; both facts are proved below.
\<close>

type_synonym time = nat

section \<open>Civil dates\<close>

definition leap :: "nat \<Rightarrow> bool" where
  "leap y \<longleftrightarrow> y mod 4 = 0 \<and> (y mod 100 \<noteq> 0 \<or> y mod 400 = 0)"

text \<open>Days before the first of January of year \<open>y\<close>.\<close>

definition days_before_year :: "nat \<Rightarrow> nat" where
  "days_before_year y = 365 * y + (y + 3) div 4 + (y + 399) div 400 - (y + 99) div 100"

lemma hundreds_le_fours: "(y + 99) div 100 \<le> (y + 3) div (4 :: nat)"
proof -
  have "100 * ((y + 99) div 100) \<le> y + 99" by simp
  then have "(y + 99) div 100 * 4 \<le> y + 3"
    by (cases "(y + 99) div 100") auto
  then show ?thesis by (simp add: less_eq_div_iff_mult_less_eq)
qed

lemma days_before_year_Suc:
  "days_before_year (Suc y) = days_before_year y + (if leap y then 366 else 365)"
proof -
  have four: "(Suc y + 3) div 4 = (y + 3) div 4 + (if y mod 4 = 0 then 1 else 0)" by presburger
  have "Suc (y + 99) mod 100 = y mod 100" and "Suc (y + 399) mod 400 = y mod 400"
    using mod_add_self2 [of y 100] mod_add_self2 [of y 400] by (simp_all add: add.commute)
  then have hund: "(Suc y + 99) div 100 = (y + 99) div 100 + (if y mod 100 = 0 then 1 else 0)"
    and fh: "(Suc y + 399) div 400 = (y + 399) div 400 + (if y mod 400 = 0 then 1 else 0)"
    using div_Suc [of "y + 99" 100] div_Suc [of "y + 399" 400] by auto
  have c: "y mod 100 = 0 \<Longrightarrow> y mod 4 = 0" and d: "y mod 400 = 0 \<Longrightarrow> y mod 100 = 0"
    using mod_mod_cancel [of 4 100 y] mod_mod_cancel [of 100 400 y] by auto
  have sum: "h \<le> f \<Longrightarrow> b \<le> a \<Longrightarrow>
      365 * Suc y + (f + a) + (q + e) - (h + b) = (365 * y + f + q - h) + (365 + a + e - b)"
    for f h q a b e :: nat by simp
  have "(365 :: nat) + (if y mod 4 = 0 then 1 else 0) + (if y mod 400 = 0 then 1 else 0)
      - (if y mod 100 = 0 then 1 else 0) = (if leap y then 366 else 365)"
    using c d by (simp add: leap_def)
  moreover have "(if y mod 100 = 0 then 1 else 0) \<le> (if y mod 4 = 0 then 1 else (0 :: nat))"
    using c by simp
  ultimately show ?thesis
    unfolding days_before_year_def four hund fh
    using sum [OF hundreds_le_fours] by presburger
qed

lemma days_before_year_mono: "y \<le> z \<Longrightarrow> days_before_year y \<le> days_before_year z"
proof (induction z)
  case (Suc z)
  then show ?case by (cases "y = Suc z") (auto simp: days_before_year_Suc)
qed simp

lemma days_before_year_ge: "365 * y \<le> days_before_year y"
  by (induction y) (auto simp: days_before_year_Suc days_before_year_def)

lemma days_before_year_le: "days_before_year y \<le> 366 * y"
  by (induction y) (auto simp: days_before_year_Suc days_before_year_def)

function year_from :: "nat \<Rightarrow> nat \<Rightarrow> nat" where
  "year_from y day = (if days_before_year (Suc y) \<le> day then year_from (Suc y) day else y)"
  by pat_completeness auto
termination
proof (relation "measure (\<lambda>(y, day). day - y)", goal_cases)
  case (2 y day)
  have "365 * Suc y \<le> days_before_year (Suc y)" by (rule days_before_year_ge)
  with 2 show ?case by auto
qed simp

declare year_from.simps [simp del]

definition year_of :: "nat \<Rightarrow> nat" where
  "year_of day = year_from (day div 366) day"

lemma year_from_bounds:
  "days_before_year y \<le> day \<Longrightarrow>
     days_before_year (year_from y day) \<le> day \<and> day < days_before_year (Suc (year_from y day))"
proof (induction y day rule: year_from.induct)
  case (1 y day)
  then show ?case
    by (cases "days_before_year (Suc y) \<le> day") (simp_all add: year_from.simps [of y day])
qed

lemma year_of_bounds:
  "days_before_year (year_of day) \<le> day" "day < days_before_year (Suc (year_of day))"
proof -
  have "366 * (day div 366) \<le> day" by simp
  then have "days_before_year (day div 366) \<le> day"
    using days_before_year_le le_trans by blast
  from year_from_bounds [OF this]
  show "days_before_year (year_of day) \<le> day" "day < days_before_year (Suc (year_of day))"
    by (simp_all add: year_of_def)
qed

lemma year_of_unique:
  assumes "days_before_year y \<le> day" and "day < days_before_year (Suc y)"
  shows "year_of day = y"
proof (rule ccontr)
  assume "year_of day \<noteq> y"
  then consider "Suc (year_of day) \<le> y" | "Suc y \<le> year_of day" by linarith
  then show False
  proof cases
    case 1
    then show False
      using days_before_year_mono [OF 1] year_of_bounds(2) [of day] assms(1) by linarith
  next
    case 2
    then show False
      using days_before_year_mono [OF 2] year_of_bounds(1) [of day] assms(2) by linarith
  qed
qed

lemma year_of_mono: "a \<le> b \<Longrightarrow> year_of a \<le> year_of b"
proof (rule ccontr)
  assume ab: "a \<le> b" and "\<not> year_of a \<le> year_of b"
  then have "Suc (year_of b) \<le> year_of a" by simp
  from days_before_year_mono [OF this] show False
    using year_of_bounds(2) [of b] year_of_bounds(1) [of a] ab by linarith
qed

definition month_lengths :: "nat \<Rightarrow> nat list" where
  "month_lengths y = [31, if leap y then 29 else 28, 31, 30, 31, 30, 31, 31, 30, 31, 30, 31]"

text \<open>Month (counted from \<open>m\<close>) and day (from 0) of the \<open>d\<close>-th day of the listed months.\<close>

fun split_month :: "nat \<Rightarrow> nat \<Rightarrow> nat list \<Rightarrow> nat \<times> nat" where
  "split_month m d [] = (m, d)"
| "split_month m d (l # ls) = (if d < l then (m, d) else split_month (Suc m) (d - l) ls)"

fun date_of :: "nat \<Rightarrow> nat \<times> nat \<times> nat" where
  "date_of day =
     (let y = year_of day;
          (m, d) = split_month 1 (day - days_before_year y) (month_lengths y)
      in (y, m, Suc d))"

declare date_of.simps [simp del]

definition day_number :: "nat \<Rightarrow> nat \<Rightarrow> nat \<Rightarrow> nat" where
  "day_number y m d = days_before_year y + sum_list (take (m - 1) (month_lengths y)) + (d - 1)"

lemma split_month_ge: "split_month m d ls = (m', d') \<Longrightarrow> m \<le> m'"
  by (induction m d ls rule: split_month.induct) (auto split: if_splits)

lemma split_month_less:
  assumes "d1 < d2" and "split_month m d1 ls = (m1, r1)" and "split_month m d2 ls = (m2, r2)"
  shows "m1 < m2 \<or> m1 = m2 \<and> r1 < r2"
  using assms
proof (induction m d1 ls arbitrary: d2 rule: split_month.induct)
  case (2 m d1 l ls)
  consider "d2 < l" | "l \<le> d1" | "d1 < l" "l \<le> d2" by linarith
  then show ?case
  proof cases
    case 2
    with "2.prems" have "split_month (Suc m) (d1 - l) ls = (m1, r1)"
      and "split_month (Suc m) (d2 - l) ls = (m2, r2)" and "d1 - l < d2 - l"
      by auto
    with "2.IH" 2 show ?thesis by auto
  next
    case 3
    with "2.prems" have "m1 = m" and "Suc m \<le> m2"
      by (auto dest: split_month_ge)
    then show ?thesis by simp
  qed (use "2.prems" in auto)
qed auto

lemma split_month_inverse:
  assumes "split_month m d ls = (m', d')" and "d < sum_list ls"
  shows "m' < m + length ls \<and> d' < ls ! (m' - m) \<and> sum_list (take (m' - m) ls) + d' = d"
  using assms
proof (induction m d ls rule: split_month.induct)
  case (2 m d l ls)
  show ?case
  proof (cases "d < l")
    case False
    with 2 have h: "m' < Suc m + length ls" "d' < ls ! (m' - Suc m)"
      "sum_list (take (m' - Suc m) ls) + d' = d - l" by auto
    moreover have "Suc m \<le> m'" using 2 False by (auto dest: split_month_ge)
    then obtain k where "m' = Suc (m + k)" by (metis add_Suc le_Suc_ex)
    ultimately show ?thesis using False by auto
  qed (use 2 in auto)
qed simp

lemma sum_month_lengths: "sum_list (month_lengths y) = (if leap y then 366 else 365)"
  by (simp add: month_lengths_def)

lemma date_of_inverse:
  assumes "date_of day = (y, m, d)"
  shows "y = year_of day" "1 \<le> m" "m \<le> 12" "1 \<le> d" "d \<le> month_lengths y ! (m - 1)"
    "day_number y m d = day"
proof -
  obtain d' where sp: "split_month 1 (day - days_before_year (year_of day)) (month_lengths (year_of day))
      = (m, d')" and y: "y = year_of day" and d: "d = Suc d'"
    using assms by (auto simp: date_of.simps Let_def split: prod.splits)
  have "day - days_before_year y < sum_list (month_lengths y)"
    using year_of_bounds [of day] y by (auto simp: days_before_year_Suc sum_month_lengths split: if_splits)
  with split_month_inverse [OF sp] split_month_ge [OF sp] year_of_bounds(1) [of day] y d
  show "y = year_of day" "1 \<le> m" "m \<le> 12" "1 \<le> d" "d \<le> month_lengths y ! (m - 1)"
    "day_number y m d = day"
    by (auto simp: day_number_def month_lengths_def)
qed

lemma month_length_le: "m < 12 \<Longrightarrow> month_lengths y ! m \<le> 31"
proof -
  assume "m < 12"
  moreover have "list_all (\<lambda>l. l \<le> 31) (month_lengths y)"
    by (simp add: month_lengths_def)
  moreover have "length (month_lengths y) = 12" by (simp add: month_lengths_def)
  ultimately show ?thesis by (simp add: list_all_length)
qed

lemma date_of_less:
  assumes "a < b" and "date_of a = (y1, m1, d1)" and "date_of b = (y2, m2, d2)"
  shows "y1 < y2 \<or> y1 = y2 \<and> (m1 < m2 \<or> m1 = m2 \<and> d1 < d2)"
proof -
  have y: "y1 = year_of a" "y2 = year_of b"
    using assms date_of_inverse(1) by auto
  show ?thesis
  proof (cases "y1 = y2")
    case False
    with y year_of_mono [of a b] assms(1) show ?thesis by auto
  next
    case True
    have "a - days_before_year y1 < b - days_before_year y1"
      using assms(1) y year_of_bounds(1) [of a] by (simp add: diff_less_mono)
    with True y assms(2,3) show ?thesis
      by (auto simp: date_of.simps Let_def split: prod.splits dest: split_month_less)
  qed
qed

section \<open>RFC 3339 text\<close>

definition year_str :: "nat \<Rightarrow> string" where
  "year_str y = (if y < 10000 then digs 4 y else nat_str y)"

definition trim_zeros :: "string \<Rightarrow> string" where
  "trim_zeros s = rev (dropWhile (\<lambda>c. c = CHR ''0'') (rev s))"

definition frac_str :: "nat \<Rightarrow> string" where
  "frac_str ns = (if ns = 0 then '''' else CHR ''.'' # trim_zeros (digs 9 ns))"

definition date_str :: "nat \<Rightarrow> string" where
  "date_str day = (case date_of day of (y, m, d) \<Rightarrow>
     year_str y @ ''-'' @ digs 2 m @ ''-'' @ digs 2 d)"

definition clock_str :: "nat \<Rightarrow> string" where
  "clock_str sod =
     digs 2 (sod div 3600) @ '':'' @ digs 2 (sod div 60 mod 60) @ '':'' @ digs 2 (sod mod 60)"

definition nanos_per_sec :: nat where
  "nanos_per_sec = 10 ^ 9"

definition seconds :: "time \<Rightarrow> nat" where
  "seconds t = t div nanos_per_sec"

text \<open>\<open>t.UTC().Format(time.RFC3339Nano)\<close>\<close>

definition iso8601 :: "time \<Rightarrow> string" where
  "iso8601 t = date_str (seconds t div 86400) @ ''T'' @ clock_str (seconds t mod 86400)
     @ frac_str (t mod nanos_per_sec) @ ''Z''"

text \<open>\<open>t.UTC().Format(time.RFC3339)\<close>, as the admin pages print times.\<close>

definition rfc3339 :: "time \<Rightarrow> string" where
  "rfc3339 t = date_str (seconds t div 86400) @ ''T'' @ clock_str (seconds t mod 86400) @ ''Z''"

section \<open>Parsing\<close>

definition parse_digits :: "nat \<Rightarrow> string \<Rightarrow> (nat \<times> string) option" where
  "parse_digits w s =
     (if w \<le> length s \<and> list_all is_digit (take w s)
      then Some (digits_val (take w s), drop w s) else None)"

fun parse_char :: "char \<Rightarrow> string \<Rightarrow> string option" where
  "parse_char c [] = None"
| "parse_char c (x # xs) = (if x = c then Some xs else None)"

text \<open>The fraction: at most nine digits count, the rest is cut off.\<close>

definition parse_frac :: "string \<Rightarrow> nat \<times> string" where
  "parse_frac s =
     (case s of
        c # d # _ \<Rightarrow>
          if c = CHR ''.'' \<and> is_digit d
          then (let ds = takeWhile is_digit (tl s); k = take 9 ds
                in (digits_val k * 10 ^ (9 - length k), dropWhile is_digit (tl s)))
          else (0, s)
      | _ \<Rightarrow> (0, s))"

definition parse_date :: "string \<Rightarrow> (nat \<times> string) option" where
  "parse_date s =
     Option.bind (parse_digits 4 s) (\<lambda>(y, s). Option.bind (parse_char CHR ''-'' s) (\<lambda>s.
     Option.bind (parse_digits 2 s) (\<lambda>(m, s). Option.bind (parse_char CHR ''-'' s) (\<lambda>s.
     Option.bind (parse_digits 2 s) (\<lambda>(d, s).
       if 1 \<le> m \<and> m \<le> 12 \<and> 1 \<le> d \<and> d \<le> month_lengths y ! (m - 1)
       then Some (day_number y m d, s) else None)))))"

definition parse_clock :: "string \<Rightarrow> (nat \<times> string) option" where
  "parse_clock s =
     Option.bind (parse_digits 2 s) (\<lambda>(h, s). Option.bind (parse_char CHR '':'' s) (\<lambda>s.
     Option.bind (parse_digits 2 s) (\<lambda>(mi, s). Option.bind (parse_char CHR '':'' s) (\<lambda>s.
     Option.bind (parse_digits 2 s) (\<lambda>(sec, s).
       if h \<le> 23 \<and> mi \<le> 59 \<and> sec \<le> 59
       then Some (h * 3600 + mi * 60 + sec, s) else None)))))"

text \<open>\<open>time.Parse(time.RFC3339Nano, s)\<close>, on texts in UTC.\<close>

definition parse_time :: "string \<Rightarrow> time option" where
  "parse_time s =
     Option.bind (parse_date s) (\<lambda>(day, s). Option.bind (parse_char CHR ''T'' s) (\<lambda>s.
     Option.bind (parse_clock s) (\<lambda>(sod, s).
       case parse_frac s of (ns, rest) \<Rightarrow>
         if rest = ''Z'' then Some ((day * 86400 + sod) * nanos_per_sec + ns) else None)))"

lemma parse_digits_digs:
  "n < 10 ^ w \<Longrightarrow> parse_digits w (digs w n @ r) = Some (n, r)"
  by (simp add: parse_digits_def digits_val_digs)

lemma trim_zeros_digits: "list_all is_digit s \<Longrightarrow> list_all is_digit (trim_zeros s)"
  unfolding trim_zeros_def list_all_iff by (auto dest: set_dropWhileD)

lemma digits_val_zeros: "digits_val (s @ replicate k CHR ''0'') = digits_val s * 10 ^ k"
proof (induction k)
  case (Suc k)
  have "digits_val (s @ replicate (Suc k) CHR ''0'')
      = digits_val ((s @ replicate k CHR ''0'') @ [CHR ''0''])"
    by (metis append_assoc replicate_append_same replicate_Suc)
  also have "\<dots> = 10 * digits_val (s @ replicate k CHR ''0'')"
    by (simp only: digits_val_snoc) (simp add: digit_val_def)
  finally show ?case using Suc by simp
qed simp

lemma trim_zeros_pad: "\<exists>k. s = trim_zeros s @ replicate k CHR ''0''"
proof -
  have "takeWhile (\<lambda>c. c = CHR ''0'') (rev s) =
      replicate (length (takeWhile (\<lambda>c. c = CHR ''0'') (rev s))) CHR ''0''"
    by (intro replicate_eqI) (auto dest: set_takeWhileD)
  moreover have "s = rev (dropWhile (\<lambda>c. c = CHR ''0'') (rev s))
      @ rev (takeWhile (\<lambda>c. c = CHR ''0'') (rev s))"
    by (metis rev_append rev_rev_ident takeWhile_dropWhile_id)
  ultimately show ?thesis
    unfolding trim_zeros_def by (metis rev_replicate)
qed

lemma trim_zeros_value:
  assumes "length s = 9"
  shows "length (trim_zeros s) \<le> 9"
    and "digits_val (trim_zeros s) * 10 ^ (9 - length (trim_zeros s)) = digits_val s"
proof -
  obtain k where k: "s = trim_zeros s @ replicate k CHR ''0''"
    using trim_zeros_pad by blast
  then have len: "9 = length (trim_zeros s) + k"
    using assms by (metis length_append length_replicate)
  then show "length (trim_zeros s) \<le> 9" by simp
  have "digits_val s = digits_val (trim_zeros s) * 10 ^ k"
    by (subst k) (rule digits_val_zeros)
  moreover have "9 - length (trim_zeros s) = k" using len by simp
  ultimately show "digits_val (trim_zeros s) * 10 ^ (9 - length (trim_zeros s)) = digits_val s"
    by simp
qed

lemma parse_frac_frac_str:
  assumes "ns < nanos_per_sec"
  shows "parse_frac (frac_str ns @ ''Z'') = (ns, ''Z'')"
proof (cases "ns = 0")
  case True
  then show ?thesis by (simp add: frac_str_def parse_frac_def)
next
  case False
  define ds where "ds = trim_zeros (digs 9 ns)"
  have v: "digits_val ds * 10 ^ (9 - length ds) = ns" and len: "length ds \<le> 9"
    using trim_zeros_value [of "digs 9 ns"] assms
    by (simp_all add: ds_def digits_val_digs nanos_per_sec_def)
  have dd: "\<forall>c \<in> set ds. is_digit c"
    using trim_zeros_digits [OF digs_all_digits, of 9 ns] by (simp add: ds_def list_all_iff)
  have "ds \<noteq> []" using v False by (auto simp: digits_val_def)
  then obtain c cs where c: "ds = c # cs" by (cases ds) auto
  have nz: "\<not> is_digit (CHR ''Z'')" by (simp add: is_digit_def)
  have tw: "takeWhile is_digit (ds @ ''Z'') = ds" "dropWhile is_digit (ds @ ''Z'') = ''Z''"
    using dd nz by (simp_all add: takeWhile_append2 dropWhile_append2)
  have "frac_str ns @ ''Z'' = CHR ''.'' # ds @ ''Z''"
    using False by (simp add: frac_str_def ds_def)
  moreover have "parse_frac (CHR ''.'' # ds @ ''Z'') = (ns, ''Z'')"
    using tw v len dd c by (simp add: parse_frac_def Let_def)
  ultimately show ?thesis by simp
qed

text \<open>Instants whose year has four digits.\<close>

definition representable :: "time \<Rightarrow> bool" where
  "representable t \<longleftrightarrow> seconds t div 86400 < days_before_year 10000"

lemma year_of_representable:
  "day < days_before_year 10000 \<Longrightarrow> year_of day < 10000"
  using year_of_bounds(1) [of day] days_before_year_mono [of 10000 "year_of day"] by fastforce

lemma parse_date_date_str:
  assumes "day < days_before_year 10000"
  shows "parse_date (date_str day @ r) = Some (day, r)"
proof -
  obtain y m d where ymd: "date_of day = (y, m, d)" by (cases "date_of day")
  note inv = date_of_inverse [OF ymd]
  have "month_lengths y ! (m - 1) \<le> 31" using inv by (intro month_length_le) auto
  then have "m < 10 ^ 2" "d < 10 ^ 2" using inv by auto
  moreover have "y < 10 ^ 4" using inv(1) year_of_representable [OF assms] by simp
  ultimately show ?thesis
    using inv by (simp add: date_str_def ymd year_str_def parse_date_def parse_digits_digs del: digs.simps)
qed

text \<open>Hours, minutes and seconds of a second of the day.\<close>

lemma clock_parts:
  fixes sod :: nat
  assumes "sod < 86400"
  shows "sod div 3600 \<le> 23" "sod div 60 mod 60 \<le> 59" "sod mod 60 \<le> 59"
    "sod div 3600 * 3600 + sod div 60 mod 60 * 60 + sod mod 60 = sod"
proof -
  have h: "sod div 3600 = sod div 60 div 60" by (simp add: div_mult2_eq)
  have "sod div 60 div 60 * 60 + sod div 60 mod 60 = sod div 60"
    "sod div 60 * 60 + sod mod 60 = sod" by simp_all
  then show "sod div 3600 * 3600 + sod div 60 mod 60 * 60 + sod mod 60 = sod"
    unfolding h by linarith
  show "sod div 3600 \<le> 23" using assms by simp
  have "sod div 60 mod 60 < 60" "sod mod 60 < 60" by simp_all
  then show "sod div 60 mod 60 \<le> 59" "sod mod 60 \<le> 59" by linarith+
qed

lemma parse_clock_clock_str:
  assumes "sod < 86400"
  shows "parse_clock (clock_str sod @ r) = Some (sod, r)"
proof -
  note p = clock_parts [OF assms]
  have "parse_digits 2 (digs 2 (sod div 3600) @ x) = Some (sod div 3600, x)"
    "parse_digits 2 (digs 2 (sod div 60 mod 60) @ x) = Some (sod div 60 mod 60, x)"
    "parse_digits 2 (digs 2 (sod mod 60) @ x) = Some (sod mod 60, x)" for x
    using p(1,2,3) by (auto intro!: parse_digits_digs simp del: digs.simps)
  then show ?thesis
    using p by (simp only: clock_str_def parse_clock_def) simp
qed

text \<open>What the store writes, it reads back.\<close>

lemma parse_time_iso8601 [simp]:
  assumes "representable t"
  shows "parse_time (iso8601 t) = Some t"
proof -
  have "t mod nanos_per_sec < nanos_per_sec" by (simp add: nanos_per_sec_def)
  moreover have "(seconds t div 86400 * 86400 + seconds t mod 86400) * nanos_per_sec
      + t mod nanos_per_sec = t"
    by (simp add: seconds_def)
  ultimately show ?thesis
    using assms
    by (simp add: representable_def iso8601_def parse_time_def parse_date_date_str
        parse_clock_clock_str parse_frac_frac_str)
qed

lemma iso8601_inject:
  "representable s \<Longrightarrow> representable t \<Longrightarrow> iso8601 s = iso8601 t \<longleftrightarrow> s = t"
  by (metis option.inject parse_time_iso8601)

section \<open>Order of the texts\<close>

lemma hms_cases:
  fixes h h' m m' s s' :: nat
  assumes "h \<le> h'" and "h * 3600 + m * 60 + s < h' * 3600 + m' * 60 + s'"
    and "s' \<le> 59" and "m' \<le> 59"
  shows "h < h' \<or> h = h' \<and> (m < m' \<or> m = m' \<and> s < s')"
  using assms by (cases "h = h'"; cases "m = m'") auto

lemma clock_str_less:
  assumes "a < b" and "b < 86400"
  shows "clock_str a @ x < clock_str b @ y"
proof -
  have "a < 86400" using assms by simp
  note pa = clock_parts [OF this] and pb = clock_parts [OF assms(2)]
  have "a div 3600 \<le> b div 3600" using assms(1) by (simp add: div_le_mono)
  then have "a div 3600 < b div 3600 \<or> a div 3600 = b div 3600 \<and>
      (a div 60 mod 60 < b div 60 mod 60 \<or>
       a div 60 mod 60 = b div 60 mod 60 \<and> a mod 60 < b mod 60)"
    by (rule hms_cases) (simp_all only: pa(4) pb(2-4) assms(1))
  then consider "a div 3600 < b div 3600"
    | "a div 3600 = b div 3600" "a div 60 mod 60 < b div 60 mod 60"
    | "a div 3600 = b div 3600" "a div 60 mod 60 = b div 60 mod 60" "a mod 60 < b mod 60"
    by blast
  then show ?thesis
  proof cases
    case 1
    moreover have "b div 3600 < 10 ^ 2" using pb(1) by simp
    ultimately show ?thesis unfolding clock_str_def append_assoc by (rule digs_less_append)
  next
    case 2
    have "b div 60 mod 60 < 10 ^ 2" using pb(2) by simp
    from digs_less_append [OF 2(2) this] 2(1) show ?thesis
      unfolding clock_str_def append_assoc by (simp only: append_less_same)
  next
    case 3
    have "b mod 60 < 10 ^ 2" using pb(3) by simp
    from digs_less_append [OF 3(3) this] 3(1,2) show ?thesis
      unfolding clock_str_def append_assoc by (simp only: append_less_same)
  qed
qed

lemma date_str_less:
  assumes "a < b" and "b < days_before_year 10000"
  shows "date_str a @ x < date_str b @ y"
proof -
  obtain y1 m1 d1 where d1: "date_of a = (y1, m1, d1)" by (cases "date_of a")
  obtain y2 m2 d2 where d2: "date_of b = (y2, m2, d2)" by (cases "date_of b")
  note i1 = date_of_inverse [OF d1] and i2 = date_of_inverse [OF d2]
  have y: "y1 < 10000" "y2 < 10 ^ 4"
    using i1(1) i2(1) year_of_representable assms by auto
  have "month_lengths y2 ! (m2 - 1) \<le> 31" using i2 by (intro month_length_le) auto
  then have md: "m2 < 10 ^ 2" "d2 < 10 ^ 2" using i2 by auto
  from date_of_less [OF assms(1) d1 d2] y md show ?thesis
    by (auto simp: date_str_def d1 d2 year_str_def digs_less_append simp del: digs.simps)
qed

lemma iso8601_less:
  assumes "seconds s < seconds t" and "representable t"
  shows "iso8601 s < iso8601 t"
proof (cases "seconds s div 86400 < seconds t div 86400")
  case True
  from date_str_less [OF this] assms(2) show ?thesis
    by (simp add: iso8601_def representable_def)
next
  case False
  with assms(1) have "seconds s div 86400 = seconds t div 86400"
    by (meson div_le_mono le_neq_implies_less less_imp_le_nat)
  moreover from this assms(1) have "seconds s mod 86400 < seconds t mod 86400"
    using div_mult_mod_eq [of "seconds s" 86400] div_mult_mod_eq [of "seconds t" 86400]
    by linarith
  ultimately show ?thesis
    by (simp add: iso8601_def clock_str_less)
qed

text \<open>Text order decides the order of seconds, whatever the fractions are.\<close>

lemma iso8601_less_seconds:
  assumes "iso8601 s < iso8601 t" and "representable s"
  shows "seconds s \<le> seconds t"
proof (rule ccontr)
  assume "\<not> seconds s \<le> seconds t"
  then have "iso8601 t < iso8601 s" using assms(2) by (intro iso8601_less) auto
  with assms(1) show False by simp
qed

text \<open>Within a second it does not decide: a time without a fraction is written without a dot.\<close>

lemma iso8601_within_second:
  assumes "t mod nanos_per_sec = 0"
  shows "seconds (t + 1) = seconds t" and "iso8601 (t + 1) < iso8601 t"
proof -
  obtain k where k: "t = nanos_per_sec * k" using assms by (metis dvd_def mod_eq_0_iff_dvd)
  then have same: "(t + 1) div nanos_per_sec = t div nanos_per_sec" "(t + 1) mod nanos_per_sec = 1"
    by (simp_all add: nanos_per_sec_def)
  then show secs: "seconds (t + 1) = seconds t" by (simp add: seconds_def)
  show "iso8601 (t + 1) < iso8601 t"
    unfolding iso8601_def secs same assms frac_str_def by (simp add: less_char_def)
qed

end
