(* ===== verification/World.thy ===== *)
theory World
  imports Database Protocol GoTime
begin

text \<open>
  The state of a hub process and its effects. The database handle, the connection registry,
  the frames written to the agents and the dispatcher's pause flag are the state proper; the
  environment (driver failures, \<open>uuid.NewString\<close>, \<open>time.Now\<close>) is a stream per source, read
  at a common counter, so that every run is a function of the state and any failure at any
  statement is covered.
\<close>

record hub =
  tabs :: tables
  conns :: "(string \<times> nat) list"  \<comment> \<open>agent id to connection; \<open>ConnRegistry.conns\<close>\<close>
  outbox :: "(nat \<times> envelope) list"  \<comment> \<open>frames written, by connection, in order\<close>
  broken :: "nat list"  \<comment> \<open>connections whose writes fail\<close>
  paused :: bool  \<comment> \<open>\<open>Dispatcher.paused\<close>\<close>
  faults :: "nat \<Rightarrow> bool"
  uuids :: "nat \<Rightarrow> string"
  clock :: "nat \<Rightarrow> time"
  seqno :: nat

type_synonym ('e, 'a) act = "(hub, 'e, 'a) prog"
type_synonym 'a db = "(hub, store_err, 'a) prog"

definition step_env :: "hub \<Rightarrow> hub" where
  "step_env s = s\<lparr>seqno := Suc (seqno s)\<rparr>"

lemma step_env_simps [simp]:
  "tabs (step_env s) = tabs s" "conns (step_env s) = conns s" "outbox (step_env s) = outbox s"
  "broken (step_env s) = broken s" "paused (step_env s) = paused s"
  "faults (step_env s) = faults s" "uuids (step_env s) = uuids s" "clock (step_env s) = clock s"
  "seqno (step_env s) = Suc (seqno s)"
  by (simp_all add: step_env_def)

definition new_uuid :: "('e, string) act" where
  "new_uuid s = (Inr (uuids s (seqno s)), step_env s)"

definition time_now :: "('e, time) act" where
  "time_now s = (Inr (clock s (seqno s)), step_env s)"

text \<open>One statement outside a transaction: SQLite applies it wholly or not at all.\<close>

definition exec :: "'a stmt \<Rightarrow> 'a db" where
  "exec st s =
     (if faults s (seqno s) then (Inl DriverFault, step_env s)
      else case st (tabs s) of
             Inl e \<Rightarrow> (Inl e, step_env s)
           | Inr (x, t) \<Rightarrow> (Inr x, (step_env s)\<lparr>tabs := t\<rparr>))"

text \<open>
  \<open>BeginTx\<close>, the body, \<open>Commit\<close>; the deferred \<open>Rollback\<close> runs on every return before the commit
  has succeeded. The pool has one connection, so transactions do not overlap.
\<close>

definition transact :: "'a db \<Rightarrow> 'a db" where
  "transact body s =
     (if faults s (seqno s) then (Inl DriverFault, step_env s)
      else case body (step_env s) of
             (Inl e, s') \<Rightarrow> (Inl e, s'\<lparr>tabs := tabs s\<rparr>)
           | (Inr x, s') \<Rightarrow>
               if faults s' (seqno s') then (Inl DriverFault, (step_env s')\<lparr>tabs := tabs s\<rparr>)
               else (Inr x, step_env s'))"

section \<open>Taking runs apart\<close>

lemma new_uuid_Inr [prog_elims]:
  "new_uuid s = (Inr u, s') \<longleftrightarrow> u = uuids s (seqno s) \<and> s' = step_env s"
  by (auto simp: new_uuid_def)

lemma new_uuid_Inl [simp]: "new_uuid s \<noteq> (Inl e, s')"
  by (simp add: new_uuid_def)

lemma time_now_Inr [prog_elims]:
  "time_now s = (Inr n, s') \<longleftrightarrow> n = clock s (seqno s) \<and> s' = step_env s"
  by (auto simp: time_now_def)

lemma time_now_Inl [simp]: "time_now s \<noteq> (Inl e, s')"
  by (simp add: time_now_def)

lemma exec_Inr [prog_elims]:
  "exec st s = (Inr x, s') \<longleftrightarrow>
     \<not> faults s (seqno s) \<and> (\<exists>t. st (tabs s) = Inr (x, t) \<and> s' = (step_env s)\<lparr>tabs := t\<rparr>)"
  by (auto simp: exec_def split: sum.splits)

lemma exec_Inl [prog_elims]:
  "exec st s = (Inl e, s') \<longleftrightarrow>
     s' = step_env s \<and>
     (faults s (seqno s) \<and> e = DriverFault \<or> \<not> faults s (seqno s) \<and> st (tabs s) = Inl e)"
  by (auto simp: exec_def split: sum.splits)

lemma transact_Inr:
  "transact body s = (Inr x, s') \<longleftrightarrow>
     \<not> faults s (seqno s) \<and>
     (\<exists>s1. body (step_env s) = (Inr x, s1) \<and> \<not> faults s1 (seqno s1) \<and> s' = step_env s1)"
  by (auto simp: transact_def split: prod.splits sum.splits)

lemma transact_InrE:
  assumes "transact body s = (Inr x, s')"
  obtains s1 where "body (step_env s) = (Inr x, s1)" and "tabs s' = tabs s1"
  using assms by (auto simp: transact_Inr)

section \<open>Atomicity\<close>

text \<open>A failing call leaves the tables as they were.\<close>

definition atomic :: "'a db \<Rightarrow> bool" where
  "atomic m \<longleftrightarrow> (\<forall>s e s'. m s = (Inl e, s') \<longrightarrow> tabs s' = tabs s)"

lemma atomicD: "atomic m \<Longrightarrow> m s = (Inl e, s') \<Longrightarrow> tabs s' = tabs s"
  by (auto simp: atomic_def)

lemma atomic_transact: "atomic (transact body)"
  by (auto simp: atomic_def transact_def split: prod.splits sum.splits if_splits)

lemma atomic_exec: "atomic (exec st)"
  by (auto simp: atomic_def exec_Inl)

lemma atomic_map_error: "atomic m \<Longrightarrow> atomic (catchE m (\<lambda>e. throw (f e)))"
  by (auto simp: atomic_def catchE_Inl)

section \<open>The frame of database operations\<close>

text \<open>What a database operation may change: the tables and the position in the environment.\<close>

definition db_only :: "hub \<Rightarrow> hub \<Rightarrow> bool" where
  "db_only s s' \<longleftrightarrow> conns s' = conns s \<and> outbox s' = outbox s \<and> broken s' = broken s \<and>
     paused s' = paused s \<and> faults s' = faults s \<and> uuids s' = uuids s \<and> clock s' = clock s \<and>
     seqno s \<le> seqno s'"

definition tabs_same :: "hub \<Rightarrow> hub \<Rightarrow> bool" where
  "tabs_same s s' \<longleftrightarrow> tabs s' = tabs s \<and> clock s' = clock s"

text \<open>
  An invariant of the tables, as the relation that it survives while the clock shows years
  with four digits.
\<close>

definition clock_ok :: "hub \<Rightarrow> bool" where
  "clock_ok s \<longleftrightarrow> (\<forall>n. representable (clock s n))"

definition keeps :: "(tables \<Rightarrow> bool) \<Rightarrow> hub \<Rightarrow> hub \<Rightarrow> bool" where
  "keeps I s s' \<longleftrightarrow> (clock_ok s \<and> I (tabs s) \<longrightarrow> clock_ok s' \<and> I (tabs s'))"

lemma keepsD: "keeps I s s' \<Longrightarrow> clock_ok s \<Longrightarrow> I (tabs s) \<Longrightarrow> clock_ok s' \<and> I (tabs s')"
  by (simp add: keeps_def)

interpretation frame: contract db_only
  by unfold_locales (auto simp: db_only_def)

interpretation same: contract tabs_same
  by unfold_locales (auto simp: tabs_same_def)

interpretation inv: contract "keeps I" for I
  by unfold_locales (auto simp: keeps_def clock_ok_def)

lemma obeys_keeps_of_same: "obeys tabs_same m \<Longrightarrow> obeys (keeps I) m"
  by (auto simp: obeys_def tabs_same_def keeps_def clock_ok_def)

lemma db_only_env: "obeys db_only new_uuid" "obeys db_only time_now"
  by (auto simp: obeys_def db_only_def new_uuid_def time_now_def)

lemma tabs_same_env: "obeys tabs_same new_uuid" "obeys tabs_same time_now"
  by (auto simp: obeys_def tabs_same_def new_uuid_def time_now_def)

lemma db_only_exec: "obeys db_only (exec st)"
  by (auto simp: obeys_def db_only_def exec_def split: sum.splits)

lemma db_only_transact: "obeys db_only body \<Longrightarrow> obeys db_only (transact body)"
proof (rule obeysI)
  fix s r s' assume body: "obeys db_only body" and run: "transact body s = (r, s')"
  show "db_only s s'"
  proof (cases "faults s (seqno s)")
    case True
    then show ?thesis using run by (auto simp: transact_def db_only_def)
  next
    case False
    obtain r1 s1 where b: "body (step_env s) = (r1, s1)" by fastforce
    with body have "db_only (step_env s) s1" by (rule obeysD)
    with False b run show ?thesis
      by (auto simp: transact_def db_only_def split: sum.splits if_splits)
  qed
qed

lemmas frame_intros [frame_rules] =
  frame.rules obeys_cases db_only_env db_only_exec db_only_transact obeys_attempt obeys_logged

section \<open>Preservation of invariants of the tables\<close>

definition stmt_keeps :: "(tables \<Rightarrow> bool) \<Rightarrow> 'a stmt \<Rightarrow> bool" where
  "stmt_keeps I st \<longleftrightarrow> (\<forall>t x t'. I t \<longrightarrow> st t = Inr (x, t') \<longrightarrow> I t')"

lemma stmt_keepsI: "(\<And>t x t'. I t \<Longrightarrow> st t = Inr (x, t') \<Longrightarrow> I t') \<Longrightarrow> stmt_keeps I st"
  by (auto simp: stmt_keeps_def)

lemma stmt_keeps_query: "stmt_keeps I (query f)" "stmt_keeps I (query_one g)"
  by (auto simp: stmt_keeps_def query_one_iff)

lemma keeps_exec: "stmt_keeps I st \<Longrightarrow> obeys (keeps I) (exec st)"
  by (auto simp: obeys_def keeps_def clock_ok_def exec_def stmt_keeps_def split: sum.splits)

lemma keeps_env: "obeys (keeps I) new_uuid" "obeys (keeps I) time_now"
  by (simp_all add: obeys_keeps_of_same tabs_same_env)

lemma keeps_transact:
  assumes "obeys db_only body"
    and "\<And>s x s'. clock_ok s \<Longrightarrow> I (tabs s) \<Longrightarrow> body s = (Inr x, s') \<Longrightarrow> I (tabs s')"
  shows "obeys (keeps I) (transact body)"
proof (rule obeysI)
  fix s r s' assume run: "transact body s = (r, s')"
  have clk: "clock s' = clock s"
    using obeysD [OF db_only_transact [OF assms(1)] run] by (simp add: db_only_def)
  show "keeps I s s'"
  proof (cases r)
    case (Inl e)
    with run have "tabs s' = tabs s" by (metis atomicD atomic_transact)
    then show ?thesis by (simp add: keeps_def clk clock_ok_def)
  next
    case (Inr x)
    with run obtain s1 where "body (step_env s) = (Inr x, s1)" "tabs s' = tabs s1"
      by (auto elim: transact_InrE)
    with assms(2) [of "step_env s" x s1] show ?thesis by (simp add: keeps_def clk clock_ok_def)
  qed
qed

lemma keeps_transact_body:
  assumes "obeys db_only body" and "obeys (keeps I) body"
  shows "obeys (keeps I) (transact body)"
  using assms by (intro keeps_transact) (auto dest: obeysD keepsD)

lemmas keeps_intros [inv_rules] =
  inv.rules obeys_cases keeps_env keeps_exec obeys_attempt obeys_logged

section \<open>Runs without failures\<close>

text \<open>No driver failure from here on, and \<open>uuid.NewString\<close> gives values not in use.\<close>

definition used_ids :: "tables \<Rightarrow> string set" where
  "used_ids t = row_id ` set (tb_previews t) \<union> ev_id ` set (tb_events t)
     \<union> arow_id ` set (tb_agents t)"

definition calm :: "hub \<Rightarrow> bool" where
  "calm s \<longleftrightarrow> (\<forall>n \<ge> seqno s. \<not> faults s n) \<and> inj (uuids s)
     \<and> (\<forall>n \<ge> seqno s. uuids s n \<notin> used_ids (tabs s))"

lemma calm_no_fault: "calm s \<Longrightarrow> seqno s \<le> n \<Longrightarrow> \<not> faults s n"
  by (simp add: calm_def)

end
