(* ===== verification/LabelCodec.thy ===== *)
theory LabelCodec
  imports GoStrings
begin

text \<open>
  The JSON text of the \<open>labels\<close> and \<open>preview_urls\<close> columns: \<open>encodeLabels\<close> and
  \<open>decodeLabels\<close> of internal/db/sqlite/agent_store.go, over the string encoding of Go's
  \<open>encoding/json\<close> (HTML-escaping, invalid UTF-8 replaced by U+FFFD) and its reading of an
  array of strings. \<open>decodeLabels\<close> fails, as \<open>json.Unmarshal\<close> into a \<open>[]string\<close> does, on every
  text that is not \<open>null\<close> or an array of strings and nulls; in particular on an object.
\<close>

section \<open>UTF-8\<close>

definition byte_in :: "char \<Rightarrow> nat \<Rightarrow> nat \<Rightarrow> bool" where
  "byte_in c lo hi \<longleftrightarrow> lo \<le> (of_char c :: nat) \<and> (of_char c :: nat) \<le> hi"

definition cont_byte :: "char \<Rightarrow> bool" where
  "cont_byte c \<longleftrightarrow> byte_in c 0x80 0xBF"

text \<open>
  \<open>utf8.DecodeRuneInString\<close>: the number of bytes of the rune at the head of a string, or
  None when the bytes there are not a well-formed encoding.
\<close>

fun rune_len :: "string \<Rightarrow> nat option" where
  "rune_len [] = None"
| "rune_len (a # s) =
     (if byte_in a 0 0x7F then Some 1
      else if byte_in a 0xC2 0xDF then
        (case s of b # _ \<Rightarrow> if cont_byte b then Some 2 else None | _ \<Rightarrow> None)
      else if byte_in a 0xE0 0xEF then
        (case s of b # c # _ \<Rightarrow>
           if (if a = char_of (0xE0 :: nat) then byte_in b 0xA0 0xBF
               else if a = char_of (0xED :: nat) then byte_in b 0x80 0x9F else cont_byte b)
              \<and> cont_byte c then Some 3 else None
         | _ \<Rightarrow> None)
      else if byte_in a 0xF0 0xF4 then
        (case s of b # c # d # _ \<Rightarrow>
           if (if a = char_of (0xF0 :: nat) then byte_in b 0x90 0xBF
               else if a = char_of (0xF4 :: nat) then byte_in b 0x80 0x8F else cont_byte b)
              \<and> cont_byte c \<and> cont_byte d then Some 4 else None
         | _ \<Rightarrow> None)
      else None)"

lemma rune_len_bounds: "rune_len s = Some n \<Longrightarrow> 1 \<le> n \<and> n \<le> length s"
  by (cases s) (auto split: if_splits list.splits)

lemma rune_len_append: "rune_len s = Some n \<Longrightarrow> rune_len (s @ t) = Some n"
  by (cases s) (auto split: if_splits list.splits)

lemma rune_len_take: "rune_len s = Some n \<Longrightarrow> rune_len (take n s @ t) = Some n"
  by (cases s) (auto split: if_splits list.splits)

lemma rune_len_1: "rune_len (a # s) = Some n \<Longrightarrow> n = 1 \<longleftrightarrow> byte_in a 0 0x7F"
  by (auto split: if_splits list.splits)

lemma rune_len_ascii: "byte_in a 0 0x7F \<Longrightarrow> rune_len (a # s) = Some 1"
  by simp

declare rune_len.simps(2) [simp del]

text \<open>A string whose bytes are well-formed UTF-8.\<close>

function valid_utf8 :: "string \<Rightarrow> bool" where
  "valid_utf8 s =
     (s = [] \<or> (case rune_len s of None \<Rightarrow> False | Some n \<Rightarrow> valid_utf8 (drop n s)))"
  by pat_completeness auto
termination
  by (relation "measure length") (auto dest!: sym [of "Some _"] dest: rune_len_bounds)

declare valid_utf8.simps [simp del]

lemma valid_utf8_Nil [simp]: "valid_utf8 []"
  by (simp add: valid_utf8.simps)

lemma ascii_valid: "list_all (\<lambda>c. byte_in c 0 0x7F) s \<Longrightarrow> valid_utf8 s"
proof (induction s)
  case (Cons c s)
  then show ?case by (subst valid_utf8.simps) (simp add: rune_len_ascii)
qed simp

section \<open>JSON strings\<close>

definition hex_dig :: "nat \<Rightarrow> char" where
  "hex_dig n = char_of (if n < 10 then 48 + n else 87 + n)"

definition u_escape :: "nat \<Rightarrow> string" where
  "u_escape n = CHR 0x5C # CHR ''u'' #
     [hex_dig (n div 4096 mod 16), hex_dig (n div 256 mod 16), hex_dig (n div 16 mod 16),
      hex_dig (n mod 16)]"

text \<open>The escape of one ASCII byte in \<open>json.Marshal\<close>.\<close>

definition esc_ascii :: "char \<Rightarrow> string" where
  "esc_ascii c =
     (let n = of_char c :: nat in
      if n = 0x22 \<or> n = 0x5C then [CHR 0x5C, c]
      else if n = 8 then [CHR 0x5C, CHR ''b'']
      else if n = 12 then [CHR 0x5C, CHR ''f'']
      else if n = 10 then [CHR 0x5C, CHR ''n'']
      else if n = 13 then [CHR 0x5C, CHR ''r'']
      else if n = 9 then [CHR 0x5C, CHR ''t'']
      else if n < 32 \<or> n = 0x3C \<or> n = 0x3E \<or> n = 0x26 then u_escape n
      else [c])"

definition line_sep :: string where "line_sep = bytes [0xE2, 0x80, 0xA8]"
definition par_sep :: string where "par_sep = bytes [0xE2, 0x80, 0xA9]"
definition repl_rune :: string where "repl_rune = bytes [0xEF, 0xBF, 0xBD]"

definition esc_rune :: "string \<Rightarrow> string" where
  "esc_rune r =
     (if r = line_sep then u_escape 0x2028 else if r = par_sep then u_escape 0x2029 else r)"

function esc_body :: "string \<Rightarrow> string" where
  "esc_body s =
     (case s of [] \<Rightarrow> []
      | c # cs \<Rightarrow>
         (case rune_len s of
            None \<Rightarrow> u_escape 0xFFFD @ esc_body cs
          | Some n \<Rightarrow> (if n = 1 then esc_ascii c else esc_rune (take n s)) @ esc_body (drop n s)))"
  by pat_completeness auto
termination
proof (relation "measure length", goal_cases)
  case (3 s c cs n)
  then show ?case using rune_len_bounds [of s n] by auto
qed auto

declare esc_body.simps [simp del]

definition json_string :: "string \<Rightarrow> string" where
  "json_string s = CHR 0x22 # esc_body s @ [CHR 0x22]"

fun join_with :: "string \<Rightarrow> string list \<Rightarrow> string" where
  "join_with sep [] = []"
| "join_with sep [w] = w"
| "join_with sep (w # v # ws) = w @ sep @ join_with sep (v # ws)"

text \<open>\<open>encodeLabels\<close>: nil and the empty slice become \<open>[]\<close>.\<close>

definition encodeLabels :: "string list \<Rightarrow> string" where
  "encodeLabels ls =
     (if ls = [] then ''[]'' else ''['' @ join_with '','' (map json_string ls) @ '']'')"

section \<open>Reading JSON strings\<close>

definition hex_val :: "char \<Rightarrow> nat option" where
  "hex_val c =
     (let n = of_char c :: nat in
      if 48 \<le> n \<and> n \<le> 57 then Some (n - 48)
      else if 97 \<le> n \<and> n \<le> 102 then Some (n - 87)
      else if 65 \<le> n \<and> n \<le> 70 then Some (n - 55)
      else None)"

text \<open>Four hexadecimal digits.\<close>

fun get_u4 :: "string \<Rightarrow> (nat \<times> string) option" where
  "get_u4 (a # b # c # d # s) =
     (case (hex_val a, hex_val b, hex_val c, hex_val d) of
        (Some w, Some x, Some y, Some z) \<Rightarrow> Some (((w * 16 + x) * 16 + y) * 16 + z, s)
      | _ \<Rightarrow> None)"
| "get_u4 _ = None"

text \<open>\<open>utf8.AppendRune\<close>\<close>

definition utf8_of :: "nat \<Rightarrow> string" where
  "utf8_of r =
     (if r < 0x80 then bytes [r]
      else if r < 0x800 then bytes [0xC0 + r div 64, 0x80 + r mod 64]
      else if 0xD800 \<le> r \<and> r \<le> 0xDFFF \<or> 0x10FFFF < r then repl_rune
      else if r < 0x10000 then bytes [0xE0 + r div 4096, 0x80 + r div 64 mod 64, 0x80 + r mod 64]
      else bytes [0xF0 + r div 262144, 0x80 + r div 4096 mod 64, 0x80 + r div 64 mod 64,
                  0x80 + r mod 64])"

definition surrogate :: "nat \<Rightarrow> bool" where
  "surrogate r \<longleftrightarrow> 0xD800 \<le> r \<and> r \<le> 0xDFFF"

text \<open>A \<open>\uXXXX\<close> escape; a well-formed surrogate pair takes the following escape with it.\<close>

definition read_u :: "string \<Rightarrow> (string \<times> string) option" where
  "read_u s =
     (case get_u4 s of
        None \<Rightarrow> None
      | Some (r, rest) \<Rightarrow>
          if \<not> surrogate r then Some (utf8_of r, rest)
          else (case rest of
                  b # u # rest' \<Rightarrow>
                    (if b = CHR 0x5C \<and> u = CHR ''u'' then
                       (case get_u4 rest' of
                          None \<Rightarrow> Some (repl_rune, rest)
                        | Some (r2, rest2) \<Rightarrow>
                            if r < 0xDC00 \<and> 0xDC00 \<le> r2 \<and> r2 \<le> 0xDFFF
                            then Some (utf8_of (0x10000 + (r - 0xD800) * 1024 + (r2 - 0xDC00)), rest2)
                            else Some (repl_rune, rest))
                     else Some (repl_rune, rest))
                | _ \<Rightarrow> Some (repl_rune, rest)))"

definition simple_escape :: "char \<Rightarrow> char option" where
  "simple_escape c =
     (if c = CHR 0x22 \<or> c = CHR 0x5C \<or> c = CHR ''/'' then Some c
      else if c = CHR ''b'' then Some (char_of (8 :: nat))
      else if c = CHR ''f'' then Some (char_of (12 :: nat))
      else if c = CHR ''n'' then Some (char_of (10 :: nat))
      else if c = CHR ''r'' then Some (char_of (13 :: nat))
      else if c = CHR ''t'' then Some (char_of (9 :: nat))
      else None)"

definition read_escape :: "string \<Rightarrow> (string \<times> string) option" where
  "read_escape s =
     (case s of
        [] \<Rightarrow> None
      | c # cs \<Rightarrow> if c = CHR ''u'' then read_u cs
                   else map_option (\<lambda>x. ([x], cs)) (simple_escape c))"

lemma get_u4_shorter: "get_u4 s = Some (n, t) \<Longrightarrow> length t < length s"
  by (induction s rule: get_u4.induct) (auto split: option.splits)

lemma read_u_shorter: "read_u s = Some (w, t) \<Longrightarrow> length t < length s"
  by (auto simp: read_u_def split: option.splits if_splits prod.splits list.splits
      dest!: get_u4_shorter)

lemma read_escape_shorter: "read_escape s = Some (w, t) \<Longrightarrow> length t < length s"
  by (auto simp: read_escape_def split: list.splits if_splits dest: read_u_shorter)

text \<open>The rest of a string literal after its opening quote: content and what follows.\<close>

function read_body :: "string \<Rightarrow> (string \<times> string) option" where
  "read_body s =
     (case s of
        [] \<Rightarrow> None
      | c # cs \<Rightarrow>
          if c = CHR 0x22 then Some ([], cs)
          else if c = CHR 0x5C then
            (case read_escape cs of
               None \<Rightarrow> None
             | Some (w, rest) \<Rightarrow> map_option (\<lambda>(x, t). (w @ x, t)) (read_body rest))
          else if (of_char c :: nat) < 32 then None
          else (case rune_len s of
                  None \<Rightarrow> map_option (\<lambda>(x, t). (repl_rune @ x, t)) (read_body cs)
                | Some n \<Rightarrow> map_option (\<lambda>(x, t). (take n s @ x, t)) (read_body (drop n s))))"
  by pat_completeness auto
termination
proof (relation "measure length", goal_cases)
  case (2 s c cs p w rest)
  then show ?case using read_escape_shorter [of cs w rest] by auto
next
  case (4 s c cs n)
  then show ?case using rune_len_bounds [of s n] by auto
qed auto

declare read_body.simps [simp del]

definition is_ws :: "char \<Rightarrow> bool" where
  "is_ws c \<longleftrightarrow> (let n = of_char c :: nat in n = 32 \<or> n = 9 \<or> n = 10 \<or> n = 13)"

definition skip_ws :: "string \<Rightarrow> string" where
  "skip_ws s = dropWhile is_ws s"

text \<open>An array element read into a Go string: a JSON string, or \<open>null\<close> as the empty string.\<close>

definition read_elem :: "string \<Rightarrow> (string \<times> string) option" where
  "read_elem s =
     (if has_prefix s ''null'' then Some ([], drop 4 s)
      else (case s of c # cs \<Rightarrow> if c = CHR 0x22 then read_body cs else None | [] \<Rightarrow> None))"

lemma read_body_shorter: "read_body s = Some (w, t) \<Longrightarrow> length t < length s"
proof (induction s arbitrary: w t rule: read_body.induct)
  case (1 s)
  show ?case
  proof (cases s)
    case Nil
    then show ?thesis using "1.prems" by (simp add: read_body.simps)
  next
    case (Cons c cs)
    have r: "rune_len s = Some n \<Longrightarrow> length (drop n s) < length s" for n
      using rune_len_bounds [of s n] Cons by auto
    from Cons "1.prems" "1.IH" r show ?thesis
      by (subst (asm) read_body.simps)
        (fastforce split: if_splits option.splits dest: read_escape_shorter)
  qed
qed

lemma read_elem_shorter: "read_elem s = Some (w, t) \<Longrightarrow> length t < length s"
  by (cases s) (auto simp: read_elem_def has_prefix_def split: if_splits list.splits
      dest: read_body_shorter)

lemma skip_ws_le: "length (skip_ws s) \<le> length s"
  by (simp add: skip_ws_def length_dropWhile_le)

text \<open>The elements after the opening bracket, at least one, up to the closing bracket.\<close>

function read_elems :: "string \<Rightarrow> (string list \<times> string) option" where
  "read_elems s =
     (case read_elem (skip_ws s) of
        None \<Rightarrow> None
      | Some (w, rest) \<Rightarrow>
          (case skip_ws rest of
             [] \<Rightarrow> None
           | c # cs \<Rightarrow>
               if c = CHR '']'' then Some ([w], cs)
               else if c = CHR '','' then map_option (\<lambda>(ws, t). (w # ws, t)) (read_elems cs)
               else None))"
  by pat_completeness auto
termination
proof (relation "measure length", goal_cases)
  case (2 s p w rest c cs)
  then have "length rest < length (skip_ws s)" and "length (c # cs) \<le> length rest"
    using read_elem_shorter [of "skip_ws s" w rest] skip_ws_le [of rest] by auto
  then show ?case using skip_ws_le [of s] by simp
qed simp

declare read_elems.simps [simp del]

text \<open>\<open>decodeLabels\<close>: the empty text and \<open>null\<close> are the empty slice.\<close>

definition decodeLabels :: "string \<Rightarrow> string list option" where
  "decodeLabels s =
     (if s = [] then Some []
      else let v = skip_ws s in
        if has_prefix v ''null'' then (if skip_ws (drop 4 v) = [] then Some [] else None)
        else (case v of
                [] \<Rightarrow> None
              | c # cs \<Rightarrow>
                  if c \<noteq> CHR ''['' then None
                  else (case skip_ws cs of
                          [] \<Rightarrow> None
                        | d # ds \<Rightarrow>
                            if d = CHR '']'' then (if skip_ws ds = [] then Some [] else None)
                            else (case read_elems cs of
                                    None \<Rightarrow> None
                                  | Some (ws, t) \<Rightarrow> if skip_ws t = [] then Some ws else None))))"

section \<open>Round trip\<close>

text \<open>What a Go string becomes after a JSON round trip: invalid bytes turn into U+FFFD.\<close>

function sanitize :: "string \<Rightarrow> string" where
  "sanitize s =
     (case s of [] \<Rightarrow> []
      | c # cs \<Rightarrow> (case rune_len s of
                     None \<Rightarrow> repl_rune @ sanitize cs
                   | Some n \<Rightarrow> take n s @ sanitize (drop n s)))"
  by pat_completeness auto
termination
proof (relation "measure length", goal_cases)
  case (3 s c cs n)
  then show ?case using rune_len_bounds [of s n] by auto
qed auto

declare sanitize.simps [simp del]

lemma sanitize_Nil [simp]: "sanitize [] = []"
  by (simp add: sanitize.simps)

lemma sanitize_step:
  "rune_len s = Some n \<Longrightarrow> sanitize s = take n s @ sanitize (drop n s)"
  by (cases s; subst sanitize.simps) simp_all

lemma sanitize_bad:
  "rune_len (c # cs) = None \<Longrightarrow> sanitize (c # cs) = repl_rune @ sanitize cs"
  by (subst sanitize.simps) simp

lemma sanitize_valid: "valid_utf8 s \<Longrightarrow> sanitize s = s"
proof (induction s rule: valid_utf8.induct)
  case (1 s)
  show ?case
  proof (cases "s = []")
    case False
    with "1.prems" obtain n where n: "rune_len s = Some n" and v: "valid_utf8 (drop n s)"
      by (subst (asm) valid_utf8.simps) (simp split: option.splits)
    with "1.IH" [of n] False show ?thesis
      by (simp add: sanitize_step [OF n])
  qed simp
qed

lemma hex_val_dig: "n < 16 \<Longrightarrow> hex_val (hex_dig n) = Some n"
  by (simp add: hex_val_def hex_dig_def Let_def)

lemma get_u4_escape:
  assumes "n < 65536"
  shows "get_u4 (drop 2 (u_escape n) @ t) = Some (n, t)"
proof -
  have "n div 4096 mod 16 = n div 4096" using assms by simp
  moreover have "n div 4096 * 16 + n div 256 mod 16 = n div 256"
    using div_mult_mod_eq [of "n div 256" 16] by (simp add: div_mult2_eq [symmetric])
  moreover have "n div 256 * 16 + n div 16 mod 16 = n div 16"
    using div_mult_mod_eq [of "n div 16" 16] by (simp add: div_mult2_eq [symmetric])
  moreover have "n div 4096 < 16" using assms by simp
  ultimately show ?thesis by (simp add: u_escape_def hex_val_dig)
qed

lemma read_body_backslash:
  "read_escape cs = Some (w, rest) \<Longrightarrow>
     read_body (CHR 0x5C # cs) = map_option (\<lambda>(x, t). (w @ x, t)) (read_body rest)"
  by (subst read_body.simps) simp

lemma read_body_rune_step:
  assumes "c \<noteq> CHR 0x22" and "c \<noteq> CHR 0x5C" and "\<not> (of_char c :: nat) < 32"
    and "rune_len (c # cs) = Some n"
  shows "read_body (c # cs) =
    map_option (\<lambda>(x, t). (take n (c # cs) @ x, t)) (read_body (drop n (c # cs)))"
  using assms by (subst read_body.simps) simp

lemma read_body_u_escape:
  assumes "n < 0xD800 \<or> n = 0xFFFD"
  shows "read_body (u_escape n @ t) = map_option (\<lambda>(x, r). (utf8_of n @ x, r)) (read_body t)"
proof -
  have "u_escape n @ t = CHR 0x5C # CHR ''u'' # drop 2 (u_escape n) @ t"
    by (simp add: u_escape_def)
  moreover have "read_escape (CHR ''u'' # drop 2 (u_escape n) @ t) = Some (utf8_of n, t)"
    using get_u4_escape [of n t] assms
    by (auto simp: read_escape_def read_u_def surrogate_def)
  ultimately show ?thesis
    using read_body_backslash [of "CHR ''u'' # drop 2 (u_escape n) @ t"] by metis
qed

lemma read_body_char:
  assumes "c \<noteq> CHR 0x22" and "c \<noteq> CHR 0x5C" and "byte_in c 32 0x7F"
  shows "read_body (c # t) = map_option (\<lambda>(x, r). (c # x, r)) (read_body t)"
proof -
  have "rune_len (c # t) = Some 1"
    using assms(3) by (intro rune_len_ascii) (simp add: byte_in_def)
  with assms show ?thesis
    by (simp add: read_body_rune_step byte_in_def)
qed

lemma esc_ascii_cases:
  assumes "byte_in c 0 0x7F"
  shows "esc_ascii c = [c] \<and> c \<noteq> CHR 0x22 \<and> c \<noteq> CHR 0x5C \<and> byte_in c 32 0x7F
    \<or> (\<exists>e. esc_ascii c = [CHR 0x5C, e] \<and> simple_escape e = Some c \<and> e \<noteq> CHR ''u'')
    \<or> esc_ascii c = u_escape (of_char c)"
proof -
  define n where "n = (of_char c :: nat)"
  have c: "c = char_of n" and n: "n < 128"
    using assms by (simp_all add: n_def byte_in_def)
  consider "n = 0x22" | "n = 0x5C" | "n = 8" | "n = 12" | "n = 10" | "n = 13" | "n = 9"
    | "n \<notin> {0x22, 0x5C, 8, 12, 10, 13, 9}" "n < 32 \<or> n = 0x3C \<or> n = 0x3E \<or> n = 0x26"
    | "n \<notin> {0x22, 0x5C, 8, 12, 10, 13, 9}" "\<not> (n < 32 \<or> n = 0x3C \<or> n = 0x3E \<or> n = 0x26)"
    by blast
  moreover have "char_of (0x22 :: nat) = CHR 0x22" "char_of (0x5C :: nat) = CHR 0x5C"
    by (simp_all add: char_of_def bit_iff_odd)
  ultimately show ?thesis
  proof cases
    case 8
    then have "esc_ascii c = u_escape n" by (simp add: esc_ascii_def flip: n_def)
    then show ?thesis by (simp add: n_def)
  next
    case 9
    then have "esc_ascii c = [c]" by (simp add: esc_ascii_def flip: n_def)
    moreover have "c \<noteq> CHR 0x22" "c \<noteq> CHR 0x5C" using 9 by (auto simp: n_def)
    moreover have "byte_in c 32 0x7F" using 9 n by (simp add: byte_in_def flip: n_def)
    ultimately show ?thesis by simp
  qed (simp_all add: c esc_ascii_def simple_escape_def)
qed

lemma read_body_esc_ascii:
  assumes "byte_in c 0 0x7F"
  shows "read_body (esc_ascii c @ t) = map_option (\<lambda>(x, r). (c # x, r)) (read_body t)"
proof -
  have u: "utf8_of (of_char c) = [c]" "(of_char c :: nat) < 0xD800"
    using assms by (simp_all add: utf8_of_def bytes_def byte_in_def)
  consider "esc_ascii c = [c]" "c \<noteq> CHR 0x22" "c \<noteq> CHR 0x5C" "byte_in c 32 0x7F"
    | e where "esc_ascii c = [CHR 0x5C, e]" "simple_escape e = Some c" "e \<noteq> CHR ''u''"
    | "esc_ascii c = u_escape (of_char c)"
    using esc_ascii_cases [OF assms] by blast
  then show ?thesis
  proof cases
    case 1
    then show ?thesis by (simp add: read_body_char)
  next
    case 2
    then show ?thesis by (simp add: read_body_backslash read_escape_def)
  next
    case 3
    then show ?thesis using read_body_u_escape [of "of_char c" t] u by simp
  qed
qed

lemma read_body_rune:
  assumes "rune_len s = Some n" and "n \<noteq> 1"
  shows "read_body (take n s @ t) = map_option (\<lambda>(x, r). (take n s @ x, r)) (read_body t)"
proof -
  obtain c cs where s: "s = c # cs" using assms(1) by (cases s) auto
  have len: "length (take n s) = n" using rune_len_bounds [OF assms(1)] by simp
  obtain m where m: "n = Suc m" using rune_len_bounds [OF assms(1)] by (cases n) auto
  have "\<not> byte_in c 0 0x7F"
    using rune_len_1 [of c cs] assms by (simp add: s)
  then have c: "c \<noteq> CHR 0x22" "c \<noteq> CHR 0x5C" "\<not> (of_char c :: nat) < 32"
    by (auto simp: byte_in_def)
  have t: "take n s @ t = c # take m cs @ t" by (simp add: s m)
  have "rune_len (c # take m cs @ t) = Some n"
    using rune_len_take [OF assms(1), of t] t by simp
  note read_body_rune_step [OF c this]
  moreover have "take n (c # take m cs @ t) = take n s" "drop n (c # take m cs @ t) = t"
    using len by (simp_all add: s m)
  ultimately show ?thesis by (simp only: t)
qed

lemma utf8_of_seps: "utf8_of 0x2028 = line_sep" "utf8_of 0x2029 = par_sep" "utf8_of 0xFFFD = repl_rune"
  by (simp_all add: utf8_of_def line_sep_def par_sep_def repl_rune_def)

lemma read_body_esc_body: "read_body (esc_body s @ CHR 0x22 # t) = Some (sanitize s, t)"
proof (induction s rule: esc_body.induct)
  case (1 s)
  show ?case
  proof (cases s)
    case Nil
    then show ?thesis by (simp add: esc_body.simps read_body.simps)
  next
    case s: (Cons c cs)
    show ?thesis
    proof (cases "rune_len s")
      case None
      then have "esc_body s = u_escape 0xFFFD @ esc_body cs" "sanitize s = repl_rune @ sanitize cs"
        using s sanitize_bad by (simp_all add: esc_body.simps [of "c # cs"])
      with "1.IH"(1) [OF s None] show ?thesis
        by (simp add: read_body_u_escape utf8_of_seps)
    next
      case (Some n)
      have e: "esc_body s = (if n = 1 then esc_ascii c else esc_rune (take n s)) @ esc_body (drop n s)"
        and z: "sanitize s = take n s @ sanitize (drop n s)"
        using s Some by (simp_all add: esc_body.simps [of "c # cs"] sanitize_step)
      note IH = "1.IH"(2) [OF s Some]
      show ?thesis
      proof (cases "n = 1")
        case True
        then have "byte_in c 0 0x7F"
          using rune_len_1 [of c cs] Some s by simp
        with IH True e z s show ?thesis by (simp add: read_body_esc_ascii)
      next
        case False
        have "read_body (esc_rune (take n s) @ x) =
            map_option (\<lambda>(w, r). (take n s @ w, r)) (read_body x)" for x
          using read_body_rune [OF Some False]
            read_body_u_escape [where n = "0x2028"] read_body_u_escape [where n = "0x2029"]
          by (auto simp: esc_rune_def utf8_of_seps)
        with IH False e z show ?thesis by simp
      qed
    qed
  qed
qed

lemma read_elem_json_string: "read_elem (json_string s @ t) = Some (sanitize s, t)"
  using read_body_esc_body [of s t]
  by (simp add: read_elem_def json_string_def has_prefix_def)

lemma skip_ws_json_string [simp]: "skip_ws (json_string s @ t) = json_string s @ t"
  by (simp add: skip_ws_def json_string_def is_ws_def)

lemma read_elems_join:
  "ls \<noteq> [] \<Longrightarrow>
     read_elems (join_with '','' (map json_string ls) @ '']'' @ t) = Some (map sanitize ls, t)"
proof (induction ls)
  case (Cons l ls)
  show ?case
  proof (cases ls)
    case Nil
    then show ?thesis
      by (subst read_elems.simps)
        (simp add: read_elem_json_string skip_ws_def [of "_ # _"] is_ws_def)
  next
    case (Cons k ks)
    with Cons.IH show ?thesis
      by (subst read_elems.simps)
        (simp add: read_elem_json_string skip_ws_def [of "_ # _"] is_ws_def)
  qed
qed simp

lemma decodeLabels_encodeLabels: "decodeLabels (encodeLabels ls) = Some (map sanitize ls)"
proof (cases ls)
  case Nil
  then show ?thesis
    by (simp add: encodeLabels_def decodeLabels_def skip_ws_def is_ws_def has_prefix_def)
next
  case (Cons l ks)
  obtain r where r: "join_with '','' (map json_string ls) @ '']'' = CHR 0x22 # r"
    using Cons by (cases ks) (auto simp: json_string_def)
  have "encodeLabels ls = CHR ''['' # CHR 0x22 # r"
    using Cons r by (simp add: encodeLabels_def)
  moreover have "read_elems (CHR 0x22 # r) = Some (map sanitize ls, [])"
    using read_elems_join [of ls "[]"] Cons r by simp
  ultimately show ?thesis
    by (simp add: decodeLabels_def skip_ws_def is_ws_def has_prefix_def)
qed

lemma decodeLabels_encodeLabels_valid:
  "list_all valid_utf8 ls \<Longrightarrow> decodeLabels (encodeLabels ls) = Some ls"
  by (induction ls) (auto simp: decodeLabels_encodeLabels sanitize_valid)

lemma decodeLabels_object: "decodeLabels ''{}'' = None"
  by (simp add: decodeLabels_def skip_ws_def is_ws_def has_prefix_def)

section \<open>Quoted strings\<close>

text \<open>\<open>strconv.Quote\<close>; bytes above 7F are kept, as those of printable characters are.\<close>

definition quote_char :: "char \<Rightarrow> string" where
  "quote_char c =
     (if c = CHR 0x22 \<or> c = CHR 92 then [CHR 92, c]
      else if c = CHR 7 then CHR 92 # ''a'' else if c = CHR 8 then CHR 92 # ''b''
      else if c = CHR 12 then CHR 92 # ''f'' else if c = CHR 10 then CHR 92 # ''n''
      else if c = CHR 13 then CHR 92 # ''r'' else if c = CHR 9 then CHR 92 # ''t''
      else if c = CHR 11 then CHR 92 # ''v''
      else if (of_char c :: nat) < 32 \<or> of_char c = (127 :: nat)
        then CHR 92 # CHR ''x'' # [hex_dig (of_char c div 16), hex_dig (of_char c mod 16)]
      else [c])"

definition go_quote :: "string \<Rightarrow> string" where
  "go_quote s = CHR 0x22 # concat (map quote_char s) @ [CHR 0x22]"

end
