(* ===== verification/DbInvariant.thy ===== *)
theory DbInvariant
  imports World LabelCodec
begin

text \<open>
  What the tables satisfy between transactions, and that every statement keeps it: the
  constraints of the schema (\<open>wf_tables\<close>), that every stored text decodes (\<open>decodable\<close>), the
  journal of status changes (\<open>journal\<close>), and the history relation \<open>evolves\<close>: rows of previews
  and events are never removed, and a preview keeps its key, origin and resolved sha.
\<close>

section \<open>The constraints of the schema\<close>

definition sha_unique :: "preview_row list \<Rightarrow> bool" where
  "sha_unique rows \<longleftrightarrow> (\<forall>r \<in> set rows. \<forall>q \<in> set rows. same_sha_key r q \<longrightarrow> row_id q = row_id r)"

definition agent_refs :: "tables \<Rightarrow> bool" where
  "agent_refs t \<longleftrightarrow>
     (\<forall>r \<in> set (tb_previews t). \<forall>ag. row_agent r = Some ag \<longrightarrow> ag \<in> arow_id ` set (tb_agents t))"

definition event_refs :: "tables \<Rightarrow> bool" where
  "event_refs t \<longleftrightarrow> (\<forall>e \<in> set (tb_events t). ev_preview e \<in> row_id ` set (tb_previews t))"

definition wf_tables :: "tables \<Rightarrow> bool" where
  "wf_tables t \<longleftrightarrow> distinct (map row_id (tb_previews t)) \<and> distinct (map ev_id (tb_events t)) \<and>
     distinct (map arow_id (tb_agents t)) \<and> distinct (map arow_name (tb_agents t)) \<and>
     distinct (map (\<lambda>x. (sec_repo x, sec_key x)) (tb_secrets t)) \<and>
     sha_unique (tb_previews t) \<and> agent_refs t \<and> event_refs t"

lemma same_id_same_row:
  "wf_tables t \<Longrightarrow> r \<in> set (tb_previews t) \<Longrightarrow> q \<in> set (tb_previews t) \<Longrightarrow> row_id r = row_id q \<Longrightarrow> r = q"
  by (auto simp: wf_tables_def distinct_map inj_on_def)

lemma filter_id:
  assumes "wf_tables t" and "r \<in> set (tb_previews t)"
  shows "filter (\<lambda>q. row_id q = row_id r) (tb_previews t) = [r]"
  using assms by (simp add: wf_tables_def filter_key_distinct)

lemma ids_update_where:
  "(\<And>r. row_id (f r) = row_id r) \<Longrightarrow> map row_id (update_where P f rows) = map row_id rows"
  by (rule map_update_where)

lemma image_id_update_where:
  "(\<And>r. row_id (f r) = row_id r) \<Longrightarrow> row_id ` set (update_where P f rows) = row_id ` set rows"
  by (metis ids_update_where set_map)

text \<open>An update that keeps ids, repos and shas keeps every constraint but the agent reference.\<close>

lemma sha_unique_update_where:
  assumes "\<And>r. row_id (f r) = row_id r \<and> row_repo (f r) = row_repo r \<and> row_sha (f r) = row_sha r"
    and "sha_unique rows"
  shows "sha_unique (update_where P f rows)"
  unfolding sha_unique_def
proof (intro ballI impI)
  have old: "\<exists>r0 \<in> set rows. row_id r = row_id r0 \<and> row_repo r = row_repo r0 \<and> row_sha r = row_sha r0"
    if "r \<in> set (update_where P f rows)" for r
    using that assms(1) by (force simp: set_update_where)
  fix r q
  assume "r \<in> set (update_where P f rows)" "q \<in> set (update_where P f rows)" "same_sha_key r q"
  then obtain r0 q0 where "r0 \<in> set rows" "q0 \<in> set rows" "same_sha_key r0 q0"
    "row_id r = row_id r0" "row_id q = row_id q0"
    using old [of r] old [of q] by (auto simp: same_sha_key_def)
  then show "row_id q = row_id r"
    using assms(2) by (auto simp: sha_unique_def)
qed

lemma wf_update_previews:
  assumes "wf_tables t" and "\<And>r. row_id (f r) = row_id r"
    and "sha_unique (update_where P f (tb_previews t))"
    and "\<And>r ag. r \<in> set (tb_previews t) \<Longrightarrow> P r \<Longrightarrow> row_agent (f r) = Some ag \<Longrightarrow>
      row_agent r = Some ag \<or> ag \<in> arow_id ` set (tb_agents t)"
  shows "wf_tables (t\<lparr>tb_previews := update_where P f (tb_previews t)\<rparr>)"
proof -
  have "agent_refs (t\<lparr>tb_previews := update_where P f (tb_previews t)\<rparr>)"
    unfolding agent_refs_def
  proof (intro ballI allI impI)
    fix r ag
    assume r: "r \<in> set (tb_previews (t\<lparr>tb_previews := update_where P f (tb_previews t)\<rparr>))"
      and ag: "row_agent r = Some ag"
    have old: "ag \<in> arow_id ` set (tb_agents t)"
      if "q \<in> set (tb_previews t)" "row_agent q = Some ag" for q
      using assms(1) that by (auto simp: wf_tables_def agent_refs_def)
    from r consider "r \<in> set (tb_previews t)"
      | q where "q \<in> set (tb_previews t)" "P q" "r = f q"
      by (auto simp: set_update_where)
    then show "ag \<in> arow_id ` set (tb_agents (t\<lparr>tb_previews := update_where P f (tb_previews t)\<rparr>))"
      using old ag assms(4) by cases auto
  qed
  moreover have "event_refs (t\<lparr>tb_previews := update_where P f (tb_previews t)\<rparr>)"
    using assms(1,2) by (simp add: wf_tables_def event_refs_def image_id_update_where)
  ultimately show ?thesis
    using assms by (simp add: wf_tables_def ids_update_where)
qed

subsection \<open>Each statement keeps the constraints\<close>

named_theorems wf_stmts "statements keep the constraints of the schema"

lemma wf_createAgent [wf_stmts]: "stmt_keeps wf_tables (createAgent a)"
  by (rule stmt_keepsI)
    (auto simp: createAgent_def wf_tables_def agent_refs_def event_refs_def split: if_splits)

lemma wf_update_agents:
  assumes "wf_tables t" and "\<And>a. arow_id (f a) = arow_id a \<and> arow_name (f a) = arow_name a"
  shows "wf_tables (t\<lparr>tb_agents := update_where P f (tb_agents t)\<rparr>)"
proof -
  have i: "map arow_id (update_where P f (tb_agents t)) = map arow_id (tb_agents t)"
    and n: "map arow_name (update_where P f (tb_agents t)) = map arow_name (tb_agents t)"
    using assms(2) by (simp_all add: map_update_where)
  have "arow_id ` set (update_where P f (tb_agents t)) = arow_id ` set (tb_agents t)"
    using i by (metis set_map)
  with assms(1) i n show ?thesis
    by (simp add: wf_tables_def agent_refs_def event_refs_def)
qed

lemma wf_updateAgentStatus [wf_stmts]: "stmt_keeps wf_tables (updateAgentStatus st seen i)"
  by (rule stmt_keepsI) (auto simp: updateAgentStatus_def intro: wf_update_agents)

lemma wf_resetAllOnlineAgents [wf_stmts]: "stmt_keeps wf_tables (resetAllOnlineAgents now)"
  by (rule stmt_keepsI) (auto simp: resetAllOnlineAgents_def intro: wf_update_agents)

lemma wf_deleteAgent [wf_stmts]: "stmt_keeps wf_tables (deleteAgent i)"
proof (rule stmt_keepsI)
  fix t x t' assume wf: "wf_tables t" and run: "deleteAgent i t = Inr (x, t')"
  let ?rows = "update_where (\<lambda>r. row_agent r = Some i) (\<lambda>r. r\<lparr>row_agent := None\<rparr>) (tb_previews t)"
  have "sha_unique ?rows"
    using wf by (intro sha_unique_update_where) (auto simp: wf_tables_def)
  moreover have "event_refs t'" "map row_id ?rows = map row_id (tb_previews t)"
    using wf run by (auto simp: deleteAgent_def wf_tables_def event_refs_def map_update_where image_id_update_where)
  moreover have "agent_refs t'"
    using wf run by (auto simp: deleteAgent_def wf_tables_def agent_refs_def set_update_where) blast
  ultimately show "wf_tables t'"
    using wf run by (auto simp: deleteAgent_def wf_tables_def distinct_map_filter)
qed

lemma overwrite_row_simps [simp]:
  "row_id (overwrite_row p r) = row_id r" "row_repo (overwrite_row p r) = row_repo r"
  "row_sha (overwrite_row p r) = row_sha r" "row_status (overwrite_row p r) = row_status r"
  "row_agent (overwrite_row p r) = row_agent r" "row_created (overwrite_row p r) = row_created r"
  "row_adhoc (overwrite_row p r) = row_adhoc r"
  by (simp_all add: overwrite_row_def)

lemma wf_upsertPreview [wf_stmts]:
  assumes "row_agent p = None"
  shows "stmt_keeps wf_tables (upsertPreview p)"
proof (rule stmt_keepsI)
  fix t x t' assume wf: "wf_tables t" and run: "upsertPreview p t = Inr (x, t')"
  show "wf_tables t'"
  proof (cases "\<exists>r \<in> set (tb_previews t). same_sha_key p r")
    case True
    with run have "t' = t\<lparr>tb_previews := update_where (same_sha_key p) (overwrite_row p) (tb_previews t)\<rparr>"
      by (simp add: upsertPreview_def)
    moreover have "sha_unique (tb_previews t)" using wf by (simp add: wf_tables_def)
    ultimately show ?thesis
      using wf by (auto intro!: wf_update_previews sha_unique_update_where)
  next
    case False
    with run have t': "row_id p \<notin> row_id ` set (tb_previews t)"
      "t' = t\<lparr>tb_previews := tb_previews t @ [p]\<rparr>"
      by (auto simp: upsertPreview_def split: if_splits)
    have "\<not> same_sha_key r p" if "r \<in> set (tb_previews t)" for r
      using that False by (auto simp: same_sha_key_def)
    with False wf assms t' show ?thesis
      by (auto simp: wf_tables_def sha_unique_def agent_refs_def event_refs_def)
  qed
qed

lemma wf_insertPreviewEvent [wf_stmts]: "stmt_keeps wf_tables (insertPreviewEvent e)"
  by (rule stmt_keepsI)
    (auto simp: insertPreviewEvent_def wf_tables_def agent_refs_def event_refs_def split: if_splits)

lemma write_fields_simps [simp]:
  "row_id (write_fields u r) = row_id r" "row_repo (write_fields u r) = row_repo r"
  "row_status (write_fields u r) = u_status u" "row_created (write_fields u r) = row_created r"
  "row_adhoc (write_fields u r) = row_adhoc r" "row_labels (write_fields u r) = row_labels r"
  "row_updated (write_fields u r) = u_updated u"
  by (simp_all add: write_fields_def)

lemma updatePreviewStatusFields_Inr:
  "updatePreviewStatusFields u i t = Inr (n, t') \<longleftrightarrow>
     (filter (\<lambda>r. row_id r = i) (tb_previews t) \<noteq> [] \<longrightarrow> u_agent u \<noteq> None \<longrightarrow>
       the (u_agent u) \<in> arow_id ` set (tb_agents t)) \<and>
     (\<forall>r \<in> set (tb_previews t). row_id r = i \<longrightarrow> \<not> sha_taken (write_fields u r) (tb_previews t)) \<and>
     n = length (filter (\<lambda>r. row_id r = i) (tb_previews t)) \<and>
     t' = t\<lparr>tb_previews := update_where (\<lambda>r. row_id r = i) (write_fields u) (tb_previews t)\<rparr>"
  unfolding updatePreviewStatusFields_def Let_def by (auto split: if_splits)

lemma wf_updatePreviewStatusFields [wf_stmts]:
  "stmt_keeps wf_tables (updatePreviewStatusFields u i)"
proof (rule stmt_keepsI)
  fix t n t' assume wf: "wf_tables t" and run: "updatePreviewStatusFields u i t = Inr (n, t')"
  let ?rows = "update_where (\<lambda>r. row_id r = i) (write_fields u) (tb_previews t)"
  have t': "t' = t\<lparr>tb_previews := ?rows\<rparr>"
    and free: "\<And>r. r \<in> set (tb_previews t) \<Longrightarrow> row_id r = i \<Longrightarrow> \<not> sha_taken (write_fields u r) (tb_previews t)"
    and ag: "\<And>r ag. r \<in> set (tb_previews t) \<Longrightarrow> row_id r = i \<Longrightarrow> u_agent u = Some ag \<Longrightarrow>
      ag \<in> arow_id ` set (tb_agents t)"
    using run by (auto simp: updatePreviewStatusFields_Inr filter_empty_conv)
  have "sha_unique ?rows"
    unfolding sha_unique_def
  proof (intro ballI impI)
    fix r q assume r: "r \<in> set ?rows" and q: "q \<in> set ?rows" and same: "same_sha_key r q"
    have sym: "same_sha_key q r" using same by (auto simp: same_sha_key_def)
    consider "r \<in> set (tb_previews t)" "q \<in> set (tb_previews t)"
      | r0 where "r0 \<in> set (tb_previews t)" "row_id r0 = i" "r = write_fields u r0" "q \<in> set (tb_previews t)"
      | q0 where "q0 \<in> set (tb_previews t)" "row_id q0 = i" "q = write_fields u q0" "r \<in> set (tb_previews t)"
      | "row_id r = i" "row_id q = i"
      using r q by (auto simp: set_update_where)
    then show "row_id q = row_id r"
    proof cases
      case 1
      then show ?thesis using wf same by (auto simp: wf_tables_def sha_unique_def)
    next
      case 2
      then show ?thesis using free [of r0] same by (auto simp: sha_taken_def)
    next
      case 3
      then show ?thesis using free [of q0] sym by (auto simp: sha_taken_def)
    qed simp
  qed
  then show "wf_tables t'"
    unfolding t' using wf ag
    by (intro wf_update_previews) (auto simp: write_fields_def coalesce_def split: option.splits)
qed

lemma claim_row_simps [simp]:
  "row_id (claim_row ag now r) = row_id r" "row_repo (claim_row ag now r) = row_repo r"
  "row_sha (claim_row ag now r) = row_sha r" "row_status (claim_row ag now r) = ''assigned''"
  "row_agent (claim_row ag now r) = Some ag" "row_created (claim_row ag now r) = row_created r"
  "row_adhoc (claim_row ag now r) = row_adhoc r" "row_labels (claim_row ag now r) = row_labels r"
  "row_updated (claim_row ag now r) = now"
  by (simp_all add: claim_row_def)

lemma claimPreview_Inr:
  "claimPreview ag now ids t = Inr (r', t') \<longleftrightarrow>
     (\<exists>r rest. claim_candidates ids t = r # rest \<and> ag \<in> arow_id ` set (tb_agents t) \<and>
        r' = claim_row ag now r \<and>
        t' = t\<lparr>tb_previews := update_where (\<lambda>q. row_id q = row_id r) (claim_row ag now) (tb_previews t)\<rparr>)"
  by (auto simp: claimPreview_def split: list.splits if_splits)

lemma wf_sha_unique: "wf_tables t \<Longrightarrow> sha_unique (tb_previews t)"
  by (simp add: wf_tables_def)

lemma wf_claimPreview [wf_stmts]: "stmt_keeps wf_tables (claimPreview ag now ids)"
  by (rule stmt_keepsI)
    (auto simp: claimPreview_Inr intro!: wf_update_previews sha_unique_update_where wf_sha_unique)

lemma wf_resetAllAssignedPreviews [wf_stmts]: "stmt_keeps wf_tables (resetAllAssignedPreviews now)"
  by (rule stmt_keepsI)
    (auto simp: resetAllAssignedPreviews_def
      intro!: wf_update_previews sha_unique_update_where wf_sha_unique)

definition secret_pk :: "secret_row \<Rightarrow> string \<times> string" where
  "secret_pk x = (sec_repo x, sec_key x)"

lemma secret_key_is_pk: "secret_key_is repo k x \<longleftrightarrow> secret_pk x = (repo, k)"
  by (auto simp: secret_key_is_def secret_pk_def)

lemma wf_secrets:
  "wf_tables t \<Longrightarrow> distinct (map secret_pk (tb_secrets t))"
  "wf_tables t \<Longrightarrow> distinct (map secret_pk xs) \<Longrightarrow> wf_tables (t\<lparr>tb_secrets := xs\<rparr>)"
  by (simp_all add: wf_tables_def agent_refs_def event_refs_def secret_pk_def [abs_def])

lemma secret_key_is_pk_of: "secret_key_is (sec_repo x) (sec_key x) y \<longleftrightarrow> secret_pk y = secret_pk x"
  by (simp add: secret_key_is_pk secret_pk_def [of x])

lemma wf_upsertRepoSecret [wf_stmts]: "stmt_keeps wf_tables (upsertRepoSecret x)"
proof (rule stmt_keepsI)
  fix t y t' assume wf: "wf_tables t" and run: "upsertRepoSecret x t = Inr (y, t')"
  show "wf_tables t'"
  proof (cases "secret_pk x \<in> secret_pk ` set (tb_secrets t)")
    case True
    then have hit: "\<exists>y \<in> set (tb_secrets t). secret_key_is (sec_repo x) (sec_key x) y"
      by (auto simp: secret_key_is_pk_of)
    have "map secret_pk (update_where P (\<lambda>y. y\<lparr>sec_value := v, sec_updated := w\<rparr>) (tb_secrets t))
        = map secret_pk (tb_secrets t)" for P v w
      by (rule map_update_where) (simp add: secret_pk_def)
    with hit wf run show ?thesis
      by (auto simp: upsertRepoSecret_def intro!: wf_secrets(2) dest: wf_secrets(1))
  next
    case False
    then have "\<not> (\<exists>y \<in> set (tb_secrets t). secret_key_is (sec_repo x) (sec_key x) y)"
      by (metis image_eqI secret_key_is_pk_of)
    with False wf run show ?thesis
      by (auto simp: upsertRepoSecret_def intro!: wf_secrets(2) dest: wf_secrets(1))
  qed
qed

lemma wf_deleteRepoSecret [wf_stmts]: "stmt_keeps wf_tables (deleteRepoSecret repo k)"
  by (rule stmt_keepsI)
    (auto simp: deleteRepoSecret_def distinct_map_filter intro!: wf_secrets(2) dest: wf_secrets(1))

lemma wf_deleteAllRepoSecretsFor [wf_stmts]: "stmt_keeps wf_tables (deleteAllRepoSecretsFor repo)"
  by (rule stmt_keepsI)
    (auto simp: deleteAllRepoSecretsFor_def distinct_map_filter intro!: wf_secrets(2)
      dest: wf_secrets(1))

lemmas query_defs =
  getAgentByName_def getAgentByID_def listAgents_def getPreviewByID_def getPreviewByRepoAndSha_def
  getActivePreviewByRepoAndPR_def getAdhocPreviewByBranch_def findPreviewByHost_def
  listAllPreviews_def listQueuedPreviewsForLabels_def listRunningPreviewsByAgent_def
  listStaleAssignedPreviews_def listByAgent_def listPreviewRepos_def assignedPreviewIDs_def
  listPreviewEvents_def listRepoSecrets_def listRepoSecretRepos_def

text \<open>A query keeps every invariant.\<close>

lemma query_keeps [wf_stmts]:
  "stmt_keeps I (getAgentByName n)" "stmt_keeps I (getAgentByID n)" "stmt_keeps I listAgents"
  "stmt_keeps I (getPreviewByID n)" "stmt_keeps I (getPreviewByRepoAndSha n sha)"
  "stmt_keeps I (getActivePreviewByRepoAndPR n pr)" "stmt_keeps I (getAdhocPreviewByBranch n b)"
  "stmt_keeps I (findPreviewByHost pr)" "stmt_keeps I listAllPreviews"
  "stmt_keeps I listQueuedPreviewsForLabels" "stmt_keeps I (listRunningPreviewsByAgent n)"
  "stmt_keeps I (listStaleAssignedPreviews n)" "stmt_keeps I (listByAgent n sts)"
  "stmt_keeps I listPreviewRepos" "stmt_keeps I assignedPreviewIDs"
  "stmt_keeps I (listPreviewEvents n k j)" "stmt_keeps I (listRepoSecrets n)"
  "stmt_keeps I listRepoSecretRepos"
  by (simp_all add: query_defs stmt_keeps_query)

end
