(* ===== verification/DbHistory.thy ===== *)
theory DbHistory
  imports DbInvariant
begin

text \<open>
  What the tables remember. \<open>decodable\<close>: every stored label list and time reads back.
  \<open>journal\<close>: the events of a preview, in insertion order, are the chain of its status
  changes, from its birth as queued to its present status. \<open>evolves\<close>: events are only
  appended, no preview disappears, and its repo, creation time, origin and once-known commit
  never change.
\<close>

section \<open>Decodable rows\<close>

definition decodable_preview :: "preview_row \<Rightarrow> bool" where
  "decodable_preview r \<longleftrightarrow> decodeLabels (row_labels r) \<noteq> None \<and>
     parse_time (row_created r) \<noteq> None \<and> parse_time (row_updated r) \<noteq> None"

definition decodable_agent :: "agent_row \<Rightarrow> bool" where
  "decodable_agent a \<longleftrightarrow> decodeLabels (arow_labels a) \<noteq> None \<and> parse_time (arow_created a) \<noteq> None \<and>
     (\<forall>x. arow_last_seen a = Some x \<longrightarrow> parse_time x \<noteq> None)"

definition decodable :: "tables \<Rightarrow> bool" where
  "decodable t \<longleftrightarrow> (\<forall>r \<in> set (tb_previews t). decodable_preview r) \<and>
     (\<forall>a \<in> set (tb_agents t). decodable_agent a) \<and>
     (\<forall>e \<in> set (tb_events t). parse_time (ev_created e) \<noteq> None) \<and>
     (\<forall>x \<in> set (tb_secrets t). parse_time (sec_updated x) \<noteq> None)"

named_theorems dec_stmts "statements keep the stored texts decodable"

lemma dec_createAgent [dec_stmts]: "decodable_agent a \<Longrightarrow> stmt_keeps decodable (createAgent a)"
  by (rule stmt_keepsI) (auto simp: createAgent_def decodable_def split: if_splits)

lemma dec_updateAgentStatus [dec_stmts]:
  "(\<And>x. seen = Some x \<Longrightarrow> parse_time x \<noteq> None) \<Longrightarrow>
     stmt_keeps decodable (updateAgentStatus st seen i)"
  by (rule stmt_keepsI)
    (auto simp: updateAgentStatus_def decodable_def set_update_where decodable_agent_def)

lemma dec_resetAllOnlineAgents [dec_stmts]:
  "parse_time now \<noteq> None \<Longrightarrow> stmt_keeps decodable (resetAllOnlineAgents now)"
  by (rule stmt_keepsI)
    (auto simp: resetAllOnlineAgents_def decodable_def set_update_where decodable_agent_def)

lemma dec_deleteAgent [dec_stmts]: "stmt_keeps decodable (deleteAgent i)"
  by (rule stmt_keepsI)
    (auto simp: deleteAgent_def decodable_def set_update_where decodable_preview_def)

lemma dec_upsertPreview [dec_stmts]:
  "decodable_preview p \<Longrightarrow> stmt_keeps decodable (upsertPreview p)"
  by (rule stmt_keepsI)
    (auto simp: upsertPreview_def decodable_def set_update_where decodable_preview_def
      overwrite_row_def split: if_splits)

lemma dec_insertPreviewEvent [dec_stmts]:
  "parse_time (ev_created e) \<noteq> None \<Longrightarrow> stmt_keeps decodable (insertPreviewEvent e)"
  by (rule stmt_keepsI) (auto simp: insertPreviewEvent_def decodable_def split: if_splits)

lemma dec_updatePreviewStatusFields [dec_stmts]:
  "parse_time (u_updated u) \<noteq> None \<Longrightarrow> stmt_keeps decodable (updatePreviewStatusFields u i)"
  by (rule stmt_keepsI)
    (auto simp: updatePreviewStatusFields_Inr decodable_def set_update_where decodable_preview_def)

lemma dec_claimPreview [dec_stmts]:
  "parse_time now \<noteq> None \<Longrightarrow> stmt_keeps decodable (claimPreview ag now ids)"
  by (rule stmt_keepsI)
    (auto simp: claimPreview_Inr decodable_def set_update_where decodable_preview_def)

lemma dec_resetAllAssignedPreviews [dec_stmts]:
  "parse_time now \<noteq> None \<Longrightarrow> stmt_keeps decodable (resetAllAssignedPreviews now)"
  by (rule stmt_keepsI)
    (auto simp: resetAllAssignedPreviews_def decodable_def set_update_where decodable_preview_def)

lemma dec_upsertRepoSecret [dec_stmts]:
  "parse_time (sec_updated x) \<noteq> None \<Longrightarrow> stmt_keeps decodable (upsertRepoSecret x)"
  by (rule stmt_keepsI) (auto simp: upsertRepoSecret_def decodable_def set_update_where split: if_splits)

lemma dec_deleteRepoSecret [dec_stmts]: "stmt_keeps decodable (deleteRepoSecret repo k)"
  by (rule stmt_keepsI) (auto simp: deleteRepoSecret_def decodable_def)

lemma dec_deleteAllRepoSecretsFor [dec_stmts]: "stmt_keeps decodable (deleteAllRepoSecretsFor repo)"
  by (rule stmt_keepsI) (auto simp: deleteAllRepoSecretsFor_def decodable_def)

section \<open>The journal of status changes\<close>

text \<open>The events lead from a status (None before the birth) to a status.\<close>

fun follows :: "string option \<Rightarrow> event_row list \<Rightarrow> string \<Rightarrow> bool" where
  "follows cur [] fin \<longleftrightarrow> cur = Some fin"
| "follows cur (e # es) fin \<longleftrightarrow>
     ev_from e = cur \<and> (cur = None \<longrightarrow> ev_to e = ''queued'') \<and> follows (Some (ev_to e)) es fin"

lemma follows_snoc:
  "follows cur es st \<Longrightarrow> ev_from e = Some st \<Longrightarrow> follows cur (es @ [e]) (ev_to e)"
  by (induction es arbitrary: cur) auto

definition journal :: "tables \<Rightarrow> bool" where
  "journal t \<longleftrightarrow>
     (\<forall>r \<in> set (tb_previews t). follows None (events_of t (row_id r)) (row_status r))"

lemma events_of_append:
  "tb_events t' = tb_events t @ es \<Longrightarrow>
     events_of t' i = events_of t i @ filter (\<lambda>e. ev_preview e = i) es"
  by (simp add: events_of_def)

lemma journal_same:
  assumes "journal t" and "tb_events t' = tb_events t"
    and "\<And>r. r \<in> set (tb_previews t') \<Longrightarrow>
      \<exists>q \<in> set (tb_previews t). row_id q = row_id r \<and> row_status q = row_status r"
  shows "journal t'"
  unfolding journal_def
proof
  fix r assume "r \<in> set (tb_previews t')"
  with assms(3) obtain q where "q \<in> set (tb_previews t)" "row_id q = row_id r" "row_status q = row_status r"
    by blast
  with assms(1,2) show "follows None (events_of t' (row_id r)) (row_status r)"
    by (auto simp: journal_def events_of_def)
qed

text \<open>A status write over some rows, with one event for each of them.\<close>

lemma journal_move:
  assumes j: "journal t"
    and rows: "tb_previews t' = update_where P f (tb_previews t)"
    and es: "tb_events t' = tb_events t @ es"
    and f: "\<And>r. row_id (f r) = row_id r"
    and moved: "\<And>r. r \<in> set (tb_previews t) \<Longrightarrow> P r \<Longrightarrow>
      \<exists>e. filter (\<lambda>e. ev_preview e = row_id r) es = [e] \<and> ev_from e = Some (row_status r) \<and>
        ev_to e = row_status (f r)"
    and other: "\<And>r. r \<in> set (tb_previews t) \<Longrightarrow> \<not> P r \<Longrightarrow> filter (\<lambda>e. ev_preview e = row_id r) es = []"
  shows "journal t'"
  unfolding journal_def
proof
  fix r' assume "r' \<in> set (tb_previews t')"
  then obtain r where r: "r \<in> set (tb_previews t)" and r': "r' = (if P r then f r else r)"
    by (auto simp: rows update_where_def)
  have base: "follows None (events_of t (row_id r)) (row_status r)"
    using j r by (auto simp: journal_def)
  have ev: "events_of t' (row_id r) = events_of t (row_id r) @ filter (\<lambda>e. ev_preview e = row_id r) es"
    by (rule events_of_append [OF es])
  show "follows None (events_of t' (row_id r')) (row_status r')"
  proof (cases "P r")
    case True
    with moved [OF r] obtain e where "filter (\<lambda>e. ev_preview e = row_id r) es = [e]"
      "ev_from e = Some (row_status r)" "ev_to e = row_status (f r)" by blast
    with follows_snoc [OF base] ev r' True f show ?thesis by simp metis
  next
    case False
    with other [OF r] ev r' base show ?thesis by simp
  qed
qed

text \<open>The birth of a preview.\<close>

lemma journal_birth:
  assumes "journal t" and "event_refs t" and "row_id p \<notin> row_id ` set (tb_previews t)"
    and "tb_previews t' = tb_previews t @ [p]" and "tb_events t' = tb_events t @ [e]"
    and "ev_preview e = row_id p" and "ev_from e = None" and "ev_to e = ''queued''"
    and "row_status p = ''queued''"
  shows "journal t'"
proof -
  have "events_of t (row_id p) = []"
    using assms(2,3) unfolding events_of_def event_refs_def filter_empty_conv by metis
  then show ?thesis
    using assms unfolding journal_def
    by (auto simp: events_of_append [OF assms(5)])
qed

named_theorems journal_stmts "statements that leave statuses and events alone"

definition statuses :: "tables \<Rightarrow> (string \<times> string) set" where
  "statuses t = (\<lambda>r. (row_id r, row_status r)) ` set (tb_previews t)"

lemma journal_stmtI:
  assumes "\<And>t x t'. st t = Inr (x, t') \<Longrightarrow> tb_events t' = tb_events t \<and> statuses t' \<subseteq> statuses t"
  shows "stmt_keeps journal st"
proof (rule stmt_keepsI)
  fix t x t' assume j: "journal t" and run: "st t = Inr (x, t')"
  show "journal t'"
  proof (rule journal_same [OF j])
    show "tb_events t' = tb_events t" using assms [OF run] by simp
    fix r assume "r \<in> set (tb_previews t')"
    then have "(row_id r, row_status r) \<in> statuses t"
      using assms [OF run] by (auto simp: statuses_def)
    then show "\<exists>q \<in> set (tb_previews t). row_id q = row_id r \<and> row_status q = row_status r"
      by (auto simp: statuses_def)
  qed
qed

lemma journal_createAgent [journal_stmts]: "stmt_keeps journal (createAgent a)"
  by (rule journal_stmtI) (auto simp: createAgent_def statuses_def split: if_splits)

lemma journal_updateAgentStatus [journal_stmts]: "stmt_keeps journal (updateAgentStatus st seen i)"
  by (rule journal_stmtI) (auto simp: updateAgentStatus_def statuses_def)

lemma journal_resetAllOnlineAgents [journal_stmts]: "stmt_keeps journal (resetAllOnlineAgents now)"
  by (rule journal_stmtI) (auto simp: resetAllOnlineAgents_def statuses_def)

lemma journal_deleteAgent [journal_stmts]: "stmt_keeps journal (deleteAgent i)"
  by (rule journal_stmtI) (auto simp: deleteAgent_def set_update_where statuses_def)

lemma journal_upsertRepoSecret [journal_stmts]: "stmt_keeps journal (upsertRepoSecret x)"
  by (rule journal_stmtI) (auto simp: upsertRepoSecret_def statuses_def)

lemma journal_deleteRepoSecret [journal_stmts]: "stmt_keeps journal (deleteRepoSecret repo k)"
  by (rule journal_stmtI) (auto simp: deleteRepoSecret_def statuses_def)

lemma journal_deleteAllRepoSecretsFor [journal_stmts]:
  "stmt_keeps journal (deleteAllRepoSecretsFor repo)"
  by (rule journal_stmtI) (auto simp: deleteAllRepoSecretsFor_def statuses_def)

section \<open>History\<close>

definition same_preview :: "preview_row \<Rightarrow> preview_row \<Rightarrow> bool" where
  "same_preview r r' \<longleftrightarrow> row_id r' = row_id r \<and> row_repo r' = row_repo r \<and>
     row_created r' = row_created r \<and> row_adhoc r' = row_adhoc r \<and>
     (row_sha r \<noteq> None \<longrightarrow> row_sha r' = row_sha r)"

definition evolves :: "tables \<Rightarrow> tables \<Rightarrow> bool" where
  "evolves t t' \<longleftrightarrow> (\<exists>es. tb_events t' = tb_events t @ es) \<and>
     (\<forall>r \<in> set (tb_previews t). \<exists>r' \<in> set (tb_previews t'). same_preview r r')"

lemma same_preview_refl [simp]: "same_preview r r"
  by (simp add: same_preview_def)

lemma evolves_refl [simp]: "evolves t t"
  using same_preview_refl unfolding evolves_def by blast

lemma same_preview_trans: "same_preview r q \<Longrightarrow> same_preview q p \<Longrightarrow> same_preview r p"
  by (auto simp: same_preview_def)

lemma evolves_trans:
  assumes tu: "evolves t u" and uv: "evolves u v"
  shows "evolves t v"
  unfolding evolves_def
proof
  from tu uv obtain es es' where "tb_events u = tb_events t @ es" "tb_events v = tb_events u @ es'"
    by (auto simp: evolves_def)
  then have "tb_events v = tb_events t @ (es @ es')" by simp
  then show "\<exists>es. tb_events v = tb_events t @ es" by blast
  show "\<forall>r \<in> set (tb_previews t). \<exists>r' \<in> set (tb_previews v). same_preview r r'"
    using tu uv same_preview_trans unfolding evolves_def by meson
qed

definition history :: "hub \<Rightarrow> hub \<Rightarrow> bool" where
  "history s s' \<longleftrightarrow> evolves (tabs s) (tabs s')"

interpretation hist: contract history
  by unfold_locales (auto simp: history_def intro: evolves_trans)

definition stmt_evolves :: "'a stmt \<Rightarrow> bool" where
  "stmt_evolves st \<longleftrightarrow> (\<forall>t x t'. st t = Inr (x, t') \<longrightarrow> evolves t t')"

named_theorems hist_stmts "statements that respect the history"

lemma evolves_rows:
  assumes "tb_events t' = tb_events t" and "tb_previews t' = update_where P f (tb_previews t) @ new"
    and "\<And>r. same_preview r (f r)"
  shows "evolves t t'"
  unfolding evolves_def
proof (intro conjI ballI)
  show "\<exists>es. tb_events t' = tb_events t @ es" using assms(1) by simp
  fix r assume "r \<in> set (tb_previews t)"
  then have "(if P r then f r else r) \<in> set (tb_previews t')"
    by (simp add: assms(2) set_update_where)
  moreover have "same_preview r (if P r then f r else r)"
    using assms(3) by simp
  ultimately show "\<exists>r' \<in> set (tb_previews t'). same_preview r r'" by blast
qed

lemma evolves_no_rows:
  "tb_events t' = tb_events t @ es \<Longrightarrow> tb_previews t' = tb_previews t \<Longrightarrow> evolves t t'"
  using same_preview_refl unfolding evolves_def by metis

lemma stmt_evolvesI: "(\<And>t x t'. st t = Inr (x, t') \<Longrightarrow> evolves t t') \<Longrightarrow> stmt_evolves st"
  by (auto simp: stmt_evolves_def)

lemma evolves_agent_stmts [hist_stmts]:
  "stmt_evolves (createAgent a)" "stmt_evolves (updateAgentStatus st seen i)"
  "stmt_evolves (resetAllOnlineAgents now)" "stmt_evolves (upsertRepoSecret x)"
  "stmt_evolves (deleteRepoSecret repo k)" "stmt_evolves (deleteAllRepoSecretsFor repo)"
  by (rule stmt_evolvesI;
      auto simp: createAgent_def updateAgentStatus_def resetAllOnlineAgents_def
        upsertRepoSecret_def deleteRepoSecret_def deleteAllRepoSecretsFor_def
        intro!: evolves_no_rows [where es = "[]"] split: if_splits)+

lemma evolves_deleteAgent [hist_stmts]: "stmt_evolves (deleteAgent i)"
  by (rule stmt_evolvesI)
    (auto simp: deleteAgent_def same_preview_def intro!: evolves_rows [where new = "[]"])

lemma evolves_upsertPreview [hist_stmts]: "stmt_evolves (upsertPreview p)"
proof (rule stmt_evolvesI)
  fix t x t' assume run: "upsertPreview p t = Inr (x, t')"
  show "evolves t t'"
  proof (cases "\<exists>r \<in> set (tb_previews t). same_sha_key p r")
    case True
    with run show ?thesis
      by (auto simp: upsertPreview_def same_preview_def intro!: evolves_rows [where new = "[]"])
  next
    case False
    with run show ?thesis
      by (auto simp: upsertPreview_def update_where_def split: if_splits
          intro!: evolves_rows [where f = "\<lambda>r. r" and new = "[p]" and P = "\<lambda>_. False"])
  qed
qed

lemma evolves_insertPreviewEvent [hist_stmts]: "stmt_evolves (insertPreviewEvent e)"
  by (rule stmt_evolvesI)
    (auto simp: insertPreviewEvent_def split: if_splits intro!: evolves_no_rows [where es = "[e]"])

lemma evolves_updatePreviewStatusFields [hist_stmts]: "stmt_evolves (updatePreviewStatusFields u i)"
  by (rule stmt_evolvesI)
    (auto simp: updatePreviewStatusFields_Inr same_preview_def write_fields_def
      intro!: evolves_rows [where new = "[]"])

lemma evolves_claimPreview [hist_stmts]: "stmt_evolves (claimPreview ag now ids)"
  by (rule stmt_evolvesI)
    (auto simp: claimPreview_Inr same_preview_def intro!: evolves_rows [where new = "[]"])

lemma evolves_resetAllAssignedPreviews [hist_stmts]: "stmt_evolves (resetAllAssignedPreviews now)"
  by (rule stmt_evolvesI)
    (auto simp: resetAllAssignedPreviews_def same_preview_def intro!: evolves_rows [where new = "[]"])

lemma evolves_query: "stmt_evolves (query f)" "stmt_evolves (query_one g)"
  by (auto simp: stmt_evolves_def query_one_iff)

lemma evolves_queries [hist_stmts]:
  "stmt_evolves (getAgentByName n)" "stmt_evolves (getAgentByID n)" "stmt_evolves listAgents"
  "stmt_evolves (getPreviewByID n)" "stmt_evolves (getPreviewByRepoAndSha n sha)"
  "stmt_evolves (getActivePreviewByRepoAndPR n pr)" "stmt_evolves (getAdhocPreviewByBranch n b)"
  "stmt_evolves (findPreviewByHost pr)" "stmt_evolves listAllPreviews"
  "stmt_evolves listQueuedPreviewsForLabels" "stmt_evolves (listRunningPreviewsByAgent n)"
  "stmt_evolves (listStaleAssignedPreviews n)" "stmt_evolves (listByAgent n sts)"
  "stmt_evolves listPreviewRepos" "stmt_evolves assignedPreviewIDs"
  "stmt_evolves (listPreviewEvents n k j)" "stmt_evolves (listRepoSecrets n)"
  "stmt_evolves listRepoSecretRepos"
  by (simp_all add: query_defs evolves_query)

lemma history_exec: "stmt_evolves st \<Longrightarrow> obeys history (exec st)"
  by (auto simp: obeys_def history_def exec_def stmt_evolves_def split: sum.splits)

lemma history_same: "obeys tabs_same m \<Longrightarrow> obeys history m"
  by (auto simp: obeys_def tabs_same_def history_def)

lemma history_env: "obeys history new_uuid" "obeys history time_now"
  by (simp_all add: history_same tabs_same_env)

lemma history_transact:
  assumes "obeys history body"
  shows "obeys history (transact body)"
proof (rule obeysI)
  fix s r s' assume run: "transact body s = (r, s')"
  show "history s s'"
  proof (cases r)
    case (Inl e)
    with run have "tabs s' = tabs s" by (metis atomicD atomic_transact)
    then show ?thesis by (simp add: history_def)
  next
    case (Inr x)
    with run obtain s1 where "body (step_env s) = (Inr x, s1)" "tabs s' = tabs s1"
      by (auto elim: transact_InrE)
    with obeysD [OF assms] show ?thesis by (fastforce simp: history_def)
  qed
qed

named_theorems hist_rules "rules of programs that respect the history"

lemmas hist_intros [hist_rules] =
  hist.rules obeys_cases history_env history_exec history_transact obeys_attempt obeys_logged

end
