(* ===== verification/PreviewStore.thy ===== *)
theory PreviewStore
  imports DbHistory
begin

text \<open>
  internal/db/sqlite/preview_store.go: the domain \<open>Preview\<close>, its conversion from a row, and
  every operation of \<open>PreviewStore\<close>, composed from the statements as the code composes them.
\<close>

section \<open>The domain type\<close>

record Preview =
  pv_id :: string
  pv_repo :: string
  pv_pr :: int
  pv_sha :: string
  pv_branch :: string
  pv_status :: string
  pv_agent :: "string option"
  pv_container :: "string option"
  pv_host :: "string option"
  pv_port :: "int option"
  pv_clone_url :: string
  pv_urls :: string
  pv_labels :: "string list"
  pv_error :: "string option"
  pv_adhoc :: bool
  pv_created :: time
  pv_updated :: time

record PreviewFields =
  f_container :: "string option"
  f_host :: "string option"
  f_port :: "int option"
  f_urls :: "string option"
  f_error :: "string option"
  f_agent :: "string option"
  f_sha :: "string option"

text \<open>\<open>store.PreviewFields{}\<close>.\<close>

definition no_fields :: PreviewFields where
  "no_fields = \<lparr>f_container = None, f_host = None, f_port = None, f_urls = None, f_error = None,
     f_agent = None, f_sha = None\<rparr>"

record PreviewEvent =
  pe_id :: string
  pe_preview :: string
  pe_from :: "string option"
  pe_to :: string
  pe_message :: string
  pe_created :: time

definition nullStringFromCommitSha :: "string \<Rightarrow> string option" where
  "nullStringFromCommitSha s = (if s = [] then None else Some s)"

definition commitShaFromNullString :: "string option \<Rightarrow> string" where
  "commitShaFromNullString ns = (case ns of None \<Rightarrow> [] | Some s \<Rightarrow> s)"

definition boolToInt64 :: "bool \<Rightarrow> int" where
  "boolToInt64 b = (if b then 1 else 0)"

definition int64ToBool :: "int \<Rightarrow> bool" where
  "int64ToBool n \<longleftrightarrow> n \<noteq> 0"

definition previewRowToDomain :: "preview_row \<Rightarrow> store_err + Preview" where
  "previewRowToDomain r =
     (case decodeLabels (row_labels r) of
        None \<Rightarrow> Inl DecodeError
      | Some labels \<Rightarrow>
         (case parse_time (row_created r) of
            None \<Rightarrow> Inl DecodeError
          | Some created \<Rightarrow>
             (case parse_time (row_updated r) of
                None \<Rightarrow> Inl DecodeError
              | Some updated \<Rightarrow>
                  Inr \<lparr>pv_id = row_id r, pv_repo = row_repo r, pv_pr = row_pr r,
                    pv_sha = commitShaFromNullString (row_sha r), pv_branch = row_branch r,
                    pv_status = row_status r, pv_agent = row_agent r,
                    pv_container = row_container r, pv_host = row_host r, pv_port = row_port r,
                    pv_clone_url = row_clone_url r, pv_urls = row_urls r, pv_labels = labels,
                    pv_error = row_error r, pv_adhoc = int64ToBool (row_adhoc r),
                    pv_created = created, pv_updated = updated\<rparr>)))"

text \<open>The row an \<open>INSERT\<close> of \<open>Upsert\<close> writes.\<close>

definition insert_row :: "Preview \<Rightarrow> time \<Rightarrow> preview_row" where
  "insert_row p created =
     \<lparr>row_id = pv_id p, row_repo = pv_repo p, row_pr = pv_pr p,
      row_sha = nullStringFromCommitSha (pv_sha p), row_branch = pv_branch p,
      row_status = ''queued'', row_agent = None, row_container = None, row_host = None,
      row_port = None, row_labels = encodeLabels (pv_labels p), row_error = None,
      row_created = iso8601 created, row_updated = iso8601 (pv_updated p),
      row_clone_url = pv_clone_url p, row_urls = [], row_adhoc = boolToInt64 (pv_adhoc p)\<rparr>"

section \<open>Reading a row, with the not-found sentinel\<close>

definition translate_no_rows :: "'a db \<Rightarrow> 'a db" where
  "translate_no_rows m = catchE m (\<lambda>e. throw (if e = SqlErrNoRows then ErrNotFound else e))"

definition get_one :: "preview_row stmt \<Rightarrow> Preview db" where
  "get_one st = bindE (translate_no_rows (exec st)) (\<lambda>r. lift_result (previewRowToDomain r))"

definition get_many :: "preview_row list stmt \<Rightarrow> Preview list db" where
  "get_many st = bindE (exec st) (\<lambda>rows. lift_result (map_err previewRowToDomain rows))"

section \<open>Operations\<close>

definition existing_for :: "Preview \<Rightarrow> Preview option db" where
  "existing_for p =
     (if pv_sha p = [] then ret None
      else bindE (attempt (exec (getPreviewByRepoAndSha (pv_repo p)
                                   (nullStringFromCommitSha (pv_sha p)))))
        (\<lambda>r. case r of
           Inl e \<Rightarrow> if e = SqlErrNoRows then ret None else throw e
         | Inr row \<Rightarrow> lift_result (map_sum (\<lambda>e. e) Some (previewRowToDomain row))))"

definition Upsert :: "Preview \<Rightarrow> (bool \<times> Preview option) db" where
  "Upsert p = transact
     (bindE (existing_for p) (\<lambda>existing.
      bindE (exec (upsertPreview (insert_row p
               (case existing of None \<Rightarrow> pv_created p | Some q \<Rightarrow> pv_created q)))) (\<lambda>_.
      bindE (case existing of
               None \<Rightarrow> bindE new_uuid (\<lambda>u. exec (insertPreviewEvent
                 \<lparr>ev_id = u, ev_preview = pv_id p, ev_from = None, ev_to = ''queued'',
                  ev_message = [], ev_created = iso8601 (pv_updated p)\<rparr>))
             | Some _ \<Rightarrow> ret ()) (\<lambda>_.
      ret (existing = None, existing)))))"

definition GetByID :: "string \<Rightarrow> Preview db" where
  "GetByID i = get_one (getPreviewByID i)"

definition status_params :: "string \<Rightarrow> string \<Rightarrow> time \<Rightarrow> PreviewFields \<Rightarrow> status_fields" where
  "status_params to msg now f =
     \<lparr>u_status = to, u_updated = iso8601 now, u_container = f_container f, u_host = f_host f,
      u_port = f_port f, u_urls = (case f_urls f of None \<Rightarrow> [] | Some x \<Rightarrow> x),
      u_error = (case f_error f of Some e \<Rightarrow> Some e | None \<Rightarrow> if msg \<noteq> [] then Some msg else None),
      u_agent = (case f_agent f of None \<Rightarrow> None | Some a \<Rightarrow> if a = [] then None else Some a),
      u_sha = (case f_sha f of None \<Rightarrow> None | Some x \<Rightarrow> nullStringFromCommitSha x)\<rparr>"

definition sha_conflict :: "PreviewFields \<Rightarrow> preview_row \<Rightarrow> bool" where
  "sha_conflict f r \<longleftrightarrow> f_sha f \<noteq> None \<and> row_sha r \<noteq> None \<and> the (row_sha r) \<noteq> the (f_sha f)"

definition UpdateStatus ::
    "string \<Rightarrow> string \<Rightarrow> string \<Rightarrow> string \<Rightarrow> time \<Rightarrow> PreviewFields \<Rightarrow> unit db" where
  "UpdateStatus i from to msg now f = transact
     (bindE (translate_no_rows (exec (getPreviewByID i))) (\<lambda>row.
      if from \<noteq> [] \<and> row_status row \<noteq> from then throw ErrStaleState
      else if sha_conflict f row then throw ErrShaConflict
      else
        bindE (exec (updatePreviewStatusFields (status_params to msg now f) i)) (\<lambda>_.
        bindE new_uuid (\<lambda>u.
        exec (insertPreviewEvent
          \<lparr>ev_id = u, ev_preview = i, ev_from = Some (row_status row), ev_to = to,
           ev_message = msg, ev_created = iso8601 now\<rparr>)))))"

definition ListAll :: "Preview list db" where
  "ListAll = get_many listAllPreviews"

definition FindByHost :: "string \<Rightarrow> int \<Rightarrow> Preview db" where
  "FindByHost _ pr = get_one (findPreviewByHost pr)"

definition ListQueuedForCandidates :: "Preview list db" where
  "ListQueuedForCandidates = get_many listQueuedPreviewsForLabels"

definition Claim :: "string list \<Rightarrow> string \<Rightarrow> time \<Rightarrow> Preview db" where
  "Claim ids ag now =
     (if ids = [] then throw ErrNotFound
      else bindE
        (transact
          (bindE (translate_no_rows (exec (claimPreview ag (iso8601 now) ids))) (\<lambda>row.
           bindE new_uuid (\<lambda>u.
           bindE (exec (insertPreviewEvent
             \<lparr>ev_id = u, ev_preview = row_id row, ev_from = Some ''queued'', ev_to = ''assigned'',
              ev_message = [], ev_created = iso8601 now\<rparr>)) (\<lambda>_. ret row)))))
        (\<lambda>row. lift_result (previewRowToDomain row)))"

definition restart_event :: "string \<Rightarrow> string \<Rightarrow> unit db" where
  "restart_event now i = bindE new_uuid (\<lambda>u. exec (insertPreviewEvent
     \<lparr>ev_id = u, ev_preview = i, ev_from = Some ''assigned'', ev_to = ''queued'',
      ev_message = ''hub_restart'', ev_created = now\<rparr>))"

definition ResetAllAssigned :: "nat db" where
  "ResetAllAssigned = transact
     (bindE (exec assignedPreviewIDs) (\<lambda>ids.
      if ids = [] then ret 0
      else bindE time_now (\<lambda>now.
        bindE (exec (resetAllAssignedPreviews (iso8601 now))) (\<lambda>n.
        bindE (for_each (restart_event (iso8601 now)) ids) (\<lambda>_. ret n)))))"

definition ListRunningByAgent :: "string \<Rightarrow> Preview list db" where
  "ListRunningByAgent ag = get_many (listRunningPreviewsByAgent ag)"

definition ListStaleAssigned :: "time \<Rightarrow> Preview list db" where
  "ListStaleAssigned cutoff = get_many (listStaleAssignedPreviews (iso8601 cutoff))"

definition ListByAgent :: "string \<Rightarrow> string list \<Rightarrow> Preview list db" where
  "ListByAgent ag sts = (if sts = [] then ret [] else get_many (listByAgent ag sts))"

definition CountPreviewEvents :: "string \<Rightarrow> nat db" where
  "CountPreviewEvents i = exec (query (\<lambda>t. length (events_of t i)))"

definition ListPreviewEventsRaw :: "string \<Rightarrow> (string option \<times> string \<times> string) list db" where
  "ListPreviewEventsRaw i = exec (query (\<lambda>t.
     map (\<lambda>e. (ev_from e, ev_to e, ev_message e)) (order_asc ev_created (events_of t i))))"

definition event_to_domain :: "event_row \<Rightarrow> store_err + PreviewEvent" where
  "event_to_domain e =
     (case parse_time (ev_created e) of
        None \<Rightarrow> Inl DecodeError
      | Some c \<Rightarrow> Inr \<lparr>pe_id = ev_id e, pe_preview = ev_preview e, pe_from = ev_from e,
                        pe_to = ev_to e, pe_message = ev_message e, pe_created = c\<rparr>)"

definition ListPreviewEvents :: "string \<Rightarrow> int \<Rightarrow> int \<Rightarrow> PreviewEvent list db" where
  "ListPreviewEvents i limit offset =
     bindE (exec (listPreviewEvents i (nat (if limit \<le> 0 then 50 else limit))
                    (nat (if offset < 0 then 0 else offset))))
       (\<lambda>rows. lift_result (map_err event_to_domain rows))"

definition ListRepos :: "string list db" where
  "ListRepos = exec listPreviewRepos"

definition GetActiveByRepoAndPR :: "string \<Rightarrow> int \<Rightarrow> Preview db" where
  "GetActiveByRepoAndPR repo pr = get_one (getActivePreviewByRepoAndPR repo pr)"

definition FindAdhocByBranch :: "string \<Rightarrow> string \<Rightarrow> Preview db" where
  "FindAdhocByBranch repo branch = get_one (getAdhocPreviewByBranch repo branch)"

section \<open>Conversions\<close>

lemma commitSha_roundtrip [simp]: "commitShaFromNullString (nullStringFromCommitSha s) = s"
  by (simp add: commitShaFromNullString_def nullStringFromCommitSha_def)

lemma bool_roundtrip [simp]: "int64ToBool (boolToInt64 b) = b"
  by (simp add: int64ToBool_def boolToInt64_def)

lemma previewRowToDomain_decodable:
  "decodable_preview r \<Longrightarrow> \<exists>p. previewRowToDomain r = Inr p"
  by (auto simp: decodable_preview_def previewRowToDomain_def)

lemma previewRowToDomain_fields:
  assumes "previewRowToDomain r = Inr p"
  shows "pv_id p = row_id r \<and> pv_repo p = row_repo r \<and> pv_pr p = row_pr r \<and>
    pv_sha p = commitShaFromNullString (row_sha r) \<and> pv_branch p = row_branch r \<and>
    pv_status p = row_status r \<and> pv_agent p = row_agent r \<and> pv_clone_url p = row_clone_url r \<and>
    pv_urls p = row_urls r \<and> decodeLabels (row_labels r) = Some (pv_labels p) \<and>
    pv_adhoc p = int64ToBool (row_adhoc r)"
  using assms by (auto simp: previewRowToDomain_def split: option.splits)

lemma previewRowToDomain_Inl: "previewRowToDomain r = Inl e \<Longrightarrow> e = DecodeError"
  by (auto simp: previewRowToDomain_def split: option.splits)

end
