(* ===== verification/PreviewStoreLaws.thy ===== *)
theory PreviewStoreLaws
  imports PreviewStore
begin

text \<open>
  What the operations of \<open>PreviewStore\<close> guarantee: what a successful call did to the tables,
  which errors a call can give and when, that a failing call changes no table, and the
  contracts (frame, constraints, decodable texts, journal, history) they obey.
\<close>

section \<open>Errors with translation\<close>

lemma translate_no_rows_Inr [prog_elims]:
  "translate_no_rows m s = (Inr x, s') \<longleftrightarrow> m s = (Inr x, s')"
  by (auto simp: translate_no_rows_def catchE_Inr)

lemma translate_no_rows_Inl [prog_elims]:
  "translate_no_rows m s = (Inl e, s') \<longleftrightarrow>
     (\<exists>e'. m s = (Inl e', s') \<and> e = (if e' = SqlErrNoRows then ErrNotFound else e'))"
  by (auto simp: translate_no_rows_def catchE_Inl)

lemma atomic_translate: "atomic m \<Longrightarrow> atomic (translate_no_rows m)"
  by (auto simp: atomic_def translate_no_rows_Inl)

lemma get_one_Inr:
  "get_one st s = (Inr p, s') \<longleftrightarrow> (\<exists>r. exec st s = (Inr r, s') \<and> previewRowToDomain r = Inr p)"
  by (auto simp: get_one_def prog_elims)

lemma get_many_Inr:
  "get_many st s = (Inr ps, s') \<longleftrightarrow>
     (\<exists>rows. exec st s = (Inr rows, s') \<and> map_err previewRowToDomain rows = Inr ps)"
  by (auto simp: get_many_def prog_elims)

section \<open>Frames\<close>

lemma frame_translate [frame_rules]: "obeys db_only m \<Longrightarrow> obeys db_only (translate_no_rows m)"
  unfolding translate_no_rows_def by (intro frame.catchE frame.throw)

lemma frame_get [frame_rules]: "obeys db_only (get_one st)" "obeys db_only (get_many st')"
  unfolding get_one_def get_many_def by (intro frame_rules)+

lemma frame_existing_for [frame_rules]: "obeys db_only (existing_for p)"
  unfolding existing_for_def by (intro frame_rules)

lemma frame_restart_event [frame_rules]: "obeys db_only (restart_event now i)"
  unfolding restart_event_def by (intro frame_rules)

lemma frame_Upsert [frame_rules]: "obeys db_only (Upsert p)"
  unfolding Upsert_def by (intro frame_rules)

lemma frame_UpdateStatus [frame_rules]: "obeys db_only (UpdateStatus i from to msg now f)"
  unfolding UpdateStatus_def by (intro frame_rules)

lemma frame_Claim [frame_rules]: "obeys db_only (Claim ids ag now)"
  unfolding Claim_def by (intro frame_rules)

lemma frame_ResetAllAssigned [frame_rules]: "obeys db_only ResetAllAssigned"
  unfolding ResetAllAssigned_def by (intro frame_rules)

lemmas preview_reads =
  GetByID_def ListAll_def FindByHost_def ListQueuedForCandidates_def ListRunningByAgent_def
  ListStaleAssigned_def ListByAgent_def CountPreviewEvents_def ListPreviewEventsRaw_def
  ListPreviewEvents_def ListRepos_def GetActiveByRepoAndPR_def FindAdhocByBranch_def

lemma frame_reads [frame_rules]:
  "obeys db_only (GetByID i)" "obeys db_only ListAll" "obeys db_only (FindByHost repo pr)"
  "obeys db_only ListQueuedForCandidates" "obeys db_only (ListRunningByAgent ag)"
  "obeys db_only (ListStaleAssigned t)" "obeys db_only (ListByAgent ag sts)"
  "obeys db_only (CountPreviewEvents i)" "obeys db_only (ListPreviewEventsRaw i)"
  "obeys db_only (ListPreviewEvents i lim off)" "obeys db_only ListRepos"
  "obeys db_only (GetActiveByRepoAndPR repo pr)" "obeys db_only (FindAdhocByBranch repo b)"
  unfolding preview_reads by (intro frame_rules)+

section \<open>Reads change no table\<close>

named_theorems same_rules "programs that leave the tables alone"

lemma same_exec: "(\<And>t x t'. st t = Inr (x, t') \<Longrightarrow> t' = t) \<Longrightarrow> obeys tabs_same (exec st)"
  by (force simp: obeys_def tabs_same_def exec_def split: sum.splits)

lemma same_exec_query [same_rules]: "obeys tabs_same (exec (query f))" "obeys tabs_same (exec (query_one g))"
  by (auto intro!: same_exec simp: query_one_iff)

lemma same_translate [same_rules]: "obeys tabs_same m \<Longrightarrow> obeys tabs_same (translate_no_rows m)"
  unfolding translate_no_rows_def by (intro same.catchE same.throw)

lemmas same_intros [same_rules] = same.rules obeys_cases tabs_same_env obeys_attempt obeys_logged

lemma same_reads [same_rules]:
  "obeys tabs_same (GetByID i)" "obeys tabs_same ListAll" "obeys tabs_same (FindByHost repo pr)"
  "obeys tabs_same ListQueuedForCandidates" "obeys tabs_same (ListRunningByAgent ag)"
  "obeys tabs_same (ListStaleAssigned t)" "obeys tabs_same (ListByAgent ag sts)"
  "obeys tabs_same (CountPreviewEvents i)" "obeys tabs_same (ListPreviewEventsRaw i)"
  "obeys tabs_same (ListPreviewEvents i lim off)" "obeys tabs_same ListRepos"
  "obeys tabs_same (GetActiveByRepoAndPR repo pr)" "obeys tabs_same (FindAdhocByBranch repo b)"
  unfolding preview_reads get_one_def get_many_def query_defs by (intro same_rules)+

lemma same_existing_for [same_rules]: "obeys tabs_same (existing_for p)"
  unfolding existing_for_def query_defs by (intro same_rules)

lemma tabs_sameD: "obeys tabs_same m \<Longrightarrow> m s = (r, s') \<Longrightarrow> tabs s' = tabs s"
  by (auto dest: obeysD simp: tabs_same_def)

section \<open>Atomicity\<close>

lemma atomic_UpdateStatus: "atomic (UpdateStatus i from to msg now f)"
  unfolding UpdateStatus_def by (rule atomic_transact)

lemma atomic_Upsert: "atomic (Upsert p)"
  unfolding Upsert_def by (rule atomic_transact)

lemma atomic_ResetAllAssigned: "atomic ResetAllAssigned"
  unfolding ResetAllAssigned_def by (rule atomic_transact)

section \<open>UpdateStatus\<close>

lemma hd_filter_id:
  "filter (\<lambda>r. row_id r = i) rows = r # rs \<Longrightarrow> r \<in> set rows \<and> row_id r = i"
  by (metis (mono_tags, lifting) filter_eq_ConsD in_set_conv_decomp)

lemma getPreviewByID_Inr:
  "exec (getPreviewByID i) s = (Inr r, s') \<Longrightarrow>
     r \<in> set (tb_previews (tabs s)) \<and> row_id r = i \<and> s' = step_env s"
  by (auto simp: exec_Inr getPreviewByID_def query_one_iff step_env_def dest: hd_filter_id)

definition status_written ::
    "string \<Rightarrow> string \<Rightarrow> string \<Rightarrow> time \<Rightarrow> PreviewFields \<Rightarrow> preview_row \<Rightarrow> string \<Rightarrow> tables \<Rightarrow> tables" where
  "status_written i to msg now f r u t = t\<lparr>
     tb_previews := update_where (\<lambda>q. row_id q = i) (write_fields (status_params to msg now f))
       (tb_previews t),
     tb_events := tb_events t @
       [\<lparr>ev_id = u, ev_preview = i, ev_from = Some (row_status r), ev_to = to, ev_message = msg,
         ev_created = iso8601 now\<rparr>]\<rparr>"

lemma UpdateStatus_Inr:
  assumes "UpdateStatus i from to msg now f s = (Inr (), s')"
  obtains r u where "r \<in> set (tb_previews (tabs s))" and "row_id r = i"
    and "from = [] \<or> row_status r = from" and "\<not> sha_conflict f r"
    and "tabs s' = status_written i to msg now f r u (tabs s)"
    and "\<exists>n t. updatePreviewStatusFields (status_params to msg now f) i (tabs s) = Inr (n, t)"
    and "u \<notin> ev_id ` set (tb_events (tabs s))"
    and "u \<in> uuids s ` {seqno s..<seqno s'}"
proof -
  let ?body = "bindE (translate_no_rows (exec (getPreviewByID i))) (\<lambda>row.
      if from \<noteq> [] \<and> row_status row \<noteq> from then throw ErrStaleState
      else if sha_conflict f row then throw ErrShaConflict
      else
        bindE (exec (updatePreviewStatusFields (status_params to msg now f) i)) (\<lambda>_.
        bindE new_uuid (\<lambda>u.
        exec (insertPreviewEvent
          \<lparr>ev_id = u, ev_preview = i, ev_from = Some (row_status row), ev_to = to,
           ev_message = msg, ev_created = iso8601 now\<rparr>))))"
  obtain s1 where body: "?body (step_env s) = (Inr (), s1)" and s': "s' = step_env s1"
    using assms unfolding UpdateStatus_def transact_Inr by blast
  then obtain r s2 where get: "exec (getPreviewByID i) (step_env s) = (Inr r, s2)"
    and rest: "(if from \<noteq> [] \<and> row_status r \<noteq> from then throw ErrStaleState
      else if sha_conflict f r then throw ErrShaConflict
      else
        bindE (exec (updatePreviewStatusFields (status_params to msg now f) i)) (\<lambda>_.
        bindE new_uuid (\<lambda>u.
        exec (insertPreviewEvent
          \<lparr>ev_id = u, ev_preview = i, ev_from = Some (row_status r), ev_to = to,
           ev_message = msg, ev_created = iso8601 now\<rparr>)))) s2 = (Inr (), s1)"
    by (auto simp: bindE_Inr translate_no_rows_Inr)
  from getPreviewByID_Inr [OF get] have r: "r \<in> set (tb_previews (tabs s))" "row_id r = i"
    and s2: "tabs s2 = tabs s" "uuids s2 = uuids s" "seqno s2 = Suc (Suc (seqno s))" by auto
  from rest have guards: "from = [] \<or> row_status r = from" "\<not> sha_conflict f r"
    by (auto split: if_splits)
  with rest obtain n t u where up: "updatePreviewStatusFields (status_params to msg now f) i (tabs s) = Inr (n, t)"
    and ins: "insertPreviewEvent \<lparr>ev_id = u, ev_preview = i, ev_from = Some (row_status r), ev_to = to,
           ev_message = msg, ev_created = iso8601 now\<rparr> t = Inr ((), tabs s1)"
    and u: "u \<in> uuids s ` {seqno s..<seqno s1}"
    by (auto simp: bindE_Inr exec_Inr new_uuid_Inr s2)
  from up have "t = (tabs s)\<lparr>tb_previews := update_where (\<lambda>q. row_id q = i)
      (write_fields (status_params to msg now f)) (tb_previews (tabs s))\<rparr>"
    by (simp add: updatePreviewStatusFields_Inr)
  with ins have "tabs s1 = status_written i to msg now f r u (tabs s)"
    "u \<notin> ev_id ` set (tb_events (tabs s))"
    by (auto simp: insertPreviewEvent_def status_written_def split: if_splits)
  moreover have "tabs s' = tabs s1" "u \<in> uuids s ` {seqno s..<seqno s'}" using u s' by auto
  ultimately show thesis using that [OF r guards] up by metis
qed


lemma status_written_simps:
  "tb_agents (status_written i to msg now f r u t) = tb_agents t"
  "tb_secrets (status_written i to msg now f r u t) = tb_secrets t"
  by (simp_all add: status_written_def)

section \<open>Claim\<close>

lemma claim_candidates_Cons:
  assumes "claim_candidates ids t = r # rest"
  shows "r \<in> set (tb_previews t)" and "row_status r = ''queued''" and "row_id r \<in> set ids"
    and "\<And>q. q \<in> set (tb_previews t) \<Longrightarrow> row_status q = ''queued'' \<Longrightarrow> row_id q \<in> set ids \<Longrightarrow>
      row_created r \<le> row_created q"
proof -
  let ?c = "filter (\<lambda>r. row_status r = ''queued'' \<and> row_id r \<in> set ids) (tb_previews t)"
  have "r \<in> set (order_asc row_created ?c)"
    using assms by (simp add: claim_candidates_def del: set_order_asc)
  then show "r \<in> set (tb_previews t)" "row_status r = ''queued''" "row_id r \<in> set ids" by auto
  show "row_created r \<le> row_created q"
    if "q \<in> set (tb_previews t)" "row_status q = ''queued''" "row_id q \<in> set ids" for q
    using order_asc_hd_least [OF assms [unfolded claim_candidates_def], of q] that by simp
qed

definition claimed :: "preview_row \<Rightarrow> string \<Rightarrow> time \<Rightarrow> string \<Rightarrow> tables \<Rightarrow> tables" where
  "claimed r ag now u t = t\<lparr>
     tb_previews := update_where (\<lambda>q. row_id q = row_id r) (claim_row ag (iso8601 now))
       (tb_previews t),
     tb_events := tb_events t @
       [\<lparr>ev_id = u, ev_preview = row_id r, ev_from = Some ''queued'', ev_to = ''assigned'',
         ev_message = [], ev_created = iso8601 now\<rparr>]\<rparr>"

text \<open>The transaction of \<open>Claim\<close>.\<close>

definition claim_tx :: "string list \<Rightarrow> string \<Rightarrow> time \<Rightarrow> preview_row db" where
  "claim_tx ids ag now = transact
     (bindE (translate_no_rows (exec (claimPreview ag (iso8601 now) ids))) (\<lambda>row.
      bindE new_uuid (\<lambda>u.
      bindE (exec (insertPreviewEvent
        \<lparr>ev_id = u, ev_preview = row_id row, ev_from = Some ''queued'', ev_to = ''assigned'',
         ev_message = [], ev_created = iso8601 now\<rparr>)) (\<lambda>_. ret row))))"

lemma Claim_tx:
  "Claim ids ag now =
     (if ids = [] then throw ErrNotFound
      else bindE (claim_tx ids ag now) (\<lambda>row. lift_result (previewRowToDomain row)))"
  by (simp add: Claim_def claim_tx_def)

lemma claim_tx_Inr:
  assumes "claim_tx ids ag now s = (Inr row, s')"
  obtains r rest u where "claim_candidates ids (tabs s) = r # rest"
    and "ag \<in> arow_id ` set (tb_agents (tabs s))" and "row = claim_row ag (iso8601 now) r"
    and "tabs s' = claimed r ag now u (tabs s)" and "u \<notin> ev_id ` set (tb_events (tabs s))"
proof -
  obtain s1 where body: "bindE (translate_no_rows (exec (claimPreview ag (iso8601 now) ids))) (\<lambda>row.
      bindE new_uuid (\<lambda>u.
      bindE (exec (insertPreviewEvent
        \<lparr>ev_id = u, ev_preview = row_id row, ev_from = Some ''queued'', ev_to = ''assigned'',
         ev_message = [], ev_created = iso8601 now\<rparr>)) (\<lambda>_. ret row))) (step_env s) = (Inr row, s1)"
    and tabs: "tabs s' = tabs s1"
    using assms unfolding claim_tx_def by (rule transact_InrE)
  then obtain u t where cl: "claimPreview ag (iso8601 now) ids (tabs s) = Inr (row, t)"
    and ins: "insertPreviewEvent \<lparr>ev_id = u, ev_preview = row_id row, ev_from = Some ''queued'',
      ev_to = ''assigned'', ev_message = [], ev_created = iso8601 now\<rparr> t = Inr ((), tabs s1)"
    by (auto simp: bindE_Inr exec_Inr new_uuid_Inr translate_no_rows_Inr)
  from cl obtain r rest where "claim_candidates ids (tabs s) = r # rest"
    and "ag \<in> arow_id ` set (tb_agents (tabs s))" and "row = claim_row ag (iso8601 now) r"
    and "t = (tabs s)\<lparr>tb_previews := update_where (\<lambda>q. row_id q = row_id r)
        (claim_row ag (iso8601 now)) (tb_previews (tabs s))\<rparr>"
    by (auto simp: claimPreview_Inr)
  moreover from ins this(3,4) have "tabs s' = claimed r ag now u (tabs s)"
    and "u \<notin> ev_id ` set (tb_events (tabs s))"
    by (simp_all add: insertPreviewEvent_def claimed_def tabs split: if_splits)
  ultimately show thesis using that by blast
qed

lemma Claim_Inr:
  assumes "Claim ids ag now s = (Inr p, s')"
  obtains r rest u where "claim_candidates ids (tabs s) = r # rest"
    and "ag \<in> arow_id ` set (tb_agents (tabs s))"
    and "previewRowToDomain (claim_row ag (iso8601 now) r) = Inr p"
    and "tabs s' = claimed r ag now u (tabs s)" and "u \<notin> ev_id ` set (tb_events (tabs s))"
  using assms that by (auto simp: Claim_tx prog_elims split: if_splits elim!: claim_tx_Inr)

section \<open>Upsert\<close>

lemma existing_for_Inr:
  assumes "existing_for p s = (Inr ex, s')"
  shows "tabs s' = tabs s \<and>
    (case ex of
       None \<Rightarrow> pv_sha p = [] \<or> (\<forall>r \<in> set (tb_previews (tabs s)). \<not> same_sha_key (insert_row p c) r)
     | Some q \<Rightarrow> pv_sha p \<noteq> [] \<and> (\<exists>r \<in> set (tb_previews (tabs s)).
         same_sha_key (insert_row p c) r \<and> previewRowToDomain r = Inr q))"
proof (cases "pv_sha p = []")
  case True
  then show ?thesis using assms by (auto simp: existing_for_def)
next
  case False
  let ?hit = "\<lambda>r. row_repo r = pv_repo p \<and> row_sha r = Some (pv_sha p)"
  have key: "same_sha_key (insert_row p c) r \<longleftrightarrow> ?hit r" for r
    using False by (auto simp: same_sha_key_def insert_row_def nullStringFromCommitSha_def)
  from False assms obtain res s1 where get: "exec (getPreviewByRepoAndSha (pv_repo p) (Some (pv_sha p))) s = (res, s1)"
    and rest: "(case res of
           Inl e \<Rightarrow> if e = SqlErrNoRows then ret None else throw e
         | Inr row \<Rightarrow> lift_result (map_sum (\<lambda>e. e) Some (previewRowToDomain row))) s1 = (Inr ex, s')"
    by (auto simp: existing_for_def bindE_Inr attempt_Inr nullStringFromCommitSha_def)
  show ?thesis
  proof (cases res)
    case (Inl e)
    with rest have "e = SqlErrNoRows" "ex = None" "s' = s1" by (auto split: if_splits)
    moreover from get Inl this have "filter ?hit (tb_previews (tabs s)) = []" "tabs s1 = tabs s"
      by (auto simp: exec_Inl getPreviewByRepoAndSha_def query_one_error)
    ultimately show ?thesis by (auto simp: key filter_empty_conv)
  next
    case (Inr row)
    with get have row: "row \<in> set (filter ?hit (tb_previews (tabs s)))" and s1: "tabs s1 = tabs s"
      by (auto simp: exec_Inr getPreviewByRepoAndSha_def query_one_iff)
        (metis (mono_tags, lifting) list.set_intros(1) mem_Collect_eq set_filter)+
    from rest Inr have "ex = Some (projr (previewRowToDomain row))" "s' = s1"
      "\<exists>q. previewRowToDomain row = Inr q"
      by (cases "previewRowToDomain row"; simp)+
    with row s1 False show ?thesis by (auto simp: key)
  qed
qed

definition born :: "Preview \<Rightarrow> string \<Rightarrow> tables \<Rightarrow> tables" where
  "born p u t = t\<lparr>
     tb_previews := tb_previews t @ [insert_row p (pv_created p)],
     tb_events := tb_events t @
       [\<lparr>ev_id = u, ev_preview = pv_id p, ev_from = None, ev_to = ''queued'', ev_message = [],
         ev_created = iso8601 (pv_updated p)\<rparr>]\<rparr>"

definition refreshed :: "Preview \<Rightarrow> time \<Rightarrow> tables \<Rightarrow> tables" where
  "refreshed p c t = t\<lparr>tb_previews := update_where (same_sha_key (insert_row p c))
     (overwrite_row (insert_row p c)) (tb_previews t)\<rparr>"

lemma insert_row_simps [simp]:
  "row_id (insert_row p c) = pv_id p" "row_repo (insert_row p c) = pv_repo p"
  "row_status (insert_row p c) = ''queued''" "row_agent (insert_row p c) = None"
  "row_sha (insert_row p c) = nullStringFromCommitSha (pv_sha p)"
  by (simp_all add: insert_row_def)

lemma Upsert_Inr:
  assumes "Upsert p s = (Inr (created, prev), s')"
  shows "created \<and> prev = None \<and> pv_id p \<notin> row_id ` set (tb_previews (tabs s)) \<and>
      (\<forall>r \<in> set (tb_previews (tabs s)). \<not> same_sha_key (insert_row p (pv_created p)) r) \<and>
      (\<exists>u. u \<notin> ev_id ` set (tb_events (tabs s)) \<and> tabs s' = born p u (tabs s))
    \<or> \<not> created \<and> (\<exists>q. prev = Some q \<and>
      (\<exists>r \<in> set (tb_previews (tabs s)). same_sha_key (insert_row p (pv_created q)) r \<and>
         previewRowToDomain r = Inr q) \<and>
      tabs s' = refreshed p (pv_created q) (tabs s))"
proof -
  obtain s1 where "bindE (existing_for p) (\<lambda>existing.
      bindE (exec (upsertPreview (insert_row p
               (case existing of None \<Rightarrow> pv_created p | Some q \<Rightarrow> pv_created q)))) (\<lambda>_.
      bindE (case existing of
               None \<Rightarrow> bindE new_uuid (\<lambda>u. exec (insertPreviewEvent
                 \<lparr>ev_id = u, ev_preview = pv_id p, ev_from = None, ev_to = ''queued'',
                  ev_message = [], ev_created = iso8601 (pv_updated p)\<rparr>))
             | Some _ \<Rightarrow> ret ()) (\<lambda>_.
      ret (existing = None, existing)))) (step_env s) = (Inr (created, prev), s1)"
    and tabs: "tabs s' = tabs s1"
    using assms unfolding Upsert_def by (rule transact_InrE)
  then obtain s2 t where ex: "existing_for p (step_env s) = (Inr prev, s2)"
    and created: "created = (prev = None)"
    and up: "upsertPreview (insert_row p
               (case prev of None \<Rightarrow> pv_created p | Some q \<Rightarrow> pv_created q)) (tabs s2) = Inr ((), t)"
    and ev: "case prev of None \<Rightarrow> \<exists>u. insertPreviewEvent
                 \<lparr>ev_id = u, ev_preview = pv_id p, ev_from = None, ev_to = ''queued'',
                  ev_message = [], ev_created = iso8601 (pv_updated p)\<rparr> t = Inr ((), tabs s1)
        | Some _ \<Rightarrow> tabs s1 = t"
    by (cases prev) (fastforce simp: bindE_Inr exec_Inr new_uuid_Inr)+
  show ?thesis
  proof (cases prev)
    case None
    from existing_for_Inr [OF ex, of "pv_created p"] None
    have s2: "tabs s2 = tabs s"
      and no: "\<forall>r \<in> set (tb_previews (tabs s)). \<not> same_sha_key (insert_row p (pv_created p)) r"
      by (auto simp: same_sha_key_def nullStringFromCommitSha_def)
    from up None s2 no have "pv_id p \<notin> row_id ` set (tb_previews (tabs s))"
      "t = (tabs s)\<lparr>tb_previews := tb_previews (tabs s) @ [insert_row p (pv_created p)]\<rparr>"
      by (auto simp: upsertPreview_def split: if_splits)
    with ev None no tabs created show ?thesis
      by (auto simp: insertPreviewEvent_def born_def split: if_splits)
  next
    case (Some q)
    from existing_for_Inr [OF ex, of "pv_created q"] Some
    have s2: "tabs s2 = tabs s"
      and hit: "\<exists>r \<in> set (tb_previews (tabs s)). same_sha_key (insert_row p (pv_created q)) r \<and>
         previewRowToDomain r = Inr q" by auto
    then have "\<exists>r \<in> set (tb_previews (tabs s)). same_sha_key (insert_row p (pv_created q)) r"
      by blast
    with up Some s2 have "t = refreshed p (pv_created q) (tabs s)"
      by (simp add: upsertPreview_def refreshed_def)
    with ev Some hit tabs created show ?thesis by auto
  qed
qed

end
