(* ===== verification/PreviewContracts.thy ===== *)
theory PreviewContracts
  imports PreviewStoreLaws
begin

text \<open>
  The operations of \<open>PreviewStore\<close> keep the database consistent (\<open>db_ok\<close>: the constraints,
  decodable texts, the journal) and respect the history, in every run.
\<close>

definition db_ok :: "tables \<Rightarrow> bool" where
  "db_ok t \<longleftrightarrow> wf_tables t \<and> decodable t \<and> journal t"

lemma keeps_conj:
  "obeys (keeps I) m \<Longrightarrow> obeys (keeps J) m \<Longrightarrow> obeys (keeps (\<lambda>t. I t \<and> J t)) m"
  by (auto simp: obeys_def keeps_def)

lemma keeps_db_ok:
  assumes "obeys (keeps wf_tables) m" and "obeys (keeps decodable) m"
    and "obeys (keeps (\<lambda>t. wf_tables t \<and> journal t)) m"
  shows "obeys (keeps db_ok) m"
  using assms by (auto simp: obeys_def keeps_def db_ok_def)

text \<open>The time an operation reads has a year of four digits.\<close>

lemma keeps_time_now:
  assumes "\<And>n. representable n \<Longrightarrow> obeys (keeps I) (k n)"
  shows "obeys (keeps I) (bindE time_now k)"
proof (rule obeysI)
  fix s r s' assume run: "bindE time_now k s = (r, s')"
  then have run: "k (clock s (seqno s)) (step_env s) = (r, s')"
    by (simp add: bindE_def time_now_def)
  show "keeps I s s'"
  proof (cases "clock_ok s")
    case True
    with assms have "obeys (keeps I) (k (clock s (seqno s)))" by (simp add: clock_ok_def)
    from obeysD [OF this run] show ?thesis by (simp add: keeps_def clock_ok_def)
  qed (simp add: keeps_def)
qed

lemmas keeps_order = keeps_time_now keeps_intros

text \<open>Expanding the \<open>transact\<close> of an operation whose body keeps an invariant step by step.\<close>

lemma keeps_translate [inv_rules]:
  "obeys (keeps I) m \<Longrightarrow> obeys (keeps I) (translate_no_rows m)"
  unfolding translate_no_rows_def by (intro inv.catchE inv.throw)

lemma keeps_same_reads [inv_rules]:
  "obeys (keeps I) (GetByID i)" "obeys (keeps I) ListAll" "obeys (keeps I) (FindByHost repo pr)"
  "obeys (keeps I) ListQueuedForCandidates" "obeys (keeps I) (ListRunningByAgent ag)"
  "obeys (keeps I) (ListStaleAssigned t)" "obeys (keeps I) (ListByAgent ag sts)"
  "obeys (keeps I) (CountPreviewEvents i)" "obeys (keeps I) (ListPreviewEventsRaw i)"
  "obeys (keeps I) (ListPreviewEvents i lim off)" "obeys (keeps I) ListRepos"
  "obeys (keeps I) (GetActiveByRepoAndPR repo pr)" "obeys (keeps I) (FindAdhocByBranch repo b)"
  "obeys (keeps I) (existing_for p)"
  by (intro obeys_keeps_of_same same_rules)+

section \<open>Constraints\<close>

lemma wf_UpdateStatus: "obeys (keeps wf_tables) (UpdateStatus i from to msg now f)"
  unfolding UpdateStatus_def
  by (intro keeps_transact_body frame_rules inv_rules wf_stmts)

lemma wf_Upsert: "obeys (keeps wf_tables) (Upsert p)"
  unfolding Upsert_def
  by (intro keeps_transact_body frame_rules inv_rules wf_stmts) simp

lemma wf_Claim: "obeys (keeps wf_tables) (Claim ids ag now)"
  unfolding Claim_def
  by (intro keeps_transact_body frame_rules inv_rules wf_stmts)

lemma wf_ResetAllAssigned: "obeys (keeps wf_tables) ResetAllAssigned"
  unfolding ResetAllAssigned_def restart_event_def
  by (intro keeps_transact_body frame_rules inv_rules wf_stmts)

section \<open>Decodable texts\<close>

lemma dec_UpdateStatus:
  assumes "representable now"
  shows "obeys (keeps decodable) (UpdateStatus i from to msg now f)"
  unfolding UpdateStatus_def
  by (intro keeps_transact_body frame_rules inv_rules dec_stmts wf_stmts)
    (simp_all add: assms status_params_def)

lemma dec_Claim:
  assumes "representable now"
  shows "obeys (keeps decodable) (Claim ids ag now)"
  unfolding Claim_def
  by (intro keeps_transact_body frame_rules inv_rules dec_stmts wf_stmts) (simp_all add: assms)


text \<open>An operation that changes no table when it fails: only its successful runs matter.\<close>

lemma keeps_atomic_op:
  assumes "atomic m" and "obeys db_only m"
    and "\<And>s x s'. clock_ok s \<Longrightarrow> I (tabs s) \<Longrightarrow> m s = (Inr x, s') \<Longrightarrow> I (tabs s')"
  shows "obeys (keeps I) m"
proof (rule obeysI)
  fix s r s' assume run: "m s = (r, s')"
  have "clock s' = clock s" using obeysD [OF assms(2) run] by (simp add: db_only_def)
  then show "keeps I s s'"
    using run assms(3) atomicD [OF assms(1)]
    by (cases r) (auto simp: keeps_def clock_ok_def)
qed

lemma decodable_insert_row:
  "representable c \<Longrightarrow> representable (pv_updated p) \<Longrightarrow>
     decodable_preview (insert_row p c)"
  by (simp add: decodable_preview_def insert_row_def decodeLabels_encodeLabels)

lemma dec_Upsert:
  assumes "representable (pv_created p)" and "representable (pv_updated p)"
  shows "obeys (keeps decodable) (Upsert p)"
proof (rule keeps_atomic_op [OF atomic_Upsert frame_Upsert])
  fix s x s' assume d: "decodable (tabs s)" and run: "Upsert p s = (Inr x, s')"
  obtain created prev where x: "x = (created, prev)" by fastforce
  have born: "decodable (born p u (tabs s))" for u
    using d assms by (auto simp: born_def decodable_def decodable_insert_row)
  have "decodable (refreshed p c (tabs s))" for c
    using d assms
    by (auto simp: refreshed_def decodable_def set_update_where decodable_preview_def
        overwrite_row_def insert_row_def decodeLabels_encodeLabels)
  with born Upsert_Inr [OF run [unfolded x]] show "decodable (tabs s')" by auto
qed

section \<open>The journal\<close>

text \<open>A status write on one row together with its event.\<close>

lemma journal_one:
  assumes wf: "wf_tables t" and j: "journal t" and r: "r \<in> set (tb_previews t)"
    and t': "tb_previews t' = update_where (\<lambda>q. row_id q = row_id r) f (tb_previews t)"
    and f: "\<And>q. row_id (f q) = row_id q" and to: "row_status (f r) = ev_to e"
    and e: "ev_preview e = row_id r" "ev_from e = Some (row_status r)"
    and es: "tb_events t' = tb_events t @ [e]"
  shows "journal t'"
proof (rule journal_move [OF j t' es f])
  fix q assume q: "q \<in> set (tb_previews t)"
  show "\<exists>e'. filter (\<lambda>e. ev_preview e = row_id q) [e] = [e'] \<and> ev_from e' = Some (row_status q) \<and>
      ev_to e' = row_status (f q)" if "row_id q = row_id r"
    using same_id_same_row [OF wf q r that] e to by simp
  show "filter (\<lambda>e. ev_preview e = row_id q) [e] = []" if "row_id q \<noteq> row_id r"
    using that e by simp
qed

lemma wf_of_keeps:
  "obeys (keeps wf_tables) m \<Longrightarrow> m s = (r, s') \<Longrightarrow> clock_ok s \<Longrightarrow> wf_tables (tabs s) \<Longrightarrow>
     wf_tables (tabs s')"
  by (drule obeysD, assumption) (auto simp: keeps_def)

lemma journal_UpdateStatus:
  "obeys (keeps (\<lambda>t. wf_tables t \<and> journal t)) (UpdateStatus i from to msg now f)"
proof (rule keeps_atomic_op [OF atomic_UpdateStatus frame_UpdateStatus])
  fix s :: hub and x s'
  assume c: "clock_ok s" and inv: "wf_tables (tabs s) \<and> journal (tabs s)"
    and run: "UpdateStatus i from to msg now f s = (Inr x, s')"
  then obtain r u where r: "r \<in> set (tb_previews (tabs s))" "row_id r = i"
    and t': "tabs s' = status_written i to msg now f r u (tabs s)"
    by (auto elim: UpdateStatus_Inr)
  have "journal (tabs s')"
    by (rule journal_one [where t = "tabs s" and r = r
          and f = "write_fields (status_params to msg now f)"])
      (use inv r t' in \<open>auto simp: status_written_def status_params_def\<close>)
  with wf_of_keeps [OF wf_UpdateStatus run c] inv
  show "wf_tables (tabs s') \<and> journal (tabs s')" by blast
qed

lemma atomic_claim_tx: "atomic (claim_tx ids ag now)"
  unfolding claim_tx_def by (rule atomic_transact)

lemma claim_tx_frame: "obeys db_only (claim_tx ids ag now)"
  unfolding claim_tx_def by (intro frame_rules)

lemma wf_claim_tx: "obeys (keeps wf_tables) (claim_tx ids ag now)"
  unfolding claim_tx_def by (intro keeps_transact_body frame_rules inv_rules wf_stmts)

lemma journal_claim_tx: "obeys (keeps (\<lambda>t. wf_tables t \<and> journal t)) (claim_tx ids ag now)"
proof (rule keeps_atomic_op [OF atomic_claim_tx claim_tx_frame])
  fix s :: hub and x s'
  assume c: "clock_ok s" and inv: "wf_tables (tabs s) \<and> journal (tabs s)"
    and run: "claim_tx ids ag now s = (Inr x, s')"
  then obtain r rest u where cand: "claim_candidates ids (tabs s) = r # rest"
    and t': "tabs s' = claimed r ag now u (tabs s)"
    by (auto elim: claim_tx_Inr)
  have "journal (tabs s')"
    by (rule journal_one [where t = "tabs s" and r = r and f = "claim_row ag (iso8601 now)"])
      (use inv claim_candidates_Cons [OF cand] t' in \<open>auto simp: claimed_def\<close>)
  with wf_of_keeps [OF wf_claim_tx run c] inv
  show "wf_tables (tabs s') \<and> journal (tabs s')" by blast
qed

lemma journal_Claim: "obeys (keeps (\<lambda>t. wf_tables t \<and> journal t)) (Claim ids ag now)"
  unfolding Claim_tx by (intro inv_rules journal_claim_tx)

lemma journal_Upsert: "obeys (keeps (\<lambda>t. wf_tables t \<and> journal t)) (Upsert p)"
proof (rule keeps_atomic_op [OF atomic_Upsert frame_Upsert])
  fix s :: hub and x s'
  assume c: "clock_ok s" and inv: "wf_tables (tabs s) \<and> journal (tabs s)"
    and run: "Upsert p s = (Inr x, s')"
  obtain created prev where x: "x = (created, prev)" by fastforce
  have born: "journal (born p u (tabs s))" if "pv_id p \<notin> row_id ` set (tb_previews (tabs s))" for u
    by (rule journal_birth [where t = "tabs s" and p = "insert_row p (pv_created p)"])
      (use inv that in \<open>auto simp: born_def wf_tables_def\<close>)
  have "journal (refreshed p c (tabs s))" for c
    by (rule journal_same [where t = "tabs s"]) (use inv in \<open>auto simp: refreshed_def set_update_where\<close>)
  with born Upsert_Inr [OF run [unfolded x]] have "journal (tabs s')" by auto
  with wf_of_keeps [OF wf_Upsert run c] inv
  show "wf_tables (tabs s') \<and> journal (tabs s')" by blast
qed

lemma restart_events:
  assumes "for_each (restart_event now) ids s = (Inr x, s')"
  shows "\<exists>es. tabs s' = (tabs s)\<lparr>tb_events := tb_events (tabs s) @ es\<rparr> \<and> map ev_preview es = ids \<and>
    (\<forall>e \<in> set es. ev_from e = Some ''assigned'' \<and> ev_to e = ''queued'' \<and> ev_message e = ''hub_restart'')"
  using assms
proof (induction ids arbitrary: s)
  case (Cons i ids)
  then obtain s1 where first: "restart_event now i s = (Inr (), s1)"
    and rest: "for_each (restart_event now) ids s1 = (Inr x, s')"
    by (auto simp: bindE_Inr)
  from first obtain e where "tabs s1 = (tabs s)\<lparr>tb_events := tb_events (tabs s) @ [e]\<rparr>"
    "ev_preview e = i" "ev_from e = Some ''assigned''" "ev_to e = ''queued''" "ev_message e = ''hub_restart''"
    by (auto simp: restart_event_def bindE_Inr exec_Inr new_uuid_Inr insertPreviewEvent_def split: if_splits)
  moreover from Cons.IH [OF rest] obtain es where
    "tabs s' = (tabs s1)\<lparr>tb_events := tb_events (tabs s1) @ es\<rparr>" "map ev_preview es = ids"
    "\<forall>e \<in> set es. ev_from e = Some ''assigned'' \<and> ev_to e = ''queued'' \<and> ev_message e = ''hub_restart''"
    by blast
  ultimately show ?case by (intro exI [of _ "e # es"]) simp
qed simp

definition reset_row :: "string \<Rightarrow> preview_row \<Rightarrow> preview_row" where
  "reset_row now r = r\<lparr>row_status := ''queued'', row_agent := None, row_updated := now\<rparr>"

lemma ResetAllAssigned_Inr:
  assumes "ResetAllAssigned s = (Inr n, s')"
  shows "\<exists>now es. tabs s' = (tabs s)\<lparr>
      tb_previews := update_where (\<lambda>r. row_status r = ''assigned'') (reset_row now) (tb_previews (tabs s)),
      tb_events := tb_events (tabs s) @ es\<rparr> \<and>
    map ev_preview es = map row_id (filter (\<lambda>r. row_status r = ''assigned'') (tb_previews (tabs s))) \<and>
    (\<forall>e \<in> set es. ev_from e = Some ''assigned'' \<and> ev_to e = ''queued'' \<and> ev_message e = ''hub_restart'') \<and>
    n = length es"
proof -
  let ?ids = "map row_id (filter (\<lambda>r. row_status r = ''assigned'') (tb_previews (tabs s)))"
  obtain s1 where body: "bindE (exec assignedPreviewIDs) (\<lambda>ids.
      if ids = [] then ret 0
      else bindE time_now (\<lambda>now.
        bindE (exec (resetAllAssignedPreviews (iso8601 now))) (\<lambda>n.
        bindE (for_each (restart_event (iso8601 now)) ids) (\<lambda>_. ret n)))) (step_env s) = (Inr n, s1)"
    and tabs: "tabs s' = tabs s1"
    using assms unfolding ResetAllAssigned_def by (rule transact_InrE)
  show ?thesis
  proof (cases "?ids = []")
    case True
    then have "filter (\<lambda>r. row_status r = ''assigned'') (tb_previews (tabs s)) = []" by simp
    then have "update_where (\<lambda>r. row_status r = ''assigned'') g (tb_previews (tabs s)) = tb_previews (tabs s)" for g
      by (auto simp: update_where_def filter_empty_conv intro: map_idI)
    moreover from body True have "tabs s1 = tabs s" "n = 0"
      by (auto simp: bindE_Inr exec_Inr assignedPreviewIDs_def)
    ultimately show ?thesis using True tabs by (intro exI [of _ "[]"] exI [of _ "[]"]) simp
  next
    case False
    with body obtain now s2 where
      loop: "for_each (restart_event (iso8601 now)) ?ids s2 = (Inr (), s1)"
      and n: "n = length (filter (\<lambda>r. row_status r = ''assigned'') (tb_previews (tabs s)))"
      and s2: "tabs s2 = (tabs s)\<lparr>tb_previews := update_where (\<lambda>r. row_status r = ''assigned'')
        (reset_row (iso8601 now)) (tb_previews (tabs s))\<rparr>"
      by (auto simp: bindE_Inr exec_Inr assignedPreviewIDs_def time_now_Inr
          resetAllAssignedPreviews_def reset_row_def [abs_def])
    from restart_events [OF loop] obtain es where
      "tabs s1 = (tabs s2)\<lparr>tb_events := tb_events (tabs s2) @ es\<rparr>" "map ev_preview es = ?ids"
      "\<forall>e \<in> set es. ev_from e = Some ''assigned'' \<and> ev_to e = ''queued'' \<and> ev_message e = ''hub_restart''"
      by blast
    moreover from this(2) n have "n = length es" by (metis length_map)
    ultimately show ?thesis
      using s2 tabs by (intro exI [of _ "iso8601 now"] exI [of _ es]) simp
  qed
qed

lemma journal_ResetAllAssigned: "obeys (keeps (\<lambda>t. wf_tables t \<and> journal t)) ResetAllAssigned"
proof (rule keeps_atomic_op [OF atomic_ResetAllAssigned frame_ResetAllAssigned])
  fix s :: hub and x s'
  assume c: "clock_ok s" and inv: "wf_tables (tabs s) \<and> journal (tabs s)"
    and run: "ResetAllAssigned s = (Inr x, s')"
  let ?P = "\<lambda>r. row_status r = ''assigned''" and ?rows = "tb_previews (tabs s)"
  from ResetAllAssigned_Inr [OF run] obtain now es where
    t': "tabs s' = (tabs s)\<lparr>tb_previews := update_where ?P (reset_row now) ?rows,
      tb_events := tb_events (tabs s) @ es\<rparr>"
    and ids: "map ev_preview es = map row_id (filter ?P ?rows)"
    and es: "\<forall>e \<in> set es. ev_from e = Some ''assigned'' \<and> ev_to e = ''queued''" by blast
  have dist: "distinct (map ev_preview es)"
    using inv by (simp add: ids wf_tables_def distinct_map_filter)
  have "journal (tabs s')"
  proof (rule journal_move [where t = "tabs s" and P = ?P and f = "reset_row now" and es = es])
    fix r assume r: "r \<in> set ?rows"
    show "\<exists>e. filter (\<lambda>e. ev_preview e = row_id r) es = [e] \<and> ev_from e = Some (row_status r) \<and>
      ev_to e = row_status (reset_row now r)" if "?P r"
    proof -
      have "row_id r \<in> set (map ev_preview es)" using r that by (simp add: ids)
      then obtain e where "e \<in> set es" "ev_preview e = row_id r" by auto
      with filter_key_distinct [OF dist this(1)] es that show ?thesis
        by (auto simp: reset_row_def)
    qed
    show "filter (\<lambda>e. ev_preview e = row_id r) es = []" if "\<not> ?P r"
    proof -
      have "row_id r \<notin> row_id ` set (filter ?P ?rows)"
        using r that inv same_id_same_row by fastforce
      then have "row_id r \<notin> set (map ev_preview es)" by (simp add: ids)
      then show ?thesis by (auto simp: filter_empty_conv image_iff)
    qed
  qed (use inv t' in \<open>simp_all add: reset_row_def\<close>)
  with wf_of_keeps [OF wf_ResetAllAssigned run c] inv
  show "wf_tables (tabs s') \<and> journal (tabs s')" by blast
qed


section \<open>The whole invariant and the history\<close>

lemma db_ok_UpdateStatus [inv_rules]:
  "representable now \<Longrightarrow> obeys (keeps db_ok) (UpdateStatus i from to msg now f)"
  by (intro keeps_db_ok wf_UpdateStatus dec_UpdateStatus journal_UpdateStatus)

lemma db_ok_Upsert [inv_rules]:
  "representable (pv_created p) \<Longrightarrow> representable (pv_updated p) \<Longrightarrow> obeys (keeps db_ok) (Upsert p)"
  by (intro keeps_db_ok wf_Upsert dec_Upsert journal_Upsert)

lemma db_ok_Claim [inv_rules]: "representable now \<Longrightarrow> obeys (keeps db_ok) (Claim ids ag now)"
  by (intro keeps_db_ok wf_Claim dec_Claim journal_Claim)

lemma dec_ResetAllAssigned: "obeys (keeps decodable) ResetAllAssigned"
  unfolding ResetAllAssigned_def restart_event_def
  by (intro keeps_transact_body frame_rules keeps_time_now inv_rules dec_stmts wf_stmts)
    simp_all

lemma db_ok_ResetAllAssigned [inv_rules]: "obeys (keeps db_ok) ResetAllAssigned"
  by (intro keeps_db_ok wf_ResetAllAssigned dec_ResetAllAssigned journal_ResetAllAssigned)

lemma hist_translate [hist_rules]: "obeys history m \<Longrightarrow> obeys history (translate_no_rows m)"
  unfolding translate_no_rows_def by (intro hist.catchE hist.throw)

lemma hist_reads [hist_rules]:
  "obeys history (GetByID i)" "obeys history ListAll" "obeys history (FindByHost repo pr)"
  "obeys history ListQueuedForCandidates" "obeys history (ListRunningByAgent ag)"
  "obeys history (ListStaleAssigned t)" "obeys history (ListByAgent ag sts)"
  "obeys history (CountPreviewEvents i)" "obeys history (ListPreviewEventsRaw i)"
  "obeys history (ListPreviewEvents i lim off)" "obeys history ListRepos"
  "obeys history (GetActiveByRepoAndPR repo pr)" "obeys history (FindAdhocByBranch repo b)"
  "obeys history (existing_for p)"
  by (intro history_same same_rules)+

lemma hist_UpdateStatus [hist_rules]: "obeys history (UpdateStatus i from to msg now f)"
  unfolding UpdateStatus_def by (intro hist_rules hist_stmts)

lemma hist_Upsert [hist_rules]: "obeys history (Upsert p)"
  unfolding Upsert_def by (intro hist_rules hist_stmts)

lemma hist_Claim [hist_rules]: "obeys history (Claim ids ag now)"
  unfolding Claim_def by (intro hist_rules hist_stmts)

lemma hist_ResetAllAssigned [hist_rules]: "obeys history ResetAllAssigned"
  unfolding ResetAllAssigned_def restart_event_def by (intro hist_rules hist_stmts)

end
