(* ===== verification/StatusStore.thy ===== *)
theory StatusStore
  imports PreviewContracts
begin

text \<open>
  The preview store seen from its clients (the dispatcher, the reconciler, the webhook and
  websocket handlers): a map from preview ids to statuses, changed only by \<open>Upsert\<close>,
  \<open>UpdateStatus\<close> and \<open>Claim\<close>. \<open>moves\<close> is the contract of a client as an abstract state
  machine: whatever the client does, each preview travels along transitions of the client's
  own. The locale states the laws of the three operations and derives the contract of each;
  the interpretation discharges the laws for the SQLite store.
\<close>

section \<open>The abstract machine\<close>

type_synonym transitions = "string \<Rightarrow> string option \<Rightarrow> string option \<Rightarrow> bool"

definition moves_of ::
    "('s \<Rightarrow> bool) \<Rightarrow> ('s \<Rightarrow> string \<Rightarrow> string option) \<Rightarrow> transitions \<Rightarrow> 's \<Rightarrow> 's \<Rightarrow> bool" where
  "moves_of ok status T s s' \<longleftrightarrow>
     (ok s \<longrightarrow> ok s' \<and> (\<forall>i. rtranclp (T i) (status s i) (status s' i)))"

lemma moves_ofI:
  "(ok s \<Longrightarrow> ok s') \<Longrightarrow> (\<And>i. ok s \<Longrightarrow> status s' i = status s i \<or> T i (status s i) (status s' i)) \<Longrightarrow>
     moves_of ok status T s s'"
  unfolding moves_of_def by (metis r_into_rtranclp rtranclp.rtrancl_refl)

lemma moves_of_mono:
  assumes "moves_of ok status T s s'" and "\<And>i a b. T i a b \<Longrightarrow> U i a b"
  shows "moves_of ok status U s s'"
  using assms unfolding moves_of_def by (metis mono_rtranclp)

locale status_store =
  fixes ok :: "'s \<Rightarrow> bool"
    and status :: "'s \<Rightarrow> string \<Rightarrow> string option"
    and update :: "string \<Rightarrow> string \<Rightarrow> string \<Rightarrow> string \<Rightarrow> time \<Rightarrow> PreviewFields \<Rightarrow> ('s, store_err, unit) prog"
  assumes ok_update: "ok s \<Longrightarrow> update i from to msg now f s = (r, s') \<Longrightarrow> ok s'"
    and update_ok: "ok s \<Longrightarrow> update i from to msg now f s = (Inr (), s') \<Longrightarrow>
      \<exists>st. status s i = Some st \<and> (from = [] \<or> st = from) \<and> status s' = (status s)(i \<mapsto> to)"
    and update_failed: "update i from to msg now f s = (Inl e, s') \<Longrightarrow> status s' = status s"
begin

sublocale moves: contract "moves_of ok status T" for T
proof
  show "moves_of ok status T s s" for s by (simp add: moves_of_def)
  show "moves_of ok status T s t \<Longrightarrow> moves_of ok status T t u \<Longrightarrow> moves_of ok status T s u" for s t u
    unfolding moves_of_def by (meson rtranclp_trans)
qed

lemma update_moves:
  assumes "\<And>st. from = [] \<or> st = from \<Longrightarrow> T i (Some st) (Some to)"
  shows "obeys (moves_of ok status T) (update i from to msg now f)"
proof (rule obeysI)
  fix s r s' assume run: "update i from to msg now f s = (r, s')"
  show "moves_of ok status T s s'"
  proof (rule moves_ofI)
    show "ok s \<Longrightarrow> ok s'" using ok_update [OF _ run] .
    fix j assume ok: "ok s"
    show "status s' j = status s j \<or> T j (status s j) (status s' j)"
    proof (cases r)
      case (Inl e)
      with run update_failed show ?thesis by metis
    next
      case (Inr x)
      with run update_ok [OF ok] obtain st where "status s i = Some st" "from = [] \<or> st = from"
        "status s' = (status s)(i \<mapsto> to)" by (metis (full_types) unit.exhaust)
      with assms show ?thesis by auto
    qed
  qed
qed

text \<open>A loop of best-effort updates reaches every status it succeeded to set, and no other.\<close>

lemma update_each_moves:
  assumes "\<And>x st. x \<in> set xs \<Longrightarrow> from x = [] \<or> st = from x \<Longrightarrow> T (key x) (Some st) (Some to)"
  shows "obeys (moves_of ok status T)
    (for_each (\<lambda>x. logged (update (key x) (from x) to msg (now x) f)) xs)"
  by (intro moves.for_each obeys_logged update_moves) (use assms in blast)

end

locale queue_store = status_store +
  fixes claim :: "string list \<Rightarrow> string \<Rightarrow> time \<Rightarrow> ('s, store_err, Preview) prog"
    and upsert :: "Preview \<Rightarrow> ('s, store_err, bool \<times> Preview option) prog"
  assumes ok_claim: "ok s \<Longrightarrow> claim ids ag now s = (r, s') \<Longrightarrow> ok s'"
    and claim_moves_one: "ok s \<Longrightarrow> claim ids ag now s = (r, s') \<Longrightarrow> status s' = status s \<or>
      (\<exists>i \<in> set ids. status s i = Some ''queued'' \<and> status s' = (status s)(i \<mapsto> ''assigned''))"
    and ok_upsert: "ok s \<Longrightarrow> upsert p s = (x, s') \<Longrightarrow> ok s'"
    and upsert_new: "ok s \<Longrightarrow> upsert p s = (x, s') \<Longrightarrow> status s' = status s \<or>
      status s (pv_id p) = None \<and> status s' = (status s)(pv_id p \<mapsto> ''queued'')"
begin

lemma claim_moves:
  assumes "\<And>i. i \<in> set ids \<Longrightarrow> T i (Some ''queued'') (Some ''assigned'')"
  shows "obeys (moves_of ok status T) (claim ids ag now)"
proof (rule obeysI)
  fix s r s' assume run: "claim ids ag now s = (r, s')"
  show "moves_of ok status T s s'"
  proof (rule moves_ofI)
    show "ok s \<Longrightarrow> ok s'" using ok_claim [OF _ run] .
    show "ok s \<Longrightarrow> status s' j = status s j \<or> T j (status s j) (status s' j)" for j
      using claim_moves_one [OF _ run] assms by auto
  qed
qed

lemma upsert_moves:
  assumes "T (pv_id p) None (Some ''queued'')"
  shows "obeys (moves_of ok status T) (upsert p)"
proof (rule obeysI)
  fix s r s' assume run: "upsert p s = (r, s')"
  show "moves_of ok status T s s'"
  proof (rule moves_ofI)
    show "ok s \<Longrightarrow> ok s'" using ok_upsert [OF _ run] .
    show "ok s \<Longrightarrow> status s' j = status s j \<or> T j (status s j) (status s' j)" for j
      using upsert_new [OF _ run] assms by auto
  qed
qed

end

section \<open>The SQLite store\<close>

definition store_ok :: "hub \<Rightarrow> bool" where
  "store_ok s \<longleftrightarrow> clock_ok s \<and> wf_tables (tabs s)"

definition status_of :: "hub \<Rightarrow> string \<Rightarrow> string option" where
  "status_of s i = map_option row_status (find (\<lambda>r. row_id r = i) (tb_previews (tabs s)))"

lemma status_of_row:
  assumes "wf_tables (tabs s)" and "r \<in> set (tb_previews (tabs s))"
  shows "status_of s (row_id r) = Some (row_status r)"
  using assms find_key_distinct [of row_id "tb_previews (tabs s)" r]
  by (simp add: status_of_def wf_tables_def)

lemma status_of_None_iff: "status_of s i = None \<longleftrightarrow> i \<notin> row_id ` set (tb_previews (tabs s))"
  by (simp add: status_of_def find_key_None_iff)

lemma status_of_Some: "status_of s i = Some st \<longleftrightarrow>
    (\<exists>r. find (\<lambda>r. row_id r = i) (tb_previews (tabs s)) = Some r \<and> row_status r = st)"
  by (auto simp: status_of_def)

lemma status_of_same: "tabs s' = tabs s \<Longrightarrow> status_of s' = status_of s"
  by (auto simp: status_of_def)

lemma status_of_env [simp]: "status_of (step_env s) = status_of s"
  by (rule status_of_same) simp

text \<open>An update by id, as the map update it is.\<close>

lemma status_of_update:
  assumes "tb_previews (tabs s') = update_where (\<lambda>q. row_id q = i) f (tb_previews (tabs s))"
    and "\<And>q. row_id (f q) = row_id q" and "\<And>q. row_status (f q) = to"
    and "i \<in> row_id ` set (tb_previews (tabs s))"
  shows "status_of s' = (status_of s)(i \<mapsto> to)"
proof
  fix j
  have "find (\<lambda>r. row_id r = j) (tb_previews (tabs s')) =
      map_option (\<lambda>q. if row_id q = i then f q else q) (find (\<lambda>r. row_id r = j) (tb_previews (tabs s)))"
    unfolding assms(1) using assms(2) by (rule find_update_where_key)
  then have new: "status_of s' j = map_option (\<lambda>q. row_status (if row_id q = i then f q else q))
      (find (\<lambda>r. row_id r = j) (tb_previews (tabs s)))"
    by (simp add: status_of_def option.map_comp comp_def)
  show "status_of s' j = ((status_of s)(i \<mapsto> to)) j"
  proof (cases "find (\<lambda>r. row_id r = j) (tb_previews (tabs s))")
    case None
    then have "j \<noteq> i" using assms(4) by (auto simp: find_key_None_iff)
    then show ?thesis using new None by (simp add: status_of_def)
  next
    case (Some q)
    then have "row_id q = j" by (auto dest: find_SomeD)
    then show ?thesis using new Some assms(3) by (auto simp: status_of_def)
  qed
qed

lemma store_ok_kept:
  "obeys (keeps wf_tables) m \<Longrightarrow> store_ok s \<Longrightarrow> m s = (r, s') \<Longrightarrow> store_ok s'"
  by (auto simp: store_ok_def dest!: obeysD keepsD)

lemma UpdateStatus_status:
  assumes "UpdateStatus i from to msg now f s = (Inr (), s')" and "wf_tables (tabs s)"
  shows "\<exists>st. status_of s i = Some st \<and> (from = [] \<or> st = from) \<and>
    status_of s' = (status_of s)(i \<mapsto> to)"
proof -
  from assms(1) obtain r u where r: "r \<in> set (tb_previews (tabs s))" "row_id r = i"
    "from = [] \<or> row_status r = from"
    and t: "tabs s' = status_written i to msg now f r u (tabs s)"
    by (rule UpdateStatus_Inr)
  have "status_of s' = (status_of s)(i \<mapsto> to)"
    using r(1,2) by (intro status_of_update [where f = "write_fields (status_params to msg now f)"])
      (auto simp: t status_written_def status_params_def)
  with r status_of_row [OF assms(2) r(1)] show ?thesis by auto
qed

lemma Claim_status:
  assumes ok: "store_ok s" and run: "Claim ids ag now s = (r, s')"
  shows "status_of s' = status_of s \<or>
    (\<exists>i \<in> set ids. status_of s i = Some ''queued'' \<and> status_of s' = (status_of s)(i \<mapsto> ''assigned''))"
proof -
  have tx: "status_of s1 = status_of s \<or>
      (\<exists>i \<in> set ids. status_of s i = Some ''queued'' \<and> status_of s1 = (status_of s)(i \<mapsto> ''assigned''))"
    if tx: "claim_tx ids ag now s = (x, s1)" for x s1
  proof (cases x)
    case (Inl e)
    with tx show ?thesis by (metis atomicD atomic_claim_tx status_of_same)
  next
    case (Inr row)
    with tx obtain q rest u where cand: "claim_candidates ids (tabs s) = q # rest"
      and t: "tabs s1 = claimed q ag now u (tabs s)" by (auto elim: claim_tx_Inr)
    note q = claim_candidates_Cons [OF cand]
    have "status_of s1 = (status_of s)(row_id q \<mapsto> ''assigned'')"
      using q(1) by (intro status_of_update [where f = "claim_row ag (iso8601 now)"])
        (auto simp: t claimed_def)
    moreover have "status_of s (row_id q) = Some ''queued''"
      using status_of_row [of s q] q ok by (simp add: store_ok_def)
    ultimately show ?thesis using q(3) by blast
  qed
  show ?thesis
  proof (cases "ids = []")
    case True
    then show ?thesis using run by (simp add: Claim_def)
  next
    case False
    obtain x s1 where "claim_tx ids ag now s = (x, s1)" by fastforce
    moreover from this False run have "s' = s1"
      by (auto simp: Claim_tx bindE_def split: sum.splits)
    ultimately show ?thesis using tx by blast
  qed
qed

lemma Upsert_status:
  assumes ok: "store_ok s" and run: "Upsert p s = (r, s')"
  shows "status_of s' = status_of s \<or>
    status_of s (pv_id p) = None \<and> status_of s' = (status_of s)(pv_id p \<mapsto> ''queued'')"
proof (cases r)
  case (Inl e)
  with run show ?thesis by (metis atomicD atomic_Upsert status_of_same)
next
  case (Inr x)
  obtain created prev where x: "x = (created, prev)" by fastforce
  have born: "status_of s' = (status_of s)(pv_id p \<mapsto> ''queued'')"
    if "tabs s' = born p u (tabs s)" "pv_id p \<notin> row_id ` set (tb_previews (tabs s))" for u
  proof
    fix j
    have "find (\<lambda>r. row_id r = pv_id p) (tb_previews (tabs s)) = None"
      using that(2) by (simp add: find_key_None_iff)
    then show "status_of s' j = ((status_of s)(pv_id p \<mapsto> ''queued'')) j"
      by (auto simp: status_of_def that(1) born_def find_append_None split: option.splits
          dest: find_SomeD)
  qed
  have fresh: "status_of s' = status_of s" if "tabs s' = refreshed p c (tabs s)" for c
    unfolding status_of_def fun_eq_iff that refreshed_def
    by (auto simp: find_update_where_key option.map_comp comp_def intro!: option.map_cong0)
  from Upsert_Inr [OF run [unfolded Inr x]] born fresh status_of_None_iff show ?thesis by metis
qed

interpretation previews: queue_store store_ok status_of UpdateStatus Claim Upsert
proof
  show "store_ok s \<Longrightarrow> UpdateStatus i frm to msg now f s = (r, s') \<Longrightarrow> store_ok s'" for s i frm to msg now f r s'
    by (rule store_ok_kept [OF wf_UpdateStatus])
  show "store_ok s \<Longrightarrow> UpdateStatus i frm to msg now f s = (Inr (), s') \<Longrightarrow>
      \<exists>st. status_of s i = Some st \<and> (frm = [] \<or> st = frm) \<and> status_of s' = (status_of s)(i \<mapsto> to)"
    for s i frm to msg now f s'
    by (rule UpdateStatus_status) (simp_all add: store_ok_def)
  show "UpdateStatus i frm to msg now f s = (Inl e, s') \<Longrightarrow> status_of s' = status_of s"
    for i frm to msg now f s e s'
    by (metis atomicD atomic_UpdateStatus status_of_same)
  show "store_ok s \<Longrightarrow> Claim ids ag now s = (r, s') \<Longrightarrow> store_ok s'" for s ids ag now r s'
    by (rule store_ok_kept [OF wf_Claim])
  show "store_ok s \<Longrightarrow> Upsert p s = (r, s') \<Longrightarrow> store_ok s'" for s p r s'
    by (rule store_ok_kept [OF wf_Upsert])
qed (fact Claim_status Upsert_status)+

end
