(* ===== verification/StoreOutcome.thy ===== *)
theory StoreOutcome
  imports StatusStore
begin

text \<open>
  The result of \<open>UpdateStatus\<close> on every branch, in a run without driver failures, and that such
  runs stay so: fresh identifiers remain fresh.
\<close>

lemma calm_step:
  assumes "calm s" and "db_only s s'"
    and "used_ids (tabs s') \<subseteq> used_ids (tabs s) \<union> uuids s ` {seqno s..<seqno s'}"
  shows "calm s'"
proof -
  have "uuids s n \<notin> used_ids (tabs s')" if "seqno s' \<le> n" for n
  proof
    assume "uuids s n \<in> used_ids (tabs s')"
    moreover have "uuids s n \<notin> used_ids (tabs s)"
      using assms(1,2) that by (auto simp: calm_def db_only_def)
    ultimately have "uuids s n \<in> uuids s ` {seqno s..<seqno s'}" using assms(3) by blast
    then obtain k where "k < seqno s'" "uuids s n = uuids s k" by auto
    moreover from this(2) have "n = k" using assms(1) by (auto simp: calm_def dest: injD)
    ultimately show False using that by simp
  qed
  with assms(1,2) show ?thesis by (auto simp: calm_def db_only_def)
qed

lemma calm_failed:
  assumes "calm s" and "obeys db_only m" and "atomic m" and "m s = (Inl e, s')"
  shows "calm s'"
  using assms obeysD [OF assms(2,4)] atomicD [OF assms(3,4)] by (intro calm_step [OF assms(1)]) auto

lemma calm_env: "calm s \<Longrightarrow> calm (step_env s)"
  by (rule calm_step) (auto simp: db_only_def)

lemma status_written_ids:
  "used_ids (status_written i to msg now f r u t) \<subseteq> insert u (used_ids t)"
  by (auto simp: used_ids_def status_written_def set_update_where)

lemma calm_UpdateStatus:
  assumes "calm s" and run: "UpdateStatus i from to msg now f s = (r, s')"
  shows "calm s'"
proof (cases r)
  case (Inl e)
  with assms show ?thesis by (metis calm_failed frame_UpdateStatus atomic_UpdateStatus)
next
  case (Inr x)
  with run obtain q u where "tabs s' = status_written i to msg now f q u (tabs s)"
    "u \<in> uuids s ` {seqno s..<seqno s'}" by (auto elim: UpdateStatus_Inr)
  then show ?thesis
    using status_written_ids [of i to msg now f q u "tabs s"] obeysD [OF frame_UpdateStatus run]
    by (intro calm_step [OF assms(1)]) auto
qed

section \<open>Running statements without failures\<close>

lemma exec_calm:
  "\<not> faults s (seqno s) \<Longrightarrow> exec st s =
     (case st (tabs s) of Inl e \<Rightarrow> (Inl e, step_env s) | Inr (x, t) \<Rightarrow> (Inr x, (step_env s)\<lparr>tabs := t\<rparr>))"
  by (simp add: exec_def)

lemma transact_calm:
  assumes "calm s" and "obeys db_only body"
  shows "fst (transact body s) = fst (body (step_env s))"
proof -
  obtain r s1 where b: "body (step_env s) = (r, s1)" by fastforce
  with assms(2) have "db_only (step_env s) s1" by (rule obeysD)
  then have "\<not> faults s1 (seqno s1)" "\<not> faults s (seqno s)"
    using assms(1) by (auto simp: calm_def db_only_def)
  then show ?thesis by (simp add: transact_def b split: sum.split)
qed

definition update_result ::
    "string \<Rightarrow> string \<Rightarrow> string \<Rightarrow> string \<Rightarrow> time \<Rightarrow> PreviewFields \<Rightarrow> tables \<Rightarrow> store_err + unit" where
  "update_result i from to msg now f t =
     (case find (\<lambda>r. row_id r = i) (tb_previews t) of
        None \<Rightarrow> Inl ErrNotFound
      | Some r \<Rightarrow>
          if from \<noteq> [] \<and> row_status r \<noteq> from then Inl ErrStaleState
          else if sha_conflict f r then Inl ErrShaConflict
          else if u_agent (status_params to msg now f) \<noteq> None \<and>
            the (u_agent (status_params to msg now f)) \<notin> arow_id ` set (tb_agents t) then Inl FkViolation
          else if sha_taken (write_fields (status_params to msg now f) r) (tb_previews t)
            then Inl UniqueViolation
          else Inr ())"

lemma find_filter_id:
  assumes "wf_tables t"
  shows "filter (\<lambda>r. row_id r = i) (tb_previews t) =
    (case find (\<lambda>r. row_id r = i) (tb_previews t) of None \<Rightarrow> [] | Some r \<Rightarrow> [r])"
proof (cases "find (\<lambda>r. row_id r = i) (tb_previews t)")
  case None
  then have "filter (\<lambda>r. row_id r = i) (tb_previews t) = []"
    by (auto simp: find_None_iff filter_empty_conv)
  with None show ?thesis by simp
next
  case (Some r)
  then have "r \<in> set (tb_previews t)" "row_id r = i" by (auto dest: find_SomeD)
  with filter_id [OF assms] Some show ?thesis by auto
qed

lemma UpdateStatus_outcome:
  assumes calm: "calm s" and wf: "wf_tables (tabs s)"
  shows "fst (UpdateStatus i from to msg now f s) = update_result i from to msg now f (tabs s)"
proof -
  let ?u = "status_params to msg now f"
  let ?ev = "\<lambda>row u. \<lparr>ev_id = u, ev_preview = i, ev_from = Some (row_status row), ev_to = to,
           ev_message = msg, ev_created = iso8601 now\<rparr>"
  let ?body = "bindE (translate_no_rows (exec (getPreviewByID i))) (\<lambda>row.
      if from \<noteq> [] \<and> row_status row \<noteq> from then throw ErrStaleState
      else if sha_conflict f row then throw ErrShaConflict
      else
        bindE (exec (updatePreviewStatusFields ?u i)) (\<lambda>_.
        bindE new_uuid (\<lambda>u. exec (insertPreviewEvent (?ev row u)))))"
  have frame: "obeys db_only ?body" by (intro frame_rules)
  have nf: "\<not> faults s n" if "seqno s \<le> n" for n using calm that by (rule calm_no_fault)
  have fresh: "uuids s n \<notin> ev_id ` set (tb_events (tabs s))" if "seqno s \<le> n" for n
    using calm that by (auto simp: calm_def used_ids_def)
  have get: "translate_no_rows (exec (getPreviewByID i)) (step_env s) =
      (case find (\<lambda>r. row_id r = i) (tb_previews (tabs s)) of
         None \<Rightarrow> Inl ErrNotFound | Some r \<Rightarrow> Inr r, step_env (step_env s))"
    by (simp add: translate_no_rows_def catchE_def exec_calm nf getPreviewByID_def query_one_def
        find_filter_id [OF wf] step_env_def split: option.split)
  have "fst (?body (step_env s)) = update_result i from to msg now f (tabs s)"
  proof (cases "find (\<lambda>r. row_id r = i) (tb_previews (tabs s))")
    case None
    then show ?thesis by (simp add: bindE_def get update_result_def)
  next
    case (Some r)
    then have r: "r \<in> set (tb_previews (tabs s))" "row_id r = i" by (auto dest: find_SomeD)
    have hit: "filter (\<lambda>r. row_id r = i) (tb_previews (tabs s)) = [r]"
      by (simp add: find_filter_id [OF wf] Some)
    have ids: "i \<in> row_id ` set (update_where (\<lambda>r. row_id r = i) (write_fields ?u) (tb_previews (tabs s)))"
      using r by (subst image_id_update_where) auto
    have "uuids s (Suc (Suc (Suc (seqno s)))) \<notin> ev_id ` set (tb_events (tabs s))"
      by (rule fresh) simp
    with ids show ?thesis
      by (simp add: bindE_def get update_result_def Some exec_calm nf hit Let_def
          updatePreviewStatusFields_def new_uuid_def insertPreviewEvent_def)
  qed
  with transact_calm [OF calm frame] show ?thesis by (simp add: UpdateStatus_def)
qed

text \<open>A guarded status change without extra fields lands exactly when its guard holds.\<close>

lemma plain_fields:
  "u_agent (status_params to msg now no_fields) = None" "u_sha (status_params to msg now no_fields) = None"
  "\<not> sha_conflict no_fields r"
  by (simp_all add: status_params_def no_fields_def sha_conflict_def)

lemma sha_free_unchanged:
  assumes "wf_tables t" and "r \<in> set (tb_previews t)" and "u_sha u = None"
  shows "\<not> sha_taken (write_fields u r) (tb_previews t)"
  using assms wf_sha_unique [OF assms(1)]
  by (auto simp: sha_taken_def sha_unique_def same_sha_key_def write_fields_def)

lemma plain_update_result:
  assumes "wf_tables t"
  shows "update_result i from to msg now no_fields t =
    (case find (\<lambda>r. row_id r = i) (tb_previews t) of
       None \<Rightarrow> Inl ErrNotFound
     | Some r \<Rightarrow> if from \<noteq> [] \<and> row_status r \<noteq> from then Inl ErrStaleState else Inr ())"
proof (cases "find (\<lambda>r. row_id r = i) (tb_previews t)")
  case None
  then show ?thesis by (simp add: update_result_def)
next
  case (Some r)
  then have "r \<in> set (tb_previews t)" by (auto dest: find_SomeD)
  from sha_free_unchanged [OF assms this plain_fields(2)] Some show ?thesis
    by (simp add: update_result_def plain_fields)
qed

text \<open>So it moves the preview if it is in the expected status.\<close>

lemma plain_update_moves:
  assumes calm: "calm s" and ok: "store_ok s" and st: "status_of s i = Some st"
    and guard: "from = [] \<or> st = from"
    and run: "UpdateStatus i from to msg now no_fields s = (r, s')"
  shows "r = Inr ()" and "status_of s' = (status_of s)(i \<mapsto> to)" and "calm s'" and "store_ok s'"
proof -
  have wf: "wf_tables (tabs s)" using ok by (simp add: store_ok_def)
  from st obtain q where q: "find (\<lambda>r. row_id r = i) (tb_previews (tabs s)) = Some q" "row_status q = st"
    by (auto simp: status_of_Some)
  have "fst (UpdateStatus i from to msg now no_fields s) = Inr ()"
    unfolding UpdateStatus_outcome [OF calm wf] plain_update_result [OF wf] using q guard by auto
  then show r: "r = Inr ()" using run by simp
  from UpdateStatus_status [OF run [unfolded r] wf] show "status_of s' = (status_of s)(i \<mapsto> to)" by blast
  show "calm s'" using calm run by (rule calm_UpdateStatus)
  show "store_ok s'" using previews.ok_update [OF ok run] .
qed


text \<open>A loop of such updates, one per preview of a list without repetitions, moves them all.\<close>

lemma each_update_calm:
  assumes step: "\<And>p s r s'. p \<in> set ps \<Longrightarrow> calm s \<Longrightarrow> store_ok s \<Longrightarrow> status_of s (key p) = Some (frm p) \<Longrightarrow>
      f p s = (r, s') \<Longrightarrow> r = Inr () \<and> calm s' \<and> store_ok s' \<and> status_of s' = (status_of s)(key p \<mapsto> to)"
    and "calm s" and "store_ok s" and "distinct (map key ps)"
    and "\<And>p. p \<in> set ps \<Longrightarrow> status_of s (key p) = Some (frm p)"
    and "for_each f ps s = (r, s')"
  shows "r = Inr () \<and> calm s' \<and> store_ok s' \<and>
    status_of s' = (\<lambda>i. if i \<in> key ` set ps then Some to else status_of s i)"
  using assms
proof (induction ps arbitrary: s)
  case (Cons p ps)
  obtain x s1 where one: "f p s = (x, s1)" by fastforce
  have s1: "x = Inr ()" "calm s1" "store_ok s1" "status_of s1 = (status_of s)(key p \<mapsto> to)"
    using Cons.prems(1) [OF _ Cons.prems(2,3) _ one] Cons.prems(5) by auto
  have rest: "for_each f ps s1 = (r, s')"
    using Cons.prems(6) one s1(1) by (simp add: bindE_def)
  have "status_of s1 (key q) = Some (frm q)" if "q \<in> set ps" for q
    using that Cons.prems(4,5) s1(4) by (auto simp: image_iff)
  moreover have "distinct (map key ps)" "key p \<notin> key ` set ps" using Cons.prems(4) by auto
  moreover have "\<And>q s r s'. q \<in> set ps \<Longrightarrow> calm s \<Longrightarrow> store_ok s \<Longrightarrow> status_of s (key q) = Some (frm q) \<Longrightarrow>
      f q s = (r, s') \<Longrightarrow> r = Inr () \<and> calm s' \<and> store_ok s' \<and> status_of s' = (status_of s)(key q \<mapsto> to)"
    by (rule Cons.prems(1)) simp_all
  ultimately have "r = Inr () \<and> calm s' \<and> store_ok s' \<and>
      status_of s' = (\<lambda>i. if i \<in> key ` set ps then Some to else status_of s1 i)"
    using Cons.IH [OF _ s1(2,3) _ _ rest] by blast
  then show ?case using s1(4) by (simp add: fun_eq_iff)
qed simp

section \<open>Reads, inserts and claims without failures\<close>

lemma exec_query_calm [simp]:
  "calm s \<Longrightarrow> exec (query f) s = (Inr (f (tabs s)), step_env s)"
  by (simp add: exec_calm calm_no_fault query_def step_env_def)

lemma get_one_calm:
  "calm s \<Longrightarrow> get_one (query_one f) s =
     (case f (tabs s) of [] \<Rightarrow> Inl ErrNotFound | r # _ \<Rightarrow> previewRowToDomain r, step_env s)"
  by (simp add: get_one_def bindE_def translate_no_rows_def catchE_def exec_calm calm_no_fault
      query_one_def step_env_def split: list.split)

lemma get_many_calm:
  "calm s \<Longrightarrow> get_many (query f) s = (map_err previewRowToDomain (f (tabs s)), step_env s)"
  by (simp add: get_many_def bindE_def)

lemma existing_for_calm:
  assumes "calm s"
  shows "existing_for p s =
    (if pv_sha p = [] then (Inr None, s)
     else (case filter (same_sha_key (insert_row p (pv_created p))) (tb_previews (tabs s)) of
             [] \<Rightarrow> Inr None | r # _ \<Rightarrow> map_sum (\<lambda>e. e) Some (previewRowToDomain r), step_env s))"
proof -
  have "(\<lambda>r. row_repo r = pv_repo p \<and> row_sha r = Some (pv_sha p)) = same_sha_key (insert_row p (pv_created p))"
    if "pv_sha p \<noteq> []"
    using that by (auto simp: fun_eq_iff same_sha_key_def nullStringFromCommitSha_def)
  with assms show ?thesis
    by (simp add: existing_for_def bindE_def attempt_def exec_calm calm_no_fault
        getPreviewByRepoAndSha_def query_one_def nullStringFromCommitSha_def step_env_def
        split: list.split)
qed

definition sha_rows :: "Preview \<Rightarrow> tables \<Rightarrow> preview_row list" where
  "sha_rows p t = filter (same_sha_key (insert_row p (pv_created p))) (tb_previews t)"

lemma same_sha_key_insert: "same_sha_key (insert_row p c) = same_sha_key (insert_row p d)"
  by (simp add: fun_eq_iff same_sha_key_def)

lemma no_sha_no_rows: "pv_sha p = [] \<Longrightarrow> sha_rows p t = []"
  by (simp add: sha_rows_def same_sha_key_def nullStringFromCommitSha_def)

lemma transact_calm_Inr:
  assumes "calm s" and "obeys db_only body" and "body (step_env s) = (Inr x, s1)"
  shows "transact body s = (Inr x, step_env s1)"
proof -
  have "db_only (step_env s) s1" using assms(2,3) by (rule obeysD)
  then have "\<not> faults s1 (seqno s1)" "\<not> faults s (seqno s)"
    using assms(1) by (auto simp: calm_def db_only_def)
  then show ?thesis by (simp add: transact_def assms(3))
qed

text \<open>A preview with a new key is born.\<close>

lemma Upsert_new:
  assumes calm: "calm s" and new: "sha_rows p (tabs s) = []" "pv_id p \<notin> row_id ` set (tb_previews (tabs s))"
  shows "\<exists>s' u. Upsert p s = (Inr (True, None), s') \<and> tabs s' = born p u (tabs s)
    \<and> u \<in> uuids s ` {seqno s..<seqno s'}"
proof -
  let ?p = "insert_row p (pv_created p)"
  have none: "\<forall>r \<in> set (tb_previews (tabs s)). \<not> same_sha_key ?p r"
    using new(1) by (auto simp: sha_rows_def filter_empty_conv)
  obtain s1 where ex: "existing_for p (step_env s) = (Inr None, s1)" "tabs s1 = tabs s"
    "uuids s1 = uuids s" "faults s1 = faults s" "seqno s < seqno s1"
    using new(1) by (cases "pv_sha p = []") (simp_all add: existing_for_calm [OF calm_env [OF calm]] sha_rows_def)
  have nf: "\<not> faults s n" if "seqno s \<le> n" for n using calm that by (rule calm_no_fault)
  have fresh: "uuids s n \<notin> ev_id ` set (tb_events (tabs s))" if "seqno s \<le> n" for n
    using calm that by (auto simp: calm_def used_ids_def)
  have nf1: "\<not> faults s n" if "seqno s1 \<le> n" for n using nf ex(5) that by simp
  let ?u = "uuids s (Suc (seqno s1))"
  have u: "?u \<notin> ev_id ` set (tb_events (tabs s))" using ex(5) by (intro fresh) simp
  let ?body = "bindE (existing_for p) (\<lambda>existing.
      bindE (exec (upsertPreview (insert_row p
               (case existing of None \<Rightarrow> pv_created p | Some q \<Rightarrow> pv_created q)))) (\<lambda>_.
      bindE (case existing of
               None \<Rightarrow> bindE new_uuid (\<lambda>u. exec (insertPreviewEvent
                 \<lparr>ev_id = u, ev_preview = pv_id p, ev_from = None, ev_to = ''queued'',
                  ev_message = [], ev_created = iso8601 (pv_updated p)\<rparr>))
             | Some _ \<Rightarrow> ret ()) (\<lambda>_.
      ret (existing = None, existing))))"
  have "\<exists>s2. ?body (step_env s) = (Inr (True, None), s2) \<and> tabs s2 = born p ?u (tabs s) \<and>
      seqno s2 = Suc (Suc (Suc (seqno s1)))"
    using none new(2) u nf1
    by (simp add: bindE_def ex exec_calm upsertPreview_def new_uuid_def insertPreviewEvent_def born_def)
  then obtain s2 where s2: "?body (step_env s) = (Inr (True, None), s2)" "tabs s2 = born p ?u (tabs s)"
    "seqno s2 = Suc (Suc (Suc (seqno s1)))" by blast
  have "obeys db_only ?body" by (intro frame_rules)
  from transact_calm_Inr [OF calm this s2(1)] have "Upsert p s = (Inr (True, None), step_env s2)"
    unfolding Upsert_def .
  then show ?thesis using s2 ex(5) by (intro exI [of _ "step_env s2"] exI [of _ ?u]) auto
qed

text \<open>A preview with a known key is refreshed, and the row before is returned.\<close>

lemma Upsert_known:
  assumes calm: "calm s" and old: "sha_rows p (tabs s) = r # rest" "previewRowToDomain r = Inr q"
  shows "\<exists>s'. Upsert p s = (Inr (False, Some q), s') \<and> tabs s' = refreshed p (pv_created q) (tabs s)"
proof -
  have hit: "\<exists>r \<in> set (tb_previews (tabs s)). same_sha_key (insert_row p (pv_created q)) r"
    using old(1) same_sha_key_insert unfolding sha_rows_def
    by (metis filter_eq_ConsD in_set_conv_decomp)
  have ne: "pv_sha p \<noteq> []" using old(1) no_sha_no_rows by force
  then have ex: "existing_for p (step_env s) = (Inr (Some q), step_env (step_env s))"
    using old by (simp add: existing_for_calm [OF calm_env [OF calm]] sha_rows_def)
  let ?body = "bindE (existing_for p) (\<lambda>existing.
      bindE (exec (upsertPreview (insert_row p
               (case existing of None \<Rightarrow> pv_created p | Some q \<Rightarrow> pv_created q)))) (\<lambda>_.
      bindE (case existing of
               None \<Rightarrow> bindE new_uuid (\<lambda>u. exec (insertPreviewEvent
                 \<lparr>ev_id = u, ev_preview = pv_id p, ev_from = None, ev_to = ''queued'',
                  ev_message = [], ev_created = iso8601 (pv_updated p)\<rparr>))
             | Some _ \<Rightarrow> ret ()) (\<lambda>_.
      ret (existing = None, existing))))"
  have "\<exists>s2. ?body (step_env s) = (Inr (False, Some q), s2) \<and> tabs s2 = refreshed p (pv_created q) (tabs s)"
    using hit calm_no_fault [OF calm]
    by (simp add: bindE_def ex exec_calm upsertPreview_def refreshed_def)
  then obtain s2 where s2: "?body (step_env s) = (Inr (False, Some q), s2)"
    "tabs s2 = refreshed p (pv_created q) (tabs s)" by blast
  have "obeys db_only ?body" by (intro frame_rules)
  from transact_calm_Inr [OF calm this s2(1)] have "Upsert p s = (Inr (False, Some q), step_env s2)"
    unfolding Upsert_def .
  then show ?thesis using s2 by auto
qed

text \<open>A claim takes the first candidate.\<close>

lemma Claim_first:
  assumes calm: "calm s" and cand: "claim_candidates ids (tabs s) = q # rest"
    and ag: "ag \<in> arow_id ` set (tb_agents (tabs s))" and wf: "wf_tables (tabs s)"
  shows "\<exists>s' u. Claim ids ag now s = (previewRowToDomain (claim_row ag (iso8601 now) q), s') \<and>
    tabs s' = claimed q ag now u (tabs s) \<and> u \<in> uuids s ` {seqno s..<seqno s'}"
proof -
  note c = claim_candidates_Cons [OF cand]
  have ids: "ids \<noteq> []" using c(3) by auto
  let ?t = "(tabs s)\<lparr>tb_previews := update_where (\<lambda>x. row_id x = row_id q) (claim_row ag (iso8601 now))
      (tb_previews (tabs s))\<rparr>"
  let ?u = "uuids s (Suc (Suc (seqno s)))"
  have cl: "claimPreview ag (iso8601 now) ids (tabs s) = Inr (claim_row ag (iso8601 now) q, ?t)"
    using cand ag by (auto simp: claimPreview_Inr)
  have u: "?u \<notin> ev_id ` set (tb_events (tabs s))"
    using calm by (auto simp: calm_def used_ids_def)
  have known: "row_id q \<in> row_id ` set (tb_previews ?t)"
    using c(1) by (simp add: image_id_update_where)
  let ?body = "bindE (translate_no_rows (exec (claimPreview ag (iso8601 now) ids))) (\<lambda>row.
      bindE new_uuid (\<lambda>u.
      bindE (exec (insertPreviewEvent
        \<lparr>ev_id = u, ev_preview = row_id row, ev_from = Some ''queued'', ev_to = ''assigned'',
         ev_message = [], ev_created = iso8601 now\<rparr>)) (\<lambda>_. ret row)))"
  have "\<exists>s2. ?body (step_env s) = (Inr (claim_row ag (iso8601 now) q), s2) \<and>
      tabs s2 = claimed q ag now ?u (tabs s) \<and> seqno s2 = Suc (Suc (Suc (Suc (seqno s))))"
    using u known calm_no_fault [OF calm]
    by (simp add: bindE_def translate_no_rows_def catchE_def exec_calm cl new_uuid_def
        insertPreviewEvent_def claimed_def)
  then obtain s2 where s2: "?body (step_env s) = (Inr (claim_row ag (iso8601 now) q), s2)"
    "tabs s2 = claimed q ag now ?u (tabs s)" "seqno s2 = Suc (Suc (Suc (Suc (seqno s))))" by blast
  have "obeys db_only ?body" by (intro frame_rules)
  from transact_calm_Inr [OF calm this s2(1)] have "claim_tx ids ag now s = (Inr (claim_row ag (iso8601 now) q), step_env s2)"
    unfolding claim_tx_def .
  then have "Claim ids ag now s = (previewRowToDomain (claim_row ag (iso8601 now) q), step_env s2)"
    using ids by (simp add: Claim_tx bindE_def)
  then show ?thesis using s2 by (intro exI [of _ "step_env s2"] exI [of _ ?u]) auto
qed

end
