(* ===== verification/AgentStore.thy ===== *)
theory AgentStore
  imports StoreOutcome
begin

text \<open>
  internal/db/sqlite/agent_store.go: the registered agents. Status changes of agents never
  touch previews, except that deleting an agent clears the assignments that refer to it.
\<close>

record Agent =
  ag_id :: string
  ag_name :: string
  ag_token_hash :: string
  ag_labels :: "string list"
  ag_status :: string
  ag_last_seen :: "time option"
  ag_created :: time

definition rowToAgent :: "agent_row \<Rightarrow> store_err + Agent" where
  "rowToAgent r =
     (case decodeLabels (arow_labels r) of
        None \<Rightarrow> Inl DecodeError
      | Some labels \<Rightarrow>
         (case parse_time (arow_created r) of
            None \<Rightarrow> Inl DecodeError
          | Some created \<Rightarrow>
             (let mk = (\<lambda>seen. \<lparr>ag_id = arow_id r, ag_name = arow_name r,
                  ag_token_hash = arow_token_hash r, ag_labels = labels, ag_status = arow_status r,
                  ag_last_seen = seen, ag_created = created\<rparr>) in
              case arow_last_seen r of
                None \<Rightarrow> Inr (mk None)
              | Some x \<Rightarrow> (case parse_time x of None \<Rightarrow> Inl DecodeError | Some t \<Rightarrow> Inr (mk (Some t))))))"

definition nullTime :: "time option \<Rightarrow> string option" where
  "nullTime t = map_option iso8601 t"

definition agent_row_of :: "Agent \<Rightarrow> agent_row" where
  "agent_row_of a = \<lparr>arow_id = ag_id a, arow_name = ag_name a, arow_token_hash = ag_token_hash a,
     arow_labels = encodeLabels (ag_labels a), arow_status = ag_status a,
     arow_last_seen = nullTime (ag_last_seen a), arow_created = iso8601 (ag_created a)\<rparr>"

text \<open>
  \<open>isUniqueViolation\<close> looks for the extended result code or the words of the driver's message;
  a unique violation carries both.
\<close>

definition isUniqueViolation :: "string \<Rightarrow> bool" where
  "isUniqueViolation msg \<longleftrightarrow>
     contains_str msg ''2067'' \<or> contains_str msg ''UNIQUE constraint failed''"

definition CreateAgent :: "Agent \<Rightarrow> unit db" where
  "CreateAgent a = catchE (exec (createAgent (agent_row_of a)))
     (\<lambda>e. throw (if e = UniqueViolation then ErrDuplicate else e))"

definition get_agent :: "agent_row stmt \<Rightarrow> Agent db" where
  "get_agent st = bindE (translate_no_rows (exec st)) (\<lambda>r. lift_result (rowToAgent r))"

definition AgentByName :: "string \<Rightarrow> Agent db" where
  "AgentByName nm = get_agent (getAgentByName nm)"

definition AgentByID :: "string \<Rightarrow> Agent db" where
  "AgentByID i = get_agent (getAgentByID i)"

definition ListAgents :: "Agent list db" where
  "ListAgents = bindE (exec listAgents) (\<lambda>rows. lift_result (map_err rowToAgent rows))"

definition none_is_not_found :: "nat \<Rightarrow> unit db" where
  "none_is_not_found n = (if n = 0 then throw ErrNotFound else ret ())"

definition UpdateAgentStatus :: "string \<Rightarrow> string \<Rightarrow> time \<Rightarrow> unit db" where
  "UpdateAgentStatus i st seen =
     bindE (exec (updateAgentStatus st (Some (iso8601 seen)) i)) none_is_not_found"

definition DeleteAgent :: "string \<Rightarrow> unit db" where
  "DeleteAgent i = bindE (exec (deleteAgent i)) none_is_not_found"

definition ResetAllOnline :: "nat db" where
  "ResetAllOnline = bindE time_now (\<lambda>now. exec (resetAllOnlineAgents (iso8601 now)))"

lemmas agent_ops =
  CreateAgent_def AgentByName_def AgentByID_def ListAgents_def UpdateAgentStatus_def
  DeleteAgent_def ResetAllOnline_def get_agent_def none_is_not_found_def

section \<open>Contracts\<close>

lemma frame_agents [frame_rules]:
  "obeys db_only (CreateAgent a)" "obeys db_only (AgentByName nm)" "obeys db_only (AgentByID i)"
  "obeys db_only ListAgents" "obeys db_only (UpdateAgentStatus i st seen)"
  "obeys db_only (DeleteAgent i)" "obeys db_only ResetAllOnline"
  unfolding agent_ops by (intro frame_rules)+

lemma same_agent_reads [same_rules]:
  "obeys tabs_same (AgentByName nm)" "obeys tabs_same (AgentByID i)" "obeys tabs_same ListAgents"
  unfolding agent_ops query_defs by (intro same_rules)+

lemma decodable_agent_row:
  assumes "representable (ag_created a)" and "\<And>t. ag_last_seen a = Some t \<Longrightarrow> representable t"
  shows "decodable_agent (agent_row_of a)"
  using assms
  by (auto simp: decodable_agent_def agent_row_of_def decodeLabels_encodeLabels nullTime_def)

lemma db_ok_stmt:
  assumes "stmt_keeps wf_tables st" and "stmt_keeps decodable st" and "stmt_keeps journal st"
  shows "stmt_keeps db_ok st"
  using assms unfolding stmt_keeps_def db_ok_def by blast

lemma db_ok_agent_reads [inv_rules]:
  "obeys (keeps db_ok) (AgentByName nm)" "obeys (keeps db_ok) (AgentByID i)"
  "obeys (keeps db_ok) ListAgents"
  by (intro obeys_keeps_of_same same_rules)+

lemma db_ok_agent_writes [inv_rules]:
  "obeys (keeps db_ok) (DeleteAgent i)" "obeys (keeps db_ok) ResetAllOnline"
  unfolding agent_ops
  by (intro keeps_time_now inv_rules db_ok_stmt wf_stmts dec_stmts journal_stmts; simp)+

lemma db_ok_UpdateAgentStatus [inv_rules]:
  "representable seen \<Longrightarrow> obeys (keeps db_ok) (UpdateAgentStatus i st seen)"
  unfolding agent_ops
  by (intro inv_rules db_ok_stmt wf_stmts dec_stmts journal_stmts) auto

lemma db_ok_CreateAgent [inv_rules]:
  assumes "representable (ag_created a)" and "\<And>t. ag_last_seen a = Some t \<Longrightarrow> representable t"
  shows "obeys (keeps db_ok) (CreateAgent a)"
  unfolding CreateAgent_def using decodable_agent_row [of a] assms
  by (intro inv_rules db_ok_stmt wf_stmts dec_stmts journal_stmts) auto

lemma hist_agents [hist_rules]:
  "obeys history (CreateAgent a)" "obeys history (AgentByName nm)" "obeys history (AgentByID i)"
  "obeys history ListAgents" "obeys history (UpdateAgentStatus i st seen)"
  "obeys history (DeleteAgent i)" "obeys history ResetAllOnline"
  unfolding agent_ops by (intro hist_rules hist_stmts)+

text \<open>Agent operations move no preview.\<close>

definition stmt_still :: "'a stmt \<Rightarrow> bool" where
  "stmt_still st \<longleftrightarrow> (\<forall>t x t'. st t = Inr (x, t') \<longrightarrow>
     map (\<lambda>r. (row_id r, row_status r)) (tb_previews t') =
     map (\<lambda>r. (row_id r, row_status r)) (tb_previews t))"

lemma status_of_alist:
  "status_of s i = map_of (map (\<lambda>r. (row_id r, row_status r)) (tb_previews (tabs s))) i"
proof -
  have "map_option row_status (find (\<lambda>r. row_id r = i) rows) =
      map_of (map (\<lambda>r. (row_id r, row_status r)) rows) i" for rows
    by (induction rows) auto
  then show ?thesis by (simp add: status_of_def)
qed

lemma moves_unmoved:
  assumes "\<And>s r s'. m s = (r, s') \<Longrightarrow> status_of s' = status_of s"
    and "\<And>s r s'. store_ok s \<Longrightarrow> m s = (r, s') \<Longrightarrow> store_ok s'"
  shows "obeys (moves_of store_ok status_of T) m"
proof (rule obeysI)
  fix s r s' assume run: "m s = (r, s')"
  show "moves_of store_ok status_of T s s'"
    by (rule moves_ofI) (use assms [of s r s'] run in simp_all)
qed

lemma moves_exec_still:
  assumes "stmt_still st" and "stmt_keeps wf_tables st"
  shows "obeys (moves_of store_ok status_of T) (exec st)"
proof (rule moves_unmoved)
  fix s r s' assume run: "exec st s = (r, s')"
  have "map (\<lambda>r. (row_id r, row_status r)) (tb_previews (tabs s')) =
      map (\<lambda>r. (row_id r, row_status r)) (tb_previews (tabs s))"
  proof (cases r)
    case (Inl e)
    then show ?thesis using run by (simp add: exec_Inl)
  next
    case (Inr x)
    then show ?thesis using run assms(1) by (auto simp: exec_Inr stmt_still_def)
  qed
  then show "status_of s' = status_of s"
    by (simp add: fun_eq_iff status_of_alist)
  show "store_ok s \<Longrightarrow> store_ok s'"
    by (rule store_ok_kept [OF keeps_exec [OF assms(2)] _ run])
qed

lemma moves_same:
  assumes "obeys tabs_same m"
  shows "obeys (moves_of store_ok status_of T) m"
proof (rule moves_unmoved)
  fix s r s' assume "m s = (r, s')"
  with assms have t: "tabs s' = tabs s" "clock s' = clock s" by (auto dest: obeysD simp: tabs_same_def)
  from t(1) show "status_of s' = status_of s" by (rule status_of_same)
  show "store_ok s \<Longrightarrow> store_ok s'" using t by (simp add: store_ok_def clock_ok_def)
qed

lemma still_agent_stmts:
  "stmt_still (createAgent a)" "stmt_still (updateAgentStatus st seen i)"
  "stmt_still (resetAllOnlineAgents now)" "stmt_still (deleteAgent i)"
  by (auto simp: stmt_still_def createAgent_def updateAgentStatus_def resetAllOnlineAgents_def
      deleteAgent_def update_where_def split: if_splits)

named_theorems move_rules "contracts of status moves"

lemmas move_intros [move_rules] =
  previews.moves.rules obeys_cases obeys_attempt obeys_logged moves_same [OF tabs_same_env(1)]
  moves_same [OF tabs_same_env(2)]

lemma moves_agent_reads [move_rules]:
  "obeys (moves_of store_ok status_of T) (AgentByName nm)"
  "obeys (moves_of store_ok status_of T) (AgentByID i)"
  "obeys (moves_of store_ok status_of T) ListAgents"
  by (intro moves_same same_rules)+

lemma moves_agent_writes [move_rules]:
  "obeys (moves_of store_ok status_of T) (CreateAgent a)"
  "obeys (moves_of store_ok status_of T) (UpdateAgentStatus i st seen)"
  "obeys (moves_of store_ok status_of T) (DeleteAgent i)"
  "obeys (moves_of store_ok status_of T) ResetAllOnline"
  unfolding agent_ops
  by (intro move_rules moves_exec_still still_agent_stmts wf_stmts)+

end
