(* ===== verification/SecretStore.thy ===== *)
theory SecretStore
  imports AgentStore
begin

text \<open>
  internal/db/sqlite/repo_secret_store.go: the build secrets, a map from (repo, key) to value
  whose repo names are lower case. The locale \<open>secret_map\<close> is the interface
  \<open>store.RepoSecretStore\<close> as its clients see it, with the laws of a map.
\<close>

record RepoSecret =
  rs_repo :: string
  rs_key :: string
  rs_value :: string
  rs_updated :: time

text \<open>\<open>time.Time{}\<close>: the first instant of year 1.\<close>

definition zero_time :: time where
  "zero_time = days_before_year 1 * 86400 * nanos_per_sec"

definition normRepo :: "string \<Rightarrow> string" where
  "normRepo s = to_lower s"

definition secret_to_domain :: "secret_row \<Rightarrow> store_err + RepoSecret" where
  "secret_to_domain r =
     (case parse_time (sec_updated r) of
        None \<Rightarrow> Inl DecodeError
      | Some t \<Rightarrow> Inr \<lparr>rs_repo = sec_repo r, rs_key = sec_key r, rs_value = sec_value r, rs_updated = t\<rparr>)"

definition ListSecrets :: "string \<Rightarrow> RepoSecret list db" where
  "ListSecrets repo = bindE (exec (listRepoSecrets (normRepo repo)))
     (\<lambda>rows. lift_result (map_err secret_to_domain rows))"

definition UpsertSecret :: "RepoSecret \<Rightarrow> unit db" where
  "UpsertSecret x =
     bindE (if rs_updated x = zero_time then time_now else ret (rs_updated x)) (\<lambda>t.
     exec (upsertRepoSecret \<lparr>sec_repo = normRepo (rs_repo x), sec_key = rs_key x,
             sec_value = rs_value x, sec_updated = iso8601 t\<rparr>))"

definition DeleteSecret :: "string \<Rightarrow> string \<Rightarrow> unit db" where
  "DeleteSecret repo k = exec (deleteRepoSecret (normRepo repo) k)"

definition DeleteAllSecretsFor :: "string \<Rightarrow> unit db" where
  "DeleteAllSecretsFor repo = exec (deleteAllRepoSecretsFor (normRepo repo))"

definition ListSecretRepos :: "string list db" where
  "ListSecretRepos = exec listRepoSecretRepos"

lemmas secret_ops =
  ListSecrets_def UpsertSecret_def DeleteSecret_def DeleteAllSecretsFor_def ListSecretRepos_def

section \<open>Contracts\<close>

lemma frame_secrets [frame_rules]:
  "obeys db_only (ListSecrets repo)" "obeys db_only (UpsertSecret x)"
  "obeys db_only (DeleteSecret repo k)" "obeys db_only (DeleteAllSecretsFor repo)"
  "obeys db_only ListSecretRepos"
  unfolding secret_ops by (intro frame_rules)+

lemma same_secret_reads [same_rules]:
  "obeys tabs_same (ListSecrets repo)" "obeys tabs_same ListSecretRepos"
  unfolding secret_ops query_defs by (intro same_rules)+

lemma db_ok_secret_reads [inv_rules]:
  "obeys (keeps db_ok) (ListSecrets repo)" "obeys (keeps db_ok) ListSecretRepos"
  by (intro obeys_keeps_of_same same_rules)+

lemma db_ok_secret_deletes [inv_rules]:
  "obeys (keeps db_ok) (DeleteSecret repo k)" "obeys (keeps db_ok) (DeleteAllSecretsFor repo)"
  unfolding secret_ops
  by (intro inv_rules db_ok_stmt wf_stmts dec_stmts journal_stmts)+

lemma db_ok_UpsertSecret [inv_rules]:
  assumes "representable (rs_updated x)"
  shows "obeys (keeps db_ok) (UpsertSecret x)"
proof (cases "rs_updated x = zero_time")
  case True
  then have "UpsertSecret x = bindE time_now (\<lambda>t. exec (upsertRepoSecret
      \<lparr>sec_repo = normRepo (rs_repo x), sec_key = rs_key x, sec_value = rs_value x,
       sec_updated = iso8601 t\<rparr>))"
    by (simp add: UpsertSecret_def)
  then show ?thesis
    by (auto intro!: keeps_time_now keeps_exec db_ok_stmt wf_stmts dec_stmts journal_stmts)
next
  case False
  then have "UpsertSecret x = exec (upsertRepoSecret
      \<lparr>sec_repo = normRepo (rs_repo x), sec_key = rs_key x, sec_value = rs_value x,
       sec_updated = iso8601 (rs_updated x)\<rparr>)"
    by (auto simp: UpsertSecret_def bindE_def)
  then show ?thesis
    using assms by (auto intro!: keeps_exec db_ok_stmt wf_stmts dec_stmts journal_stmts)
qed

lemma hist_secrets [hist_rules]:
  "obeys history (ListSecrets repo)" "obeys history (UpsertSecret x)"
  "obeys history (DeleteSecret repo k)" "obeys history (DeleteAllSecretsFor repo)"
  "obeys history ListSecretRepos"
  unfolding secret_ops by (intro hist_rules hist_stmts)+

lemma still_secret_stmts:
  "stmt_still (upsertRepoSecret y)" "stmt_still (deleteRepoSecret repo k)"
  "stmt_still (deleteAllRepoSecretsFor repo)"
  by (auto simp: stmt_still_def upsertRepoSecret_def deleteRepoSecret_def
      deleteAllRepoSecretsFor_def)

lemma moves_secrets [move_rules]:
  "obeys (moves_of store_ok status_of T) (UpsertSecret x)"
  "obeys (moves_of store_ok status_of T) (DeleteSecret repo k)"
  "obeys (moves_of store_ok status_of T) (DeleteAllSecretsFor repo)"
  unfolding secret_ops by (intro move_rules moves_exec_still still_secret_stmts wf_stmts)+

lemma moves_secret_reads [move_rules]:
  "obeys (moves_of store_ok status_of T) (ListSecrets repo)"
  "obeys (moves_of store_ok status_of T) ListSecretRepos"
  by (intro moves_same same_rules)+

section \<open>The interface\<close>

type_synonym secret_view = "string \<Rightarrow> string \<Rightarrow> string option"

definition entries :: "RepoSecret list \<Rightarrow> (string \<times> string) list" where
  "entries xs = map (\<lambda>x. (rs_key x, rs_value x)) xs"

locale secret_map =
  fixes ok :: "'s \<Rightarrow> bool"
    and view :: "'s \<Rightarrow> secret_view"
    and lst :: "string \<Rightarrow> ('s, store_err, RepoSecret list) prog"
    and up :: "RepoSecret \<Rightarrow> ('s, store_err, unit) prog"
    and del :: "string \<Rightarrow> string \<Rightarrow> ('s, store_err, unit) prog"
    and now :: "('s, store_err, time) prog"
  assumes ok_lst: "ok s \<Longrightarrow> ok (snd (lst repo s))"
    and ok_up: "ok s \<Longrightarrow> ok (snd (up x s))"
    and ok_del: "ok s \<Longrightarrow> ok (snd (del repo k s))"
    and ok_now: "ok s \<Longrightarrow> ok (snd (now s))"
    and view_lst: "view (snd (lst repo s)) = view s"
    and view_now: "view (snd (now s)) = view s"
    and lst_law: "ok s \<Longrightarrow> lst repo s = (Inr xs, s') \<Longrightarrow>
      distinct (map fst (entries xs)) \<and> map_of (entries xs) = view s (to_lower repo)"
    and up_law: "ok s \<Longrightarrow> up x s = (Inr (), s') \<Longrightarrow>
      view s' = (view s)(to_lower (rs_repo x) := (view s (to_lower (rs_repo x)))(rs_key x \<mapsto> rs_value x))"
    and del_law: "ok s \<Longrightarrow> del repo k s = (Inr (), s') \<Longrightarrow>
      view s' = (view s)(to_lower repo := (view s (to_lower repo))(k := None))"

text \<open>The SQLite store as a map.\<close>

definition secrets_of :: "hub \<Rightarrow> secret_view" where
  "secrets_of s repo k =
     map_option sec_value (find (secret_key_is repo k) (tb_secrets (tabs s)))"

lemma secrets_of_alist:
  "secrets_of s repo k = map_of (map (\<lambda>x. (secret_pk x, sec_value x)) (tb_secrets (tabs s))) (repo, k)"
proof -
  have "map_option sec_value (find (secret_key_is repo k) rows) =
      map_of (map (\<lambda>x. (secret_pk x, sec_value x)) rows) (repo, k)" for rows
    by (induction rows) (auto simp: secret_key_is_pk)
  then show ?thesis by (simp add: secrets_of_def)
qed

lemma find_key_filter:
  "find (secret_key_is r j) (filter (\<lambda>x. \<not> secret_key_is repo k x) l) =
     (if (r, j) = (repo, k) then None else find (secret_key_is r j) l)"
proof (cases "(r, j) = (repo, k)")
  case True
  then show ?thesis by (auto simp: find_None_iff)
next
  case False
  then have "secret_key_is repo k x \<Longrightarrow> \<not> secret_key_is r j x" for x
    by (auto simp: secret_key_is_def)
  then have "find (secret_key_is r j) (filter (\<lambda>x. \<not> secret_key_is repo k x) l) = find (secret_key_is r j) l"
    by (induction l) auto
  with False show ?thesis by auto
qed

lemma secrets_of_same: "tabs s' = tabs s \<Longrightarrow> secrets_of s' = secrets_of s"
  by (auto simp: secrets_of_def fun_eq_iff)

lemma secrets_of_upsert:
  assumes "upsertRepoSecret x (tabs s) = Inr (u, tabs s')"
  shows "secrets_of s' = (secrets_of s)(sec_repo x := (secrets_of s (sec_repo x))(sec_key x \<mapsto> sec_value x))"
proof (intro ext)
  fix repo k
  let ?rows = "tb_secrets (tabs s)" and ?hit = "secret_key_is (sec_repo x) (sec_key x)"
  show "secrets_of s' repo k =
    ((secrets_of s)(sec_repo x := (secrets_of s (sec_repo x))(sec_key x \<mapsto> sec_value x))) repo k"
  proof (cases "\<exists>y \<in> set ?rows. ?hit y")
    case True
    let ?f = "\<lambda>y. y\<lparr>sec_value := sec_value x, sec_updated := sec_updated x\<rparr>"
    have rows: "tb_secrets (tabs s') = update_where ?hit ?f ?rows"
      using assms True by (auto simp: upsertRepoSecret_def dest!: sym [of _ "tabs s'"])
    have key: "secret_key_is repo k (?f y) = secret_key_is repo k y" for y
      by (simp add: secret_key_is_def)
    have "find (secret_key_is repo k) (update_where ?hit ?f l) =
        map_option (\<lambda>y. if ?hit y then ?f y else y) (find (secret_key_is repo k) l)" for l
      by (induction l) (auto simp: key)
    then have new: "secrets_of s' repo k = map_option (\<lambda>y. sec_value (if ?hit y then ?f y else y))
        (find (secret_key_is repo k) ?rows)"
      by (simp add: secrets_of_def rows option.map_comp comp_def)
    obtain y where y: "find ?hit ?rows = Some y" using True by (cases "find ?hit ?rows") (auto simp: find_None_iff)
    show ?thesis
    proof (cases "find (secret_key_is repo k) ?rows")
      case None
      with y have "(repo, k) \<noteq> (sec_repo x, sec_key x)" by auto
      then show ?thesis using new None by (auto simp: secrets_of_def)
    next
      case (Some z)
      then have "secret_key_is repo k z" by (auto dest: find_SomeD)
      then have "?hit z \<longleftrightarrow> (repo, k) = (sec_repo x, sec_key x)" by (auto simp: secret_key_is_def)
      then show ?thesis using new Some by (auto simp: secrets_of_def)
    qed
  next
    case False
    then have "tb_secrets (tabs s') = ?rows @ [x]" "find ?hit ?rows = None"
      using assms by (auto simp: upsertRepoSecret_def find_None_iff dest!: sym [of _ "tabs s'"])
    then show ?thesis
      by (cases "find (secret_key_is repo k) ?rows")
        (auto simp: secrets_of_def find_append_None secret_key_is_def dest: find_SomeD)
  qed
qed

lemma secrets_of_delete:
  assumes "deleteRepoSecret repo k (tabs s) = Inr (u, tabs s')"
  shows "secrets_of s' = (secrets_of s)(repo := (secrets_of s repo)(k := None))"
proof (intro ext)
  fix r j
  have rows: "tb_secrets (tabs s') = filter (\<lambda>x. \<not> secret_key_is repo k x) (tb_secrets (tabs s))"
    using assms by (auto simp: deleteRepoSecret_def dest!: sym [of _ "tabs s'"])
  show "secrets_of s' r j = ((secrets_of s)(repo := (secrets_of s repo)(k := None))) r j"
    by (simp add: secrets_of_def rows find_key_filter)
qed

lemma map_of_filter_key:
  "map_of (map (\<lambda>x. (sec_key x, sec_value x)) (filter (\<lambda>x. sec_repo x = repo) rows)) k =
     map_of (map (\<lambda>x. (secret_pk x, sec_value x)) rows) (repo, k)"
  by (induction rows) (auto simp: secret_pk_def)

lemma ListSecrets_Inr:
  assumes "ListSecrets repo s = (Inr xs, s')" and "wf_tables (tabs s)"
  shows "distinct (map fst (entries xs))" and "map_of (entries xs) = secrets_of s (to_lower repo)"
proof -
  let ?hit = "filter (\<lambda>x. sec_repo x = normRepo repo) (tb_secrets (tabs s))"
  from assms(1) have conv: "map_err secret_to_domain (order_asc sec_key ?hit) = Inr xs"
    by (auto simp: ListSecrets_def prog_elims listRepoSecrets_def)
  have ent: "entries xs = map (\<lambda>x. (sec_key x, sec_value x)) (order_asc sec_key ?hit)"
    unfolding entries_def using conv
    by (rule map_err_map) (auto simp: secret_to_domain_def split: option.splits)
  have "distinct (map secret_pk (tb_secrets (tabs s)))" using assms(2) by (rule wf_secrets)
  then have dist: "distinct (map sec_key ?hit)"
    by (auto simp: distinct_map inj_on_def secret_pk_def)
  then have "distinct (map sec_key (order_asc sec_key ?hit))"
    by (simp add: distinct_map order_asc_def)
  then show "distinct (map fst (entries xs))" by (simp add: ent comp_def)
  have "map_of (map (\<lambda>x. (sec_key x, sec_value x)) (order_asc sec_key ?hit)) =
      map_of (map (\<lambda>x. (sec_key x, sec_value x)) ?hit)"
    using dist \<open>distinct (map sec_key (order_asc sec_key ?hit))\<close>
    by (intro map_of_inject_set [THEN iffD2]) (auto simp: comp_def)
  then show "map_of (entries xs) = secrets_of s (to_lower repo)"
    by (auto simp: ent fun_eq_iff secrets_of_alist map_of_filter_key normRepo_def)
qed

interpretation secrets: secret_map store_ok secrets_of ListSecrets UpsertSecret DeleteSecret time_now
proof
  note ok = obeys_apply [of "moves_of store_ok status_of (\<lambda>_ _ _. True)"]
  fix s and repo k :: string and x and xs and s'
  show "store_ok s \<Longrightarrow> store_ok (snd (ListSecrets repo s))"
    using ok [OF moves_secret_reads(1)] by (simp add: moves_of_def)
  show "store_ok s \<Longrightarrow> store_ok (snd (UpsertSecret x s))"
    using ok [OF moves_secrets(1)] by (simp add: moves_of_def)
  show "store_ok s \<Longrightarrow> store_ok (snd (DeleteSecret repo k s))"
    using ok [OF moves_secrets(2)] by (simp add: moves_of_def)
  show "store_ok s \<Longrightarrow> store_ok (snd (time_now s))"
    by (simp add: time_now_def store_ok_def clock_ok_def)
  show "secrets_of (snd (ListSecrets repo s)) = secrets_of s"
    using obeys_apply [OF same_secret_reads(1), of s] by (intro secrets_of_same) (simp add: tabs_same_def)
  show "secrets_of (snd (time_now s)) = secrets_of s"
    by (intro secrets_of_same) (simp add: time_now_def)
  show "store_ok s \<Longrightarrow> ListSecrets repo s = (Inr xs, s') \<Longrightarrow>
      distinct (map fst (entries xs)) \<and> map_of (entries xs) = secrets_of s (to_lower repo)"
    using ListSecrets_Inr [of repo s xs s'] by (auto simp: store_ok_def)
  show "store_ok s \<Longrightarrow> UpsertSecret x s = (Inr (), s') \<Longrightarrow> secrets_of s' =
      (secrets_of s)(to_lower (rs_repo x) := (secrets_of s (to_lower (rs_repo x)))(rs_key x \<mapsto> rs_value x))"
  proof -
    assume "UpsertSecret x s = (Inr (), s')"
    then obtain t s1 where "(if rs_updated x = zero_time then time_now else ret (rs_updated x)) s = (Inr t :: store_err + time, s1)"
      and run: "exec (upsertRepoSecret
        \<lparr>sec_repo = normRepo (rs_repo x), sec_key = rs_key x, sec_value = rs_value x,
         sec_updated = iso8601 t\<rparr>) s1 = (Inr (), s')"
      by (auto simp: UpsertSecret_def bindE_Inr)
    then have "tabs s1 = tabs s" by (auto simp: time_now_Inr split: if_splits)
    with run have "upsertRepoSecret \<lparr>sec_repo = normRepo (rs_repo x), sec_key = rs_key x,
        sec_value = rs_value x, sec_updated = iso8601 t\<rparr> (tabs s) = Inr ((), tabs s')"
      by (auto simp: exec_Inr)
    from secrets_of_upsert [OF this] show ?thesis by (simp add: normRepo_def)
  qed
  show "store_ok s \<Longrightarrow> DeleteSecret repo k s = (Inr (), s') \<Longrightarrow> secrets_of s' =
      (secrets_of s)(to_lower repo := (secrets_of s (to_lower repo))(k := None))"
    using secrets_of_delete [of "normRepo repo" k s "()" s']
    by (auto simp: DeleteSecret_def exec_Inr normRepo_def)
qed

end
