(* ===== verification/Registry.thy ===== *)
theory Registry
  imports SecretStore "HOL-Library.Sublist"
begin

text \<open>
  internal/hub/ws_registry.go and internal/hub/labels.go: the online agents, the frames the
  hub sends them, and label matching. The locale \<open>frame_sender\<close> is what the handlers rely on
  in a \<open>JobSender\<close> or a \<open>TeardownSender\<close>: sending never touches the database, and a successful
  call wrote exactly its frame, last, to the agent's connection.
\<close>

section \<open>Label matching\<close>

definition LabelsMatch :: "string list \<Rightarrow> string list \<Rightarrow> bool" where
  "LabelsMatch preview agent \<longleftrightarrow> (if preview = [] then True else list_all (\<lambda>v. v \<in> set agent) preview)"

lemma LabelsMatch_iff: "LabelsMatch preview agent \<longleftrightarrow> set preview \<subseteq> set agent"
  by (auto simp: LabelsMatch_def list_all_iff)

section \<open>The connection registry\<close>

datatype hub_err =
    StoreErr store_err
  | NotConnected
  | WriteFailed
  | BadPayload

definition connFor :: "hub \<Rightarrow> string \<Rightarrow> nat option" where
  "connFor s ag = map_of (conns s) ag"

definition add_conn :: "string \<Rightarrow> nat \<Rightarrow> hub \<Rightarrow> bool \<times> hub" where
  "add_conn ag c s =
     (if connFor s ag \<noteq> None then (False, s) else (True, s\<lparr>conns := (ag, c) # conns s\<rparr>))"

definition remove_conn :: "string \<Rightarrow> nat \<Rightarrow> hub \<Rightarrow> hub" where
  "remove_conn ag c s =
     (if connFor s ag = Some c then s\<lparr>conns := filter (\<lambda>x. fst x \<noteq> ag) (conns s)\<rparr> else s)"

definition OnlineAgentIDs :: "hub \<Rightarrow> string set" where
  "OnlineAgentIDs s = fst ` set (conns s)"

text \<open>\<open>closeAll\<close> closes every connection; the sessions then end and remove their entries.\<close>

definition closeAll :: "hub \<Rightarrow> hub" where
  "closeAll s = s\<lparr>broken := map snd (conns s) @ broken s\<rparr>"

definition registry_ok :: "hub \<Rightarrow> bool" where
  "registry_ok s \<longleftrightarrow> distinct (map fst (conns s))"

lemma frameD:
  "obeys db_only m \<Longrightarrow> m s = (r, s') \<Longrightarrow>
     outbox s' = outbox s \<and> connFor s' = connFor s \<and> clock s' = clock s \<and> paused s' = paused s"
  by (drule obeysD, assumption) (auto simp: db_only_def connFor_def fun_eq_iff)

lemma registry_add: "registry_ok s \<Longrightarrow> registry_ok (snd (add_conn ag c s))"
  by (auto simp: registry_ok_def add_conn_def connFor_def map_of_eq_None_iff image_iff)

lemma registry_remove: "registry_ok s \<Longrightarrow> registry_ok (remove_conn ag c s)"
  by (auto simp: registry_ok_def remove_conn_def distinct_map_filter)

lemma connFor_remove:
  "connFor (remove_conn ag c s) ag' =
     (if ag' = ag \<and> connFor s ag = Some c then None else connFor s ag')"
proof -
  have "map_of (filter (\<lambda>x. fst x \<noteq> ag) xs) ag' = (if ag' = ag then None else map_of xs ag')" for xs :: "(string \<times> nat) list"
    by (induction xs) auto
  then show ?thesis by (auto simp: remove_conn_def connFor_def)
qed

lemma online_iff: "ag \<in> OnlineAgentIDs s \<longleftrightarrow> connFor s ag \<noteq> None"
  by (auto simp: OnlineAgentIDs_def connFor_def map_of_eq_None_iff)

section \<open>Sending frames\<close>

definition write_frame :: "nat \<Rightarrow> envelope \<Rightarrow> (hub_err, unit) act" where
  "write_frame c e s =
     (if faults s (seqno s) \<or> c \<in> set (broken s) then (Inl WriteFailed, step_env s)
      else (Inr (), (step_env s)\<lparr>outbox := outbox s @ [(c, e)]\<rparr>))"

definition send_to :: "string \<Rightarrow> envelope \<Rightarrow> (hub_err, unit) act" where
  "send_to ag e s =
     (case connFor s ag of None \<Rightarrow> (Inl NotConnected, s) | Some c \<Rightarrow> write_frame c e s)"

text \<open>\<open>JobAssignFromPreview\<close> of internal/hub/dispatcher.go.\<close>

definition JobAssignFromPreview :: "Preview \<Rightarrow> (string \<times> string) list \<Rightarrow> JobAssignData" where
  "JobAssignFromPreview p env =
     \<lparr>ja_preview = pv_id p, ja_repo = pv_repo p,
      ja_url = (if pv_clone_url p = [] then pv_repo p else pv_clone_url p),
      ja_sha = pv_sha p, ja_branch = pv_branch p, ja_labels = pv_labels p, ja_env = env\<rparr>"

definition SendJobAssign :: "string \<Rightarrow> Preview \<times> (string \<times> string) list \<Rightarrow> (hub_err, unit) act" where
  "SendJobAssign ag job = send_to ag (JobAssign (JobAssignFromPreview (fst job) (snd job)))"

definition SendTeardown :: "string \<Rightarrow> string \<Rightarrow> (hub_err, unit) act" where
  "SendTeardown ag i = send_to ag (JobTeardown i)"

section \<open>The interface of a sender\<close>

locale frame_sender =
  fixes db :: "'s \<Rightarrow> 'd"
    and out :: "'s \<Rightarrow> (nat \<times> envelope) list"
    and conn :: "'s \<Rightarrow> string \<Rightarrow> nat option"
    and send :: "string \<Rightarrow> 'm \<Rightarrow> ('s, 'e, unit) prog"
    and frame :: "'m \<Rightarrow> envelope"
  assumes send_db: "db (snd (send a m s)) = db s"
    and send_conn: "conn (snd (send a m s)) = conn s"
    and send_ok: "send a m s = (Inr (), s') \<Longrightarrow> \<exists>c. conn s a = Some c \<and> out s' = out s @ [(c, frame m)]"
    and send_failed: "send a m s = (Inl e, s') \<Longrightarrow> out s' = out s"
begin

lemma send_offline: "conn s a = None \<Longrightarrow> \<exists>e s'. send a m s = (Inl e, s') \<and> out s' = out s"
proof -
  assume off: "conn s a = None"
  obtain r s' where run: "send a m s = (r, s')" by fastforce
  show ?thesis
  proof (cases r)
    case (Inl e)
    with run send_failed show ?thesis by blast
  next
    case (Inr x)
    with run off send_ok [of a m s s'] show ?thesis by simp
  qed
qed

text \<open>One attempt per message, errors logged and skipped: what arrives is a subsequence.\<close>

lemma send_each:
  assumes "for_each (\<lambda>m. logged (send a m)) ms s = (r, s')"
  shows "r = Inr () \<and> db s' = db s \<and> conn s' = conn s \<and>
    (\<exists>sent. subseq sent ms \<and> out s' = out s @ map (\<lambda>m. (the (conn s a), frame m)) sent)"
  using assms
proof (induction ms arbitrary: s)
  case (Cons m ms)
  obtain x s1 where one: "send a m s = (x, s1)" by fastforce
  with Cons.prems have rest: "for_each (\<lambda>m. logged (send a m)) ms s1 = (r, s')"
    by simp
  have same: "db s1 = db s" "conn s1 = conn s"
    using one send_db [of a m s] send_conn [of a m s] by simp_all
  from Cons.IH [OF rest] obtain sent where IH: "r = Inr ()" "db s' = db s1" "conn s' = conn s1"
    "subseq sent ms" "out s' = out s1 @ map (\<lambda>m. (the (conn s a), frame m)) sent"
    by (auto simp: same)
  show ?case
  proof (cases x)
    case (Inl e)
    with one send_failed have "out s1 = out s" by blast
    with IH same show ?thesis by (auto intro!: exI [of _ sent])
  next
    case (Inr u)
    with one send_ok [of a m s s1] obtain c where "conn s a = Some c" "out s1 = out s @ [(c, frame m)]"
      by auto
    with IH same show ?thesis by (auto intro!: exI [of _ "m # sent"])
  qed
qed simp

end

lemma send_to_run:
  "send_to ag e s = (Inr (), s') \<Longrightarrow> \<exists>c. connFor s ag = Some c \<and> outbox s' = outbox s @ [(c, e)]"
  "send_to ag e s = (Inl x, s') \<Longrightarrow> outbox s' = outbox s"
  "tabs (snd (send_to ag e s)) = tabs s" "connFor (snd (send_to ag e s)) = connFor s"
  by (auto simp: send_to_def write_frame_def connFor_def fun_eq_iff split: option.splits if_splits)

interpretation jobs: frame_sender tabs outbox connFor SendJobAssign
    "\<lambda>job. JobAssign (JobAssignFromPreview (fst job) (snd job))"
  by unfold_locales (auto simp: SendJobAssign_def dest: send_to_run(1,2) simp: send_to_run(3,4))

interpretation teardowns: frame_sender tabs outbox connFor SendTeardown JobTeardown
  by unfold_locales (auto simp: SendTeardown_def dest: send_to_run(1,2) simp: send_to_run(3,4))

lemma same_send [same_rules]:
  "obeys tabs_same (SendJobAssign ag job)" "obeys tabs_same (SendTeardown ag i)"
  by (auto simp: obeys_def tabs_same_def SendJobAssign_def SendTeardown_def send_to_def
      write_frame_def split: option.splits)

lemma sends_keep [inv_rules]:
  "obeys (keeps I) (SendJobAssign ag job)" "obeys (keeps I) (SendTeardown ag i)"
  by (intro obeys_keeps_of_same same_rules)+

lemma sends_hist [hist_rules]:
  "obeys history (SendJobAssign ag job)" "obeys history (SendTeardown ag i)"
  by (intro history_same same_rules)+

lemma sends_move [move_rules]:
  "obeys (moves_of store_ok status_of T) (SendJobAssign ag job)"
  "obeys (moves_of store_ok status_of T) (SendTeardown ag i)"
  by (intro moves_same same_rules)+

text \<open>A store call from a handler: the store's error becomes one of the handler's.\<close>

definition store :: "'a db \<Rightarrow> (hub_err, 'a) act" where
  "store m s = (case m s of (Inl e, s') \<Rightarrow> (Inl (StoreErr e), s') | (Inr x, s') \<Rightarrow> (Inr x, s'))"

lemma snd_store [simp]: "snd (store m s) = snd (m s)"
  by (simp add: store_def split: prod.splits sum.splits)

lemma store_Inr [prog_elims]: "store m s = (Inr x, s') \<longleftrightarrow> m s = (Inr x, s')"
  by (auto simp: store_def split: prod.splits sum.splits)

lemma store_Inl [prog_elims]: "store m s = (Inl e, s') \<longleftrightarrow> (\<exists>x. e = StoreErr x \<and> m s = (Inl x, s'))"
  by (auto simp: store_def split: prod.splits sum.splits)

lemma obeys_store: "obeys R m \<Longrightarrow> obeys R (store m)"
  by (simp add: obeys_def)

lemmas handler_rules = obeys_store
declare obeys_store [frame_rules, same_rules, inv_rules, hist_rules, move_rules]

end
