(* ===== verification/Dispatcher.thy ===== *)
theory Dispatcher
  imports Registry
begin

text \<open>
  internal/hub/dispatcher.go: a READY of an agent claims the oldest queued preview whose labels
  the agent carries, and sends it the job with the build secrets of its repo.
\<close>

text \<open>\<open>Pause\<close>: from then on \<open>OnReady\<close> does nothing.\<close>

definition Pause :: "hub \<Rightarrow> hub" where
  "Pause s = s\<lparr>paused := True\<rparr>"

text \<open>The first argument tells whether a secret store is wired (\<open>RepoSecrets != nil\<close>).\<close>

definition hydrateBuildEnv :: "bool \<Rightarrow> string \<Rightarrow> (hub_err, (string \<times> string) list) act" where
  "hydrateBuildEnv rs repo =
     (if \<not> rs then ret []
      else bindE (attempt (store (ListSecrets repo)))
        (\<lambda>r. case r of Inl _ \<Rightarrow> ret [] | Inr rows \<Rightarrow> ret (entries rows)))"

definition dispatch_claimed :: "bool \<Rightarrow> string \<Rightarrow> Preview \<Rightarrow> (hub_err, unit) act" where
  "dispatch_claimed rs ag p =
     bindE (hydrateBuildEnv rs (pv_repo p)) (\<lambda>env. SendJobAssign ag (p, env))"

definition claim_for :: "bool \<Rightarrow> string \<Rightarrow> string list \<Rightarrow> (hub_err, unit) act" where
  "claim_for rs ag matched =
     (if matched = [] then ret ()
      else bindE time_now (\<lambda>now.
        bindE (attempt (store (Claim matched ag now))) (\<lambda>r.
          case r of
            Inl e \<Rightarrow> if e = StoreErr ErrNotFound then ret () else throw e
          | Inr p \<Rightarrow> dispatch_claimed rs ag p)))"

definition OnReady_active :: "bool \<Rightarrow> string \<Rightarrow> (hub_err, unit) act" where
  "OnReady_active rs ag =
     bindE (attempt (store (AgentByID ag))) (\<lambda>r.
        case r of
          Inl e \<Rightarrow> if e = StoreErr ErrNotFound then ret () else throw e
        | Inr agent \<Rightarrow>
            bindE (store ListQueuedForCandidates) (\<lambda>cands.
              claim_for rs ag (map pv_id (filter (\<lambda>p. LabelsMatch (pv_labels p) (ag_labels agent)) cands))))"

definition OnReady :: "bool \<Rightarrow> string \<Rightarrow> (hub_err, unit) act" where
  "OnReady rs ag s = (if paused s then (Inr (), s) else OnReady_active rs ag s)"

lemma obeys_OnReady:
  assumes "contract R" and "obeys R (OnReady_active rs ag)"
  shows "obeys R (OnReady rs ag)"
  using assms contract.refl [OF assms(1)] by (auto simp: obeys_def OnReady_def)

section \<open>Contracts\<close>

lemma same_hydrate [same_rules]: "obeys tabs_same (hydrateBuildEnv rs repo)"
  unfolding hydrateBuildEnv_def by (intro same_rules)

lemma same_dispatch_claimed [same_rules]: "obeys tabs_same (dispatch_claimed rs ag p)"
  unfolding dispatch_claimed_def by (intro same_rules)

lemma keeps_OnReady [inv_rules]: "obeys (keeps db_ok) (OnReady rs ag)"
proof (rule obeys_OnReady)
  show "contract (keeps db_ok)" by (rule inv.contract_axioms)
  show "obeys (keeps db_ok) (OnReady_active rs ag)"
    unfolding OnReady_active_def claim_for_def
    by (intro keeps_time_now inv_rules obeys_keeps_of_same [OF same_dispatch_claimed])
qed

lemma hist_OnReady [hist_rules]: "obeys history (OnReady rs ag)"
proof (rule obeys_OnReady)
  show "contract history" by (rule hist.contract_axioms)
  show "obeys history (OnReady_active rs ag)"
    unfolding OnReady_active_def claim_for_def
    by (intro hist_rules history_same [OF same_dispatch_claimed])
qed


definition dispatching :: transitions where
  "dispatching i a b \<longleftrightarrow> a = Some ''queued'' \<and> b = Some ''assigned''"

lemma moves_queued_reads [move_rules]:
  "obeys (moves_of store_ok status_of T) (GetByID i)" "obeys (moves_of store_ok status_of T) ListAll"
  "obeys (moves_of store_ok status_of T) ListQueuedForCandidates"
  "obeys (moves_of store_ok status_of T) (ListStaleAssigned t)"
  "obeys (moves_of store_ok status_of T) (ListByAgent ag sts)"
  "obeys (moves_of store_ok status_of T) (GetActiveByRepoAndPR repo pr)"
  "obeys (moves_of store_ok status_of T) (FindAdhocByBranch repo b)"
  by (intro moves_same same_rules)+

lemma moves_OnReady: "obeys (moves_of store_ok status_of dispatching) (OnReady rs ag)"
proof (rule obeys_OnReady)
  show "contract (moves_of store_ok status_of dispatching)" by (rule previews.moves.contract_axioms)
  have claim: "obeys (moves_of store_ok status_of dispatching) (Claim ids ag now)" for ids now
    by (rule previews.claim_moves) (simp add: dispatching_def)
  show "obeys (moves_of store_ok status_of dispatching) (OnReady_active rs ag)"
    unfolding OnReady_active_def claim_for_def
    by (intro move_rules claim moves_same [OF same_dispatch_claimed])
qed

section \<open>What a READY does\<close>

lemma Claim_run:
  assumes "Claim ids ag now s = (r, s')"
  shows "(\<exists>e. r = Inl e \<and> tabs s' = tabs s)
    \<or> (\<exists>q rest u. claim_candidates ids (tabs s) = q # rest \<and> ag \<in> arow_id ` set (tb_agents (tabs s)) \<and>
        tabs s' = claimed q ag now u (tabs s) \<and> r = previewRowToDomain (claim_row ag (iso8601 now) q))"
proof (cases "ids = []")
  case True
  then show ?thesis using assms by (auto simp: Claim_def)
next
  case False
  obtain x s1 where tx: "claim_tx ids ag now s = (x, s1)" by fastforce
  show ?thesis
  proof (cases x)
    case (Inl e)
    with tx have "tabs s1 = tabs s" by (metis atomicD atomic_claim_tx)
    with assms False tx Inl show ?thesis by (auto simp: Claim_tx bindE_def)
  next
    case (Inr row)
    with assms False tx have "r = previewRowToDomain row" "s' = s1" by (simp_all add: Claim_tx bindE_def)
    with tx Inr show ?thesis by (auto elim!: claim_tx_Inr)
  qed
qed

lemma claim_candidates_one:
  assumes "claim_candidates ids t = q # rest"
  shows "row_id q \<in> set ids"
  using claim_candidates_Cons [OF assms] by simp

lemma frame_hydrate [frame_rules]: "obeys db_only (hydrateBuildEnv rs repo)"
  unfolding hydrateBuildEnv_def by (intro frame_rules)

lemma hydrate_env:
  assumes "hydrateBuildEnv rs repo s = (r, s')" and "store_ok s"
  shows "\<exists>env. r = Inr env \<and> (env = [] \<or> rs \<and> distinct (map fst env) \<and> map_of env = secrets_of s (to_lower repo))"
proof (cases rs)
  case True
  obtain x s1 where l: "ListSecrets repo s = (x, s1)" by fastforce
  show ?thesis
  proof (cases x)
    case (Inl e)
    with assms(1) l True show ?thesis by (auto simp: hydrateBuildEnv_def bindE_def attempt_def store_def)
  next
    case (Inr rows)
    with assms(1) l True have "r = Inr (entries rows)"
      by (simp add: hydrateBuildEnv_def bindE_def attempt_def store_def)
    with l Inr True secrets.lst_law [OF assms(2), of repo rows s1] show ?thesis by simp
  qed
qed (use assms in \<open>simp add: hydrateBuildEnv_def\<close>)

lemma dispatch_claimed_run:
  assumes "dispatch_claimed rs ag p s = (r, s')" and "store_ok s"
  shows "tabs s' = tabs s \<and> (outbox s' = outbox s \<and> r \<noteq> Inr () \<or>
    (\<exists>c env. connFor s ag = Some c \<and> (env = [] \<or> map_of env = secrets_of s (to_lower (pv_repo p))) \<and>
       r = Inr () \<and> outbox s' = outbox s @ [(c, JobAssign (JobAssignFromPreview p env))]))"
proof -
  obtain x s1 where h: "hydrateBuildEnv rs (pv_repo p) s = (x, s1)" by fastforce
  with hydrate_env [OF h assms(2)] obtain env where x: "x = Inr env"
    and env: "env = [] \<or> map_of env = secrets_of s (to_lower (pv_repo p))" by auto
  from h have same: "tabs s1 = tabs s" "outbox s1 = outbox s" "connFor s1 = connFor s"
    using frameD [OF frame_hydrate h] tabs_sameD [OF same_hydrate h] by auto
  from assms(1) h x have send: "SendJobAssign ag (p, env) s1 = (r, s')"
    by (simp add: dispatch_claimed_def bindE_def)
  have t: "tabs s' = tabs s" using jobs.send_db [of ag "(p, env)" s1] send same by simp
  show ?thesis
  proof (cases r)
    case (Inl e)
    with send jobs.send_failed same have "outbox s' = outbox s" by metis
    with t Inl show ?thesis by simp
  next
    case (Inr u)
    with jobs.send_ok [of ag "(p, env)" s1 s'] send same obtain c where
      "connFor s ag = Some c" "outbox s' = outbox s @ [(c, JobAssign (JobAssignFromPreview p env))]"
      by auto
    with t Inr env show ?thesis by auto
  qed
qed

text \<open>What a READY may send: the claimed preview, with the secrets of its repo or none.\<close>

definition job_sent :: "hub \<Rightarrow> hub \<Rightarrow> string \<Rightarrow> store_err + Preview \<Rightarrow> bool" where
  "job_sent s s' ag r \<longleftrightarrow> outbox s' = outbox s \<or>
     (\<exists>p c env. r = Inr p \<and> connFor s ag = Some c \<and>
        (env = [] \<or> map_of env = secrets_of s (to_lower (pv_repo p))) \<and>
        outbox s' = outbox s @ [(c, JobAssign (JobAssignFromPreview p env))])"

lemma claimed_secrets: "tb_secrets (claimed q ag now u t) = tb_secrets t"
  by (simp add: claimed_def)

lemma claim_for_run:
  assumes run: "claim_for rs ag matched s = (r, s')" and ok: "store_ok s"
  shows "tabs s' = tabs s \<and> outbox s' = outbox s
    \<or> (\<exists>q rest u now. claim_candidates matched (tabs s) = q # rest \<and>
        tabs s' = claimed q ag now u (tabs s) \<and>
        job_sent s s' ag (previewRowToDomain (claim_row ag (iso8601 now) q)))"
proof (cases "matched = []")
  case True
  then show ?thesis using run by (simp add: claim_for_def)
next
  case False
  define now where "now = clock s (seqno s)"
  obtain x s1 where cl: "Claim matched ag now (step_env s) = (x, s1)" by fastforce
  have same: "outbox s1 = outbox s" "connFor s1 = connFor s"
    using frameD [OF frame_Claim cl] by (auto simp: connFor_def)
  have rest: "(case x of
        Inl e \<Rightarrow> if e = ErrNotFound then ret () else throw (StoreErr e)
      | Inr p \<Rightarrow> dispatch_claimed rs ag p) s1 = (r, s')"
    using run False cl
    by (auto simp: claim_for_def bindE_def time_now_def now_def attempt_def store_def split: sum.splits)
  have ok1: "store_ok s1"
    using ok previews.ok_claim [OF _ cl] by (simp add: store_ok_def clock_ok_def)
  show ?thesis
  proof (cases x)
    case (Inl e)
    with rest have s': "s' = s1" by (auto split: if_splits)
    from Claim_run [OF cl] consider "tabs s1 = tabs s"
      | q rest u where "claim_candidates matched (tabs s) = q # rest"
          "tabs s1 = claimed q ag now u (tabs s)" by auto
    then show ?thesis using s' same by cases (auto simp: job_sent_def)
  next
    case (Inr p)
    with Claim_run [OF cl] obtain q tl u where cand: "claim_candidates matched (tabs s) = q # tl"
      and t1: "tabs s1 = claimed q ag now u (tabs s)"
      and p: "Inr p = previewRowToDomain (claim_row ag (iso8601 now) q)" by auto
    have sec: "secrets_of s1 = secrets_of s"
      by (simp add: secrets_of_def fun_eq_iff t1 claimed_secrets)
    from rest Inr have "dispatch_claimed rs ag p s1 = (r, s')" by simp
    from dispatch_claimed_run [OF this ok1] t1 same sec
    have "tabs s' = claimed q ag now u (tabs s)"
      "job_sent s s' ag (Inr p)" by (auto simp: job_sent_def)
    with cand p show ?thesis by metis
  qed
qed


text \<open>The candidates of a READY.\<close>

definition dispatchable :: "string \<Rightarrow> tables \<Rightarrow> preview_row \<Rightarrow> bool" where
  "dispatchable ag t q \<longleftrightarrow> row_status q = ''queued'' \<and>
     (\<exists>a ls als. a \<in> set (tb_agents t) \<and> arow_id a = ag \<and> decodeLabels (row_labels q) = Some ls \<and>
        decodeLabels (arow_labels a) = Some als \<and> set ls \<subseteq> set als)"

definition queue_head :: "tables \<Rightarrow> preview_row list" where
  "queue_head t =
     take 50 (order_asc row_created (filter (\<lambda>r. row_status r = ''queued'') (tb_previews t)))"

lemma queue_head_rows: "q \<in> set (queue_head t) \<Longrightarrow> q \<in> set (tb_previews t) \<and> row_status q = ''queued''"
  unfolding queue_head_def by (auto dest: in_set_takeD)

lemma rowToAgent_fields:
  "rowToAgent r = Inr a \<Longrightarrow> ag_id a = arow_id r \<and> decodeLabels (arow_labels r) = Some (ag_labels a)"
  by (auto simp: rowToAgent_def Let_def split: option.splits)

lemma AgentByID_Inr:
  assumes "AgentByID i s = (Inr a, s')"
  shows "\<exists>r \<in> set (tb_agents (tabs s)). arow_id r = i \<and> rowToAgent r = Inr a"
proof -
  from assms obtain r rs where f: "filter (\<lambda>a. arow_id a = i) (tb_agents (tabs s)) = r # rs"
    and a: "rowToAgent r = Inr a"
    by (auto simp: AgentByID_def get_agent_def prog_elims getAgentByID_def query_one_iff)
  from f have "r \<in> set (filter (\<lambda>a. arow_id a = i) (tb_agents (tabs s)))" by simp
  with a show ?thesis by auto
qed

lemma ListQueued_Inr:
  "ListQueuedForCandidates s = (Inr ps, s') \<Longrightarrow>
     list_all2 (\<lambda>q p. previewRowToDomain q = Inr p) (queue_head (tabs s)) ps"
  by (auto simp: ListQueuedForCandidates_def get_many_def prog_elims listQueuedPreviewsForLabels_def
      queue_head_def map_err_Inr_iff)

lemma matched_ids:
  assumes l: "list_all2 (\<lambda>q p. previewRowToDomain q = Inr p) qs ps"
    and a: "rowToAgent r = Inr agent" "r \<in> set (tb_agents t)" "arow_id r = ag"
    and q: "\<And>q. q \<in> set qs \<Longrightarrow> row_status q = ''queued''"
    and i: "i \<in> set (map pv_id (filter (\<lambda>p. LabelsMatch (pv_labels p) (ag_labels agent)) ps))"
  shows "\<exists>q \<in> set qs. row_id q = i \<and> dispatchable ag t q"
proof -
  from i obtain p where p: "p \<in> set ps" "pv_id p = i" "set (pv_labels p) \<subseteq> set (ag_labels agent)"
    by (auto simp: LabelsMatch_iff)
  from l p(1) obtain q0 where q0: "q0 \<in> set qs" "previewRowToDomain q0 = Inr p"
    by (blast dest: list_all2_in_right)
  with p a q rowToAgent_fields [OF a(1)] previewRowToDomain_fields [OF q0(2)] show ?thesis
    unfolding dispatchable_def by auto
qed

lemma matched_complete:
  assumes l: "list_all2 (\<lambda>q p. previewRowToDomain q = Inr p) qs ps"
    and a: "rowToAgent r = Inr agent" "r \<in> set (tb_agents t)" "arow_id r = ag"
    and dist: "distinct (map arow_id (tb_agents t))"
    and q: "q \<in> set qs" "dispatchable ag t q"
  shows "row_id q \<in> set (map pv_id (filter (\<lambda>p. LabelsMatch (pv_labels p) (ag_labels agent)) ps))"
proof -
  from l q(1) obtain p where p: "p \<in> set ps" "previewRowToDomain q = Inr p"
    by (blast dest: list_all2_in_left)
  from q(2) obtain a' ls als where a': "a' \<in> set (tb_agents t)" "arow_id a' = ag"
    "decodeLabels (row_labels q) = Some ls" "decodeLabels (arow_labels a') = Some als" "set ls \<subseteq> set als"
    by (auto simp: dispatchable_def)
  have "a' = r" using dist a a' by (auto simp: distinct_map inj_on_def)
  with a' p rowToAgent_fields [OF a(1)] previewRowToDomain_fields [OF p(2)] show ?thesis
    by (force simp: LabelsMatch_iff)
qed

definition dispatched :: "string \<Rightarrow> hub \<Rightarrow> hub \<Rightarrow> bool" where
  "dispatched ag s s' \<longleftrightarrow>
     (\<exists>q u now. q \<in> set (queue_head (tabs s)) \<and> dispatchable ag (tabs s) q \<and>
        (\<forall>x \<in> set (queue_head (tabs s)). dispatchable ag (tabs s) x \<longrightarrow> row_created q \<le> row_created x) \<and>
        tabs s' = claimed q ag now u (tabs s) \<and>
        job_sent s s' ag (previewRowToDomain (claim_row ag (iso8601 now) q)))"

lemma OnReady_effect:
  assumes ok: "store_ok s" and run: "OnReady rs ag s = (r, s')"
  shows "tabs s' = tabs s \<and> outbox s' = outbox s \<or> \<not> paused s \<and> dispatched ag s s'"
proof (cases "paused s")
  case True
  then show ?thesis using run by (simp add: OnReady_def)
next
  case False
  obtain x s1 where a: "AgentByID ag s = (x, s1)" by fastforce
  have s1: "tabs s1 = tabs s" "outbox s1 = outbox s" "connFor s1 = connFor s" "store_ok s1"
    using frameD [OF frame_agents(3) a] tabs_sameD [OF same_agent_reads(2) a] ok
    by (auto simp: store_ok_def clock_ok_def)
  from run False a have rest: "(case x of
        Inl e \<Rightarrow> if e = ErrNotFound then ret () else throw (StoreErr e)
      | Inr agent \<Rightarrow> bindE (store ListQueuedForCandidates) (\<lambda>cands.
          claim_for rs ag (map pv_id (filter (\<lambda>p. LabelsMatch (pv_labels p) (ag_labels agent)) cands)))) s1
      = (r, s')"
    by (auto simp: OnReady_def OnReady_active_def bindE_def attempt_def store_def split: sum.splits)
  show ?thesis
  proof (cases x)
    case (Inl e)
    then show ?thesis using rest s1 by (auto split: if_splits)
  next
    case (Inr agent)
    from AgentByID_Inr [of ag s agent s1] a Inr obtain arow where
      arow: "arow \<in> set (tb_agents (tabs s))" "arow_id arow = ag" "rowToAgent arow = Inr agent" by auto
    obtain y s2 where l: "ListQueuedForCandidates s1 = (y, s2)" by fastforce
    have s2: "tabs s2 = tabs s" "outbox s2 = outbox s" "connFor s2 = connFor s" "store_ok s2"
      using frameD [OF frame_reads(4) l] tabs_sameD [OF same_reads(4) l] s1
      by (auto simp: store_ok_def clock_ok_def)
    show ?thesis
    proof (cases y)
      case (Inl e)
      with rest Inr l s2 show ?thesis by (auto simp: bindE_def store_def)
    next
      case (Inr ps)
      let ?m = "map pv_id (filter (\<lambda>p. LabelsMatch (pv_labels p) (ag_labels agent)) ps)"
      from rest \<open>x = Inr agent\<close> l Inr have "claim_for rs ag ?m s2 = (r, s')"
        by (simp add: bindE_def store_def)
      from claim_for_run [OF this s2(4)] consider "tabs s' = tabs s" "outbox s' = outbox s"
        | q tl u now where "claim_candidates ?m (tabs s) = q # tl"
            "tabs s' = claimed q ag now u (tabs s)"
            "job_sent s2 s' ag (previewRowToDomain (claim_row ag (iso8601 now) q))"
        by (auto simp: s2)
      then show ?thesis
      proof cases
        case 2
        have wf: "wf_tables (tabs s)" using ok by (simp add: store_ok_def)
        note qs = claim_candidates_Cons [OF 2(1)]
        have la: "list_all2 (\<lambda>q p. previewRowToDomain q = Inr p) (queue_head (tabs s)) ps"
          using ListQueued_Inr [of s1 ps s2] l Inr s1 by simp
        from matched_ids [OF la arow(3,1,2) _ qs(3)] queue_head_rows obtain q' where
          q': "q' \<in> set (queue_head (tabs s))" "row_id q' = row_id q" "dispatchable ag (tabs s) q'" by blast
        then have "q' = q" using same_id_same_row [OF wf] queue_head_rows qs(1) by blast
        moreover have "row_created q \<le> row_created x"
          if "x \<in> set (queue_head (tabs s))" "dispatchable ag (tabs s) x" for x
        proof (rule qs(4))
          show "row_id x \<in> set ?m"
            using wf by (intro matched_complete [OF la arow(3,1,2) _ that]) (simp add: wf_tables_def)
        qed (use that queue_head_rows in auto)
        moreover have "job_sent s s' ag (previewRowToDomain (claim_row ag (iso8601 now) q))"
          using 2(3) s2 by (simp add: job_sent_def secrets_of_def [abs_def])
        ultimately have "dispatched ag s s'"
          unfolding dispatched_def using q' 2(2) by blast
        with False show ?thesis by simp
      qed simp
    qed
  qed
qed

end
