(* ===== verification/StatusUpdate.thy ===== *)
theory StatusUpdate
  imports Dispatcher
begin

text \<open>
  internal/hub/status_update.go: a STATUS_UPDATE of an agent becomes one \<open>UpdateStatus\<close> without
  a guard; when the reported commit contradicts the stored one, the update is retried without
  the commit.
\<close>

text \<open>\<open>json.Marshal\<close> of a map of strings: an object with its keys in order.\<close>

definition encode_map :: "(string \<times> string) list \<Rightarrow> string" where
  "encode_map m = ''{'' @ join_with '',''
     (map (\<lambda>(k, v). json_string k @ '':'' @ json_string v) (sort_key fst m)) @ ''}''"

definition update_fields :: "string \<Rightarrow> StatusUpdateData \<Rightarrow> PreviewFields" where
  "update_fields ag d =
     \<lparr>f_container = su_container d, f_host = su_host d, f_port = su_port d,
      f_urls = (if su_urls d \<noteq> [] then Some (encode_map (su_urls d)) else None),
      f_error = su_error d,
      f_agent = (if su_status d = ''running'' \<or> su_status d = ''building'' then Some ag else None),
      f_sha = su_sha d\<rparr>"

definition OnStatusUpdate :: "string \<Rightarrow> StatusUpdateData \<Rightarrow> (hub_err, unit) act" where
  "OnStatusUpdate ag d =
     (if su_preview d = [] \<or> su_status d = [] then throw BadPayload
      else bindE time_now (\<lambda>now.
        bindE (attempt (store (UpdateStatus (su_preview d) [] (su_status d) (su_message d) now
                                 (update_fields ag d)))) (\<lambda>r.
          case r of
            Inl e \<Rightarrow>
              if e = StoreErr ErrShaConflict then
                bindE time_now (\<lambda>now2.
                  store (UpdateStatus (su_preview d) [] (su_status d) (su_message d) now2
                           ((update_fields ag d)\<lparr>f_sha := None\<rparr>)))
              else throw e
          | Inr _ \<Rightarrow> ret ())))"

section \<open>Contracts\<close>

lemma keeps_OnStatusUpdate [inv_rules]: "obeys (keeps db_ok) (OnStatusUpdate ag d)"
  unfolding OnStatusUpdate_def by (intro keeps_time_now inv_rules)

lemma hist_OnStatusUpdate [hist_rules]: "obeys history (OnStatusUpdate ag d)"
  unfolding OnStatusUpdate_def by (intro hist_rules)

text \<open>Only the reported preview moves, and only to the reported status.\<close>

definition reporting :: "StatusUpdateData \<Rightarrow> transitions" where
  "reporting d i a b \<longleftrightarrow> i = su_preview d \<and> a \<noteq> None \<and> b = Some (su_status d)"

lemma moves_OnStatusUpdate: "obeys (moves_of store_ok status_of (reporting d)) (OnStatusUpdate ag d)"
proof -
  have up: "obeys (moves_of store_ok status_of (reporting d))
      (UpdateStatus (su_preview d) [] (su_status d) msg now f)" for msg now f
    by (rule previews.update_moves) (simp add: reporting_def)
  show ?thesis unfolding OnStatusUpdate_def by (intro move_rules up)
qed

section \<open>A report lands\<close>

text \<open>
  The commit the preview would hold after the report is not that of another preview of the
  repo. Without this the update fails with a UNIQUE violation, which is not the sha conflict
  the handler retries on.
\<close>

definition report_sha_free :: "StatusUpdateData \<Rightarrow> tables \<Rightarrow> bool" where
  "report_sha_free d t \<longleftrightarrow>
     (\<forall>r \<in> set (tb_previews t). row_id r = su_preview d \<longrightarrow>
        \<not> sha_taken (r\<lparr>row_sha := coalesce (row_sha r)
            (case su_sha d of None \<Rightarrow> None | Some x \<Rightarrow> nullStringFromCommitSha x)\<rparr>) (tb_previews t))"

lemma sha_taken_cong:
  "row_id r = row_id q \<Longrightarrow> row_repo r = row_repo q \<Longrightarrow> row_sha r = row_sha q \<Longrightarrow>
     sha_taken r rows \<longleftrightarrow> sha_taken q rows"
  by (simp add: sha_taken_def same_sha_key_def)

text \<open>
  The row after the report: a field the report does not have keeps its value, but the URLs are
  replaced in any case; a stored commit is kept; the agent is noted while it builds or runs.
\<close>

definition reported_row :: "string \<Rightarrow> StatusUpdateData \<Rightarrow> time \<Rightarrow> preview_row \<Rightarrow> preview_row" where
  "reported_row ag d now q = q\<lparr>row_status := su_status d, row_updated := iso8601 now,
     row_container := (case su_container d of None \<Rightarrow> row_container q | Some x \<Rightarrow> Some x),
     row_host := (case su_host d of None \<Rightarrow> row_host q | Some x \<Rightarrow> Some x),
     row_port := (case su_port d of None \<Rightarrow> row_port q | Some x \<Rightarrow> Some x),
     row_urls := (if su_urls d = [] then [] else encode_map (su_urls d)),
     row_error := (case su_error d of Some e \<Rightarrow> Some e
       | None \<Rightarrow> if su_message d = [] then row_error q else Some (su_message d)),
     row_agent := (if su_status d \<in> {''running'', ''building''} \<and> ag \<noteq> [] then Some ag else row_agent q),
     row_sha := (case row_sha q of Some c \<Rightarrow> Some c
       | None \<Rightarrow> case su_sha d of None \<Rightarrow> None | Some c \<Rightarrow> if c = [] then None else Some c)\<rparr>"

lemma reported_row_fields:
  assumes "f = update_fields ag d \<or> f = (update_fields ag d)\<lparr>f_sha := None\<rparr> \<and> row_sha q \<noteq> None"
  shows "write_fields (status_params (su_status d) (su_message d) now f) q = reported_row ag d now q"
proof -
  let ?u = "status_params (su_status d) (su_message d) now f"
  have f: "f_container f = su_container d" "f_host f = su_host d" "f_port f = su_port d" "f_error f = su_error d"
      "f_urls f = f_urls (update_fields ag d)" "f_agent f = f_agent (update_fields ag d)"
    using assms by (auto simp: update_fields_def)
  have sha: "coalesce (row_sha q) (u_sha ?u) = row_sha (reported_row ag d now q)"
    using assms by (auto simp: reported_row_def update_fields_def status_params_def nullStringFromCommitSha_def
        coalesce_def split: option.split)
  have error: "coalesce (u_error ?u) (row_error q) = row_error (reported_row ag d now q)"
    by (cases "su_error d") (simp_all add: reported_row_def f status_params_def)
  have agent: "coalesce (u_agent ?u) (row_agent q) = row_agent (reported_row ag d now q)"
    by (simp add: reported_row_def f status_params_def update_fields_def)
  have urls: "u_urls ?u = row_urls (reported_row ag d now q)"
    by (simp add: reported_row_def f status_params_def update_fields_def)
  have "coalesce a b = (case a of None \<Rightarrow> b | Some x \<Rightarrow> Some x)" for a b :: "string option"
    by (cases a) simp_all
  moreover have "coalesce a b = (case a of None \<Rightarrow> b | Some x \<Rightarrow> Some x)" for a b :: "int option"
    by (cases a) simp_all
  ultimately show ?thesis
    unfolding write_fields_def sha error agent urls by (simp add: reported_row_def status_params_def f)
qed

lemma report_lands:
  assumes calm: "calm s" and ok: "store_ok s"
    and valid: "su_preview d \<noteq> []" "su_status d \<noteq> []"
    and known: "status_of s (su_preview d) \<noteq> None"
    and agent: "ag \<in> arow_id ` set (tb_agents (tabs s))"
    and free: "report_sha_free d (tabs s)"
    and run: "OnStatusUpdate ag d s = (r, s')"
  shows "r = Inr ()" and "status_of s' = (status_of s)(su_preview d \<mapsto> su_status d)"
    and "\<exists>n. tb_previews (tabs s') =
      update_where (\<lambda>q. row_id q = su_preview d) (reported_row ag d (clock s n)) (tb_previews (tabs s))"
    and "tb_agents (tabs s') = tb_agents (tabs s)" and "tb_secrets (tabs s') = tb_secrets (tabs s)"
proof -
  let ?i = "su_preview d" and ?f = "update_fields ag d"
  let ?up = "\<lambda>now f. UpdateStatus ?i [] (su_status d) (su_message d) now f"
  have wf: "wf_tables (tabs s)" using ok by (simp add: store_ok_def)
  from known obtain q where q: "find (\<lambda>r. row_id r = ?i) (tb_previews (tabs s)) = Some q"
    by (auto simp: status_of_def)
  then have row: "q \<in> set (tb_previews (tabs s))" "row_id q = ?i" by (auto dest: find_SomeD)
  have ag: "u_agent (status_params to msg now f) = None \<or>
      the (u_agent (status_params to msg now f)) \<in> arow_id ` set (tb_agents (tabs s))"
    if "f_agent f = f_agent ?f" for to msg now f
    using that agent by (auto simp: status_params_def update_fields_def)
  have conv: "sha_taken (write_fields (status_params to msg now f) q) (tb_previews (tabs s)) \<longleftrightarrow>
      sha_taken (q\<lparr>row_sha := coalesce (row_sha q) (u_sha (status_params to msg now f))\<rparr>) (tb_previews (tabs s))"
    for to msg now f
    by (rule sha_taken_cong) (simp_all add: write_fields_def)
  have first: "fst (?up now ?f s1) = (if sha_conflict ?f q then Inl ErrShaConflict else Inr ())"
    if "calm s1" "tabs s1 = tabs s" for now s1
    using that wf q ag [of ?f] free row conv [of _ _ _ ?f]
    by (subst UpdateStatus_outcome) (auto simp: update_result_def report_sha_free_def status_params_def update_fields_def)
  have second: "fst (?up now (?f\<lparr>f_sha := None\<rparr>) s1) = Inr ()"
    if "calm s1" "tabs s1 = tabs s" for now s1
  proof -
    have "\<not> sha_taken (write_fields (status_params (su_status d) (su_message d) now (?f\<lparr>f_sha := None\<rparr>)) q)
        (tb_previews (tabs s))"
      using wf row(1) by (rule sha_free_unchanged) (simp add: status_params_def)
    then show ?thesis
      using that wf q ag [of "?f\<lparr>f_sha := None\<rparr>"]
      by (subst UpdateStatus_outcome) (auto simp: update_result_def sha_conflict_def)
  qed
  define now where "now = clock s (seqno s)"
  have calm1: "calm (step_env s)" using calm by (rule calm_env)
  obtain x s1 where one: "?up now ?f (step_env s) = (x, s1)" by fastforce
  define landed where "landed s2 \<longleftrightarrow> status_of s2 = (status_of s)(?i \<mapsto> su_status d) \<and>
      (\<exists>n. tb_previews (tabs s2) = update_where (\<lambda>q. row_id q = ?i) (reported_row ag d (clock s n)) (tb_previews (tabs s))) \<and>
      tb_agents (tabs s2) = tb_agents (tabs s) \<and> tb_secrets (tabs s2) = tb_secrets (tabs s)" for s2
  have status: "landed s2"
    if up: "?up (clock s n) f s0 = (Inr (), s2)" and t0: "tabs s0 = tabs s"
      and f: "f = ?f \<or> f = ?f\<lparr>f_sha := None\<rparr> \<and> row_sha q \<noteq> None" for n f s0 s2
  proof -
    from up obtain r0 u where "tabs s2 = status_written ?i (su_status d) (su_message d) (clock s n) f r0 u (tabs s0)"
      by (rule UpdateStatus_Inr)
    moreover have "update_where (\<lambda>q. row_id q = ?i) (write_fields (status_params (su_status d) (su_message d) (clock s n) f))
        (tb_previews (tabs s)) = update_where (\<lambda>q. row_id q = ?i) (reported_row ag d (clock s n)) (tb_previews (tabs s))"
    proof -
      have "write_fields (status_params (su_status d) (su_message d) (clock s n) f) r = reported_row ag d (clock s n) r"
        if "r \<in> set (tb_previews (tabs s))" "row_id r = ?i" for r
        using same_id_same_row [OF wf that(1) row(1)] that(2) row(2) reported_row_fields [OF f] by simp
      then show ?thesis by (simp add: update_where_def)
    qed
    moreover have "status_of s0 = status_of s" using t0 by (rule status_of_same)
    ultimately show ?thesis
      using UpdateStatus_status [OF up] wf t0 unfolding landed_def by (auto simp: status_written_def)
  qed
  have "r = Inr () \<and> landed s'"
  proof (cases "sha_conflict ?f q")
    case False
    with first [OF calm1, of now] one have x: "x = Inr ()" by simp
    with run valid one have "r = Inr ()" "s' = s1"
      by (simp_all add: OnStatusUpdate_def bindE_def time_now_def now_def attempt_def store_def)
    with status [of "seqno s" ?f "step_env s"] one x show ?thesis by (simp add: now_def)
  next
    case True
    with first [OF calm1, of now] one have x: "x = Inl ErrShaConflict" by simp
    have s1: "tabs s1 = tabs s" "calm s1"
      using one x atomicD [OF atomic_UpdateStatus] calm_UpdateStatus [OF calm1] by (metis step_env_simps(1))+
    obtain y s2 where two: "?up (clock s1 (seqno s1)) (?f\<lparr>f_sha := None\<rparr>) (step_env s1) = (y, s2)"
      by fastforce
    with second [OF calm_env [OF s1(2)]] s1 have y: "y = Inr ()" by (metis fst_conv step_env_simps(1))
    from run valid one x two y have "r = Inr ()" "s' = s2"
      by (simp_all add: OnStatusUpdate_def bindE_def time_now_def now_def attempt_def store_def)
    moreover have "clock s1 = clock s" using obeysD [OF frame_UpdateStatus one] by (simp add: db_only_def)
    moreover have "row_sha q \<noteq> None" using True by (simp add: sha_conflict_def)
    ultimately show ?thesis using status [of "seqno s1" "?f\<lparr>f_sha := None\<rparr>" "step_env s1" s2] two y s1 by simp
  qed
  then show "r = Inr ()" "status_of s' = (status_of s)(?i \<mapsto> su_status d)"
    "\<exists>n. tb_previews (tabs s') = update_where (\<lambda>q. row_id q = ?i) (reported_row ag d (clock s n)) (tb_previews (tabs s))"
    "tb_agents (tabs s') = tb_agents (tabs s)" "tb_secrets (tabs s') = tb_secrets (tabs s)"
    unfolding landed_def by blast+
qed


text \<open>
  The other side of the condition: the commit a build resolves may already belong to another
  preview of the repo; then the report, its status included, is lost.
\<close>

lemma report_lost:
  assumes calm: "calm s" and ok: "store_ok s"
    and valid: "su_preview d \<noteq> []" "su_status d \<noteq> []"
    and q: "q \<in> set (tb_previews (tabs s))" "row_id q = su_preview d" "row_sha q = None"
    and sha: "su_sha d = Some c" "c \<noteq> []"
    and taken: "p \<in> set (tb_previews (tabs s))" "row_id p \<noteq> row_id q" "row_repo p = row_repo q"
      "row_sha p = Some c"
    and agent: "ag \<in> arow_id ` set (tb_agents (tabs s))"
    and run: "OnStatusUpdate ag d s = (r, s')"
  shows "r = Inl (StoreErr UniqueViolation)" and "tabs s' = tabs s"
proof -
  let ?f = "update_fields ag d"
  define now where "now = clock s (seqno s)"
  have wf: "wf_tables (tabs s)" using ok by (simp add: store_ok_def)
  have find: "find (\<lambda>r. row_id r = su_preview d) (tb_previews (tabs s)) = Some q"
    using wf q find_key_distinct [of row_id "tb_previews (tabs s)" q] by (simp add: wf_tables_def)
  have "sha_taken (write_fields (status_params (su_status d) (su_message d) now ?f) q) (tb_previews (tabs s))"
    unfolding sha_taken_def using taken q sha
    by (auto intro!: bexI [of _ p]
        simp: same_sha_key_def write_fields_def status_params_def update_fields_def nullStringFromCommitSha_def)
  moreover have "\<not> sha_conflict ?f q" using q(3) by (simp add: sha_conflict_def)
  ultimately have res: "fst (UpdateStatus (su_preview d) [] (su_status d) (su_message d) now ?f (step_env s))
      = Inl UniqueViolation"
    using agent find
    by (subst UpdateStatus_outcome [OF calm_env [OF calm]])
      (auto simp: wf update_result_def status_params_def update_fields_def)
  obtain x s1 where one: "UpdateStatus (su_preview d) [] (su_status d) (su_message d) now ?f (step_env s) = (x, s1)"
    by fastforce
  with res have x: "x = Inl UniqueViolation" by simp
  with run valid one have "r = Inl (StoreErr UniqueViolation)" "s' = s1"
    by (auto simp: OnStatusUpdate_def bindE_def time_now_def now_def attempt_def store_def)
  moreover have "tabs s1 = tabs s"
    using atomicD [OF atomic_UpdateStatus] one x by (metis step_env_simps(1))
  ultimately show "r = Inl (StoreErr UniqueViolation)" "tabs s' = tabs s" by auto
qed

end
