(* ===== verification/Webhook.thy ===== *)
theory Webhook
  imports StatusUpdate
begin

text \<open>
  internal/hub/webhook_handler.go: the GitHub webhook (signature check, the decision matrix of
  opened/synchronize/reopened, the teardown on closed) and the JSON side of /admin/previews.
  The HMAC digest and the JSON reading of the payload are arguments of the handler.
\<close>

section \<open>Requests and replies\<close>

text \<open>A reply is its status code and the fields of its JSON body, in the order written.\<close>

record reply =
  code :: nat
  body :: "(string \<times> string) list"

definition writeError :: "nat \<Rightarrow> string \<Rightarrow> string \<Rightarrow> reply" where
  "writeError c e msg = \<lparr>code = c, body = [(''error'', e), (''message'', msg)]\<rparr>"

definition writeIgnored :: "string \<Rightarrow> string \<Rightarrow> reply" where
  "writeIgnored k v = \<lparr>code = 200, body = [(''ignored'', ''true''), (k, v)]\<rparr>"

definition writeStatus :: "string \<Rightarrow> string \<Rightarrow> reply" where
  "writeStatus i st = \<lparr>code = 202, body = [(''preview_id'', i), (''status'', st)]\<rparr>"

record webhook_request =
  rq_body :: "string option"  \<comment> \<open>None: reading the body failed or passed the size limit\<close>
  rq_signature :: string
  rq_event :: string

record pullRequestEvent =
  pr_action :: string
  pr_number :: int
  pr_inner_number :: int
  pr_sha :: string
  pr_ref :: string
  pr_labels :: "string list"
  pr_repo :: string
  pr_clone_url :: string

definition labelsFromPR :: "pullRequestEvent \<Rightarrow> string list" where
  "labelsFromPR p = pr_labels p"

text \<open>\<open>hex.DecodeString\<close>.\<close>

fun hex_decode :: "string \<Rightarrow> string option" where
  "hex_decode [] = Some []"
| "hex_decode [c] = None"
| "hex_decode (a # b # s) =
     (case (hex_val a, hex_val b, hex_decode s) of
        (Some x, Some y, Some r) \<Rightarrow> Some (char_of (16 * x + y) # r)
      | _ \<Rightarrow> None)"

section \<open>The handlers\<close>

definition send_teardown_for :: "bool \<Rightarrow> Preview \<Rightarrow> ('e, unit) act" where
  "send_teardown_for ts p =
     (if ts \<and> pv_agent p \<noteq> None then logged (SendTeardown (the (pv_agent p)) (pv_id p)) else ret ())"

text \<open>
  Case B of the decision matrix: on synchronize, an active preview of the PR at another commit
  is torn down first. The result is the reply of an early return, or the superseded id.
\<close>

definition supersede :: "bool \<Rightarrow> pullRequestEvent \<Rightarrow> int \<Rightarrow> time \<Rightarrow> ('e, reply + string) act" where
  "supersede ts p prNum now =
     (if pr_action p \<noteq> ''synchronize'' then ret (Inr [])
      else bindE (attempt (GetActiveByRepoAndPR (pr_repo p) prNum)) (\<lambda>r.
        case r of
          Inl _ \<Rightarrow> ret (Inr [])
        | Inr ex \<Rightarrow>
            if pv_sha ex = pr_sha p then ret (Inr [])
            else bindE (attempt (UpdateStatus (pv_id ex) [] ''teardown''
                                   (''superseded_by_sha='' @ pr_sha p) now no_fields)) (\<lambda>u.
              case u of
                Inl _ \<Rightarrow> ret (Inl (writeError 500 ''internal'' ''supersede failed''))
              | Inr _ \<Rightarrow> bindE (send_teardown_for ts ex) (\<lambda>_. ret (Inr (pv_id ex))))))"

definition preview_of_event :: "pullRequestEvent \<Rightarrow> int \<Rightarrow> string \<Rightarrow> time \<Rightarrow> Preview" where
  "preview_of_event p prNum i now =
     \<lparr>pv_id = i, pv_repo = pr_repo p, pv_pr = prNum, pv_sha = pr_sha p, pv_branch = pr_ref p,
      pv_status = [], pv_agent = None, pv_container = None, pv_host = None, pv_port = None,
      pv_clone_url = pr_clone_url p, pv_urls = [], pv_labels = labelsFromPR p, pv_error = None,
      pv_adhoc = False, pv_created = now, pv_updated = now\<rparr>"

definition reopenable :: "string \<Rightarrow> bool" where
  "reopenable st \<longleftrightarrow> st = ''done'' \<or> st = ''failed''"

text \<open>After the upsert: reopen a finished preview, or note what a new one supersedes.\<close>

definition after_upsert ::
    "pullRequestEvent \<Rightarrow> string \<Rightarrow> time \<Rightarrow> string \<Rightarrow> bool \<times> Preview option \<Rightarrow> ('e, reply) act" where
  "after_upsert p i now supersededID res =
     (let created = fst res; prev = snd res in
      if \<not> created \<and> prev \<noteq> None then
        (if reopenable (pv_status (the prev)) then
           bindE (attempt (UpdateStatus (pv_id (the prev)) (pv_status (the prev)) ''queued''
                             (''reopened_by_'' @ pr_action p) now no_fields)) (\<lambda>u.
             case u of
               Inl _ \<Rightarrow> ret (writeError 500 ''internal'' ''reopen failed'')
             | Inr _ \<Rightarrow> ret (writeStatus (pv_id (the prev)) ''queued''))
         else ret (writeStatus (pv_id (the prev)) (pv_status (the prev))))
      else if created \<and> supersededID \<noteq> [] then
        bindE (logged (UpdateStatus i ''queued'' ''queued''
                         (''created_after_supersede_of='' @ supersededID) now no_fields))
          (\<lambda>_. ret (writeStatus i ''queued''))
      else ret (writeStatus i ''queued''))"

definition handleUpsert :: "bool \<Rightarrow> pullRequestEvent \<Rightarrow> int \<Rightarrow> ('e, reply) act" where
  "handleUpsert ts p prNum =
     bindE time_now (\<lambda>now.
     bindE new_uuid (\<lambda>i.
     bindE (supersede ts p prNum now) (\<lambda>sup.
       case sup of
         Inl rep \<Rightarrow> ret rep
       | Inr supersededID \<Rightarrow>
           bindE (attempt (Upsert (preview_of_event p prNum i now))) (\<lambda>r.
             case r of
               Inl _ \<Rightarrow> ret (writeError 500 ''internal'' ''upsert failed'')
             | Inr res \<Rightarrow> after_upsert p i now supersededID res))))"

definition findPreviewByRepoPR :: "string \<Rightarrow> int \<Rightarrow> Preview option db" where
  "findPreviewByRepoPR repo prNum =
     bindE ListAll (\<lambda>all. ret (find (\<lambda>p. pv_repo p = repo \<and> pv_pr p = prNum) all))"

definition close_fields :: PreviewFields where
  "close_fields = no_fields\<lparr>f_error := Some ''closed_via_webhook''\<rparr>"

definition handleClose :: "bool \<Rightarrow> pullRequestEvent \<Rightarrow> int \<Rightarrow> ('e, reply) act" where
  "handleClose ts p prNum =
     bindE (attempt (findPreviewByRepoPR (pr_repo p) prNum)) (\<lambda>r.
       case r of
         Inl _ \<Rightarrow> ret (writeError 500 ''internal'' ''lookup failed'')
       | Inr None \<Rightarrow> ret (writeIgnored ''reason'' ''no_existing_preview'')
       | Inr (Some ex) \<Rightarrow>
           bindE time_now (\<lambda>now.
           bindE (attempt (UpdateStatus (pv_id ex) [] ''teardown'' ''closed_via_webhook'' now close_fields)) (\<lambda>u.
             case u of
               Inl e \<Rightarrow> if e = ErrNotFound then ret (writeIgnored ''reason'' ''no_existing_preview'')
                         else ret (writeError 500 ''internal'' ''close failed'')
             | Inr _ \<Rightarrow> bindE (send_teardown_for ts ex) (\<lambda>_. ret (writeStatus (pv_id ex) ''teardown'')))))"

text \<open>The number of the PR: the inner one unless it is zero.\<close>

definition pr_num_of :: "pullRequestEvent \<Rightarrow> int" where
  "pr_num_of p = (if pr_inner_number p = 0 then pr_number p else pr_inner_number p)"

definition dispatch_action :: "bool \<Rightarrow> pullRequestEvent \<Rightarrow> ('e, reply) act" where
  "dispatch_action ts p =
     (let q = p\<lparr>pr_repo := to_lower (pr_repo p)\<rparr> in
      if pr_action q \<in> {''opened'', ''synchronize'', ''reopened''} then handleUpsert ts q (pr_num_of p)
      else if pr_action q = ''closed'' then handleClose ts q (pr_num_of p)
      else ret (writeIgnored ''action'' (pr_action q)))"

definition check_signature :: "(string \<Rightarrow> string) \<Rightarrow> string \<Rightarrow> string \<Rightarrow> reply option" where
  "check_signature digest hdr payload =
     (if hdr = [] \<or> \<not> has_prefix hdr ''sha256='' then Some (writeError 401 ''missing_signature'' ''X-Hub-Signature-256 header missing or malformed'')
      else (case hex_decode (trim_prefix hdr ''sha256='') of
              None \<Rightarrow> Some (writeError 401 ''invalid_signature'' ''signature hex decode failed'')
            | Some received \<Rightarrow>
                if received = digest payload then None else Some (writeError 401 ''invalid_signature'' ''HMAC mismatch'')))"

definition handleWebhook ::
    "(string \<Rightarrow> string) \<Rightarrow> (string \<Rightarrow> pullRequestEvent option) \<Rightarrow> bool \<Rightarrow> webhook_request \<Rightarrow> ('e, reply) act" where
  "handleWebhook digest unmarshal ts rq =
     (case rq_body rq of
        None \<Rightarrow> ret (writeError 400 ''invalid_payload'' ''read body failed'')
      | Some payload \<Rightarrow>
          (case check_signature digest (rq_signature rq) payload of
             Some rep \<Rightarrow> ret rep
           | None \<Rightarrow>
               if rq_event rq \<noteq> ''pull_request'' then ret (writeIgnored ''event'' (rq_event rq))
               else (case unmarshal payload of
                       None \<Rightarrow> ret (writeError 400 ''invalid_payload'' ''JSON parse failed'')
                     | Some p \<Rightarrow>
                         if pr_num_of p = 0 \<or> pr_repo p = [] then ret (writeError 400 ''invalid_payload'' ''missing pr number or repo full_name'')
                         else dispatch_action ts p)))"

text \<open>\<open>DELETE /admin/previews/{id}\<close>.\<close>

definition deletePreview :: "bool \<Rightarrow> string \<Rightarrow> ('e, reply) act" where
  "deletePreview ts raw =
     (let i = trim_space raw in
      if i = [] then ret (writeError 404 ''not_found'' ''preview id required'')
      else bindE (attempt (GetByID i)) (\<lambda>r.
        case r of
          Inl e \<Rightarrow> ret (if e = ErrNotFound then writeError 404 ''not_found'' ''preview not found'' else writeError 500 ''internal'' ''get failed'')
        | Inr p \<Rightarrow>
            bindE time_now (\<lambda>now.
            bindE (attempt (UpdateStatus i [] ''teardown'' ''manual_teardown'' now no_fields)) (\<lambda>u.
              case u of
                Inl e \<Rightarrow> ret (if e = ErrNotFound then writeError 404 ''not_found'' ''preview not found'' else writeError 500 ''internal'' ''teardown failed'')
              | Inr _ \<Rightarrow>
                  bindE (if ts \<and> pv_agent p \<noteq> None then logged (SendTeardown (the (pv_agent p)) i) else ret ())
                    (\<lambda>_. ret (writeStatus i ''teardown''))))))"

record PreviewView =
  vw_preview :: Preview
  vw_created :: string
  vw_updated :: string

definition PreviewToView :: "Preview \<Rightarrow> PreviewView" where
  "PreviewToView p = \<lparr>vw_preview = p, vw_created = iso8601 (pv_created p), vw_updated = iso8601 (pv_updated p)\<rparr>"

definition listPreviews :: "('e, reply + PreviewView list) act" where
  "listPreviews = bindE (attempt ListAll) (\<lambda>r.
     case r of Inl _ \<Rightarrow> ret (Inl (writeError 500 ''internal'' ''list failed'')) | Inr ps \<Rightarrow> ret (Inr (map PreviewToView ps)))"

definition getPreview :: "string \<Rightarrow> ('e, reply + PreviewView) act" where
  "getPreview raw =
     (let i = trim_space raw in
      if i = [] then ret (Inl (writeError 404 ''not_found'' ''preview id required''))
      else bindE (attempt (GetByID i)) (\<lambda>r.
        case r of
          Inl e \<Rightarrow> ret (Inl (if e = ErrNotFound then writeError 404 ''not_found'' ''preview not found'' else writeError 500 ''internal'' ''get failed''))
        | Inr p \<Rightarrow> ret (Inr (PreviewToView p))))"

end
