(* ===== verification/WebhookLaws.thy ===== *)
theory WebhookLaws
  imports Webhook
begin

text \<open>
  What the webhook guarantees: nothing is read or written for a request whose signature does
  not match; every run keeps the database consistent and moves previews only along the
  webhook's transitions; and the decision matrix, case by case, in runs without failures.
\<close>

section \<open>Contracts\<close>

lemma obeys_if_cond:
  "(b \<Longrightarrow> obeys R m) \<Longrightarrow> (\<not> b \<Longrightarrow> obeys R n) \<Longrightarrow> obeys R (if b then m else n)"
  by simp

lemma keeps_send_teardown [inv_rules]: "obeys (keeps I) (send_teardown_for ts p)"
  unfolding send_teardown_for_def by (intro inv_rules)

lemma hist_send_teardown [hist_rules]: "obeys history (send_teardown_for ts p)"
  unfolding send_teardown_for_def by (intro hist_rules)

lemma moves_send_teardown [move_rules]: "obeys (moves_of store_ok status_of T) (send_teardown_for ts p)"
  unfolding send_teardown_for_def by (intro move_rules)

lemma keeps_supersede: "representable now \<Longrightarrow> obeys (keeps db_ok) (supersede ts p prNum now)"
  unfolding supersede_def by (intro inv_rules)

lemma keeps_after_upsert: "representable now \<Longrightarrow> obeys (keeps db_ok) (after_upsert p i now old res)"
  unfolding after_upsert_def Let_def by (intro inv_rules)

lemma keeps_handleUpsert: "obeys (keeps db_ok) (handleUpsert ts p prNum)"
  unfolding handleUpsert_def
  by (intro keeps_time_now inv_rules keeps_supersede keeps_after_upsert)
    (simp_all add: preview_of_event_def)

lemma keeps_handleClose: "obeys (keeps db_ok) (handleClose ts p prNum)"
  unfolding handleClose_def findPreviewByRepoPR_def
  by (intro keeps_time_now inv_rules)

lemma keeps_handleWebhook [inv_rules]: "obeys (keeps db_ok) (handleWebhook digest unmarshal ts rq)"
  unfolding handleWebhook_def dispatch_action_def Let_def
  by (intro inv_rules keeps_handleUpsert keeps_handleClose)

lemma keeps_deletePreview [inv_rules]: "obeys (keeps db_ok) (deletePreview ts raw)"
  unfolding deletePreview_def Let_def by (intro keeps_time_now inv_rules)

lemma hist_handleWebhook [hist_rules]: "obeys history (handleWebhook digest unmarshal ts rq)"
  unfolding handleWebhook_def dispatch_action_def handleUpsert_def supersede_def after_upsert_def
    handleClose_def findPreviewByRepoPR_def Let_def
  by (intro hist_rules)

lemma hist_deletePreview [hist_rules]: "obeys history (deletePreview ts raw)"
  unfolding deletePreview_def Let_def by (intro hist_rules)

definition webhook_moves :: transitions where
  "webhook_moves i a b \<longleftrightarrow> a \<noteq> None \<and> b = Some ''teardown'' \<or>
     a \<in> {None, Some ''queued'', Some ''done'', Some ''failed''} \<and> b = Some ''queued''"

lemma webhook_update_moves:
  "to = ''teardown'' \<or> to = ''queued'' \<and> (from = ''queued'' \<or> reopenable from) \<Longrightarrow>
     obeys (moves_of store_ok status_of webhook_moves) (UpdateStatus i from to msg now f)"
  by (rule previews.update_moves) (auto simp: webhook_moves_def reopenable_def)

lemma webhook_upsert_moves: "obeys (moves_of store_ok status_of webhook_moves) (Upsert p)"
  by (rule previews.upsert_moves) (simp add: webhook_moves_def)

lemma moves_handleWebhook:
  "obeys (moves_of store_ok status_of webhook_moves) (handleWebhook digest unmarshal ts rq)"
  unfolding handleWebhook_def dispatch_action_def handleUpsert_def supersede_def after_upsert_def
    handleClose_def findPreviewByRepoPR_def Let_def
  by (intro webhook_upsert_moves obeys_if_cond move_rules webhook_update_moves) auto

lemma moves_deletePreview:
  "obeys (moves_of store_ok status_of (\<lambda>i a b. i = trim_space raw \<and> a \<noteq> None \<and> b = Some ''teardown''))
     (deletePreview ts raw)"
  unfolding deletePreview_def Let_def
  by (intro move_rules previews.update_moves) auto

section \<open>Signatures\<close>

lemma signature_rejected:
  assumes "rq_body rq = Some payload" and "check_signature digest (rq_signature rq) payload = Some rep"
  shows "handleWebhook digest unmarshal ts rq s = (Inr rep, s)" and "code rep = 401"
  using assms
  by (auto simp: handleWebhook_def check_signature_def writeError_def split: if_splits option.splits)

lemma check_signature_None:
  assumes "check_signature digest hdr payload = None"
  shows "\<exists>sig. hdr = ''sha256='' @ sig \<and> hex_decode sig = Some (digest payload)"
proof -
  have "has_prefix hdr ''sha256=''" and dec: "hex_decode (trim_prefix hdr ''sha256='') = Some (digest payload)"
    using assms by (auto simp: check_signature_def split: if_splits option.splits)
  then obtain sig where hdr: "hdr = ''sha256='' @ sig" unfolding has_prefix_iff by blast
  with dec have "hex_decode sig = Some (digest payload)" by (simp only: trim_prefix_append)
  with hdr show ?thesis by blast
qed

lemma webhook_needs_signature:
  assumes run: "handleWebhook digest unmarshal ts rq s = (r, s')" and "s' \<noteq> s"
  shows "\<exists>payload sig p. rq_body rq = Some payload \<and> rq_signature rq = ''sha256='' @ sig \<and>
    hex_decode sig = Some (digest payload) \<and> rq_event rq = ''pull_request'' \<and>
    unmarshal payload = Some p \<and> pr_num_of p \<noteq> 0 \<and> pr_repo p \<noteq> []"
proof (cases "rq_body rq")
  case None
  then show ?thesis using assms by (simp add: handleWebhook_def)
next
  case (Some payload)
  show ?thesis
  proof (cases "check_signature digest (rq_signature rq) payload")
    case None
    from check_signature_None [OF None] Some None assms show ?thesis
      by (auto simp: handleWebhook_def split: option.splits if_splits)
  qed (use Some assms in \<open>simp add: handleWebhook_def\<close>)
qed


section \<open>The decision matrix\<close>

text \<open>The active preview of a PR, the row \<open>GetActiveByRepoAndPR\<close> reads.\<close>

definition active_of :: "tables \<Rightarrow> string \<Rightarrow> int \<Rightarrow> preview_row option" where
  "active_of t repo pr =
     (case order_desc row_created (filter (\<lambda>r. row_repo r = repo \<and> row_pr r = pr \<and>
        row_status r \<in> set active_statuses) (tb_previews t)) of [] \<Rightarrow> None | r # _ \<Rightarrow> Some r)"

lemma active_of_Some:
  assumes "active_of t repo pr = Some r"
  shows "r \<in> set (tb_previews t)" and "row_repo r = repo" and "row_pr r = pr"
    and "row_status r \<in> set active_statuses"
proof -
  let ?rows = "filter (\<lambda>r. row_repo r = repo \<and> row_pr r = pr \<and> row_status r \<in> set active_statuses) (tb_previews t)"
  from assms have "r \<in> set (order_desc row_created ?rows)"
    by (auto simp: active_of_def simp del: set_order_desc split: list.splits)
  then show "r \<in> set (tb_previews t)" "row_repo r = repo" "row_pr r = pr"
    "row_status r \<in> set active_statuses" by auto
qed

lemma GetActive_calm:
  assumes "calm s"
  shows "GetActiveByRepoAndPR repo pr s =
    (case active_of (tabs s) repo pr of None \<Rightarrow> Inl ErrNotFound | Some r \<Rightarrow> previewRowToDomain r, step_env s)"
  by (simp add: GetActiveByRepoAndPR_def getActivePreviewByRepoAndPR_def get_one_calm [OF assms]
      active_of_def split: list.split)

lemma row_decodes:
  assumes "decodable t" and "r \<in> set (tb_previews t)"
  shows "\<exists>p. previewRowToDomain r = Inr p \<and> pv_id p = row_id r \<and> pv_status p = row_status r \<and>
    pv_sha p = commitShaFromNullString (row_sha r) \<and> pv_agent p = row_agent r \<and>
    pv_repo p = row_repo r \<and> pv_pr p = row_pr r"
  using assms previewRowToDomain_decodable [of r] previewRowToDomain_fields [of r]
  by (auto simp: decodable_def)

text \<open>Sending a teardown leaves a calm state calm, and touches no table.\<close>

definition teardown_state :: "bool \<Rightarrow> Preview \<Rightarrow> hub \<Rightarrow> hub" where
  "teardown_state ts p s =
     (if ts \<and> pv_agent p \<noteq> None then snd (SendTeardown (the (pv_agent p)) (pv_id p) s) else s)"

lemma send_teardown_run: "send_teardown_for ts p s = (Inr (), teardown_state ts p s)"
  by (auto simp: send_teardown_for_def teardown_state_def logged_def)

lemma teardown_state_env:
  "tabs (teardown_state ts p s) = tabs s" "uuids (teardown_state ts p s) = uuids s"
  "faults (teardown_state ts p s) = faults s" "clock (teardown_state ts p s) = clock s"
  "seqno s \<le> seqno (teardown_state ts p s)"
  by (auto simp: teardown_state_def SendTeardown_def send_to_def write_frame_def split: option.splits)

lemma teardown_state_calm:
  "calm s \<Longrightarrow> calm (teardown_state ts p s)" "store_ok s \<Longrightarrow> store_ok (teardown_state ts p s)"
  using teardown_state_env(1,2,3,4) [where s = s and ts = ts and p = p] teardown_state_env(5) [where s = s and ts = ts and p = p] by (auto simp: calm_def store_ok_def clock_ok_def)

lemma status_written_sha_rows:
  assumes "sha_rows p t = []"
  shows "sha_rows p (status_written i to msg now no_fields r u t) = []"
  using assms
  by (auto simp: sha_rows_def status_written_def filter_empty_conv set_update_where same_sha_key_def
      write_fields_def plain_fields)

lemma born_status:
  assumes "tabs s' = born p u (tabs s)" and "pv_id p \<notin> row_id ` set (tb_previews (tabs s))"
  shows "status_of s' = (status_of s)(pv_id p \<mapsto> ''queued'')"
proof
  fix j
  have "find (\<lambda>r. row_id r = pv_id p) (tb_previews (tabs s)) = None"
    using assms(2) by (simp add: find_key_None_iff)
  then show "status_of s' j = ((status_of s)(pv_id p \<mapsto> ''queued'')) j"
    by (auto simp: status_of_def assms(1) born_def find_append_None split: option.splits dest: find_SomeD)
qed

text \<open>
  The identifier of the new preview was drawn before the upsert, so a state that holds it is
  calm with respect to the identifiers still to come.
\<close>

lemma calm_born:
  assumes calm: "calm s" and frame: "db_only s s'" and t: "tabs s' = born p u (tabs s)"
    and u: "u \<in> uuids s ` {seqno s..<seqno s'}" and i: "pv_id p \<in> uuids s ` {..<seqno s}"
  shows "calm s'"
proof -
  have "uuids s n \<notin> used_ids (tabs s')" if n: "seqno s' \<le> n" for n
  proof -
    have inj: "uuids s a = uuids s b \<Longrightarrow> a = b" for a b
      using calm by (auto simp: calm_def dest: injD)
    have le: "seqno s \<le> seqno s'" using frame by (simp add: db_only_def)
    have "uuids s n \<noteq> u" using u n by (auto dest!: inj)
    moreover have "uuids s n \<noteq> pv_id p" using i n le by (auto dest!: inj)
    moreover have "uuids s n \<notin> used_ids (tabs s)" using calm n le by (simp add: calm_def)
    ultimately show ?thesis by (auto simp: used_ids_def t born_def)
  qed
  with calm frame show ?thesis by (auto simp: calm_def db_only_def)
qed

lemma update_where_append: "update_where P f (xs @ ys) = update_where P f xs @ update_where P f ys"
  by (simp add: update_where_def)

text \<open>The row of a new preview, and the mark that names what it supersedes.\<close>

definition fresh_row :: "pullRequestEvent \<Rightarrow> int \<Rightarrow> string \<Rightarrow> time \<Rightarrow> string \<Rightarrow> preview_row" where
  "fresh_row p prNum i now old =
     \<lparr>row_id = i, row_repo = pr_repo p, row_pr = prNum, row_sha = (if pr_sha p = [] then None else Some (pr_sha p)),
      row_branch = pr_ref p, row_status = ''queued'', row_agent = None, row_container = None, row_host = None,
      row_port = None, row_labels = encodeLabels (pr_labels p),
      row_error = (if old = [] then None else Some (''created_after_supersede_of='' @ old)),
      row_created = iso8601 now, row_updated = iso8601 now, row_clone_url = pr_clone_url p, row_urls = [],
      row_adhoc = 0\<rparr>"

lemma fresh_row_insert: "insert_row (preview_of_event p prNum i now) now = fresh_row p prNum i now []"
  by (simp add: insert_row_def fresh_row_def preview_of_event_def nullStringFromCommitSha_def labelsFromPR_def
      boolToInt64_def)

lemma fresh_row_marked:
  "old \<noteq> [] \<Longrightarrow> write_fields (status_params ''queued'' (''created_after_supersede_of='' @ old) now no_fields)
     (fresh_row p prNum i now []) = fresh_row p prNum i now old"
  by (simp add: write_fields_def fresh_row_def status_params_def no_fields_def)

text \<open>The tail of the handler for a new commit, whatever was superseded before.\<close>

lemma new_commit_run:
  assumes calm: "calm s" and ok: "store_ok s"
    and new: "sha_rows (preview_of_event p prNum i now) (tabs s) = []"
    and i: "i \<in> uuids s ` {..<seqno s}" "i \<notin> row_id ` set (tb_previews (tabs s))"
    and run: "bindE (attempt (Upsert (preview_of_event p prNum i now))) (\<lambda>r.
             case r of Inl _ \<Rightarrow> ret (writeError 500 ''internal'' ''upsert failed'')
             | Inr res \<Rightarrow> after_upsert p i now old res) s = (r, s')"
  shows "r = Inr (writeStatus i ''queued'') \<and> status_of s' = (status_of s)(i \<mapsto> ''queued'') \<and>
    tb_previews (tabs s') = tb_previews (tabs s) @ [fresh_row p prNum i now old] \<and> outbox s' = outbox s"
proof -
  let ?pv = "preview_of_event p prNum i now"
  have id: "pv_id ?pv = i" by (simp add: preview_of_event_def)
  from Upsert_new [OF calm new] i obtain s1 u where up: "Upsert ?pv s = (Inr (True, None), s1)"
    and t1: "tabs s1 = born ?pv u (tabs s)" and u: "u \<in> uuids s ` {seqno s..<seqno s1}"
    by (auto simp: id)
  have st1: "status_of s1 = (status_of s)(i \<mapsto> ''queued'')"
    using born_status [OF t1] i by (simp add: id)
  have rows1: "tb_previews (tabs s1) = tb_previews (tabs s) @ [fresh_row p prNum i now []]"
    by (simp add: t1 born_def fresh_row_insert [symmetric]) (simp add: preview_of_event_def)
  have frame1: "db_only s s1" using obeysD [OF frame_Upsert up] .
  have calm1: "calm s1"
    using calm_born [OF calm frame1 t1 u] i by (simp add: id)
  have ok1: "store_ok s1" using previews.ok_upsert [OF ok up] .
  from run up have rest: "after_upsert p i now old (True, None) s1 = (r, s')"
    by (simp add: bindE_def attempt_def)
  show ?thesis
  proof (cases "old = []")
    case True
    with rest st1 rows1 frame1 show ?thesis by (simp add: after_upsert_def db_only_def)
  next
    case False
    obtain x s2 where mark: "UpdateStatus i ''queued'' ''queued'' (''created_after_supersede_of='' @ old) now
        no_fields s1 = (x, s2)" by fastforce
    have "status_of s1 i = Some ''queued''" using st1 by simp
    from plain_update_moves(1,2) [OF calm1 ok1 this _ mark] st1
    have x: "x = Inr ()" and st2: "status_of s2 = (status_of s)(i \<mapsto> ''queued'')" by simp_all
    from mark [unfolded x] obtain r0 u2 where "tabs s2 = status_written i ''queued'' (''created_after_supersede_of='' @ old)
        now no_fields r0 u2 (tabs s1)" by (rule UpdateStatus_Inr)
    moreover have "update_where (\<lambda>q. row_id q = i) f (tb_previews (tabs s)) = tb_previews (tabs s)" for f
      using i(2) by (auto simp: update_where_def intro!: map_idI)
    moreover have "row_id (fresh_row p prNum i now []) = i" by (simp add: fresh_row_def)
    ultimately have "tb_previews (tabs s2) = tb_previews (tabs s) @ [fresh_row p prNum i now old]"
      using fresh_row_marked [OF False] by (simp only: status_written_def rows1 update_where_append) simp
    moreover have "db_only s1 s2" using obeysD [OF frame_UpdateStatus mark] .
    ultimately show ?thesis using rest False mark st2 frame1 by (simp add: after_upsert_def db_only_def)
  qed
qed

lemma new_id_fresh:
  assumes "calm s"
  shows "uuids s (Suc (seqno s)) \<notin> row_id ` set (tb_previews (tabs s))"
  using assms by (auto simp: calm_def used_ids_def)

text \<open>
  The first half of the handler. On a synchronize event the active preview of the PR, when it is at
  another commit, is torn down and its agent told; otherwise nothing happens.
\<close>

definition superseded :: "pullRequestEvent \<Rightarrow> int \<Rightarrow> tables \<Rightarrow> preview_row option" where
  "superseded p prNum t = (if pr_action p \<noteq> ''synchronize'' then None
     else case active_of t (pr_repo p) prNum of None \<Rightarrow> None
       | Some q \<Rightarrow> if commitShaFromNullString (row_sha q) = pr_sha p then None else Some q)"

definition torn_down :: "preview_row option \<Rightarrow> hub \<Rightarrow> string \<Rightarrow> string option" where
  "torn_down old s = (case old of None \<Rightarrow> status_of s | Some q \<Rightarrow> (status_of s)(row_id q \<mapsto> ''teardown''))"

definition old_id :: "preview_row option \<Rightarrow> string" where
  "old_id old = (case old of None \<Rightarrow> [] | Some q \<Rightarrow> row_id q)"

text \<open>The frame the agent of a preview is sent, if it is connected and the write succeeds.\<close>

definition teardown_frames :: "bool \<Rightarrow> preview_row option \<Rightarrow> hub \<Rightarrow> (nat \<times> envelope) list" where
  "teardown_frames ts old s = (case old of None \<Rightarrow> []
     | Some q \<Rightarrow> (case row_agent q of None \<Rightarrow> []
         | Some ag \<Rightarrow> (case connFor s ag of None \<Rightarrow> []
             | Some c \<Rightarrow> if ts \<and> c \<notin> set (broken s) then [(c, JobTeardown (row_id q))] else [])))"

lemma teardown_frames_cong:
  "conns s = conns t \<Longrightarrow> broken s = broken t \<Longrightarrow> teardown_frames ts old s = teardown_frames ts old t"
  by (auto simp: teardown_frames_def connFor_def split: option.split)

lemma teardown_state_outbox:
  assumes "calm s" and "previewRowToDomain q = Inr p"
  shows "outbox (teardown_state ts p s) = outbox s @ teardown_frames ts (Some q) s"
  using previewRowToDomain_fields [OF assms(2)] calm_no_fault [OF assms(1), of "seqno s"]
  by (auto simp: teardown_state_def SendTeardown_def send_to_def write_frame_def teardown_frames_def split: option.split)

text \<open>What holds between the two halves, with what was superseded.\<close>

definition halfway :: "bool \<Rightarrow> pullRequestEvent \<Rightarrow> int \<Rightarrow> preview_row option \<Rightarrow> hub \<Rightarrow> hub \<Rightarrow> bool" where
  "halfway ts p prNum old s s2 \<longleftrightarrow> calm s2 \<and> store_ok s2 \<and> uuids s2 = uuids s \<and> Suc (seqno s) < seqno s2 \<and>
     status_of s2 = torn_down old s \<and> outbox s2 = outbox s @ teardown_frames ts old s \<and>
     row_id ` set (tb_previews (tabs s2)) = row_id ` set (tb_previews (tabs s)) \<and>
     (\<forall>i now. sha_rows (preview_of_event p prNum i now) (tabs s2) = sha_rows (preview_of_event p prNum i now) (tabs s))"

lemma sha_rows_torn:
  assumes wf: "wf_tables t" and q: "q \<in> set (tb_previews t)"
    and other: "commitShaFromNullString (row_sha q) \<noteq> pr_sha p"
  shows "sha_rows (preview_of_event p n i now) (status_written (row_id q) to msg now' no_fields r u t) =
    sha_rows (preview_of_event p n i now) t"
proof -
  let ?P = "same_sha_key (insert_row (preview_of_event p n i now) now)"
  let ?f = "write_fields (status_params to msg now' no_fields)"
  have not: "\<not> ?P x \<and> \<not> ?P (?f x)" if "x \<in> set (tb_previews t)" "row_id x = row_id q" for x
  proof -
    have "x = q" using same_id_same_row [OF wf that(1) q that(2)] .
    with other show ?thesis
      by (auto simp: same_sha_key_def preview_of_event_def nullStringFromCommitSha_def commitShaFromNullString_def
          write_fields_def plain_fields)
  qed
  have "filter ?P (map (\<lambda>x. if row_id x = row_id q then ?f x else x) xs) = filter ?P xs"
    if "set xs \<subseteq> set (tb_previews t)" for xs
    using that by (induction xs) (use not in auto)
  then show ?thesis
    by (simp add: sha_rows_def status_written_def update_where_def preview_of_event_def)
qed

lemma supersede_run:
  assumes calm: "calm s" and db: "db_ok (tabs s)" and clk: "clock_ok s"
    and old: "old = superseded p prNum (tabs s)"
  shows "\<exists>s2. supersede ts p prNum now (step_env (step_env s)) = (Inr (Inr (old_id old)) :: 'e + (reply + string), s2) \<and>
    halfway ts p prNum old s s2"
proof -
  define s1 where "s1 = step_env (step_env s)"
  have s1: "tabs s1 = tabs s" "calm s1" "store_ok s1" "status_of s1 = status_of s" "outbox s1 = outbox s"
      "uuids s1 = uuids s" "seqno s1 = Suc (Suc (seqno s))" "conns s1 = conns s" "broken s1 = broken s"
    using calm_env [OF calm_env [OF calm]] db clk
    by (auto simp: s1_def store_ok_def db_ok_def clock_ok_def)
  have wf: "wf_tables (tabs s)" and dec: "decodable (tabs s)" using db by (auto simp: db_ok_def)
  have kept: "halfway ts p prNum None s s2" if "s2 = s1 \<or> s2 = step_env s1" for s2
    using that s1 calm_env [OF s1(2)]
    by (auto simp: halfway_def torn_down_def teardown_frames_def store_ok_def clock_ok_def)
  have "\<exists>s2. supersede ts p prNum now s1 = (Inr (Inr (old_id old)) :: 'e + (reply + string), s2) \<and> halfway ts p prNum old s s2"
  proof (cases "pr_action p = ''synchronize''")
    case False
    then have "supersede ts p prNum now s1 = (Inr (Inr (old_id old)), s1)" "old = None"
      by (simp_all add: supersede_def old superseded_def old_id_def)
    with kept show ?thesis by blast
  next
    case sync: True
    show ?thesis
    proof (cases "active_of (tabs s) (pr_repo p) prNum")
      case None
      with sync s1 have "supersede ts p prNum now s1 = (Inr (Inr (old_id old)), step_env s1)" "old = None"
        by (simp_all add: supersede_def old superseded_def old_id_def bindE_def attempt_def GetActive_calm)
      with kept show ?thesis by blast
    next
      case (Some q)
      note q = active_of_Some [OF Some]
      from row_decodes [OF dec q(1)] obtain ex where ex: "previewRowToDomain q = Inr ex" "pv_id ex = row_id q"
        "pv_sha ex = commitShaFromNullString (row_sha q)" by blast
      have get: "GetActiveByRepoAndPR (pr_repo p) prNum s1 = (Inr ex, step_env s1)"
        by (simp add: GetActive_calm [OF s1(2)] s1 Some ex)
      show ?thesis
      proof (cases "commitShaFromNullString (row_sha q) = pr_sha p")
        case True
        with sync get Some ex have "supersede ts p prNum now s1 = (Inr (Inr (old_id old)), step_env s1)" "old = None"
          by (simp_all add: supersede_def old superseded_def old_id_def bindE_def attempt_def)
        with kept show ?thesis by blast
      next
        case other: False
        with sync Some have o: "old = Some q" by (simp add: old superseded_def)
        obtain x s3 where up: "UpdateStatus (row_id q) [] ''teardown'' (''superseded_by_sha='' @ pr_sha p) now no_fields
            (step_env s1) = (x, s3)" by fastforce
        have stq: "status_of s (row_id q) = Some (row_status q)" using status_of_row [OF wf q(1)] .
        have "store_ok (step_env s1)" using s1(3) by (simp add: store_ok_def clock_ok_def)
        then have x: "x = Inr ()" and st3: "status_of s3 = (status_of s)(row_id q \<mapsto> ''teardown'')"
          and s3: "calm s3" "store_ok s3"
          using plain_update_moves [OF calm_env [OF s1(2)] _ _ _ up] stq s1(4) by auto
        from up x obtain r0 u where t3: "tabs s3 = status_written (row_id q) ''teardown'' (''superseded_by_sha='' @ pr_sha p)
            now no_fields r0 u (tabs s)" by (auto elim!: UpdateStatus_Inr simp: s1)
        define s4 where "s4 = teardown_state ts ex s3"
        have s4: "tabs s4 = tabs s3" "calm s4" "store_ok s4" "uuids s4 = uuids s3" "seqno s3 \<le> seqno s4"
          using s3 by (simp_all add: s4_def teardown_state_env teardown_state_calm)
        have sup: "supersede ts p prNum now s1 = (Inr (Inr (old_id old)) :: 'e + (reply + string), s4)"
          using sync get other up x ex
          by (simp add: supersede_def bindE_def attempt_def send_teardown_run s4_def o old_id_def)
        have frame: "db_only (step_env s1) s3" using obeysD [OF frame_UpdateStatus up] .
        have "outbox s4 = outbox s3 @ teardown_frames ts (Some q) s3"
          unfolding s4_def using s3(1) ex(1) by (rule teardown_state_outbox)
        then have "outbox s4 = outbox s @ teardown_frames ts old s"
          using teardown_frames_cong [of s3 s] frame s1 by (simp add: db_only_def o)
        moreover have "status_of s4 = torn_down old s"
          using status_of_same [OF s4(1)] st3 by (simp add: o torn_down_def)
        moreover have "row_id ` set (tb_previews (tabs s4)) = row_id ` set (tb_previews (tabs s))"
          by (simp add: s4(1) t3 status_written_def image_id_update_where)
        moreover have "sha_rows (preview_of_event p prNum i n) (tabs s4) = sha_rows (preview_of_event p prNum i n) (tabs s)" for i n
          unfolding s4(1) t3 by (rule sha_rows_torn [OF wf q(1) other])
        ultimately have "halfway ts p prNum old s s4"
          using s4 frame s1 by (simp add: halfway_def db_only_def)
        with sup show ?thesis by blast
      qed
    qed
  qed
  then show ?thesis by (simp add: s1_def)
qed

text \<open>The handler as its two halves.\<close>

lemma handleUpsert_halves:
  assumes calm: "calm s" and db: "db_ok (tabs s)" and clk: "clock_ok s"
    and old: "old = superseded p prNum (tabs s)"
    and run: "handleUpsert ts p prNum s = (r :: 'e + reply, s')"
  shows "\<exists>s2. halfway ts p prNum old s s2 \<and>
    bindE (attempt (Upsert (preview_of_event p prNum (uuids s (Suc (seqno s))) (clock s (seqno s))))) (\<lambda>r.
      case r of Inl _ \<Rightarrow> ret (writeError 500 ''internal'' ''upsert failed'')
      | Inr res \<Rightarrow> after_upsert p (uuids s (Suc (seqno s))) (clock s (seqno s)) (old_id old) res) s2 = (r, s')"
proof -
  from supersede_run [OF calm db clk old, of ts "clock s (seqno s)"] obtain s2 where
    sup: "supersede ts p prNum (clock s (seqno s)) (step_env (step_env s)) = (Inr (Inr (old_id old)) :: 'e + (reply + string), s2)"
    and half: "halfway ts p prNum old s s2" by blast
  with run show ?thesis by (intro exI [of _ s2]) (simp add: handleUpsert_def bindE_def time_now_def new_uuid_def)
qed

text \<open>A commit the repo does not have yet: a new preview, after what it supersedes is torn down.\<close>

lemma new_commit:
  assumes calm: "calm s" and db: "db_ok (tabs s)" and clk: "clock_ok s"
    and old: "old = superseded p prNum (tabs s)"
    and new: "sha_rows (preview_of_event p prNum [] 0) (tabs s) = []"
    and run: "handleUpsert ts p prNum s = (r :: 'e + reply, s')"
  shows "\<exists>i now. status_of s i = None \<and> r = Inr (writeStatus i ''queued'') \<and>
    status_of s' = (torn_down old s)(i \<mapsto> ''queued'') \<and>
    fresh_row p prNum i now (old_id old) \<in> set (tb_previews (tabs s')) \<and>
    outbox s' = outbox s @ teardown_frames ts old s"
proof -
  let ?i = "uuids s (Suc (seqno s))" and ?now = "clock s (seqno s)"
  from handleUpsert_halves [OF calm db clk old run] obtain s2 where half: "halfway ts p prNum old s s2"
    and rest: "bindE (attempt (Upsert (preview_of_event p prNum ?i ?now))) (\<lambda>r.
      case r of Inl _ \<Rightarrow> ret (writeError 500 ''internal'' ''upsert failed'')
      | Inr res \<Rightarrow> after_upsert p ?i ?now (old_id old) res) s2 = (r, s')" by blast
  have "sha_rows (preview_of_event p prNum ?i ?now) (tabs s) = []"
    using new by (simp add: sha_rows_def same_sha_key_def filter_empty_conv preview_of_event_def)
  then have "sha_rows (preview_of_event p prNum ?i ?now) (tabs s2) = []" using half by (simp add: halfway_def)
  moreover have "?i \<in> uuids s2 ` {..<seqno s2}" "?i \<notin> row_id ` set (tb_previews (tabs s2))"
    using half new_id_fresh [OF calm] by (auto simp: halfway_def)
  ultimately have "r = Inr (writeStatus ?i ''queued'') \<and> status_of s' = (status_of s2)(?i \<mapsto> ''queued'') \<and>
      tb_previews (tabs s') = tb_previews (tabs s2) @ [fresh_row p prNum ?i ?now (old_id old)] \<and> outbox s' = outbox s2"
    using half by (intro new_commit_run [OF _ _ _ _ _ rest]) (auto simp: halfway_def)
  moreover have "status_of s ?i = None" using new_id_fresh [OF calm] by (simp add: status_of_None_iff)
  ultimately show ?thesis using half by (intro exI [of _ ?i] exI [of _ ?now]) (simp add: halfway_def)
qed

end
