(* ===== verification/Reconciler.thy ===== *)
theory Reconciler
  imports StatusUpdate
begin

text \<open>
  internal/hub/reconciler.go: one tick requeues the previews that have stayed assigned since
  before the cutoff and counts the running previews of agents that are not online.
\<close>

definition requeue_msg :: string where
  "requeue_msg = ''reconciliation: stale assigned''"

definition requeue :: "Preview \<Rightarrow> (hub_err, unit) act" where
  "requeue p = bindE time_now (\<lambda>now. logged (store
     (UpdateStatus (pv_id p) ''assigned'' ''queued'' requeue_msg now no_fields)))"

definition requeue_stale :: "time \<Rightarrow> (hub_err, unit) act" where
  "requeue_stale cutoff =
     bindE (attempt (store (ListStaleAssigned cutoff)))
       (\<lambda>r. case r of Inl _ \<Rightarrow> ret () | Inr stales \<Rightarrow> for_each requeue stales)"

definition orphan_running :: "string set \<Rightarrow> Preview \<Rightarrow> bool" where
  "orphan_running online p \<longleftrightarrow>
     pv_status p = ''running'' \<and> pv_agent p \<noteq> None \<and> the (pv_agent p) \<notin> online"

definition count_orphans :: "(hub_err, nat) act" where
  "count_orphans s =
     (let online = OnlineAgentIDs s in
      bindE (attempt (store ListAll)) (\<lambda>r. case r of
         Inl _ \<Rightarrow> ret 0 | Inr all \<Rightarrow> ret (length (filter (orphan_running online) all))) s)"

text \<open>
  The duration comes from an environment variable and may be negative. A cutoff before year 0 does
  not occur: a \<open>time.Duration\<close> holds less than 293 years.
\<close>

definition tick :: "int \<Rightarrow> (hub_err, nat) act" where
  "tick staleAfter = bindE time_now (\<lambda>now.
     bindE (requeue_stale (nat (int now - staleAfter))) (\<lambda>_. count_orphans))"

section \<open>Contracts\<close>

lemma count_orphans_run: "snd (count_orphans s) = snd (ListAll s)"
  by (simp add: count_orphans_def Let_def bindE_def attempt_def split: prod.splits sum.splits)
    (metis snd_conv snd_store)

lemma obeys_count_orphans: "obeys R ListAll \<Longrightarrow> obeys R count_orphans"
  by (simp add: obeys_def count_orphans_run)

lemma keeps_tick [inv_rules]: "obeys (keeps db_ok) (tick staleAfter)"
  unfolding tick_def requeue_stale_def requeue_def
  by (intro keeps_time_now inv_rules obeys_count_orphans)

lemma hist_tick [hist_rules]: "obeys history (tick staleAfter)"
  unfolding tick_def requeue_stale_def requeue_def
  by (intro hist_rules obeys_count_orphans)

definition requeueing :: transitions where
  "requeueing i a b \<longleftrightarrow> a = Some ''assigned'' \<and> b = Some ''queued''"

lemma moves_tick: "obeys (moves_of store_ok status_of requeueing) (tick staleAfter)"
proof -
  have up: "obeys (moves_of store_ok status_of requeueing)
      (UpdateStatus i ''assigned'' ''queued'' msg now f)" for i msg now f
    by (rule previews.update_moves) (simp add: requeueing_def)
  show ?thesis
    unfolding tick_def requeue_stale_def requeue_def
    by (intro move_rules up obeys_count_orphans)
qed


section \<open>Exactly the stale assignments are requeued\<close>

definition stale_row :: "time \<Rightarrow> preview_row \<Rightarrow> bool" where
  "stale_row cutoff r \<longleftrightarrow> row_status r = ''assigned'' \<and> row_updated r < iso8601 cutoff"

definition stale_ids :: "time \<Rightarrow> tables \<Rightarrow> string set" where
  "stale_ids cutoff t = row_id ` {r \<in> set (tb_previews t). stale_row cutoff r}"

lemma map_err_decodable:
  assumes "\<And>r. r \<in> set rows \<Longrightarrow> decodable_preview r"
  shows "\<exists>ps. map_err previewRowToDomain rows = Inr ps \<and> map pv_id ps = map row_id rows"
proof -
  have "map_err previewRowToDomain rows = Inr (map (\<lambda>r. projr (previewRowToDomain r)) rows)"
  proof (rule map_err_ok)
    fix r assume "r \<in> set rows"
    with previewRowToDomain_decodable [OF assms] obtain p where "previewRowToDomain r = Inr p" by blast
    then show "previewRowToDomain r = Inr (projr (previewRowToDomain r))" by simp
  qed
  moreover have "map pv_id (map (\<lambda>r. projr (previewRowToDomain r)) rows) = map row_id rows"
  proof -
    have "pv_id (projr (previewRowToDomain r)) = row_id r" if "r \<in> set rows" for r
      using previewRowToDomain_decodable [OF assms [OF that]] previewRowToDomain_fields by fastforce
    then show ?thesis by simp
  qed
  ultimately show ?thesis by blast
qed

lemma ListStale_calm:
  assumes "calm s" and "decodable (tabs s)"
  shows "\<exists>ps. ListStaleAssigned cutoff s = (Inr ps, step_env s) \<and>
    map pv_id ps = map row_id (order_asc row_updated (filter (stale_row cutoff) (tb_previews (tabs s))))"
proof -
  let ?rows = "order_asc row_updated (filter (stale_row cutoff) (tb_previews (tabs s)))"
  from assms(2) have "decodable_preview r" if "r \<in> set ?rows" for r
    using that by (auto simp: decodable_def)
  from map_err_decodable [OF this] obtain ps where
    ps: "map_err previewRowToDomain ?rows = Inr ps" "map pv_id ps = map row_id ?rows" by blast
  have "exec (listStaleAssignedPreviews (iso8601 cutoff)) s = (Inr ?rows, step_env s)"
    using calm_no_fault [OF assms(1), of "seqno s"]
    by (simp add: exec_def listStaleAssignedPreviews_def query_def stale_row_def [abs_def] step_env_def)
  with ps show ?thesis
    by (simp add: ListStaleAssigned_def get_many_def bindE_def)
qed

lemma requeue_calm:
  assumes "calm s" and "store_ok s" and "status_of s (pv_id p) = Some ''assigned''"
    and run: "requeue p s = (r, s')"
  shows "r = Inr () \<and> calm s' \<and> store_ok s' \<and> status_of s' = (status_of s)(pv_id p \<mapsto> ''queued'')"
proof -
  define now where "now = clock s (seqno s)"
  obtain x s1 where up: "UpdateStatus (pv_id p) ''assigned'' ''queued'' requeue_msg now no_fields (step_env s) = (x, s1)"
    by fastforce
  then have "r = Inr ()" "s' = s1"
    using run by (auto simp: requeue_def bindE_def time_now_def now_def logged_def)
  moreover have "store_ok (step_env s)" using assms(2) by (simp add: store_ok_def clock_ok_def)
  ultimately show ?thesis
    using plain_update_moves [OF calm_env [OF assms(1)] _ _ _ up] assms(3) by simp
qed

lemma requeue_each:
  assumes "calm s" and "store_ok s" and "distinct (map pv_id ps)"
    and "\<And>p. p \<in> set ps \<Longrightarrow> status_of s (pv_id p) = Some ''assigned''"
    and "for_each requeue ps s = (r, s')"
  shows "r = Inr () \<and> calm s' \<and> store_ok s' \<and>
    status_of s' = (\<lambda>i. if i \<in> pv_id ` set ps then Some ''queued'' else status_of s i)"
  using requeue_calm assms by (rule each_update_calm [where frm = "\<lambda>_. ''assigned''"])

lemma requeue_stale_exact:
  assumes calm: "calm s" and ok: "db_ok (tabs s)" "clock_ok s"
    and run: "requeue_stale cutoff s = (r, s')"
  shows "r = Inr () \<and> calm s' \<and> status_of s' =
    (\<lambda>i. if i \<in> stale_ids cutoff (tabs s) then Some ''queued'' else status_of s i)"
proof -
  let ?rows = "order_asc row_updated (filter (stale_row cutoff) (tb_previews (tabs s)))"
  have wf: "wf_tables (tabs s)" and dec: "decodable (tabs s)" using ok by (auto simp: db_ok_def)
  from ListStale_calm [OF calm dec] obtain ps where
    l: "ListStaleAssigned cutoff s = (Inr ps, step_env s)" and ids: "map pv_id ps = map row_id ?rows"
    by blast
  have set_ids: "pv_id ` set ps = stale_ids cutoff (tabs s)"
    using arg_cong [OF ids, of set] by (auto simp: stale_ids_def)
  have dist: "distinct (map pv_id ps)"
    using wf by (simp add: ids wf_tables_def distinct_map order_asc_def inj_on_def)
  have st: "status_of (step_env s) (pv_id p) = Some ''assigned''" if "p \<in> set ps" for p
  proof -
    from that set_ids obtain q where "q \<in> set (tb_previews (tabs s))" "row_id q = pv_id p" "stale_row cutoff q"
      by (force simp: stale_ids_def)
    with status_of_row [OF wf this(1)] show ?thesis by (simp add: stale_row_def status_of_def)
  qed
  from run l have loop: "for_each requeue ps (step_env s) = (r, s')"
    by (simp add: requeue_stale_def bindE_def attempt_def store_def)
  have "store_ok (step_env s)" using ok wf by (simp add: store_ok_def clock_ok_def)
  moreover have "status_of (step_env s) = status_of s" by (rule status_of_same) simp
  ultimately show ?thesis
    using requeue_each [OF calm_env [OF calm] _ dist st loop] by (simp add: set_ids cong: if_cong)
qed

text \<open>The running previews of agents that are not online are counted.\<close>

definition orphan_row :: "string set \<Rightarrow> preview_row \<Rightarrow> bool" where
  "orphan_row online r \<longleftrightarrow> row_status r = ''running'' \<and> (\<exists>ag. row_agent r = Some ag \<and> ag \<notin> online)"

lemma map_err_count:
  assumes "map_err f xs = Inr ys" and "\<And>x y. f x = Inr y \<Longrightarrow> P y = Q x"
  shows "length (filter P ys) = length (filter Q xs)"
  using assms(1)
proof (induction xs arbitrary: ys)
  case (Cons x xs)
  from Cons.prems obtain z zs where z: "f x = Inr z" "map_err f xs = Inr zs" "ys = z # zs"
    by (auto split: sum.splits)
  with Cons.IH [OF z(2)] assms(2) [OF z(1)] show ?case by simp
qed simp

lemma count_orphans_calm:
  assumes "calm s" and "decodable (tabs s)"
  shows "count_orphans s = (Inr (length (filter (orphan_row (OnlineAgentIDs s)) (tb_previews (tabs s)))), step_env s)"
proof -
  let ?rows = "order_desc row_created (tb_previews (tabs s))"
  have "decodable_preview r" if "r \<in> set ?rows" for r using that assms(2) by (simp add: decodable_def)
  from map_err_decodable [OF this] obtain ps where ps: "map_err previewRowToDomain ?rows = Inr ps" by blast
  have "orphan_running on p = orphan_row on r" if "previewRowToDomain r = Inr p" for on p r
    using previewRowToDomain_fields [OF that] by (auto simp: orphan_running_def orphan_row_def)
  then have "length (filter (orphan_running on) ps) = length (filter (orphan_row on) ?rows)" for on
    by (intro map_err_count [OF ps])
  moreover have "length (filter (orphan_row on) ?rows) = length (filter (orphan_row on) (tb_previews (tabs s)))" for on
    by (simp add: order_desc_def rev_filter [symmetric] filter_sort)
  ultimately show ?thesis
    using ps assms(1)
    by (simp add: count_orphans_def Let_def ListAll_def listAllPreviews_def get_many_calm bindE_def attempt_def store_def)
qed

lemma tick_calm:
  assumes "calm s" and "db_ok (tabs s)" and "clock_ok s" and run: "tick staleAfter s = (r, s')"
  shows "status_of s' = (\<lambda>i. if i \<in> stale_ids (nat (int (clock s (seqno s)) - staleAfter)) (tabs s)
      then Some ''queued'' else status_of s i)"
    and "r = Inr (length (filter (orphan_row (OnlineAgentIDs s')) (tb_previews (tabs s'))))"
proof -
  let ?c = "nat (int (clock s (seqno s)) - staleAfter)"
  obtain x s1 where one: "requeue_stale ?c (step_env s) = (x, s1)" by fastforce
  have env: "db_ok (tabs (step_env s))" "clock_ok (step_env s)" using assms(2,3) by (simp_all add: clock_ok_def)
  from requeue_stale_exact [OF calm_env [OF assms(1)] env one]
  have x: "x = Inr ()" "calm s1" "status_of s1 = (\<lambda>i. if i \<in> stale_ids ?c (tabs s) then Some ''queued'' else status_of s i)"
    by (simp_all cong: if_cong)
  have "obeys (keeps db_ok) (requeue_stale ?c)"
    unfolding requeue_stale_def requeue_def by (intro keeps_time_now inv_rules)
  from obeysD [OF this one] env have "decodable (tabs s1)" by (simp add: keeps_def db_ok_def)
  from count_orphans_calm [OF x(2) this] run one x(1)
  have "s' = step_env s1" "r = Inr (length (filter (orphan_row (OnlineAgentIDs s1)) (tb_previews (tabs s1))))"
    by (simp_all add: tick_def bindE_def time_now_def)
  with x(3) show "status_of s' = (\<lambda>i. if i \<in> stale_ids ?c (tabs s) then Some ''queued'' else status_of s i)"
    "r = Inr (length (filter (orphan_row (OnlineAgentIDs s')) (tb_previews (tabs s'))))"
    by (simp_all add: OnlineAgentIDs_def)
qed

text \<open>In whole seconds the cutoff on the stored texts is the cutoff on the times.\<close>

lemma stale_by_seconds:
  assumes "representable u" and "representable cutoff"
    and "row_status r = ''assigned''" and "row_updated r = iso8601 u"
  shows "seconds u < seconds cutoff \<Longrightarrow> stale_row cutoff r"
    and "seconds cutoff < seconds u \<Longrightarrow> \<not> stale_row cutoff r"
  using assms iso8601_less [of u cutoff] iso8601_less [of cutoff u]
  by (auto simp: stale_row_def)

end
