(* ===== verification/WsHandler.thy ===== *)
theory WsHandler
  imports Webhook Reconciler
begin

text \<open>
  internal/hub/ws_handler.go: authentication of an agent, the handshake, the dispatch of the
  frames of a session, its end, and the comparison of the previews an agent says it runs with
  those the database gives it (\<open>syncOnHello\<close>). bcrypt's comparison is an argument. Go ranges
  over a map in an order of the runtime's choosing: the argument \<open>ord\<close> of \<open>syncOnHello\<close>.
\<close>

section \<open>Authentication\<close>

definition token_prefix :: string where "token_prefix = ''agt_''"

definition Verify :: "(string \<Rightarrow> string \<Rightarrow> bool) \<Rightarrow> string \<Rightarrow> string \<Rightarrow> bool" where
  "Verify bcrypt raw hash \<longleftrightarrow> (if \<not> has_prefix raw token_prefix then False else bcrypt hash raw)"

definition parseBearer :: "string \<Rightarrow> string option" where
  "parseBearer hdr =
     (if \<not> has_prefix hdr ''Bearer '' then None
      else let v = trim_space (drop 7 hdr) in if v = [] then None else Some v)"

definition findAgentByToken :: "(string \<Rightarrow> string \<Rightarrow> bool) \<Rightarrow> string \<Rightarrow> (hub_err, Agent) act" where
  "findAgentByToken bcrypt raw =
     bindE (store ListAgents) (\<lambda>as.
       case find (\<lambda>a. Verify bcrypt raw (ag_token_hash a)) as of
         None \<Rightarrow> throw (StoreErr ErrNotFound)
       | Some a \<Rightarrow> ret a)"

text \<open>\<open>ServeHTTP\<close> up to the upgrade: the agent to open a session for, or the reply.\<close>

definition ServeHTTP :: "(string \<Rightarrow> string \<Rightarrow> bool) \<Rightarrow> string \<Rightarrow> ('e, reply + Agent) act" where
  "ServeHTTP bcrypt authHdr =
     (if authHdr = [] then ret (Inl (writeError 401 ''missing_auth'' ''Authorization header required''))
      else case parseBearer authHdr of
        None \<Rightarrow> ret (Inl (writeError 401 ''invalid_token'' ''bearer token required''))
      | Some raw \<Rightarrow>
          if \<not> has_prefix raw token_prefix then ret (Inl (writeError 401 ''invalid_token'' ''bearer token required''))
          else bindE (attempt (findAgentByToken bcrypt raw)) (\<lambda>r.
            case r of
              Inl e \<Rightarrow> if e = StoreErr ErrNotFound then ret (Inl (writeError 401 ''invalid_token'' ''token does not match any agent''))
                       else ret (Inl (writeError 500 ''internal'' ''auth lookup failed''))
            | Inr a \<Rightarrow> ret (Inr a)))"

section \<open>The handshake\<close>

fun readHello :: "envelope option \<Rightarrow> HelloData option" where
  "readHello (Some (Hello h)) = Some h"
| "readHello _ = None"

datatype handshake =
    HelloRequired
  | VersionMismatch string
  | AlreadyOnline
  | OnlineUpdateFailed
  | WelcomeFailed
  | Established HelloData

definition markOffline :: "string \<Rightarrow> ('e, unit) act" where
  "markOffline ag = bindE time_now (\<lambda>now. logged (UpdateAgentStatus ag ''offline'' now))"

definition unregister :: "string \<Rightarrow> nat \<Rightarrow> ('e, unit) act" where
  "unregister ag c s = (Inr (), remove_conn ag c s)"

text \<open>
  \<open>session\<close> until its goroutines start; \<open>c\<close> is the connection, the last argument its first
  frame. The deferred \<open>Registry.remove\<close> runs on every return after \<open>add\<close> has succeeded.
\<close>

definition session_registered :: "string \<Rightarrow> nat \<Rightarrow> HelloData \<Rightarrow> ('e, handshake) act" where
  "session_registered ag c h =
     bindE time_now (\<lambda>now.
     bindE (attempt (UpdateAgentStatus ag ''online'' now)) (\<lambda>u.
       case u of
         Inl _ \<Rightarrow> bindE (unregister ag c) (\<lambda>_. ret OnlineUpdateFailed)
       | Inr _ \<Rightarrow>
           bindE (attempt (write_frame c (Welcome \<lparr>welcome_version = ProtoVersion, welcome_agent = ag\<rparr>))) (\<lambda>w.
             case w of
               Inl _ \<Rightarrow> bindE (markOffline ag) (\<lambda>_. bindE (unregister ag c) (\<lambda>_. ret WelcomeFailed))
             | Inr _ \<Rightarrow> ret (Established h))))"

definition session :: "string \<Rightarrow> nat \<Rightarrow> envelope option \<Rightarrow> ('e, handshake) act" where
  "session ag c first s =
     (case readHello first of
        None \<Rightarrow> (Inr HelloRequired, s)
      | Some h \<Rightarrow>
          if hello_version h \<noteq> ProtoVersion then (Inr (VersionMismatch (hello_version h)), s)
          else case add_conn ag c s of
                 (False, s1) \<Rightarrow> (Inr AlreadyOnline, s1)
               | (True, s1) \<Rightarrow> session_registered ag c h s1)"

text \<open>The end of an established session: offline in the database, then out of the registry.\<close>

definition session_end :: "string \<Rightarrow> nat \<Rightarrow> ('e, unit) act" where
  "session_end ag c = bindE (markOffline ag) (\<lambda>_. unregister ag c)"

section \<open>The frames of a session\<close>

text \<open>One round of \<open>readLoop\<close>; None is a frame that does not decode.\<close>

fun readLoop_frame :: "bool \<Rightarrow> string \<Rightarrow> envelope option \<Rightarrow> ('e, unit) act" where
  "readLoop_frame rs ag (Some (Ready _ _)) = logged (OnReady rs ag)"
| "readLoop_frame rs ag (Some (StatusUpdate d)) = logged (OnStatusUpdate ag d)"
| "readLoop_frame rs ag _ = ret ()"

section \<open>Synchronisation on HELLO\<close>

definition hello_statuses :: "string list" where
  "hello_statuses = [''assigned'', ''building'', ''running'', ''teardown'']"

definition lost_msg :: string where
  "lost_msg = ''agent restart lost container''"

text \<open>\<open>dbSet\<close>, built row by row: a later row of the same id replaces an earlier one.\<close>

definition dbSet :: "Preview list \<Rightarrow> string \<Rightarrow> Preview option" where
  "dbSet ps = map_of (rev (map (\<lambda>p. (pv_id p, p)) ps))"

definition hello_orphans :: "(string list \<Rightarrow> string list) \<Rightarrow> string list \<Rightarrow> Preview list \<Rightarrow> string list" where
  "hello_orphans ord run ps = filter (\<lambda>i. dbSet ps i = None) (ord (remdups run))"

definition hello_lost :: "(string list \<Rightarrow> string list) \<Rightarrow> string list \<Rightarrow> Preview list \<Rightarrow> Preview list" where
  "hello_lost ord run ps =
     map (\<lambda>i. the (dbSet ps i)) (filter (\<lambda>i. i \<notin> set run) (ord (remdups (map pv_id ps))))"

definition syncOnHello ::
    "(string list \<Rightarrow> string list) \<Rightarrow> bool \<Rightarrow> bool \<Rightarrow> string \<Rightarrow> HelloData \<Rightarrow> ('e, unit) act" where
  "syncOnHello ord has_store ts ag h =
     (if \<not> has_store \<or> \<not> hasRunningPreviewsKey h then ret ()
      else bindE (attempt (ListByAgent ag hello_statuses)) (\<lambda>r.
        case r of
          Inl _ \<Rightarrow> ret ()
        | Inr ps \<Rightarrow>
            bindE (if ts then for_each (\<lambda>i. logged (SendTeardown ag i))
                            (hello_orphans ord (the (hello_running h)) ps)
                   else ret ()) (\<lambda>_.
            bindE time_now (\<lambda>now.
              for_each (\<lambda>p. logged (UpdateStatus (pv_id p) (pv_status p) ''failed'' lost_msg now no_fields))
                (hello_lost ord (the (hello_running h)) ps)))))"

section \<open>Contracts\<close>

lemma registry_effects [simp]:
  "tabs (remove_conn ag c s) = tabs s" "clock (remove_conn ag c s) = clock s"
  "tabs (snd (add_conn ag c s)) = tabs s" "clock (snd (add_conn ag c s)) = clock s"
  by (simp_all add: remove_conn_def add_conn_def)

lemma same_registry [same_rules]:
  "obeys tabs_same (unregister ag c)" "obeys tabs_same (write_frame c e)"
  by (simp_all add: obeys_def tabs_same_def unregister_def write_frame_def)

lemmas keeps_registry [inv_rules] = same_registry [THEN obeys_keeps_of_same]
lemmas hist_registry [hist_rules] = same_registry [THEN history_same]
lemmas moves_registry [move_rules] = same_registry [THEN moves_same]

lemma keeps_markOffline [inv_rules]: "obeys (keeps db_ok) (markOffline ag)"
  unfolding markOffline_def by (intro keeps_time_now inv_rules)

lemma hist_markOffline [hist_rules]: "obeys history (markOffline ag)"
  unfolding markOffline_def by (intro hist_rules)

lemma moves_markOffline [move_rules]: "obeys (moves_of store_ok status_of T) (markOffline ag)"
  unfolding markOffline_def by (intro move_rules)

lemma obeys_session:
  assumes "contract R" and "\<And>s. R s (snd (add_conn ag c s))"
    and "\<And>h. obeys R (session_registered ag c h :: ('e, handshake) act)"
  shows "obeys R (session ag c first :: ('e, handshake) act)"
proof (rule obeysI)
  fix s s' and r :: "'e + handshake"
  assume run: "session ag c first s = (r, s')"
  have same: "R s s" using assms(1) by (rule contract.refl)
  show "R s s'"
  proof (cases "readHello first")
    case (Some h)
    obtain b s1 where add: "add_conn ag c s = (b, s1)" by fastforce
    then have one: "R s s1" using assms(2) [of s] by simp
    show ?thesis
    proof (cases "b \<and> hello_version h = ProtoVersion")
      case True
      with run add Some have "session_registered ag c h s1 = (r, s')" by (simp add: session_def)
      with assms(3) have "R s1 s'" by (rule obeysD)
      with one show ?thesis by (rule contract.trans [OF assms(1)])
    next
      case False
      with run add Some have "s' = s \<or> s' = s1"
        by (cases b) (auto simp: session_def split: if_splits)
      with one same show ?thesis by blast
    qed
  qed (use run same in \<open>simp add: session_def\<close>)
qed

lemma keeps_session [inv_rules]: "obeys (keeps db_ok) (session ag c first)"
proof (rule obeys_session [OF inv.contract_axioms])
  show "obeys (keeps db_ok) (session_registered ag c h)" for h
    unfolding session_registered_def by (intro keeps_time_now inv_rules)
qed (simp add: keeps_def clock_ok_def)

lemma hist_session [hist_rules]: "obeys history (session ag c first)"
proof (rule obeys_session [OF hist.contract_axioms])
  show "obeys history (session_registered ag c h)" for h
    unfolding session_registered_def by (intro hist_rules)
qed (simp add: history_def)

lemma moves_session: "obeys (moves_of store_ok status_of T) (session ag c first)"
proof (rule obeys_session [OF previews.moves.contract_axioms])
  show "obeys (moves_of store_ok status_of T) (session_registered ag c h)" for h
    unfolding session_registered_def by (intro move_rules)
  show "moves_of store_ok status_of T s (snd (add_conn ag c s))" for s
    by (rule moves_ofI) (simp_all add: store_ok_def clock_ok_def status_of_def)
qed

lemma keeps_session_end [inv_rules]: "obeys (keeps db_ok) (session_end ag c)"
  unfolding session_end_def by (intro inv_rules)

lemma hist_session_end [hist_rules]: "obeys history (session_end ag c)"
  unfolding session_end_def by (intro hist_rules)

lemma moves_session_end: "obeys (moves_of store_ok status_of T) (session_end ag c)"
  unfolding session_end_def by (intro move_rules)

lemma keeps_readLoop_frame [inv_rules]: "obeys (keeps db_ok) (readLoop_frame rs ag e)"
  by (cases "(rs, ag, e)" rule: readLoop_frame.cases) (simp_all, (intro inv_rules)+)

lemma hist_readLoop_frame [hist_rules]: "obeys history (readLoop_frame rs ag e)"
  by (cases "(rs, ag, e)" rule: readLoop_frame.cases) (simp_all, (intro hist_rules)+)

lemma keeps_syncOnHello [inv_rules]: "obeys (keeps db_ok) (syncOnHello ord has_store ts ag h)"
  unfolding syncOnHello_def by (intro keeps_time_now inv_rules)

lemma hist_syncOnHello [hist_rules]: "obeys history (syncOnHello ord has_store ts ag h)"
  unfolding syncOnHello_def by (intro hist_rules)

end
