(* ===== verification/WsLaws.thy ===== *)
theory WsLaws
  imports WsHandler
begin

text \<open>
  What a session guarantees: the registry holds at most one connection per agent and a refused
  second session changes nothing; which transitions the frames of an agent cause; and the
  outcome of the synchronisation on HELLO, exactly, in runs without failures.
\<close>

section \<open>Authentication\<close>

lemma ServeHTTP_accepts:
  assumes "ServeHTTP bcrypt hdr s = (Inr (Inr a), s')"
  shows "\<exists>v. hdr = ''Bearer '' @ v \<and> has_prefix (trim_space v) token_prefix \<and>
    bcrypt (ag_token_hash a) (trim_space v) \<and>
    (\<exists>r \<in> set (tb_agents (tabs s)). rowToAgent r = Inr a)"
proof -
  from assms obtain raw where raw: "parseBearer hdr = Some raw" and pre: "has_prefix raw token_prefix"
    by (auto simp: ServeHTTP_def split: if_splits option.splits)
  obtain r s1 where f: "findAgentByToken bcrypt raw s = (r, s1)" by fastforce
  then have "r = Inr a"
    using assms raw pre
    by (cases r) (auto simp: ServeHTTP_def bindE_def attempt_def split: if_splits)
  with f obtain as s2 where l: "ListAgents s = (Inr as, s2)"
    and m: "find (\<lambda>a. Verify bcrypt raw (ag_token_hash a)) as = Some a"
    by (auto simp: findAgentByToken_def prog_elims split: option.splits)
  from find_SomeD [OF m] have a: "a \<in> set as" "bcrypt (ag_token_hash a) raw"
    by (auto simp: Verify_def split: if_splits)
  from l have "map_err rowToAgent (order_desc arow_created (tb_agents (tabs s))) = Inr as"
    by (auto simp: ListAgents_def listAgents_def prog_elims)
  then have "\<exists>r \<in> set (tb_agents (tabs s)). rowToAgent r = Inr a"
    unfolding map_err_Inr_iff by (auto dest!: list_all2_in_right [OF _ a(1)])
  moreover from raw obtain v where "hdr = ''Bearer '' @ v" "raw = trim_space v"
    by (auto simp: parseBearer_def has_prefix_iff Let_def split: if_splits)
  ultimately show ?thesis using a(2) pre by auto
qed

section \<open>The registry\<close>

lemma frame_registry_ok: "db_only s s' \<Longrightarrow> registry_ok s \<Longrightarrow> registry_ok s'"
  by (simp add: db_only_def registry_ok_def)

lemma markOffline_frame: "obeys db_only (markOffline ag)"
  unfolding markOffline_def by (intro frame_rules frame_agents)

lemma markOffline_run:
  "markOffline ag s =
     (Inr (), snd (UpdateAgentStatus ag ''offline'' (clock s (seqno s)) (step_env s)))"
  by (simp add: markOffline_def bindE_def time_now_def logged_def)

lemma session_outcome:
  assumes run: "session ag c first s = (Inr res :: 'e + handshake, s')"
  shows "(case res of
      Established h \<Rightarrow> connFor s ag = None \<and> connFor s' = (connFor s)(ag \<mapsto> c) \<and>
        (\<exists>h0. first = Some (Hello h0) \<and> h = h0 \<and> hello_version h = ProtoVersion) \<and>
        outbox s' = outbox s @ [(c, Welcome \<lparr>welcome_version = ProtoVersion, welcome_agent = ag\<rparr>)]
    | _ \<Rightarrow> connFor s' = connFor s \<and> outbox s' = outbox s)"
proof (cases "readHello first")
  case None
  then show ?thesis using run by (auto simp: session_def)
next
  case (Some h)
  then have first: "first = Some (Hello h)" by (cases first rule: readHello.cases) auto
  show ?thesis
  proof (cases "hello_version h = ProtoVersion \<and> connFor s ag = None")
    case False
    then show ?thesis using run Some by (auto simp: session_def add_conn_def split: if_splits)
  next
    case True
    define s1 where "s1 = s\<lparr>conns := (ag, c) # conns s\<rparr>"
    have s1: "connFor s1 = (connFor s)(ag \<mapsto> c)" "outbox s1 = outbox s"
      by (auto simp: s1_def connFor_def)
    from run Some True have reg: "session_registered ag c h s1 = (Inr res :: 'e + handshake, s')"
      by (simp add: session_def add_conn_def s1_def)
    define now where "now = clock s1 (seqno s1)"
    obtain u s2 where up: "UpdateAgentStatus ag ''online'' now (step_env s1) = (u, s2)" by fastforce
    then have s2: "connFor s2 = connFor s1" "outbox s2 = outbox s1"
      using frameD [OF frame_agents(5) up] by (auto simp: connFor_def)
    have out: "connFor (remove_conn ag c t) = connFor s" if "connFor t = connFor s1" for t
      using that s1(1) True by (auto simp: fun_eq_iff connFor_remove)
    show ?thesis
    proof (cases u)
      case (Inl e)
      with reg up s1 s2 out show ?thesis
        by (auto simp: session_registered_def bindE_def attempt_def time_now_def now_def unregister_def remove_conn_def)
    next
      case (Inr x)
      let ?w = "Welcome \<lparr>welcome_version = ProtoVersion, welcome_agent = ag\<rparr>"
      obtain w s3 where wr: "write_frame c ?w s2 = (w, s3)" by fastforce
      then have s3: "connFor s3 = connFor s1" "w = Inr () \<longrightarrow> outbox s3 = outbox s2 @ [(c, ?w)]"
        "w \<noteq> Inr () \<longrightarrow> outbox s3 = outbox s2"
        using s2 by (auto simp: write_frame_def connFor_def fun_eq_iff split: if_splits)
      show ?thesis
      proof (cases w)
        case (Inr y)
        with reg up \<open>u = Inr x\<close> wr s1 s2 s3 True first show ?thesis
          by (auto simp: session_registered_def bindE_def attempt_def time_now_def now_def)
      next
        case (Inl e)
        define s4 where "s4 = snd (UpdateAgentStatus ag ''offline'' (clock s3 (seqno s3)) (step_env s3))"
        have s4: "connFor s4 = connFor s1" "outbox s4 = outbox s3"
          using obeys_apply [OF frame_agents(5), of "step_env s3" ag "''offline''" "clock s3 (seqno s3)"] s3
          by (auto simp: s4_def db_only_def connFor_def fun_eq_iff)
        with reg up \<open>u = Inr x\<close> wr Inl have "res = WelcomeFailed \<and> s' = remove_conn ag c s4"
          by (auto simp: session_registered_def bindE_def attempt_def time_now_def now_def unregister_def
              markOffline_run s4_def)
        with s1 s2 s3 s4 Inl out show ?thesis by (auto simp: remove_conn_def)
      qed
    qed
  qed
qed

section \<open>What the frames of an agent may do\<close>

text \<open>A READY assigns a queued preview; a STATUS_UPDATE sets the status it reports.\<close>

fun frame_moves :: "envelope option \<Rightarrow> transitions" where
  "frame_moves (Some (Ready _ _)) = dispatching"
| "frame_moves (Some (StatusUpdate d)) = reporting d"
| "frame_moves _ = (\<lambda>_ _ _. False)"

lemma moves_readLoop_frame:
  "obeys (moves_of store_ok status_of (frame_moves e)) (readLoop_frame rs ag e)"
  using obeys_logged [OF moves_OnReady] obeys_logged [OF moves_OnStatusUpdate] previews.moves.ret
  by (cases "(rs, ag, e)" rule: readLoop_frame.cases) simp_all

section \<open>Synchronisation on HELLO\<close>

lemma ListByAgent_rows:
  assumes "ListByAgent ag sts s = (Inr ps, s')" and "p \<in> set ps"
  shows "\<exists>r \<in> set (tb_previews (tabs s)). row_id r = pv_id p \<and> row_status r = pv_status p \<and>
    row_agent r = Some ag \<and> pv_status p \<in> set sts"
proof (cases "sts = []")
  case False
  with assms(1) have "map_err previewRowToDomain (order_asc row_updated
      (filter (\<lambda>r. row_agent r = Some ag \<and> row_status r \<in> set sts) (tb_previews (tabs s)))) = Inr ps"
    by (auto simp: ListByAgent_def get_many_def prog_elims listByAgent_def)
  then have "list_all2 (\<lambda>r p. previewRowToDomain r = Inr p) (order_asc row_updated
      (filter (\<lambda>r. row_agent r = Some ag \<and> row_status r \<in> set sts) (tb_previews (tabs s)))) ps"
    by (simp add: map_err_Inr_iff)
  from list_all2_in_right [OF this assms(2)] obtain r where
    "r \<in> set (tb_previews (tabs s))" "row_agent r = Some ag" "row_status r \<in> set sts"
    "previewRowToDomain r = Inr p" by auto
  with previewRowToDomain_fields [OF this(4)] show ?thesis by auto
qed (use assms in \<open>simp add: ListByAgent_def\<close>)

lemma dbSet_Some: "dbSet ps i = Some p \<Longrightarrow> p \<in> set ps \<and> pv_id p = i"
  by (auto simp: dbSet_def dest: map_of_SomeD)

lemma dbSet_None: "dbSet ps i = None \<longleftrightarrow> i \<notin> pv_id ` set ps"
  by (auto simp: dbSet_def map_of_eq_None_iff image_iff)

text \<open>The runtime may range over the keys of a map in any order.\<close>

definition range_order :: "(string list \<Rightarrow> string list) \<Rightarrow> bool" where
  "range_order ord \<longleftrightarrow> (\<forall>xs. set (ord xs) = set xs \<and> (distinct xs \<longrightarrow> distinct (ord xs)))"

lemma hello_lost_in:
  assumes "range_order ord" and "p \<in> set (hello_lost ord run ps)"
  shows "p \<in> set ps \<and> pv_id p \<notin> set run"
proof -
  from assms obtain i where i: "p = the (dbSet ps i)" "i \<notin> set run" "i \<in> pv_id ` set ps"
    by (auto simp: hello_lost_def range_order_def)
  then obtain q where "dbSet ps i = Some q" by (metis dbSet_None option.exhaust)
  with i dbSet_Some [OF this] show ?thesis by auto
qed

lemma hello_lost_ids:
  assumes "range_order ord"
  shows "pv_id ` set (hello_lost ord run ps) = pv_id ` set ps - set run"
    and "distinct (map pv_id (hello_lost ord run ps))"
proof -
  have id: "pv_id (the (dbSet ps i)) = i" if "i \<in> pv_id ` set ps" for i
    using that dbSet_None dbSet_Some by (metis option.exhaust option.sel)
  let ?ids = "filter (\<lambda>i. i \<notin> set run) (ord (remdups (map pv_id ps)))"
  have set_ids: "set ?ids = pv_id ` set ps - set run" and dist: "distinct ?ids"
    using assms by (auto simp: range_order_def)
  have "map pv_id (hello_lost ord run ps) = map (\<lambda>i. pv_id (the (dbSet ps i))) ?ids"
    by (simp add: hello_lost_def comp_def)
  also have "\<dots> = ?ids" using set_ids id by (intro map_idI) auto
  finally have eq: "map pv_id (hello_lost ord run ps) = ?ids" .
  show "distinct (map pv_id (hello_lost ord run ps))" unfolding eq by (rule dist)
  show "pv_id ` set (hello_lost ord run ps) = pv_id ` set ps - set run"
    using arg_cong [OF eq, of set] set_ids by simp
qed

text \<open>Only previews that the database gives the agent as active move, and only to failed.\<close>

definition losing :: transitions where
  "losing i a b \<longleftrightarrow> a \<in> Some ` set hello_statuses \<and> b = Some ''failed''"

lemma moves_syncOnHello:
  assumes "range_order ord"
  shows "obeys (moves_of store_ok status_of losing) (syncOnHello ord has_store ts ag h :: ('e, unit) act)"
proof (rule obeysI)
  fix s s' and r :: "'e + unit"
  assume run: "syncOnHello ord has_store ts ag h s = (r, s')"
  show "moves_of store_ok status_of losing s s'"
  proof (cases "has_store \<and> hasRunningPreviewsKey h")
    case True
    obtain x s1 where l: "ListByAgent ag hello_statuses s = (x, s1)" by fastforce
    have "obeys (moves_of store_ok status_of losing) (ListByAgent ag hello_statuses)" by (intro move_rules)
    from obeysD [OF this l] have one: "moves_of store_ok status_of losing s s1" .
    show ?thesis
    proof (cases x)
      case (Inl e)
      with run True l one show ?thesis by (simp add: syncOnHello_def bindE_def attempt_def)
    next
      case (Inr ps)
      let ?rest = "bindE (if ts then for_each (\<lambda>i. logged (SendTeardown ag i))
            (hello_orphans ord (the (hello_running h)) ps) else ret ()) (\<lambda>_.
          bindE time_now (\<lambda>now. for_each
            (\<lambda>p. logged (UpdateStatus (pv_id p) (pv_status p) ''failed'' lost_msg now no_fields))
              (hello_lost ord (the (hello_running h)) ps))) :: ('e, unit) act"
      from run True l Inr have rest: "?rest s1 = (r, s')" by (simp add: syncOnHello_def bindE_def attempt_def)
      have "obeys (moves_of store_ok status_of losing) ?rest"
      proof -
        have fail: "losing (pv_id p) (Some st) (Some ''failed'')"
          if "p \<in> set (hello_lost ord (the (hello_running h)) ps)" "pv_status p = [] \<or> st = pv_status p" for p st
        proof -
          from hello_lost_in [OF assms that(1)] ListByAgent_rows [of ag hello_statuses s ps s1 p] l Inr
          have "pv_status p \<in> set hello_statuses" by auto
          with that(2) show ?thesis by (auto simp: losing_def hello_statuses_def)
        qed
        have last: "obeys (moves_of store_ok status_of losing) (for_each
            (\<lambda>p. logged (UpdateStatus (pv_id p) (pv_status p) ''failed'' lost_msg now no_fields))
              (hello_lost ord (the (hello_running h)) ps) :: ('e, unit) act)" for now
          by (rule previews.update_each_moves) (rule fail)
        show ?thesis by (intro last move_rules)
      qed
      from obeysD [OF this rest] have "moves_of store_ok status_of losing s1 s'" .
      with one show ?thesis by (rule previews.moves.trans)
    qed
  qed (use run in \<open>auto simp: syncOnHello_def\<close>)
qed

text \<open>The previews the database gives an agent as active.\<close>

definition active_at :: "string \<Rightarrow> tables \<Rightarrow> string set" where
  "active_at ag t = row_id ` {q \<in> set (tb_previews t). row_agent q = Some ag \<and> row_status q \<in> set hello_statuses}"

lemma ListByAgent_calm:
  assumes calm: "calm s" and dec: "decodable (tabs s)"
  shows "\<exists>ps. ListByAgent ag hello_statuses s = (Inr ps, step_env s) \<and> pv_id ` set ps = active_at ag (tabs s)"
proof -
  let ?rows = "order_asc row_updated (filter (\<lambda>r. row_agent r = Some ag \<and> row_status r \<in> set hello_statuses)
      (tb_previews (tabs s)))"
  have "decodable_preview r" if "r \<in> set ?rows" for r
    using that dec by (auto simp: decodable_def)
  from map_err_decodable [OF this] obtain ps where ps: "map_err previewRowToDomain ?rows = Inr ps"
    "map pv_id ps = map row_id ?rows" by blast
  have "ListByAgent ag hello_statuses s = (Inr ps, step_env s)"
    using calm ps(1)
    by (simp add: ListByAgent_def hello_statuses_def get_many_def listByAgent_def bindE_def)
  moreover have "pv_id ` set ps = active_at ag (tabs s)"
    using arg_cong [OF ps(2), of set] by (auto simp: active_at_def)
  ultimately show ?thesis by blast
qed

lemma teardown_each_calm:
  assumes "calm s" and "store_ok s"
    and "for_each (\<lambda>i. logged (SendTeardown ag i)) ids s = (r, s')"
  shows "r = Inr () \<and> calm s' \<and> store_ok s' \<and> tabs s' = tabs s \<and>
    (connFor s ag = Some c \<and> c \<notin> set (broken s) \<longrightarrow>
       outbox s' = outbox s @ map (\<lambda>i. (c, JobTeardown i)) ids)"
  using assms
proof (induction ids arbitrary: s)
  case (Cons i ids)
  obtain x s1 where one: "SendTeardown ag i s = (x, s1)" by fastforce
  with Cons.prems(3) have rest: "for_each (\<lambda>i. logged (SendTeardown ag i)) ids s1 = (r, s')" by simp
  have nf: "\<not> faults s (seqno s)" using calm_no_fault [OF Cons.prems(1)] by simp
  have s1: "tabs s1 = tabs s" "connFor s1 = connFor s" "broken s1 = broken s" "clock s1 = clock s"
    "faults s1 = faults s" "uuids s1 = uuids s" "seqno s \<le> seqno s1"
    "connFor s ag = Some c \<and> c \<notin> set (broken s) \<longrightarrow> outbox s1 = outbox s @ [(c, JobTeardown i)]"
    using one nf
    by (auto simp: SendTeardown_def send_to_def write_frame_def connFor_def fun_eq_iff
        split: option.splits if_splits)
  have "calm s1" "store_ok s1"
    using Cons.prems(1,2) s1 by (auto simp: calm_def store_ok_def clock_ok_def)
  from Cons.IH [OF this rest] s1 show ?case by simp
qed simp

lemma fail_lost_calm:
  assumes "calm s" and "store_ok s" and "status_of s (pv_id p) = Some (pv_status p)"
    and "logged (UpdateStatus (pv_id p) (pv_status p) ''failed'' msg now no_fields) s = (r, s')"
  shows "r = Inr () \<and> calm s' \<and> store_ok s' \<and> status_of s' = (status_of s)(pv_id p \<mapsto> ''failed'')"
proof -
  obtain x s1 where up: "UpdateStatus (pv_id p) (pv_status p) ''failed'' msg now no_fields s = (x, s1)" by fastforce
  then have "r = Inr ()" "s' = s1" using assms(4) by (simp_all add: logged_def)
  with plain_update_moves [OF assms(1-3) _ up] show ?thesis by simp
qed

lemma fail_each:
  assumes "calm s" and "store_ok s" and "distinct (map pv_id ps)"
    and "\<And>p. p \<in> set ps \<Longrightarrow> status_of s (pv_id p) = Some (pv_status p)"
    and "for_each (\<lambda>p. logged (UpdateStatus (pv_id p) (pv_status p) ''failed'' msg now no_fields)) ps s = (r, s')"
  shows "r = Inr () \<and> calm s' \<and> store_ok s' \<and>
    status_of s' = (\<lambda>i. if i \<in> pv_id ` set ps then Some ''failed'' else status_of s i)"
  using fail_lost_calm assms by (rule each_update_calm [where frm = pv_status])

lemma syncOnHello_exact:
  assumes ord: "range_order ord" and calm: "calm s" and db: "db_ok (tabs s)" and clk: "clock_ok s"
    and hello: "hello_running h = Some running"
    and run: "syncOnHello ord True True ag h s = (r :: 'e + unit, s')"
  shows "r = Inr ()"
    and "status_of s' = (\<lambda>i. if i \<in> active_at ag (tabs s) - set running then Some ''failed'' else status_of s i)"
    and "connFor s ag = Some c \<Longrightarrow> c \<notin> set (broken s) \<Longrightarrow>
      \<exists>orphans. outbox s' = outbox s @ map (\<lambda>i. (c, JobTeardown i)) orphans \<and>
        set orphans = set running - active_at ag (tabs s) \<and> distinct orphans"
proof -
  have wf: "wf_tables (tabs s)" and dec: "decodable (tabs s)" using db by (auto simp: db_ok_def)
  from ListByAgent_calm [OF calm dec] obtain ps where
    l: "ListByAgent ag hello_statuses s = (Inr ps, step_env s)" and ids: "pv_id ` set ps = active_at ag (tabs s)"
    by blast
  let ?orphans = "hello_orphans ord running ps" and ?lost = "hello_lost ord running ps"
  define s1 where "s1 = step_env s"
  have s1: "calm s1" "store_ok s1" "tabs s1 = tabs s" "outbox s1 = outbox s" "broken s1 = broken s" "connFor s1 = connFor s"
    using calm_env [OF calm] wf clk by (auto simp: s1_def store_ok_def clock_ok_def connFor_def)
  obtain x s2 where td: "(for_each (\<lambda>i. logged (SendTeardown ag i)) ?orphans :: ('e, unit) act) s1 = (x, s2)"
    by fastforce
  note s2 = teardown_each_calm [OF s1(1,2) td]
  define now where "now = clock s2 (seqno s2)"
  let ?fail = "\<lambda>p. logged (UpdateStatus (pv_id p) (pv_status p) ''failed'' lost_msg now no_fields) :: ('e, unit) act"
  from run l hello td s2 [of undefined] have loop: "for_each ?fail ?lost (step_env s2) = (r, s')"
    by (simp add: syncOnHello_def hasRunningPreviewsKey_def bindE_def attempt_def time_now_def s1_def now_def)
  have same: "status_of (step_env s2) = status_of s" using s2 [of undefined] s1 by (intro status_of_same) simp
  have st: "status_of (step_env s2) (pv_id p) = Some (pv_status p)" if "p \<in> set ?lost" for p
  proof -
    from hello_lost_in [OF ord that] ListByAgent_rows [OF l] obtain q where
      "q \<in> set (tb_previews (tabs s))" "row_id q = pv_id p" "row_status q = pv_status p" by blast
    with status_of_row [OF wf this(1)] same show ?thesis by simp
  qed
  have "calm (step_env s2)" "store_ok (step_env s2)"
    using s2 [of undefined] s1 calm_env [of s2] by (auto simp: store_ok_def clock_ok_def)
  from fail_each [OF this hello_lost_ids(2) [OF ord] st loop]
  have "r = Inr () \<and> status_of s' = (\<lambda>i. if i \<in> pv_id ` set ?lost then Some ''failed'' else status_of (step_env s2) i)"
    by blast
  then show "r = Inr ()" "status_of s' = (\<lambda>i. if i \<in> active_at ag (tabs s) - set running then Some ''failed'' else status_of s i)"
    using same ids hello_lost_ids(1) [OF ord, of running ps] by (simp_all cong: if_cong)
  assume "connFor s ag = Some c" "c \<notin> set (broken s)"
  then have "outbox s2 = outbox s @ map (\<lambda>i. (c, JobTeardown i)) ?orphans" using s2 [of c] s1 by simp
  moreover have "obeys db_only (for_each ?fail ?lost)" by (intro frame_rules frame_UpdateStatus)
  from obeysD [OF this loop] have "outbox s' = outbox s2" by (simp add: db_only_def)
  moreover have "set ?orphans = set running - active_at ag (tabs s)" "distinct ?orphans"
    using ord by (auto simp: hello_orphans_def range_order_def dbSet_None ids)
  ultimately show "\<exists>orphans. outbox s' = outbox s @ map (\<lambda>i. (c, JobTeardown i)) orphans \<and>
        set orphans = set running - active_at ag (tabs s) \<and> distinct orphans" by auto
qed

end
