(* ===== verification/WebhookCases.thy ===== *)
theory WebhookCases
  imports WebhookLaws WsLaws
begin

text \<open>
  The remaining cases of the webhook's decision matrix, in runs without failures: a known
  commit, whose preview is queued again when it had finished, and the closing of a PR; and what
  follows a READY.
\<close>

section \<open>A known commit\<close>

lemma sha_rows_event: "sha_rows (preview_of_event p n i now) t = sha_rows (preview_of_event p n [] 0) t"
  by (simp add: sha_rows_def same_sha_key_def [abs_def] preview_of_event_def)

lemma refreshed_status: "tabs s' = refreshed p c (tabs s) \<Longrightarrow> status_of s' = status_of s"
  unfolding status_of_def fun_eq_iff refreshed_def
  by (auto simp: find_update_where_key option.map_comp comp_def intro!: option.map_cong0)

lemma calm_refreshed:
  assumes "calm s" and "db_only s s'" and "tabs s' = refreshed p c (tabs s)"
  shows "calm s'"
proof -
  have "used_ids (tabs s') = used_ids (tabs s)"
    unfolding used_ids_def assms(3) refreshed_def by (simp add: image_id_update_where)
  with assms(1,2) show ?thesis by (auto simp: calm_def db_only_def)
qed

lemma refreshed_rows:
  assumes "tabs s' = refreshed (preview_of_event p n i now) c (tabs s)"
    and "sha_rows (preview_of_event p n i now) (tabs s) = q # rest"
  shows "overwrite_row (insert_row (preview_of_event p n i now) c) q \<in> set (tb_previews (tabs s'))"
proof -
  have "q \<in> set (filter (same_sha_key (insert_row (preview_of_event p n i now) c)) (tb_previews (tabs s)))"
    using assms(2) same_sha_key_insert [of "preview_of_event p n i now" c now]
    by (simp add: sha_rows_def preview_of_event_def)
  then show ?thesis by (auto simp: assms(1) refreshed_def set_update_where)
qed

text \<open>The columns an event refreshes.\<close>

definition refreshes :: "pullRequestEvent \<Rightarrow> int \<Rightarrow> preview_row \<Rightarrow> bool" where
  "refreshes p prNum x \<longleftrightarrow> row_pr x = prNum \<and> row_branch x = pr_ref p \<and>
     row_labels x = encodeLabels (pr_labels p) \<and> row_clone_url x = pr_clone_url p"

lemma refreshes_overwritten: "refreshes p n (overwrite_row (insert_row (preview_of_event p n i now) c) q)"
  by (simp add: refreshes_def overwrite_row_def insert_row_def preview_of_event_def labelsFromPR_def)

lemma known_commit:
  assumes calm: "calm s" and db: "db_ok (tabs s)" and clk: "clock_ok s"
    and old: "old = superseded p prNum (tabs s)"
    and known: "sha_rows (preview_of_event p prNum [] 0) (tabs s) = q # rest"
    and run: "handleUpsert ts p prNum s = (r :: 'e + reply, s')"
  shows "(if reopenable (row_status q)
    then r = Inr (writeStatus (row_id q) ''queued'') \<and> status_of s' = (torn_down old s)(row_id q \<mapsto> ''queued'')
    else r = Inr (writeStatus (row_id q) (row_status q)) \<and> status_of s' = torn_down old s) \<and>
    (\<exists>x \<in> set (tb_previews (tabs s')). row_id x = row_id q \<and> refreshes p prNum x) \<and>
    outbox s' = outbox s @ teardown_frames ts old s"
proof -
  let ?i = "uuids s (Suc (seqno s))" and ?now = "clock s (seqno s)"
  let ?pv = "preview_of_event p prNum ?i ?now"
  from handleUpsert_halves [OF calm db clk old run] obtain s2 where half: "halfway ts p prNum old s s2"
    and tail: "bindE (attempt (Upsert ?pv)) (\<lambda>r.
      case r of Inl _ \<Rightarrow> ret (writeError 500 ''internal'' ''upsert failed'')
      | Inr res \<Rightarrow> after_upsert p ?i ?now (old_id old) res) s2 = (r, s')" by blast
  have rows: "sha_rows ?pv (tabs s2) = q # rest"
    using known half sha_rows_event [of p prNum ?i ?now] by (simp add: halfway_def)
  have t: "calm s2" "store_ok s2" "status_of s2 = torn_down old s" "outbox s2 = outbox s @ teardown_frames ts old s"
    using half by (simp_all add: halfway_def)
  have q: "q \<in> set (tb_previews (tabs s))" and key: "row_sha q = Some (pr_sha p)"
    using known unfolding sha_rows_def
    by (metis filter_eq_ConsD in_set_conv_decomp)
      (use known in \<open>auto simp: sha_rows_def same_sha_key_def preview_of_event_def nullStringFromCommitSha_def
         dest!: filter_eq_ConsD split: if_splits\<close>)
  from q row_decodes db obtain ex where ex: "previewRowToDomain q = Inr ex" "pv_id ex = row_id q" "pv_status ex = row_status q"
    unfolding db_ok_def by blast
  have "status_of s (row_id q) = Some (row_status q)"
    using db status_of_row q by (auto simp: db_ok_def)
  moreover have "row_id z \<noteq> row_id q" if "old = Some z" for z
  proof
    assume same: "row_id z = row_id q"
    have z: "z \<in> set (tb_previews (tabs s))" "commitShaFromNullString (row_sha z) \<noteq> pr_sha p"
      using that active_of_Some(1) by (auto simp: old superseded_def split: if_splits option.splits)
    have "z = q" using db same_id_same_row [OF _ z(1) q same] by (simp add: db_ok_def)
    with z(2) key show False by (simp add: commitShaFromNullString_def)
  qed
  ultimately have st: "torn_down old s (row_id q) = Some (row_status q)"
    by (auto simp: torn_down_def split: option.split)
  from Upsert_known [OF t(1) rows ex(1)] obtain s3 where up: "Upsert ?pv s2 = (Inr (False, Some ex), s3)"
    and t3: "tabs s3 = refreshed ?pv (pv_created ex) (tabs s2)" by blast
  have frame3: "db_only s2 s3" using obeysD [OF frame_Upsert up] .
  have st3: "status_of s3 = torn_down old s" using refreshed_status [OF t3] t(3) by simp
  have s3: "calm s3" "store_ok s3"
    using calm_refreshed [OF t(1) frame3 t3] previews.ok_upsert [OF t(2) up] by auto
  define x where "x = overwrite_row (insert_row ?pv (pv_created ex)) q"
  have x: "x \<in> set (tb_previews (tabs s3))" "row_id x = row_id q" "refreshes p prNum x"
    using refreshed_rows [OF t3 rows] refreshes_overwritten by (simp_all add: x_def overwrite_row_def)
  from tail up have rest: "after_upsert p ?i ?now (old_id old) (False, Some ex) s3 = (r, s')"
    by (simp add: bindE_def attempt_def)
  have out3: "outbox s3 = outbox s @ teardown_frames ts old s" using frame3 t(4) by (simp add: db_only_def)
  show ?thesis
  proof (cases "reopenable (row_status q)")
    case False
    with rest ex st3 x out3 show ?thesis by (auto simp: after_upsert_def)
  next
    case True
    obtain y s4 where u: "UpdateStatus (row_id q) (row_status q) ''queued'' (''reopened_by_'' @ pr_action p) ?now
        no_fields s3 = (y, s4)" by fastforce
    from plain_update_moves(1,2) [OF s3 _ _ u] st st3
    have y: "y = Inr ()" and st4: "status_of s4 = (torn_down old s)(row_id q \<mapsto> ''queued'')" by simp_all
    from u [unfolded y] obtain r0 v where t4: "tabs s4 = status_written (row_id q) ''queued''
        (''reopened_by_'' @ pr_action p) ?now no_fields r0 v (tabs s3)" by (rule UpdateStatus_Inr)
    define x' where "x' = write_fields (status_params ''queued'' (''reopened_by_'' @ pr_action p) ?now no_fields) x"
    have "x' \<in> set (tb_previews (tabs s4))" using x by (auto simp: x'_def t4 status_written_def set_update_where)
    moreover have "row_id x' = row_id q" "refreshes p prNum x'"
      using x by (simp_all add: x'_def write_fields_def refreshes_def)
    ultimately have "\<exists>x \<in> set (tb_previews (tabs s4)). row_id x = row_id q \<and> refreshes p prNum x" by blast
    moreover have "db_only s3 s4" using obeysD [OF frame_UpdateStatus u] .
    ultimately show ?thesis using True rest ex u y st4 out3
      by (auto simp: after_upsert_def bindE_def attempt_def db_only_def)
  qed
qed

section \<open>Closing\<close>

text \<open>The row \<open>findPreviewByRepoPR\<close> finds: the newest of the PR, whatever its status.\<close>

definition newest_of_pr :: "tables \<Rightarrow> string \<Rightarrow> int \<Rightarrow> preview_row option" where
  "newest_of_pr t repo pr =
     find (\<lambda>r. row_repo r = repo \<and> row_pr r = pr) (order_desc row_created (tb_previews t))"

lemma find_map_err:
  assumes "map_err f xs = Inr ys" and "\<And>x y. f x = Inr y \<Longrightarrow> P y = Q x"
  shows "case find Q xs of None \<Rightarrow> find P ys = None | Some x \<Rightarrow> \<exists>y. find P ys = Some y \<and> f x = Inr y"
  using assms(1)
proof (induction xs arbitrary: ys)
  case (Cons x xs)
  from Cons.prems obtain z zs where z: "f x = Inr z" "map_err f xs = Inr zs" "ys = z # zs"
    by (auto split: sum.splits)
  with Cons.IH [OF z(2)] assms(2) [OF z(1)] show ?case
    unfolding z(3) by (auto split: option.splits)
qed simp

lemma findPreviewByRepoPR_calm:
  assumes "calm s" and "decodable (tabs s)"
  shows "\<exists>r. findPreviewByRepoPR repo pr s = (Inr r, step_env s) \<and>
    (case newest_of_pr (tabs s) repo pr of None \<Rightarrow> r = None
     | Some q \<Rightarrow> \<exists>ex. r = Some ex \<and> previewRowToDomain q = Inr ex)"
proof -
  let ?rows = "order_desc row_created (tb_previews (tabs s))"
  have "decodable_preview r" if "r \<in> set ?rows" for r using that assms(2) by (simp add: decodable_def)
  from map_err_decodable [OF this] obtain ps where ps: "map_err previewRowToDomain ?rows = Inr ps" by blast
  have "pv_repo y = row_repo x \<and> pv_pr y = row_pr x" if "previewRowToDomain x = Inr y" for x y
    using previewRowToDomain_fields [OF that] by simp
  then have "case newest_of_pr (tabs s) repo pr of None \<Rightarrow> find (\<lambda>p. pv_repo p = repo \<and> pv_pr p = pr) ps = None
      | Some x \<Rightarrow> \<exists>y. find (\<lambda>p. pv_repo p = repo \<and> pv_pr p = pr) ps = Some y \<and> previewRowToDomain x = Inr y"
    unfolding newest_of_pr_def by (intro find_map_err [OF ps]) simp
  moreover have "findPreviewByRepoPR repo pr s = (Inr (find (\<lambda>p. pv_repo p = repo \<and> pv_pr p = pr) ps), step_env s)"
    using ps assms(1)
    by (simp add: findPreviewByRepoPR_def ListAll_def listAllPreviews_def get_many_calm bindE_def)
  ultimately show ?thesis by (auto split: option.splits)
qed

lemma handleClose_outcome:
  assumes calm: "calm s" and db: "db_ok (tabs s)" and clk: "clock_ok s"
    and run: "handleClose ts p prNum s = (r :: 'e + reply, s')"
  shows "case newest_of_pr (tabs s) (pr_repo p) prNum of
      None \<Rightarrow> r = Inr (writeIgnored ''reason'' ''no_existing_preview'') \<and> tabs s' = tabs s \<and> outbox s' = outbox s
    | Some q \<Rightarrow> r = Inr (writeStatus (row_id q) ''teardown'') \<and>
        status_of s' = (status_of s)(row_id q \<mapsto> ''teardown'') \<and>
        (ts \<and> (\<exists>ag. row_agent q = Some ag \<and> connFor s ag = Some c \<and> c \<notin> set (broken s)) \<longrightarrow>
           outbox s' = outbox s @ [(c, JobTeardown (row_id q))])"
proof -
  have wf: "wf_tables (tabs s)" and dec: "decodable (tabs s)" using db by (auto simp: db_ok_def)
  from findPreviewByRepoPR_calm [OF calm dec, of "pr_repo p" prNum] obtain f where
    f: "findPreviewByRepoPR (pr_repo p) prNum s = (Inr f, step_env s)"
    and res: "case newest_of_pr (tabs s) (pr_repo p) prNum of None \<Rightarrow> f = None
     | Some q \<Rightarrow> \<exists>ex. f = Some ex \<and> previewRowToDomain q = Inr ex" by blast
  show ?thesis
  proof (cases "newest_of_pr (tabs s) (pr_repo p) prNum")
    case None
    with run f res show ?thesis by (auto simp: handleClose_def bindE_def attempt_def)
  next
    case (Some q)
    with res obtain ex where ex: "f = Some ex" "previewRowToDomain q = Inr ex" by auto
    have q: "q \<in> set (tb_previews (tabs s))"
      using Some unfolding newest_of_pr_def by (auto dest: find_SomeD)
    note e = previewRowToDomain_fields [OF ex(2)]
    let ?s2 = "step_env (step_env s)" and ?now = "clock s (Suc (seqno s))"
    obtain x s3 where up: "UpdateStatus (row_id q) [] ''teardown'' ''closed_via_webhook'' ?now close_fields ?s2 = (x, s3)"
      by fastforce
    have calm2: "calm ?s2" using calm_env [OF calm_env [OF calm]] .
    have find: "find (\<lambda>r. row_id r = row_id q) (tb_previews (tabs s)) = Some q"
      using q wf find_key_distinct [of row_id "tb_previews (tabs s)" q] by (simp add: wf_tables_def)
    have plain: "u_agent (status_params ''teardown'' m n close_fields) = None"
      "u_sha (status_params ''teardown'' m n close_fields) = None" "\<not> sha_conflict close_fields q" for m n
      by (simp_all add: status_params_def close_fields_def no_fields_def sha_conflict_def)
    have "fst (UpdateStatus (row_id q) [] ''teardown'' ''closed_via_webhook'' ?now close_fields ?s2) = Inr ()"
      using find sha_free_unchanged [OF wf q plain(2)] plain
      by (subst UpdateStatus_outcome [OF calm2]) (auto simp: update_result_def wf)
    with up have x: "x = Inr ()" by simp
    have st: "status_of s3 = (status_of s)(row_id q \<mapsto> ''teardown'')"
      using UpdateStatus_status [OF up [unfolded x]] wf status_of_same [of ?s2 s] by simp
    have frame: "db_only ?s2 s3" using obeysD [OF frame_UpdateStatus up] .
    have calm3: "calm s3" using calm2 up by (rule calm_UpdateStatus)
    from run f ex up x e have r: "r = Inr (writeStatus (row_id q) ''teardown'') \<and> s' = teardown_state ts ex s3"
      by (auto simp: handleClose_def bindE_def attempt_def time_now_def send_teardown_run)
    have "outbox s' = outbox s @ [(c, JobTeardown (row_id q))]"
      if "ts" "row_agent q = Some ag" "connFor s ag = Some c" "c \<notin> set (broken s)" for ag
      using that r e frame calm_no_fault [OF calm3, of "seqno s3"]
      by (simp add: teardown_state_def SendTeardown_def send_to_def write_frame_def connFor_def db_only_def)
    moreover have "status_of s' = status_of s3"
      using r teardown_state_env(1) [of ts ex s3] by (intro status_of_same) simp
    ultimately show ?thesis using Some r st by auto
  qed
qed

section \<open>A READY is answered\<close>

text \<open>
  With the dispatcher running, a connected agent and something it may build, a READY assigns a
  preview and writes exactly one job to the agent's connection.
\<close>

lemma AgentByID_calm:
  assumes "calm s" and "wf_tables (tabs s)" and "decodable (tabs s)" and "a \<in> set (tb_agents (tabs s))"
  shows "\<exists>agent. AgentByID (arow_id a) s = (Inr agent, step_env s) \<and> rowToAgent a = Inr agent"
proof -
  have "filter (\<lambda>x. arow_id x = arow_id a) (tb_agents (tabs s)) = [a]"
    using assms(2,4) by (intro filter_key_distinct) (simp_all add: wf_tables_def)
  moreover have "\<exists>agent. rowToAgent a = Inr agent"
    using assms(3,4) by (auto simp: decodable_def decodable_agent_def rowToAgent_def Let_def split: option.split)
  ultimately show ?thesis
    using assms(1) calm_no_fault [OF assms(1), of "seqno s"]
    by (auto simp: AgentByID_def get_agent_def getAgentByID_def query_one_def exec_def translate_no_rows_def
        catchE_def bindE_def step_env_def)
qed

lemma ListQueued_calm:
  assumes "calm s" and "decodable (tabs s)"
  shows "\<exists>ps. ListQueuedForCandidates s = (Inr ps, step_env s) \<and>
    list_all2 (\<lambda>q p. previewRowToDomain q = Inr p) (queue_head (tabs s)) ps"
proof -
  have "decodable_preview r" if "r \<in> set (queue_head (tabs s))" for r
    using queue_head_rows [OF that] assms(2) by (simp add: decodable_def)
  from map_err_decodable [OF this] obtain ps where "map_err previewRowToDomain (queue_head (tabs s)) = Inr ps" by blast
  then show ?thesis
    using assms(1)
    by (intro exI [of _ ps])
      (simp add: ListQueuedForCandidates_def listQueuedPreviewsForLabels_def get_many_calm
        queue_head_def map_err_Inr_iff)
qed

lemma OnReady_dispatches:
  assumes calm: "calm s" and db: "db_ok (tabs s)" and clk: "clock_ok s" and on: "\<not> paused s"
    and conn: "connFor s ag = Some c" "c \<notin> set (broken s)"
    and work: "q \<in> set (queue_head (tabs s))" "dispatchable ag (tabs s) q"
    and run: "OnReady rs ag s = (r, s')"
  shows "r = Inr () \<and> (\<exists>q' p env. q' \<in> set (queue_head (tabs s)) \<and> dispatchable ag (tabs s) q' \<and>
    status_of s' = (status_of s)(row_id q' \<mapsto> ''assigned'') \<and> pv_id p = row_id q' \<and>
    outbox s' = outbox s @ [(c, JobAssign (JobAssignFromPreview p env))])"
proof -
  have wf: "wf_tables (tabs s)" and dec: "decodable (tabs s)" using db by (auto simp: db_ok_def)
  from work(2) obtain a where a: "a \<in> set (tb_agents (tabs s))" "arow_id a = ag"
    by (auto simp: dispatchable_def)
  from AgentByID_calm [OF calm wf dec a(1)] a(2) obtain agent where
    agent: "AgentByID ag s = (Inr agent, step_env s)" "rowToAgent a = Inr agent" by auto
  from ListQueued_calm [OF calm_env [OF calm]] dec obtain ps where
    l: "ListQueuedForCandidates (step_env s) = (Inr ps, step_env (step_env s))"
    and la: "list_all2 (\<lambda>q p. previewRowToDomain q = Inr p) (queue_head (tabs s)) ps" by auto
  let ?m = "map pv_id (filter (\<lambda>p. LabelsMatch (pv_labels p) (ag_labels agent)) ps)"
  have dist: "distinct (map arow_id (tb_agents (tabs s)))" using wf by (simp add: wf_tables_def)
  have qm: "row_id q \<in> set ?m" using matched_complete [OF la agent(2) a dist work] .
  then have ne: "?m \<noteq> []" by (metis empty_iff list.set(1))
  have "q \<in> set (claim_candidates ?m (tabs s))"
    using qm queue_head_rows [OF work(1)] by (auto simp: claim_candidates_def)
  then obtain q' tl where cand: "claim_candidates ?m (tabs s) = q' # tl"
    by (cases "claim_candidates ?m (tabs s)") auto
  note q' = claim_candidates_Cons [OF cand]
  from matched_ids [OF la agent(2) a _ q'(3)] queue_head_rows obtain q2 where
    "q2 \<in> set (queue_head (tabs s))" "row_id q2 = row_id q'" "dispatchable ag (tabs s) q2" by blast
  then have head: "q' \<in> set (queue_head (tabs s))" "dispatchable ag (tabs s) q'"
    using same_id_same_row [OF wf] queue_head_rows q'(1) by metis+
  let ?s2 = "step_env (step_env s)" and ?now = "clock s (Suc (Suc (seqno s)))"
  have calm3: "calm (step_env ?s2)" using calm calm_env by blast
  from Claim_first [OF calm3, of ?m q' tl ag ?now] cand wf a obtain s4 u where
    cl: "Claim ?m ag ?now (step_env ?s2) = (previewRowToDomain (claim_row ag (iso8601 ?now) q'), s4)"
    and t4: "tabs s4 = claimed q' ag ?now u (tabs s)" by auto
  have rep: "representable ?now" using clk by (simp add: clock_ok_def)
  then have "decodable_preview (claim_row ag (iso8601 ?now) q')"
    using dec q'(1) by (auto simp: decodable_def decodable_preview_def)
  from previewRowToDomain_decodable [OF this] obtain p where
    p: "previewRowToDomain (claim_row ag (iso8601 ?now) q') = Inr p" by blast
  then have id: "pv_id p = row_id q'" using previewRowToDomain_fields [OF p] by simp
  have st4: "status_of s4 = (status_of s)(row_id q' \<mapsto> ''assigned'')"
    using q'(1) by (intro status_of_update [where f = "claim_row ag (iso8601 ?now)"]) (auto simp: t4 claimed_def)
  have frame: "db_only (step_env ?s2) s4" using obeysD [OF frame_Claim cl] .
  have ok4: "store_ok s4"
    by (rule previews.ok_claim [OF _ cl]) (use wf clk in \<open>simp add: store_ok_def clock_ok_def\<close>)
  obtain env s5 where h: "hydrateBuildEnv rs (pv_repo p) s4 = (Inr env, s5)"
    using hydrate_env [OF _ ok4] by (metis surj_pair)
  have frame5: "db_only s4 s5" using obeysD [OF frame_hydrate h] .
  have same: "tabs s5 = tabs s4" using tabs_sameD [OF same_hydrate h] .
  have s5: "connFor s5 ag = Some c" "c \<notin> set (broken s5)" "outbox s5 = outbox s" "\<not> faults s5 (seqno s5)"
    using frame frame5 conn calm by (auto simp: db_only_def connFor_def calm_def)
  have send: "SendJobAssign ag (p, env) s5 = (Inr (), (step_env s5)\<lparr>outbox := outbox s5 @
      [(c, JobAssign (JobAssignFromPreview p env))]\<rparr>)"
    using s5 by (simp add: SendJobAssign_def send_to_def write_frame_def)
  have "r = Inr () \<and> s' = (step_env s5)\<lparr>outbox := outbox s5 @ [(c, JobAssign (JobAssignFromPreview p env))]\<rparr>"
    using run on agent l cl p h send ne
    by (simp add: OnReady_def OnReady_active_def claim_for_def dispatch_claimed_def bindE_def attempt_def
        store_def time_now_def)
  moreover from this have "status_of s' = status_of s4" using same by (intro status_of_same) simp
  ultimately show ?thesis using head id st4 s5(3) by auto
qed

end
