(* ===== verification/HubConfig.thy ===== *)
theory HubConfig
  imports GoStrings Prelude
begin

text \<open>
  internal/hub/config.go and the part of cmd/hub/daemon.go that overlays it with flags; opening
  and migrating the database (internal/db/sqlite/open.go and migrate.go). The variables of the
  process, the reading of numbers and durations, the SQLite driver and the migration library are
  arguments.
\<close>

section \<open>Configuration\<close>

record hub_process =
  env_var :: "string \<Rightarrow> string"
  parse_int :: "string \<Rightarrow> int option"  \<comment> \<open>\<open>strconv.Atoi\<close>\<close>
  parse_dur :: "string \<Rightarrow> int option"  \<comment> \<open>\<open>time.ParseDuration\<close>, in nanoseconds\<close>

definition hub_envOr :: "hub_process \<Rightarrow> string \<Rightarrow> string \<Rightarrow> string" where
  "hub_envOr w k fallback = (if env_var w k \<noteq> [] then env_var w k else fallback)"

definition hub_envInt :: "hub_process \<Rightarrow> string \<Rightarrow> int \<Rightarrow> int" where
  "hub_envInt w k fallback =
     (if env_var w k \<noteq> [] then (case parse_int w (env_var w k) of Some n \<Rightarrow> n | None \<Rightarrow> fallback)
      else fallback)"

definition envDuration :: "hub_process \<Rightarrow> string \<Rightarrow> int \<Rightarrow> int" where
  "envDuration w k fallback =
     (if env_var w k \<noteq> [] then (case parse_dur w (env_var w k) of Some d \<Rightarrow> d | None \<Rightarrow> fallback)
      else fallback)"

record hub_config =
  cfg_addr :: string
  cfg_database :: string
  cfg_bcrypt_cost :: int
  cfg_log_level :: string
  cfg_webhook_secret :: string
  cfg_base_domain :: string
  cfg_reconcile :: int
  cfg_stale :: int
  cfg_admin_password :: string
  cfg_dev_token :: string
  cfg_download :: string

definition second_ns :: int where "second_ns = 1000000000"

definition DefaultConfig :: "hub_process \<Rightarrow> hub_config" where
  "DefaultConfig w = \<lparr>
     cfg_addr = hub_envOr w ''HUB_ADDR'' '':3000'',
     cfg_database = hub_envOr w ''DATABASE_URL'' ''sqlite://./hub.db'',
     cfg_bcrypt_cost = hub_envInt w ''BCRYPT_COST'' 10,
     cfg_log_level = hub_envOr w ''LOG_LEVEL'' ''info'',
     cfg_webhook_secret = env_var w ''GITHUB_WEBHOOK_SECRET'',
     cfg_base_domain = hub_envOr w ''PREVIEW_BASE_DOMAIN'' ''localhost'',
     cfg_reconcile = envDuration w ''RECONCILE_INTERVAL'' (60 * second_ns),
     cfg_stale = envDuration w ''STALE_ASSIGNED_AFTER'' (5 * 60 * second_ns),
     cfg_admin_password = env_var w ''ADMIN_PASSWORD'',
     cfg_dev_token = env_var w ''DEV_AGENT_TOKEN'',
     cfg_download = env_var w ''AGENT_DOWNLOAD_URL''\<rparr>"

datatype config_err = ErrWebhookSecretMissing | ErrAdminPasswordMissing

definition Validate :: "hub_config \<Rightarrow> config_err + unit" where
  "Validate c =
     (if cfg_webhook_secret c = [] then Inl ErrWebhookSecretMissing
      else if cfg_admin_password c = [] then Inl ErrAdminPasswordMissing
      else Inr ())"

text \<open>The configuration a daemon starts with: the two flags, where positive, override.\<close>

definition daemon_config :: "hub_process \<Rightarrow> int \<Rightarrow> int \<Rightarrow> config_err + hub_config" where
  "daemon_config w reconcile stale =
     (let c = DefaultConfig w;
          c1 = (if reconcile > 0 then c\<lparr>cfg_reconcile := reconcile\<rparr> else c);
          c2 = (if stale > 0 then c1\<lparr>cfg_stale := stale\<rparr> else c1) in
      case Validate c2 of Inl e \<Rightarrow> Inl e | Inr _ \<Rightarrow> Inr c2)"

text \<open>
  The reconciler makes a ticker of its interval; \<open>time.NewTicker\<close> panics unless it is positive.
\<close>

definition ticker_starts :: "hub_config \<Rightarrow> bool" where
  "ticker_starts c \<longleftrightarrow> cfg_reconcile c > 0"

lemma daemon_config_guarded:
  assumes "daemon_config w reconcile stale = Inr c"
  shows "cfg_webhook_secret c \<noteq> []" and "cfg_admin_password c \<noteq> []"
  using assms by (auto simp: daemon_config_def Validate_def Let_def split: if_splits sum.splits)

lemma daemon_config_password:
  "daemon_config w reconcile stale = Inr c \<Longrightarrow> cfg_admin_password c = env_var w ''ADMIN_PASSWORD''"
  by (auto simp: daemon_config_def DefaultConfig_def Let_def split: if_splits sum.splits)

text \<open>A positive flag starts the ticker; the variable of the environment is not checked.\<close>

lemma daemon_config_ticks:
  assumes "daemon_config w reconcile stale = Inr c"
  shows "ticker_starts c \<longleftrightarrow> 0 < reconcile \<or>
    env_var w ''RECONCILE_INTERVAL'' = [] \<or>
    (case parse_dur w (env_var w ''RECONCILE_INTERVAL'') of None \<Rightarrow> True | Some d \<Rightarrow> 0 < d)"
  using assms
  by (auto simp: daemon_config_def DefaultConfig_def envDuration_def ticker_starts_def second_ns_def Let_def
      split: if_splits sum.splits option.splits)

section \<open>Tokens\<close>

definition DefaultCost :: int where "DefaultCost = 10"

definition NewGenerator :: "int \<Rightarrow> int" where
  "NewGenerator cost = (if cost \<le> 0 then DefaultCost else cost)"

section \<open>Opening the database\<close>

datatype open_err = EmptyPath | PostgresNotWired | UnsupportedScheme string | DriverFailed string

record 'd driver =
  drv_open :: "string \<Rightarrow> ('d, string, unit) prog"
  drv_exec :: "string \<Rightarrow> ('d, string, unit) prog"
  drv_close :: "'d \<Rightarrow> 'd"

definition failing :: "('d, string, 'a) prog \<Rightarrow> ('d, open_err, 'a) prog" where
  "failing m s = (case m s of (Inl e, s') \<Rightarrow> (Inl (DriverFailed e), s') | (Inr x, s') \<Rightarrow> (Inr x, s'))"

definition closing :: "'d driver \<Rightarrow> ('d, 'e, 'a) prog \<Rightarrow> ('d, 'e, 'a) prog" where
  "closing d m s = (case m s of (r, s') \<Rightarrow> (r, drv_close d s'))"

lemma closing_apply: "closing d m s = (fst (m s), drv_close d (snd (m s)))"
  by (simp add: closing_def case_prod_beta)

definition pragmas :: "string list" where
  "pragmas = [''PRAGMA journal_mode=WAL'', ''PRAGMA synchronous=NORMAL'', ''PRAGMA busy_timeout=5000'',
     ''PRAGMA foreign_keys=ON'']"

definition applyPragmas :: "'d driver \<Rightarrow> ('d, open_err, unit) prog" where
  "applyPragmas d = for_each (\<lambda>p. failing (drv_exec d p)) pragmas"

definition openSQLite :: "'d driver \<Rightarrow> string \<Rightarrow> ('d, open_err, unit) prog" where
  "openSQLite d path =
     bindE (failing (drv_open d path)) (\<lambda>_.
       catchE (applyPragmas d) (\<lambda>e s. (Inl e, drv_close d s)))"

definition is_postgres :: "string \<Rightarrow> bool" where
  "is_postgres dsn \<longleftrightarrow> has_prefix dsn ''postgres://'' \<or> has_prefix dsn ''postgresql://''"

definition OpenURL :: "'d driver \<Rightarrow> string \<Rightarrow> ('d, open_err, unit) prog" where
  "OpenURL d dsn =
     (if has_prefix dsn ''sqlite://'' then
        (let path = trim_prefix dsn ''sqlite://'' in
         if path = [] then throw EmptyPath else openSQLite d path)
      else if is_postgres dsn then throw PostgresNotWired
      else throw (UnsupportedScheme dsn))"

definition openMigrationDB :: "'d driver \<Rightarrow> string \<Rightarrow> ('d, open_err, unit) prog" where
  "openMigrationDB d dsn =
     (if \<not> has_prefix dsn ''sqlite://'' then
        (if is_postgres dsn then throw PostgresNotWired else throw (UnsupportedScheme dsn))
      else
        bindE (failing (drv_open d (trim_prefix dsn ''sqlite://''))) (\<lambda>_.
          catchE (failing (drv_exec d ''PRAGMA busy_timeout=5000'')) (\<lambda>e s. (Inl e, drv_close d s))))"

section \<open>Migrations\<close>

datatype mig_err = ErrNilVersion | ErrNoChange | MigFailed string

record 'd migrator =
  mig_new :: "('d, string, unit) prog"
  mig_version :: "('d, mig_err, nat \<times> bool) prog"
  mig_up :: "('d, mig_err, unit) prog"
  mig_steps :: "int \<Rightarrow> ('d, mig_err, unit) prog"

datatype migrate_err = OpenFailed open_err | NewFailed string | MigrateFailed mig_err

definition raising :: "('e \<Rightarrow> 'f) \<Rightarrow> ('d, 'e, 'a) prog \<Rightarrow> ('d, 'f, 'a) prog" where
  "raising f m s = (case m s of (Inl e, s') \<Rightarrow> (Inl (f e), s') | (Inr x, s') \<Rightarrow> (Inr x, s'))"

text \<open>A migrator on an open database; the database is closed on every return.\<close>

definition with_migrator :: "'d driver \<Rightarrow> 'd migrator \<Rightarrow> string \<Rightarrow> ('d, migrate_err, 'a) prog \<Rightarrow> ('d, migrate_err, 'a) prog" where
  "with_migrator d m dsn body =
     bindE (raising OpenFailed (openMigrationDB d dsn)) (\<lambda>_.
       closing d (bindE (raising NewFailed (mig_new m)) (\<lambda>_. body)))"

text \<open>The version, 0 when no migration has been applied.\<close>

definition version_or_zero :: "'d migrator \<Rightarrow> ('d, migrate_err, nat \<times> bool) prog" where
  "version_or_zero m =
     catchE (raising MigrateFailed (mig_version m)) (\<lambda>e.
       if e = MigrateFailed ErrNilVersion then ret (0, False) else throw e)"

definition or_no_change :: "('d, mig_err, unit) prog \<Rightarrow> ('d, migrate_err, unit) prog" where
  "or_no_change m =
     catchE (raising MigrateFailed m) (\<lambda>e. if e = MigrateFailed ErrNoChange then ret () else throw e)"

definition MigrateUp :: "'d driver \<Rightarrow> 'd migrator \<Rightarrow> string \<Rightarrow> ('d, migrate_err, nat) prog" where
  "MigrateUp d m dsn = with_migrator d m dsn
     (bindE (version_or_zero m) (\<lambda>before.
      bindE (or_no_change (mig_up m)) (\<lambda>_.
      bindE (version_or_zero m) (\<lambda>after.
        ret (if fst after \<ge> fst before then fst after - fst before else 0)))))"

definition MigrateDown :: "'d driver \<Rightarrow> 'd migrator \<Rightarrow> string \<Rightarrow> ('d, migrate_err, unit) prog" where
  "MigrateDown d m dsn = with_migrator d m dsn (or_no_change (mig_steps m (-1)))"

definition MigrateVersion :: "'d driver \<Rightarrow> 'd migrator \<Rightarrow> string \<Rightarrow> ('d, migrate_err, nat \<times> bool) prog" where
  "MigrateVersion d m dsn = with_migrator d m dsn (version_or_zero m)"

text \<open>Both ways of opening refuse everything but SQLite, before the driver is called.\<close>

lemma only_sqlite:
  "\<not> has_prefix dsn ''sqlite://'' \<Longrightarrow> snd (OpenURL d dsn s) = s \<and> isl (fst (OpenURL d dsn s)) \<and>
     snd (MigrateUp d m dsn s) = s \<and> isl (fst (MigrateUp d m dsn s))"
  by (simp add: OpenURL_def MigrateUp_def with_migrator_def openMigrationDB_def raising_def bindE_def throw_def)

text \<open>A migration that got as far as opening the database leaves it closed.\<close>

lemma with_migrator_closes:
  assumes "with_migrator d m dsn body s = (Inr x, s')"
  shows "\<exists>s1. s' = drv_close d s1"
  using assms by (auto simp: with_migrator_def closing_apply bindE_Inr)

text \<open>A database that is opened has its foreign keys switched on, as the table model assumes.\<close>

lemma failing_run: "failing m s = (Inr x, s') \<longleftrightarrow> m s = (Inr x, s')"
  by (simp add: failing_def split: prod.split sum.split)

lemma OpenURL_pragmas:
  assumes "OpenURL d dsn s = (Inr (), s')"
  shows "\<exists>s1 s2 s3 s4. drv_open d (trim_prefix dsn ''sqlite://'') s = (Inr (), s1) \<and>
    drv_exec d ''PRAGMA journal_mode=WAL'' s1 = (Inr (), s2) \<and>
    drv_exec d ''PRAGMA synchronous=NORMAL'' s2 = (Inr (), s3) \<and>
    drv_exec d ''PRAGMA busy_timeout=5000'' s3 = (Inr (), s4) \<and>
    drv_exec d ''PRAGMA foreign_keys=ON'' s4 = (Inr (), s')"
  using assms
  by (auto simp: OpenURL_def openSQLite_def applyPragmas_def pragmas_def Let_def bindE_def catchE_def throw_def
      ret_def failing_run split: if_splits prod.splits sum.splits)

end
