(* ===== verification/AdminHandler.thy ===== *)
theory AdminHandler
  imports WsHandler HubConfig
begin

text \<open>
  internal/hub/admin_handler.go, internal/hub/auth.go and \<open>provisionDevAgent\<close> of
  cmd/hub/daemon.go: registration and removal of agents through the JSON API, and who may call
  /admin. The outcome of the token generator (randomness and bcrypt)
  and the decoded request body are arguments.
\<close>

definition name_char :: "char \<Rightarrow> bool" where
  "name_char c \<longleftrightarrow> is_letter c \<or> is_digit c \<or> c = CHR ''_'' \<or> c = CHR ''-''"

text \<open>The regular expression \<open>^[a-zA-Z0-9_-]{1,64}$\<close>.\<close>

definition nameRE :: "string \<Rightarrow> bool" where
  "nameRE s \<longleftrightarrow> 1 \<le> length s \<and> length s \<le> 64 \<and> list_all name_char s"

record agent_view =
  av_id :: string
  av_name :: string
  av_labels :: "string list"
  av_status :: string
  av_last_seen :: "string option"
  av_created :: string

definition toView :: "Agent \<Rightarrow> agent_view" where
  "toView a = \<lparr>av_id = ag_id a, av_name = ag_name a, av_labels = ag_labels a, av_status = ag_status a,
     av_last_seen = map_option iso8601 (ag_last_seen a), av_created = iso8601 (ag_created a)\<rparr>"

definition new_agent :: "string \<Rightarrow> string \<Rightarrow> string \<Rightarrow> string list \<Rightarrow> time \<Rightarrow> Agent" where
  "new_agent i nm hash labels now = \<lparr>ag_id = i, ag_name = nm, ag_token_hash = hash, ag_labels = labels,
     ag_status = ''offline'', ag_last_seen = None, ag_created = now\<rparr>"

definition wrote_agent :: "string \<Rightarrow> string \<Rightarrow> string \<Rightarrow> reply" where
  "wrote_agent i nm raw = \<lparr>code = 201, body = [(''id'', i), (''name'', nm), (''token'', raw)]\<rparr>"

text \<open>\<open>POST /admin/agents\<close>, JSON: the decoded request, and the generator's raw token and hash.\<close>

definition createAgentAPI ::
    "(string \<times> string list) option \<Rightarrow> (string \<times> string) option \<Rightarrow> ('e, reply) act" where
  "createAgentAPI req tok =
     (case req of
        None \<Rightarrow> ret (writeError 400 ''invalid_name'' ''request body must be JSON'')
      | Some (nm, labels) \<Rightarrow>
          if \<not> nameRE nm then ret (writeError 400 ''invalid_name'' ''name must match ^[a-zA-Z0-9_-]{1,64}$'')
          else (case tok of
            None \<Rightarrow> ret (writeError 500 ''internal'' ''token generation failed'')
          | Some (raw, hash) \<Rightarrow>
              bindE new_uuid (\<lambda>i.
              bindE time_now (\<lambda>now.
              bindE (attempt (CreateAgent (new_agent i nm hash labels now))) (\<lambda>r.
                case r of
                  Inl e \<Rightarrow> if e = ErrDuplicate then ret (writeError 409 ''duplicate_name'' ''agent name already exists'')
                           else ret (writeError 500 ''internal'' ''create failed'')
                | Inr _ \<Rightarrow> ret (wrote_agent i nm raw))))))"

definition listAgentsAPI :: "('e, reply + agent_view list) act" where
  "listAgentsAPI = bindE (attempt ListAgents) (\<lambda>r.
     case r of Inl _ \<Rightarrow> ret (Inl (writeError 500 ''internal'' ''list failed'')) | Inr as \<Rightarrow> ret (Inr (map toView as)))"

definition no_content :: reply where
  "no_content = \<lparr>code = 204, body = []\<rparr>"

definition deleteAgentAPI :: "string \<Rightarrow> ('e, reply) act" where
  "deleteAgentAPI raw =
     (let i = trim_space raw in
      if i = [] then ret (writeError 404 ''not_found'' ''agent id required'')
      else bindE (attempt (DeleteAgent i)) (\<lambda>r.
        case r of
          Inl e \<Rightarrow> if e = ErrNotFound then ret (writeError 404 ''not_found'' ''agent not found'') else ret (writeError 500 ''internal'' ''delete failed'')
        | Inr _ \<Rightarrow> ret no_content))"

section \<open>The development agent\<close>

definition dev_agent_id :: string where
  "dev_agent_id = ''dev-agent-fixed-id-000000000001''"

text \<open>The second argument is bcrypt's hash of the configured token, None if hashing failed.\<close>

definition provisionDevAgent :: "string option \<Rightarrow> (hub_err, unit) act" where
  "provisionDevAgent hash =
     bindE (attempt (AgentByName ''dev-agent'')) (\<lambda>r.
       case r of
         Inr _ \<Rightarrow> ret ()
       | Inl _ \<Rightarrow>
           (case hash of
              None \<Rightarrow> throw BadPayload
            | Some h \<Rightarrow> bindE time_now (\<lambda>now.
                store (CreateAgent (new_agent dev_agent_id ''dev-agent'' h [] now)))))"

section \<open>Access to /admin\<close>

datatype guarded = PassThrough | Unauthorized

text \<open>\<open>BasicAuthMiddleware\<close>: the second argument is what \<open>r.BasicAuth()\<close> returns.\<close>

definition BasicAuthMiddleware :: "string \<Rightarrow> (string \<times> string) option \<Rightarrow> guarded" where
  "BasicAuthMiddleware password auth =
     (if password = [] then PassThrough
      else case auth of
        None \<Rightarrow> Unauthorized
      | Some (user, pass) \<Rightarrow> if user \<noteq> ''admin'' \<or> pass \<noteq> password then Unauthorized else PassThrough)"

section \<open>Contracts\<close>

lemma new_agent_simps [simp]:
  "ag_created (new_agent i nm h ls now) = now" "ag_last_seen (new_agent i nm h ls now) = None"
  by (simp_all add: new_agent_def)

lemma keeps_createAgent [inv_rules]: "obeys (keeps db_ok) (createAgentAPI req tok)"
proof -
  have new: "obeys (keeps db_ok) (CreateAgent (new_agent i nm h ls now))" if "representable now" for i nm h ls now
    by (rule db_ok_CreateAgent) (simp_all add: that)
  show ?thesis unfolding createAgentAPI_def by (intro keeps_time_now inv_rules new)
qed

lemma keeps_deleteAgent [inv_rules]: "obeys (keeps db_ok) (deleteAgentAPI raw)"
  unfolding deleteAgentAPI_def Let_def by (intro inv_rules)

lemma keeps_provisionDevAgent [inv_rules]: "obeys (keeps db_ok) (provisionDevAgent h)"
proof -
  have new: "obeys (keeps db_ok) (CreateAgent (new_agent i nm h ls now))" if "representable now" for i nm h ls now
    by (rule db_ok_CreateAgent) (simp_all add: that)
  show ?thesis unfolding provisionDevAgent_def by (intro keeps_time_now inv_rules new)
qed

lemma hist_agent_api [hist_rules]:
  "obeys history (createAgentAPI req tok)" "obeys history (deleteAgentAPI raw)"
  "obeys history (provisionDevAgent h)"
  unfolding createAgentAPI_def deleteAgentAPI_def provisionDevAgent_def Let_def
  by (intro hist_rules)+

lemma moves_agent_api [move_rules]:
  "obeys (moves_of store_ok status_of T) (createAgentAPI req tok)"
  "obeys (moves_of store_ok status_of T) (deleteAgentAPI raw)"
  "obeys (moves_of store_ok status_of T) (provisionDevAgent h)"
  unfolding createAgentAPI_def deleteAgentAPI_def provisionDevAgent_def Let_def
  by (intro move_rules)+

end
