(* ===== verification/UrlCodec.thy ===== *)
theory UrlCodec
  imports StatusUpdate
begin

text \<open>
  The column \<open>preview_urls\<close>: the hub stores the map an agent reports as a JSON object
  (\<open>encode_map\<close>, in StatusUpdate) and the admin pages read it back with
  \<open>json.Unmarshal\<close> into a \<open>map[string]string\<close>. A text that is not an object of strings gives the
  empty map here; encoding/json would keep the string entries beside a value of another
  type, which no writer of the column produces.
\<close>

text \<open>One member \<open>"key": value\<close> of an object, after optional blanks.\<close>

definition read_pair :: "string \<Rightarrow> ((string \<times> string) \<times> string) option" where
  "read_pair s =
     (case skip_ws s of
        [] \<Rightarrow> None
      | c # cs \<Rightarrow>
          if c \<noteq> CHR 0x22 then None
          else (case read_body cs of
            None \<Rightarrow> None
          | Some (k, r) \<Rightarrow>
              (case skip_ws r of
                 [] \<Rightarrow> None
               | d # ds \<Rightarrow>
                   if d \<noteq> CHR '':'' then None
                   else map_option (\<lambda>(v, t). ((k, v), t)) (read_elem (skip_ws ds)))))"

lemma skip_ws_Cons_length: "skip_ws s = c # cs \<Longrightarrow> length cs < length s"
  using skip_ws_le [of s] by simp

lemma read_pair_shorter: "read_pair s = Some (p, t) \<Longrightarrow> length t < length s"
  by (auto simp: read_pair_def split: list.splits if_splits option.splits
      dest!: skip_ws_Cons_length read_body_shorter read_elem_shorter)
    (meson le_less_trans less_trans skip_ws_le)

function read_pairs :: "string \<Rightarrow> ((string \<times> string) list \<times> string) option" where
  "read_pairs s =
     (case read_pair s of
        None \<Rightarrow> None
      | Some (p, rest) \<Rightarrow>
          (case skip_ws rest of
             [] \<Rightarrow> None
           | c # cs \<Rightarrow>
               if c = CHR ''}'' then Some ([p], cs)
               else if c = CHR '','' then map_option (\<lambda>(ps, t). (p # ps, t)) (read_pairs cs)
               else None))"
  by pat_completeness auto
termination
  by (relation "measure length") (auto dest!: read_pair_shorter skip_ws_Cons_length)

declare read_pairs.simps [simp del]

definition decode_object :: "string \<Rightarrow> (string \<times> string) list option" where
  "decode_object s =
     (case skip_ws s of
        [] \<Rightarrow> None
      | c # cs \<Rightarrow>
          if c \<noteq> CHR ''{'' then None
          else (case skip_ws cs of
            [] \<Rightarrow> None
          | d # ds \<Rightarrow>
              if d = CHR ''}'' then (if skip_ws ds = [] then Some [] else None)
              else (case read_pairs cs of
                None \<Rightarrow> None
              | Some (ps, t) \<Rightarrow> if skip_ws t = [] then Some ps else None)))"

text \<open>The map an admin page shows; a later member of the same key replaces an earlier one.\<close>

definition decodeURLs :: "string \<Rightarrow> string \<Rightarrow> string option" where
  "decodeURLs s = (if s = [] then Map.empty
     else case decode_object s of None \<Rightarrow> Map.empty | Some ps \<Rightarrow> map_of (rev ps))"

section \<open>Round trip\<close>

definition pair_text :: "string \<times> string \<Rightarrow> string" where
  "pair_text p = json_string (fst p) @ '':'' @ json_string (snd p)"

lemma json_string_Cons: "json_string s @ t = CHR 0x22 # esc_body s @ CHR 0x22 # t"
  by (simp add: json_string_def)

lemma read_pair_text: "read_pair (pair_text p @ t) = Some ((sanitize (fst p), sanitize (snd p)), t)"
proof -
  have "skip_ws (pair_text p @ t) = pair_text p @ t"
    by (simp add: pair_text_def skip_ws_def json_string_def is_ws_def)
  moreover have "skip_ws (CHR '':'' # x) = CHR '':'' # x" for x
    by (simp add: skip_ws_def is_ws_def)
  ultimately show ?thesis
    by (simp add: read_pair_def pair_text_def json_string_Cons [of "fst p"] read_body_esc_body
        read_elem_json_string)
qed

lemma read_pairs_join:
  "ps \<noteq> [] \<Longrightarrow> read_pairs (join_with '','' (map pair_text ps) @ ''}'' @ t) =
     Some (map (map_prod sanitize sanitize) ps, t)"
proof (induction ps)
  case (Cons p ps)
  show ?case
  proof (cases ps)
    case Nil
    then show ?thesis
      by (subst read_pairs.simps)
        (simp add: read_pair_text skip_ws_def [of "_ # _"] is_ws_def map_prod_def split_beta)
  next
    case (Cons q qs)
    with Cons.IH show ?thesis
      by (subst read_pairs.simps)
        (simp add: read_pair_text skip_ws_def [of "_ # _"] is_ws_def map_prod_def split_beta)
  qed
qed simp

lemma encode_map_pairs: "encode_map m = ''{'' @ join_with '','' (map pair_text (sort_key fst m)) @ ''}''"
  by (simp add: encode_map_def pair_text_def split_beta cong: map_cong)

lemma decode_object_encode_map:
  "decode_object (encode_map m) = Some (map (map_prod sanitize sanitize) (sort_key fst m))"
proof (cases "sort_key fst m = []")
  case True
  then show ?thesis
    by (simp add: encode_map_pairs decode_object_def skip_ws_def is_ws_def)
next
  case False
  let ?ps = "sort_key fst m"
  obtain p qs where ps: "?ps = p # qs" using False by (cases ?ps) simp_all
  have "\<exists>r. join_with '','' (map pair_text (p # qs)) @ ''}'' = CHR 0x22 # r"
    by (cases qs) (simp_all add: pair_text_def json_string_Cons)
  with ps obtain r where r: "join_with '','' (map pair_text ?ps) @ ''}'' = CHR 0x22 # r" by metis
  have "read_pairs (CHR 0x22 # r) = Some (map (map_prod sanitize sanitize) ?ps, [])"
    using read_pairs_join [OF False, of "[]"] r by simp
  then show ?thesis
    using r by (simp add: encode_map_pairs decode_object_def skip_ws_def is_ws_def)
qed

lemma map_of_sort_key: "distinct (map fst m) \<Longrightarrow> map_of (sort_key fst m) = map_of m"
  by (rule map_of_inject_set [THEN iffD2]) (auto simp: distinct_map inj_on_def)

lemma map_of_rev: "distinct (map fst m) \<Longrightarrow> map_of (rev m) = map_of m"
  by (rule map_of_inject_set [THEN iffD2]) (auto simp: rev_map [symmetric])

definition url_text_ok :: "(string \<times> string) list \<Rightarrow> bool" where
  "url_text_ok m \<longleftrightarrow> (\<forall>(k, v) \<in> set m. valid_utf8 k \<and> valid_utf8 v)"

lemma decodeURLs_encode_map:
  assumes "distinct (map fst m)" and "url_text_ok m"
  shows "decodeURLs (encode_map m) = map_of m"
proof -
  have "map (map_prod sanitize sanitize) (sort_key fst m) = sort_key fst m"
    using assms(2) by (intro map_idI) (auto simp: url_text_ok_def sanitize_valid)
  moreover have "distinct (map fst (sort_key fst m))"
    using assms(1) by (metis distinct_map distinct_sort set_sort)
  ultimately show ?thesis
    using assms(1) by (simp add: decodeURLs_def decode_object_encode_map map_of_rev map_of_sort_key)
      (simp add: encode_map_def)
qed

end
