(* ===== verification/AdminUI.thy ===== *)
theory AdminUI
  imports AdminHandler UrlCodec
begin

text \<open>
  internal/hub/admin_ui.go: the server-rendered admin pages. A handler yields a redirect, a
  plain error, or the view model it hands to a template; rendering itself is not modelled.
  The actions that change state: the forms that register and delete agents, the test build,
  the teardowns of an agent, rebuild and stop of a preview, each followed by a dispatch.
\<close>

record test_build_view =
  tv_agent :: string
  tv_name :: string
  tv_error :: string

datatype ui_reply =
    HttpError nat string
  | Redirect string
  | JsonReply reply
  | TestBuildPage nat test_build_view

section \<open>Small helpers\<close>

definition quot :: string where "quot = [CHR 0x22]"

text \<open>\<open>html.EscapeString\<close> of the standard library.\<close>

fun html_escape :: "string \<Rightarrow> string" where
  "html_escape [] = []"
| "html_escape (c # s) =
     (if c = CHR ''&'' then ''&amp;''
      else if c = CHR 0x27 then ''&#39;''
      else if c = CHR ''<'' then ''&lt;''
      else if c = CHR ''>'' then ''&gt;''
      else if c = CHR 0x22 then ''&#34;''
      else [c]) @ html_escape s"

definition pillBase :: string where
  "pillBase = ''display:inline-block; padding:0.1em 0.55em; border-radius:10px; font-size:0.85em;''"

definition pill :: "string \<Rightarrow> string \<Rightarrow> string" where
  "pill style esc = ''<span class='' @ quot @ ''status-pill'' @ quot @ '' style='' @ quot @ pillBase @ '' '' @ style @
     quot @ ''>'' @ esc @ ''</span>''"

definition statusBadge :: "string \<Rightarrow> string" where
  "statusBadge st =
     (let esc = html_escape st in
      if st = ''queued'' \<or> st = ''assigned''
        then pill ''background:var(--pico-secondary-background); color:var(--pico-secondary)'' esc
      else if st = ''building''
        then pill ''background:var(--pico-primary-background); color:var(--pico-primary)'' esc
      else if st = ''running'' then ''<mark>'' @ esc @ ''</mark>''
      else if st = ''teardown'' then pill ''background:#fff3cd; color:#856404'' esc
      else if st = ''done'' then pill ''color:var(--pico-muted-color)'' esc
      else if st = ''failed'' then pill ''background:#f8d7da; color:var(--pico-color-red-500)'' esc
      else ''<span>'' @ esc @ ''</span>'')"

lemma html_escape_safe: "set (html_escape s) \<inter> {CHR ''<'', CHR ''>'', CHR 0x22, CHR 0x27} = {}"
  by (induction s) auto

lemma html_escape_plain: "set s \<inter> {CHR ''&'', CHR 0x27, CHR ''<'', CHR ''>'', CHR 0x22} = {} \<Longrightarrow> html_escape s = s"
  by (induction s) auto

definition activeAttr :: string where
  "activeAttr = '' aria-current='' @ quot @ ''page'' @ quot @ '' class='' @ quot @ ''nav-active'' @ quot @
     '' style='' @ quot @ ''font-weight:700; color:var(--pico-primary)'' @ quot"

definition navActive :: "string \<Rightarrow> string \<Rightarrow> string" where
  "navActive currentPath linkPath =
     (if linkPath = ''/admin'' then (if currentPath = ''/admin'' then activeAttr else [])
      else if currentPath = linkPath \<or> has_prefix currentPath (linkPath @ ''/'') then activeAttr
      else [])"

definition labelsToString :: "string list \<Rightarrow> string" where
  "labelsToString labels = join_with '', '' labels"

definition parseLabelsForm :: "string \<Rightarrow> string list" where
  "parseLabelsForm raw = filter (\<lambda>v. v \<noteq> []) (map trim_space (split_byte CHR '','' raw))"

definition trim_slashes :: "string \<Rightarrow> string" where
  "trim_slashes s = rev (dropWhile (\<lambda>c. c = CHR ''/'') (rev (dropWhile (\<lambda>c. c = CHR ''/'') s)))"

text \<open>
  The argument is the outcome of \<open>url.Parse\<close>: its error, or \<open>u.Path\<close>. The result is the text of the
  error, or the name.
\<close>

definition repoFullNameFromURL :: "string + string \<Rightarrow> string + string" where
  "repoFullNameFromURL parsed =
     (case parsed of
        Inl e \<Rightarrow> Inl e
      | Inr p \<Rightarrow>
          (let bad = ''expected owner/repo path in URL, got '' @ go_quote p in
           case split_byte_n CHR ''/'' 3 (trim_suffix (trim_slashes p) ''.git'') of
             a # b # _ \<Rightarrow> if a = [] \<or> b = [] then Inl bad else Inr (a @ ''/'' @ b)
           | _ \<Rightarrow> Inl bad))"

definition extractBuildOutput :: "string \<Rightarrow> string" where
  "extractBuildOutput msg =
     (case index_of msg ''(output: '' of
        None \<Rightarrow> []
      | Some i \<Rightarrow> trim_space (trim_suffix (drop (i + 9) msg) '')''))"

datatype diagnosis =
    NoDiagnosis
  | RepoUrlMissing
  | CloneFailed
  | FetchFailed
  | BranchNotFound "string option"
  | ShaNotInRepo
  | PreviewConfigBad
  | DockerBuildFailed
  | ComposeUpFailed
  | OtherBuildError

definition resolve_marker :: string where
  "resolve_marker = ''resolve ref '' @ [CHR 0x22]"

definition quoted_branch :: "string \<Rightarrow> string option" where
  "quoted_branch msg =
     (case index_of msg resolve_marker of
        None \<Rightarrow> None
      | Some i \<Rightarrow>
          (let rest = drop (i + length resolve_marker) msg in
           map_option (\<lambda>j. take j rest) (index_of rest [CHR 0x22])))"

definition diagnoseBuildError :: "string \<Rightarrow> diagnosis" where
  "diagnoseBuildError msg =
     (if contains_str msg ''repo_url_missing'' then RepoUrlMissing
      else if contains_str msg ''repocache_ensure'' \<and> contains_str msg ''exit status 128'' then CloneFailed
      else if contains_str msg ''repocache_checkout'' \<and> contains_str msg ''fetch:'' then FetchFailed
      else if contains_str msg ''resolve ref'' \<and> contains_str msg ''exit status 128''
        then BranchNotFound (quoted_branch msg)
      else if contains_str msg ''not found after fetch'' then ShaNotInRepo
      else if contains_str msg ''preview_config_load'' \<or> contains_str msg ''.preview.yml'' then PreviewConfigBad
      else if contains_str msg ''docker build'' \<or> contains_str msg ''handleDockerfile'' then DockerBuildFailed
      else if contains_str msg ''compose'' \<and> contains_str msg ''exit status'' then ComposeUpFailed
      else if msg = [] then NoDiagnosis
      else OtherBuildError)"

text \<open>\<open>url.QueryEscape\<close> of the standard library, by which \<open>url.Values\<close> encodes a value.\<close>

definition upper_hex :: "nat \<Rightarrow> char" where
  "upper_hex n = char_of (if n < 10 then 48 + n else 55 + n)"

definition query_plain :: "char \<Rightarrow> bool" where
  "query_plain c \<longleftrightarrow> is_letter c \<or> is_digit c \<or> c \<in> {CHR ''-'', CHR ''_'', CHR ''.'', CHR ''~''}"

fun query_escape :: "string \<Rightarrow> string" where
  "query_escape [] = []"
| "query_escape (c # s) =
     (if query_plain c then [c]
      else if c = CHR '' '' then ''+''
      else [CHR ''%'', upper_hex (of_char c div 16), upper_hex (of_char c mod 16)]) @ query_escape s"

lemma query_escape_plain: "list_all query_plain s \<Longrightarrow> query_escape s = s"
  by (induction s) auto

lemma query_escape_name: "nameRE nm \<Longrightarrow> query_escape nm = nm"
  by (rule query_escape_plain) (auto simp: nameRE_def name_char_def query_plain_def list_all_iff)

section \<open>Pages\<close>

record dashboard_view =
  dv_total :: nat
  dv_online :: nat
  dv_running :: nat
  dv_queued :: nat
  dv_counts :: "string \<Rightarrow> nat"

definition status_count :: "Preview list \<Rightarrow> string \<Rightarrow> nat" where
  "status_count ps st = length (filter (\<lambda>p. pv_status p = st) ps)"

definition online_count :: "bool \<Rightarrow> hub \<Rightarrow> Agent list \<Rightarrow> nat" where
  "online_count has_registry s agents =
     (let n = (if has_registry then card (OnlineAgentIDs s) else 0) in
      if n = 0 then length (filter (\<lambda>a. ag_status a = ''online'') agents) else n)"

definition dashboard :: "bool \<Rightarrow> ('e, ui_reply + dashboard_view) act" where
  "dashboard has_registry =
     bindE (attempt ListAgents) (\<lambda>r.
       case r of
         Inl _ \<Rightarrow> ret (Inl (HttpError 500 ''internal''))
       | Inr agents \<Rightarrow>
           bindE (attempt ListAll) (\<lambda>q.
             case q of
               Inl _ \<Rightarrow> ret (Inl (HttpError 500 ''internal''))
             | Inr previews \<Rightarrow> (\<lambda>s. (Inr (Inr
                 \<lparr>dv_total = length agents, dv_online = online_count has_registry s agents,
                  dv_running = status_count previews ''running'',
                  dv_queued = status_count previews ''queued'',
                  dv_counts = status_count previews\<rparr>), s))))"

definition busy_statuses :: "string list" where
  "busy_statuses = [''assigned'', ''building'', ''running'']"

record agent_row_view =
  aw_id :: string
  aw_name :: string
  aw_status :: string
  aw_labels :: string
  aw_running :: nat
  aw_last_seen :: string

definition agent_row_view_of :: "Agent \<Rightarrow> nat \<Rightarrow> agent_row_view" where
  "agent_row_view_of a n = \<lparr>aw_id = ag_id a, aw_name = ag_name a, aw_status = ag_status a,
     aw_labels = labelsToString (ag_labels a), aw_running = n,
     aw_last_seen = (case ag_last_seen a of None \<Rightarrow> [] | Some t \<Rightarrow> rfc3339 t)\<rparr>"

fun agent_rows :: "bool \<Rightarrow> Agent list \<Rightarrow> ('e, agent_row_view list) act" where
  "agent_rows has_store [] = ret []"
| "agent_rows has_store (a # as) =
     bindE (if has_store then attempt (ListByAgent (ag_id a) busy_statuses) else ret (Inr [])) (\<lambda>r.
     bindE (agent_rows has_store as) (\<lambda>rows.
       ret (agent_row_view_of a (case r of Inl _ \<Rightarrow> 0 | Inr ps \<Rightarrow> length ps) # rows)))"

text \<open>\<open>agentsList\<close>: the rows sorted by name, or the error shown in their place.\<close>

definition agentsList :: "bool \<Rightarrow> ('e, store_err + agent_row_view list) act" where
  "agentsList has_store =
     bindE (attempt ListAgents) (\<lambda>r.
       case r of
         Inl e \<Rightarrow> ret (Inl e)
       | Inr agents \<Rightarrow> bindE (agent_rows has_store agents) (\<lambda>rows. ret (Inr (sort_key aw_name rows))))"

record preview_row_view =
  pw_id :: string
  pw_pr :: int
  pw_repo :: string
  pw_status :: string
  pw_branch :: string
  pw_agent :: string
  pw_updated :: string
  pw_urls :: "string \<Rightarrow> string option"
  pw_adhoc :: bool

definition preview_row_view_of :: "Preview \<Rightarrow> preview_row_view" where
  "preview_row_view_of p = \<lparr>pw_id = pv_id p, pw_pr = pv_pr p, pw_repo = pv_repo p, pw_status = pv_status p,
     pw_branch = pv_branch p, pw_agent = (case pv_agent p of None \<Rightarrow> [] | Some a \<Rightarrow> a),
     pw_updated = rfc3339 (pv_updated p), pw_urls = decodeURLs (pv_urls p), pw_adhoc = pv_adhoc p\<rparr>"

record previews_view =
  vw_rows :: "preview_row_view list"
  vw_repo :: string
  vw_status :: string

definition previewsList :: "string \<Rightarrow> string \<Rightarrow> ('e, ui_reply + previews_view) act" where
  "previewsList repo_raw status_raw =
     bindE (attempt ListAll) (\<lambda>r.
       case r of
         Inl _ \<Rightarrow> ret (Inl (HttpError 500 ''internal''))
       | Inr ps \<Rightarrow>
           (let repo = trim_space repo_raw; st = trim_space status_raw in
            ret (Inr \<lparr>vw_rows = map preview_row_view_of (filter (\<lambda>p. \<not> (repo \<noteq> [] \<and> pv_repo p \<noteq> repo) \<and>
                \<not> (st \<noteq> [] \<and> pv_status p \<noteq> st)) ps),
              vw_repo = repo, vw_status = st\<rparr>)))"

record event_view =
  ew_time :: string
  ew_from :: string
  ew_to :: string
  ew_message :: string

definition event_view_of :: "PreviewEvent \<Rightarrow> event_view" where
  "event_view_of e = \<lparr>ew_time = rfc3339 (pe_created e),
     ew_from = (case pe_from e of None \<Rightarrow> ''NULL'' | Some f \<Rightarrow> f), ew_to = pe_to e, ew_message = pe_message e\<rparr>"

record preview_detail_row =
  dr_id :: string
  dr_pr :: int
  dr_repo :: string
  dr_sha :: string
  dr_branch :: string
  dr_status :: string
  dr_error :: string
  dr_adhoc :: bool

record preview_detail =
  pd_title :: string
  pd_preview :: preview_detail_row
  pd_agent_line :: string
  pd_agent_id :: string
  pd_urls :: "string \<Rightarrow> string option"
  pd_recent :: "event_view list"
  pd_older :: "event_view list"
  pd_rebuild :: bool
  pd_stop :: bool
  pd_conflict :: string
  pd_diagnosis :: diagnosis
  pd_output :: string

definition recentEventCount :: nat where "recentEventCount = 5"

definition agent_line :: "Preview \<Rightarrow> string" where
  "agent_line p =
     (case pv_agent p of
        None \<Rightarrow> ''-''
      | Some a \<Rightarrow>
          (case (pv_host p, pv_port p) of
             (Some h, Some n) \<Rightarrow> a @ '' ('' @ h @ '':'' @ itoa n @ '')''
           | _ \<Rightarrow> a))"

text \<open>The title separates the number from the repo by an em dash, three bytes in UTF-8.\<close>

definition em_dash :: string where "em_dash = [CHR 0xE2, CHR 0x80, CHR 0x94]"

definition detail_title :: "Preview \<Rightarrow> string" where
  "detail_title p =
     (if pv_pr p = 0 then ''Test Build '' @ em_dash @ '' '' @ pv_repo p
      else ''PR #'' @ itoa (pv_pr p) @ '' '' @ em_dash @ '' '' @ pv_repo p)"

definition detail_of :: "string \<Rightarrow> Preview \<Rightarrow> PreviewEvent list \<Rightarrow> preview_detail" where
  "detail_of conflict p events =
     (let rows = map event_view_of (rev events);
          err = (case pv_error p of None \<Rightarrow> [] | Some e \<Rightarrow> e) in
      \<lparr>pd_title = detail_title p,
       pd_preview = \<lparr>dr_id = pv_id p, dr_pr = pv_pr p, dr_repo = pv_repo p, dr_sha = pv_sha p,
         dr_branch = pv_branch p, dr_status = pv_status p, dr_error = err, dr_adhoc = pv_adhoc p\<rparr>,
       pd_agent_line = agent_line p,
       pd_agent_id = (case pv_agent p of None \<Rightarrow> [] | Some a \<Rightarrow> a), pd_urls = decodeURLs (pv_urls p),
       pd_recent = take recentEventCount rows, pd_older = drop recentEventCount rows,
       pd_rebuild = (pv_status p = ''done'' \<or> pv_status p = ''failed''),
       pd_stop = (pv_status p = ''running''), pd_conflict = conflict, pd_diagnosis = diagnoseBuildError err,
       pd_output = extractBuildOutput err\<rparr>)"

text \<open>Reading a preview for a page: the error reply, or the preview.\<close>

definition fetch_preview :: "string \<Rightarrow> ('e, ui_reply + Preview) act" where
  "fetch_preview i =
     (if i = [] then ret (Inl (HttpError 404 ''preview id required''))
      else bindE (attempt (GetByID i)) (\<lambda>r.
        case r of
          Inl e \<Rightarrow> ret (Inl (if e = ErrNotFound then HttpError 404 ''preview not found''
                             else HttpError 500 ''internal''))
        | Inr p \<Rightarrow> ret (Inr p)))"

text \<open>The second argument is the query parameter \<open>msg\<close>.\<close>

definition previewDetail :: "string \<Rightarrow> string \<Rightarrow> ('e, ui_reply + preview_detail) act" where
  "previewDetail raw conflict =
     (let i = trim_space raw in
      bindE (fetch_preview i) (\<lambda>r.
        case r of
          Inl rep \<Rightarrow> ret (Inl rep)
        | Inr p \<Rightarrow>
            bindE (attempt (ListPreviewEvents i 50 0)) (\<lambda>ev.
              ret (Inr (detail_of conflict p (case ev of Inl _ \<Rightarrow> [] | Inr es \<Rightarrow> es))))))"

record agent_detail =
  ad_title :: string
  ad_id :: string
  ad_name :: string
  ad_status :: string
  ad_labels :: string
  ad_last_seen :: string
  ad_created :: string
  ad_active :: "preview_row_view list"
  ad_total :: nat

definition activePreviewLimit :: nat where "activePreviewLimit = 50"

text \<open>\<open>sort.Slice\<close> by \<open>UpdatedAt\<close>, newest first; the order of equal times is left to the sort.\<close>

definition agentDetail :: "bool \<Rightarrow> string \<Rightarrow> ('e, ui_reply + agent_detail) act" where
  "agentDetail has_store raw =
     (let i = trim_space raw in
      if i = [] then ret (Inl (HttpError 404 ''agent id required''))
      else bindE (attempt (AgentByID i)) (\<lambda>r.
        case r of
          Inl e \<Rightarrow> ret (Inl (if e = ErrNotFound then HttpError 404 ''agent not found''
                             else HttpError 500 ''internal''))
        | Inr a \<Rightarrow>
            bindE (if has_store then attempt (ListByAgent i busy_statuses) else ret (Inr [])) (\<lambda>q.
              (let ps = (case q of Inl _ \<Rightarrow> [] | Inr ps \<Rightarrow> rev (sort_key pv_updated ps)) in
               ret (Inr \<lparr>ad_title = ''Agent '' @ ag_name a, ad_id = ag_id a, ad_name = ag_name a,
                 ad_status = ag_status a, ad_labels = labelsToString (ag_labels a),
                 ad_last_seen = (case ag_last_seen a of None \<Rightarrow> [] | Some t \<Rightarrow> rfc3339 t),
                 ad_created = rfc3339 (ag_created a),
                 ad_active = map preview_row_view_of (take activePreviewLimit ps), ad_total = length ps\<rparr>)))))"

text \<open>The page that shows a new token once: its address carries the name and the token.\<close>

record token_view =
  tk_name :: string
  tk_token :: string
  tk_host :: string
  tk_download :: string

definition agentToken :: "string \<Rightarrow> string \<Rightarrow> string \<Rightarrow> string \<Rightarrow> ui_reply + token_view" where
  "agentToken download nm tok host =
     (if tok = [] then Inl (HttpError 400 ''missing token'')
      else Inr \<lparr>tk_name = nm, tk_token = tok, tk_host = (if host = [] then ''localhost:3000'' else host),
                tk_download = download\<rparr>)"

definition testBuildForm :: "string \<Rightarrow> ('e, ui_reply + test_build_view) act" where
  "testBuildForm raw =
     (let i = trim_space raw in
      if i = [] then ret (Inl (HttpError 404 ''agent id required''))
      else bindE (attempt (AgentByID i)) (\<lambda>r.
        case r of
          Inl _ \<Rightarrow> ret (Inl (HttpError 404 ''agent not found''))
        | Inr a \<Rightarrow> ret (Inr \<lparr>tv_agent = i, tv_name = ag_name a, tv_error = []\<rparr>)))"

record settings_view =
  sv_webhook_url :: string
  sv_secret :: string
  sv_domain :: string
  sv_download :: string

text \<open>The arguments: whether the connection is encrypted, the header \<open>X-Forwarded-Proto\<close>, the host.\<close>

definition settings :: "hub_config \<Rightarrow> bool \<Rightarrow> string \<Rightarrow> string \<Rightarrow> settings_view" where
  "settings c tls forwarded host =
     \<lparr>sv_webhook_url = (if tls \<or> forwarded = ''https'' then ''https'' else ''http'') @ ''://'' @ host @ ''/webhooks/github'',
      sv_secret = cfg_webhook_secret c, sv_domain = cfg_base_domain c, sv_download = cfg_download c\<rparr>"

end
