(* ===== verification/AdminActions.thy ===== *)
theory AdminActions
  imports AdminUI WsLaws WebhookLaws
begin

text \<open>
  The state-changing half of internal/hub/admin_ui.go. The wiring of the handler is a record:
  whether a secret store, a dispatcher with its registry and a teardown sender are set, and the
  order in which the runtime ranges over the online agents.
\<close>

record ui_wiring =
  w_secrets :: bool
  w_dispatcher :: bool
  w_teardown :: bool
  w_order :: "string list \<Rightarrow> string list"

definition preview_page :: "string \<Rightarrow> string" where
  "preview_page i = ''/admin/previews/'' @ i"

text \<open>\<open>triggerDispatch\<close>: a READY on behalf of every online agent.\<close>

definition triggerDispatch :: "ui_wiring \<Rightarrow> ('e, unit) act" where
  "triggerDispatch w s =
     (if \<not> w_dispatcher w then (Inr (), s)
      else for_each (\<lambda>ag. logged (OnReady (w_secrets w) ag)) (w_order w (remdups (map fst (conns s)))) s)"

section \<open>Agents\<close>

text \<open>The arguments: the parsed form (name and labels) and the outcome of the token generator.\<close>

definition CreateAgentForm :: "(string \<times> string) option \<Rightarrow> (string \<times> string) option \<Rightarrow> ('e, ui_reply) act" where
  "CreateAgentForm form tok =
     (case form of
        None \<Rightarrow> ret (HttpError 400 ''invalid form'')
      | Some (raw_name, raw_labels) \<Rightarrow>
          (let nm = trim_space raw_name in
           if \<not> nameRE nm then ret (HttpError 400 ''invalid name (must match ^[a-zA-Z0-9_-]{1,64}$)'')
           else (case tok of
             None \<Rightarrow> ret (HttpError 500 ''internal'')
           | Some (raw, hash) \<Rightarrow>
               bindE new_uuid (\<lambda>i.
               bindE time_now (\<lambda>now.
               bindE (attempt (CreateAgent (new_agent i nm hash (parseLabelsForm raw_labels) now))) (\<lambda>r.
                 case r of
                   Inl e \<Rightarrow> if e = ErrDuplicate then ret (HttpError 409 ''agent name already exists'') else ret (HttpError 500 ''internal'')
                 | Inr _ \<Rightarrow> ret (Redirect (''/admin/agents/token?name='' @ query_escape nm @ ''&t='' @ query_escape raw))))))))"

definition agentDelete :: "string \<Rightarrow> ('e, ui_reply) act" where
  "agentDelete raw =
     (let i = trim_space raw in
      if i = [] then ret (HttpError 404 ''agent id required'')
      else bindE (attempt (DeleteAgent i)) (\<lambda>r.
        case r of
          Inl e \<Rightarrow> if e = ErrNotFound then ret (HttpError 404 ''agent not found'') else ret (HttpError 500 ''internal'')
        | Inr _ \<Rightarrow> ret (Redirect ''/admin/agents'')))"

definition teardown_one :: "ui_wiring \<Rightarrow> string \<Rightarrow> time \<Rightarrow> Preview \<Rightarrow> ('e, unit) act" where
  "teardown_one w ag now p =
     bindE (attempt (UpdateStatus (pv_id p) (pv_status p) ''teardown'' ''manual teardown via admin UI'' now no_fields))
       (\<lambda>r. case r of
          Inl _ \<Rightarrow> ret ()
        | Inr _ \<Rightarrow> if w_teardown w then logged (SendTeardown ag (pv_id p)) else ret ())"

definition agentTeardowns :: "ui_wiring \<Rightarrow> string \<Rightarrow> ('e, ui_reply) act" where
  "agentTeardowns w raw =
     (let i = trim_space raw in
      if i = [] then ret (HttpError 404 ''agent id required'')
      else bindE (attempt (ListByAgent i busy_statuses)) (\<lambda>r.
        case r of
          Inl _ \<Rightarrow> ret (HttpError 500 ''internal'')
        | Inr ps \<Rightarrow>
            bindE time_now (\<lambda>now.
            bindE (for_each (teardown_one w i now) ps) (\<lambda>_. ret (Redirect ''/admin/agents'')))))"

section \<open>Previews\<close>

text \<open>The six fields that rebuild and the test build blank; the commit is kept.\<close>

definition reset_fields :: PreviewFields where
  "reset_fields = \<lparr>f_container = Some [], f_host = Some [], f_port = Some 0, f_urls = Some [],
     f_error = Some [], f_agent = Some [], f_sha = None\<rparr>"

definition previewRebuild :: "ui_wiring \<Rightarrow> bool \<Rightarrow> string \<Rightarrow> ('e, ui_reply) act" where
  "previewRebuild w wantsJSON raw =
     (let i = trim_space raw in
      bindE (fetch_preview i) (\<lambda>r.
        case r of
          Inl rep \<Rightarrow> ret rep
        | Inr p \<Rightarrow>
            if \<not> (pv_status p = ''done'' \<or> pv_status p = ''failed'') then
              ret (if wantsJSON then JsonReply (writeError 409 ''already_in_flight''
                          (''preview status is '' @ pv_status p @ ''; rebuild allowed only from done/failed''))
                   else Redirect (preview_page i @ ''?msg=rebuild+requires+done+or+failed+status''))
            else
              bindE time_now (\<lambda>now.
              bindE (attempt (UpdateStatus i (pv_status p) ''queued'' ''rebuild requested via admin UI'' now reset_fields))
                (\<lambda>u. case u of
                   Inl _ \<Rightarrow> ret (if wantsJSON then JsonReply (writeError 500 ''internal'' ''rebuild failed'') else HttpError 500 ''internal'')
                 | Inr _ \<Rightarrow>
                     bindE (triggerDispatch w) (\<lambda>_.
                       ret (if wantsJSON
                            then JsonReply \<lparr>code = 200, body = [(''preview_id'', i), (''status'', ''queued'')]\<rparr>
                            else Redirect (preview_page i)))))))"

definition previewStop :: "ui_wiring \<Rightarrow> string \<Rightarrow> ('e, ui_reply) act" where
  "previewStop w raw =
     (let i = trim_space raw in
      bindE (fetch_preview i) (\<lambda>r.
        case r of
          Inl rep \<Rightarrow> ret rep
        | Inr p \<Rightarrow>
            if pv_status p \<noteq> ''running'' then ret (Redirect (preview_page i @ ''?msg=stop+requires+running+status''))
            else
              bindE time_now (\<lambda>now.
              bindE (attempt (UpdateStatus i (pv_status p) ''teardown'' ''stopped via admin UI'' now no_fields)) (\<lambda>u.
                case u of
                  Inl _ \<Rightarrow> ret (HttpError 500 ''internal'')
                | Inr _ \<Rightarrow>
                    bindE (if w_teardown w \<and> pv_agent p \<noteq> None
                           then logged (SendTeardown (the (pv_agent p)) i) else ret ())
                      (\<lambda>_. ret (Redirect (preview_page i)))))))"

section \<open>The test build\<close>

record test_build_form =
  tb_clone_url :: string
  tb_branch :: string
  tb_commit :: string

definition adhoc_preview :: "string \<Rightarrow> string \<Rightarrow> string \<Rightarrow> string \<Rightarrow> string \<Rightarrow> time \<Rightarrow> Preview" where
  "adhoc_preview i repo url branch sha now =
     \<lparr>pv_id = i, pv_repo = repo, pv_pr = 0, pv_sha = sha, pv_branch = branch, pv_status = [],
      pv_agent = None, pv_container = None, pv_host = None, pv_port = None, pv_clone_url = url,
      pv_urls = [], pv_labels = [], pv_error = None, pv_adhoc = True, pv_created = now, pv_updated = now\<rparr>"

text \<open>The hit of the deduplication: an adhoc preview of the branch exists.\<close>

definition requeue_adhoc :: "ui_wiring \<Rightarrow> Preview \<Rightarrow> ('e, ui_reply) act" where
  "requeue_adhoc w prev =
     (if pv_status prev \<in> {''queued'', ''assigned'', ''building'', ''running'', ''teardown''}
      then ret (Redirect (preview_page (pv_id prev)))
      else if pv_status prev = ''done'' \<or> pv_status prev = ''failed'' then
        bindE time_now (\<lambda>now.
        bindE (attempt (UpdateStatus (pv_id prev) (pv_status prev) ''queued'' ''re-queued by test build'' now reset_fields))
          (\<lambda>u. case u of
             Inl e \<Rightarrow> if e = ErrStaleState then ret (Redirect (preview_page (pv_id prev))) else ret (HttpError 500 ''internal'')
           | Inr _ \<Rightarrow> bindE (triggerDispatch w) (\<lambda>_. ret (Redirect (preview_page (pv_id prev))))))
      else ret (Redirect (preview_page (pv_id prev))))"

definition create_adhoc :: "ui_wiring \<Rightarrow> string \<Rightarrow> string \<Rightarrow> string \<Rightarrow> string \<Rightarrow> ('e, ui_reply) act" where
  "create_adhoc w repo url branch sha =
     bindE time_now (\<lambda>now.
     bindE new_uuid (\<lambda>i.
     bindE (attempt (Upsert (adhoc_preview i repo url branch sha now))) (\<lambda>r.
       case r of
         Inl _ \<Rightarrow> ret (HttpError 500 ''internal'')
       | Inr (created, _) \<Rightarrow>
           if \<not> created then ret (HttpError 500 ''internal'')
           else bindE (triggerDispatch w) (\<lambda>_. ret (Redirect (preview_page i))))))"

text \<open>\<open>parse\<close> is \<open>url.Parse\<close> followed by the path; the form is None when it does not parse.\<close>

definition testBuildSubmit ::
    "(string \<Rightarrow> string + string) \<Rightarrow> ui_wiring \<Rightarrow> string \<Rightarrow> test_build_form option \<Rightarrow> ('e, ui_reply) act" where
  "testBuildSubmit parse w raw form =
     (let i = trim_space raw in
      case form of
        None \<Rightarrow> ret (HttpError 400 ''invalid form'')
      | Some f \<Rightarrow>
          (let url = trim_space (tb_clone_url f); branch = trim_space (tb_branch f);
               sha = trim_space (tb_commit f) in
           case repoFullNameFromURL (parse url) of
             Inl e \<Rightarrow> bindE (attempt (AgentByID i)) (\<lambda>r.
               ret (TestBuildPage 400 \<lparr>tv_agent = i, tv_name = (case r of Inl _ \<Rightarrow> i | Inr a \<Rightarrow> ag_name a),
                 tv_error = ''invalid repo URL: '' @ e\<rparr>))
           | Inr repo \<Rightarrow>
               bindE (attempt (FindAdhocByBranch repo branch)) (\<lambda>r.
                 case r of
                   Inr prev \<Rightarrow> requeue_adhoc w prev
                 | Inl e \<Rightarrow> if e = ErrNotFound then create_adhoc w repo url branch sha else ret (HttpError 500 ''internal''))))"

section \<open>Contracts\<close>

lemma obeys_triggerDispatch:
  assumes "contract R" and "\<And>rs ag. obeys R (OnReady rs ag)"
  shows "obeys R (triggerDispatch w :: ('e, unit) act)"
proof -
  have "obeys R (for_each (\<lambda>ag. logged (OnReady (w_secrets w) ag)) xs :: ('e, unit) act)" for xs
    using assms by (intro contract.for_each obeys_logged)
  from obeys_apply [OF this] contract.refl [OF assms(1)] show ?thesis
    by (simp add: obeys_def triggerDispatch_def)
qed

lemma keeps_triggerDispatch [inv_rules]: "obeys (keeps db_ok) (triggerDispatch w)"
  by (rule obeys_triggerDispatch [OF inv.contract_axioms keeps_OnReady])

lemma hist_triggerDispatch [hist_rules]: "obeys history (triggerDispatch w)"
  by (rule obeys_triggerDispatch [OF hist.contract_axioms hist_OnReady])

text \<open>What the admin pages may do to a preview.\<close>

definition admin_moves :: transitions where
  "admin_moves i a b \<longleftrightarrow>
     a \<in> Some ` set busy_statuses \<and> b = Some ''teardown'' \<or>
     a \<in> {None, Some ''done'', Some ''failed''} \<and> b = Some ''queued'' \<or>
     dispatching i a b"

lemma moves_triggerDispatch: "obeys (moves_of store_ok status_of admin_moves) (triggerDispatch w)"
proof (rule obeys_triggerDispatch [OF previews.moves.contract_axioms])
  show "obeys (moves_of store_ok status_of admin_moves) (OnReady rs ag)" for rs ag
    by (rule obeysI, rule moves_of_mono [OF obeysD [OF moves_OnReady]]) (auto simp: admin_moves_def)
qed

lemma same_fetch_preview [same_rules]: "obeys tabs_same (fetch_preview i)"
  unfolding fetch_preview_def by (intro same_rules)

lemmas keeps_fetch_preview [inv_rules] = same_fetch_preview [THEN obeys_keeps_of_same]
lemmas hist_fetch_preview [hist_rules] = same_fetch_preview [THEN history_same]
lemmas moves_fetch_preview [move_rules] = same_fetch_preview [THEN moves_same]

lemma keeps_CreateAgentForm [inv_rules]: "obeys (keeps db_ok) (CreateAgentForm form tok)"
proof -
  have new: "obeys (keeps db_ok) (CreateAgent (new_agent i nm h ls now))" if "representable now" for i nm h ls now
    by (rule db_ok_CreateAgent) (simp_all add: that)
  show ?thesis unfolding CreateAgentForm_def Let_def by (intro keeps_time_now inv_rules new)
qed

lemma keeps_create_adhoc [inv_rules]: "obeys (keeps db_ok) (create_adhoc w repo url branch sha)"
proof -
  have new: "obeys (keeps db_ok) (Upsert (adhoc_preview i repo url branch sha now))" if "representable now" for i now
    by (rule db_ok_Upsert) (simp_all add: that adhoc_preview_def)
  show ?thesis unfolding create_adhoc_def by (intro keeps_time_now inv_rules new)
qed

lemma keeps_admin_actions [inv_rules]:
  "obeys (keeps db_ok) (agentDelete raw)" "obeys (keeps db_ok) (agentTeardowns w raw)"
  "obeys (keeps db_ok) (previewRebuild w j raw)" "obeys (keeps db_ok) (previewStop w raw)"
  "obeys (keeps db_ok) (testBuildSubmit parse w raw form)"
  unfolding agentDelete_def agentTeardowns_def teardown_one_def previewRebuild_def previewStop_def
    testBuildSubmit_def requeue_adhoc_def Let_def
  by (intro keeps_time_now inv_rules; assumption?)+

lemma hist_admin_actions [hist_rules]:
  "obeys history (CreateAgentForm f tok)"
  "obeys history (agentDelete raw)" "obeys history (agentTeardowns w raw)"
  "obeys history (previewRebuild w j raw)" "obeys history (previewStop w raw)"
  "obeys history (testBuildSubmit parse w raw form)"
  unfolding CreateAgentForm_def agentDelete_def agentTeardowns_def teardown_one_def previewRebuild_def
    previewStop_def testBuildSubmit_def requeue_adhoc_def create_adhoc_def Let_def
  by (intro hist_rules)+

lemma admin_update_moves:
  "from \<in> set busy_statuses \<and> to = ''teardown'' \<or> from \<in> {''done'', ''failed''} \<and> to = ''queued'' \<Longrightarrow>
     obeys (moves_of store_ok status_of admin_moves) (UpdateStatus i from to msg now f)"
  by (rule previews.update_moves) (auto simp: admin_moves_def busy_statuses_def)

lemma admin_upsert_moves: "obeys (moves_of store_ok status_of admin_moves) (Upsert p)"
  by (rule previews.upsert_moves) (simp add: admin_moves_def)

lemma moves_agent_forms:
  "obeys (moves_of store_ok status_of T) (CreateAgentForm f tok)"
  "obeys (moves_of store_ok status_of T) (agentDelete raw)"
  unfolding CreateAgentForm_def agentDelete_def Let_def by (intro move_rules)+

lemma moves_preview_actions:
  "obeys (moves_of store_ok status_of admin_moves) (previewRebuild w j raw)"
  "obeys (moves_of store_ok status_of admin_moves) (previewStop w raw)"
  "obeys (moves_of store_ok status_of admin_moves) (testBuildSubmit parse w raw form)"
  unfolding previewRebuild_def previewStop_def testBuildSubmit_def requeue_adhoc_def create_adhoc_def Let_def
  by (intro moves_triggerDispatch admin_upsert_moves obeys_if_cond move_rules admin_update_moves;
      auto simp: busy_statuses_def)+

lemma moves_agentTeardowns:
  "obeys (moves_of store_ok status_of admin_moves) (agentTeardowns w raw :: ('e, ui_reply) act)"
proof (rule obeysI)
  fix s s' and r :: "'e + ui_reply"
  assume run: "agentTeardowns w raw s = (r, s')"
  let ?R = "moves_of store_ok status_of admin_moves" and ?i = "trim_space raw"
  show "?R s s'"
  proof (cases "?i = []")
    case False
    obtain x s1 where l: "ListByAgent ?i busy_statuses s = (x, s1)" by fastforce
    have "obeys ?R (ListByAgent ?i busy_statuses)" by (intro move_rules)
    from obeysD [OF this l] have one: "?R s s1" .
    show ?thesis
    proof (cases x)
      case (Inr ps)
      have each: "obeys ?R (teardown_one w ?i now p :: ('e, unit) act)" if "p \<in> set ps" for p now
      proof -
        have "pv_status p \<in> set busy_statuses"
          using ListByAgent_rows [of ?i busy_statuses s ps s1 p] l Inr that by auto
        then show ?thesis unfolding teardown_one_def by (intro move_rules admin_update_moves) simp
      qed
      have "obeys ?R (bindE time_now (\<lambda>now. bindE (for_each (teardown_one w ?i now) ps)
          (\<lambda>_. ret (Redirect ''/admin/agents''))) :: ('e, ui_reply) act)"
        by (intro previews.moves.bindE previews.moves.for_each move_rules each)
      moreover have "(bindE time_now (\<lambda>now. bindE (for_each (teardown_one w ?i now) ps)
          (\<lambda>_. ret (Redirect ''/admin/agents''))) :: ('e, ui_reply) act) s1 = (r, s')"
        using run False l Inr by (simp add: agentTeardowns_def Let_def bindE_def attempt_def)
      ultimately have "?R s1 s'" by (rule obeysD)
      with one show ?thesis by (rule previews.moves.trans)
    qed (use run False l one in \<open>simp add: agentTeardowns_def Let_def bindE_def attempt_def\<close>)
  qed (use run in \<open>simp add: agentTeardowns_def Let_def\<close>)
qed

end
