(* ===== verification/SecretsForm.thy ===== *)
theory SecretsForm
  imports AdminActions
begin

text \<open>
  internal/hub/admin_ui_repo_secrets_parse.go and admin_ui_repo_secrets.go: the text area of
  build secrets, read line by line, and the difference to the stored secrets, applied one
  \<open>Upsert\<close> or \<open>Delete\<close> at a time. The parsed map is an association list with distinct keys;
  the order in which Go ranges over the stored keys is an argument.
\<close>

section \<open>The text\<close>

definition key_start :: "char \<Rightarrow> bool" where
  "key_start c \<longleftrightarrow> is_letter c \<or> c = CHR ''_''"

text \<open>\<open>^[A-Za-z_][A-Za-z0-9_]*$\<close>\<close>

definition keyRE :: "string \<Rightarrow> bool" where
  "keyRE s \<longleftrightarrow> (case s of [] \<Rightarrow> False | c # cs \<Rightarrow>
     key_start c \<and> list_all (\<lambda>x. key_start x \<or> is_digit x) cs)"

definition secretsToRawText :: "RepoSecret list \<Rightarrow> string" where
  "secretsToRawText rows = concat (map (\<lambda>r. rs_key r @ ''='' @ rs_value r @ [CHR 10]) rows)"

datatype line_err = MissingSeparator nat | EmptyKey nat | BadKey nat string

text \<open>The messages of \<open>fmt.Errorf\<close>, shown on the page.\<close>

fun line_err_text :: "line_err \<Rightarrow> string" where
  "line_err_text (MissingSeparator n) =
     ''line '' @ itoa (int n) @ '': missing '' @ [CHR 0x27] @ ''='' @ [CHR 0x27] @ '' separator''"
| "line_err_text (EmptyKey n) =
     ''line '' @ itoa (int n) @ '': empty KEY before '' @ [CHR 0x27] @ ''='' @ [CHR 0x27]"
| "line_err_text (BadKey n k) =
     ''line '' @ itoa (int n) @ '': KEY '' @ go_quote k @ '' does not match ^[A-Za-z_][A-Za-z0-9_]*$''"

text \<open>\<open>out[k] = v\<close>\<close>

definition put :: "'k \<Rightarrow> 'v \<Rightarrow> ('k \<times> 'v) list \<Rightarrow> ('k \<times> 'v) list" where
  "put k v m = filter (\<lambda>p. fst p \<noteq> k) m @ [(k, v)]"

text \<open>\<open>strings.ReplaceAll(raw, "\r\n", "\n")\<close>\<close>

fun replace_crlf :: "string \<Rightarrow> string" where
  "replace_crlf (a # b # s) =
     (if a = CHR 13 \<and> b = CHR 10 then CHR 10 # replace_crlf s else a # replace_crlf (b # s))"
| "replace_crlf s = s"

definition normalize_lines :: "string \<Rightarrow> string list" where
  "normalize_lines raw = split_byte (CHR 10) (replace_byte (CHR 13) [CHR 10] (replace_crlf raw))"

definition parse_line :: "nat \<Rightarrow> string \<Rightarrow> line_err + (string \<times> string) option" where
  "parse_line n line =
     (let t = trim_space line in
      if t = [] then Inr None
      else if has_prefix t ''#'' then Inr None
      else if \<not> contains_str line ''='' then Inl (MissingSeparator n)
      else (case split_byte_n CHR ''='' 2 line of
              k # v # _ \<Rightarrow>
                (let key = trim_space k in
                 if key = [] then Inl (EmptyKey n)
                 else if \<not> keyRE key then Inl (BadKey n key)
                 else Inr (Some (key, v)))
            | _ \<Rightarrow> Inl (MissingSeparator n)))"

fun parse_lines :: "nat \<Rightarrow> (string \<times> string) list \<Rightarrow> string list \<Rightarrow> line_err + (string \<times> string) list" where
  "parse_lines n out [] = Inr out"
| "parse_lines n out (l # ls) =
     (case parse_line n l of
        Inl e \<Rightarrow> Inl e
      | Inr None \<Rightarrow> parse_lines (Suc n) out ls
      | Inr (Some (k, v)) \<Rightarrow> parse_lines (Suc n) (put k v out) ls)"

definition parseSecretsRaw :: "string \<Rightarrow> line_err + (string \<times> string) list" where
  "parseSecretsRaw raw = parse_lines 1 [] (normalize_lines raw)"

lemma map_of_put: "map_of (put k v m) = (map_of m)(k \<mapsto> v)"
proof -
  have "map_of (filter (\<lambda>p. fst p \<noteq> k) m) = (map_of m)(k := None)"
    by (induction m) (auto simp: fun_eq_iff)
  then show ?thesis by (auto simp: put_def map_add_def fun_eq_iff split: option.split)
qed

lemma distinct_put: "distinct (map fst m) \<Longrightarrow> distinct (map fst (put k v m))"
  by (auto simp: put_def distinct_map_filter)

lemma parse_line_key: "parse_line n l = Inr (Some (k, v)) \<Longrightarrow> keyRE k"
  by (auto simp: parse_line_def Let_def split: if_splits list.splits)

lemma parse_lines_ok:
  "parse_lines n out ls = Inr m \<Longrightarrow> distinct (map fst out) \<Longrightarrow> list_all (\<lambda>p. keyRE (fst p)) out \<Longrightarrow>
     distinct (map fst m) \<and> list_all (\<lambda>p. keyRE (fst p)) m"
proof (induction ls arbitrary: n out)
  case (Cons l ls)
  from Cons.prems(1) obtain r where r: "parse_line n l = Inr r" by (auto split: sum.splits)
  show ?case
  proof (cases r)
    case None
    then show ?thesis using Cons.prems r Cons.IH [of "Suc n" out] by simp
  next
    case (Some p)
    obtain k v where p: "p = (k, v)" by fastforce
    have "list_all (\<lambda>p. keyRE (fst p)) (put k v out)"
      using Cons.prems(3) parse_line_key [of n l k v] r Some p by (auto simp: put_def list_all_iff)
    then show ?thesis
      using Cons.prems r Some p distinct_put [OF Cons.prems(2)] Cons.IH [of "Suc n" "put k v out"] by simp
  qed
qed simp

lemma parseSecretsRaw_ok:
  "parseSecretsRaw raw = Inr m \<Longrightarrow> distinct (map fst m) \<and> (\<forall>(k, v) \<in> set m. keyRE k)"
  using parse_lines_ok [of 1 "[]" "normalize_lines raw" m] by (auto simp: parseSecretsRaw_def list_all_iff)

section \<open>Round trip of the text area\<close>

lemma is_letter_plain: "is_letter c \<Longrightarrow> plain_byte c"
  by (auto simp: is_letter_def is_lower_def is_upper_def plain_byte_def Let_def)

lemma key_start_plain: "key_start c \<Longrightarrow> plain_byte c"
  by (auto simp: key_start_def is_letter_plain) (simp add: plain_byte_def)

lemma is_digit_plain: "is_digit c \<Longrightarrow> plain_byte c"
  by (auto simp: is_digit_def plain_byte_def Let_def)

lemma keyRE_chars: "keyRE k \<Longrightarrow> k \<noteq> [] \<and> (\<forall>c \<in> set k. plain_byte c \<and> c \<noteq> CHR ''='' \<and> c \<noteq> CHR ''#'')"
proof -
  have "c \<noteq> CHR ''='' \<and> c \<noteq> CHR ''#''" if "key_start c \<or> is_digit c" for c
    using that by (auto simp: key_start_def is_letter_def is_lower_def is_upper_def is_digit_def)
  then show "keyRE k \<Longrightarrow> ?thesis"
    by (auto simp: keyRE_def list_all_iff key_start_plain is_digit_plain split: list.splits)
qed

lemma trim_left_runes_stop:
  assumes "\<And>r. r \<in> set rs \<Longrightarrow> c \<notin> set r"
  shows "\<exists>w. trim_left_runes rs (u @ [c]) = w @ [c]"
proof (induction "length u" arbitrary: u rule: less_induct)
  case less
  show ?case
  proof (cases "find (\<lambda>r. r \<noteq> [] \<and> has_prefix (u @ [c]) r) rs")
    case None
    then show ?thesis by (subst trim_left_runes.simps) auto
  next
    case (Some r)
    then have r: "r \<in> set rs" "r \<noteq> []" "has_prefix (u @ [c]) r" by (auto dest: find_SomeD)
    then obtain t where t: "u @ [c] = r @ t" by (auto simp: has_prefix_iff)
    have "t \<noteq> []" using assms [OF r(1)] t by (metis append_Nil2 in_set_conv_decomp)
    then obtain v where v: "t = v @ [c]" using t by (metis append_butlast_last_id last_append last_snoc)
    then have "u = r @ v" using t by simp
    with less.hyps [of v] r(2) obtain w where "trim_left_runes rs (v @ [c]) = w @ [c]" by auto
    moreover have "trim_left_runes rs (u @ [c]) = trim_left_runes rs t"
      using Some t by (subst trim_left_runes.simps) simp
    ultimately show ?thesis using v by auto
  qed
qed

lemma trim_space_head:
  assumes "plain_byte c"
  shows "\<exists>w. trim_space (c # s) = c # w"
proof -
  have "\<exists>w. trim_left_runes (map rev space_runes) (rev s @ [c]) = w @ [c]"
    using plain_byte_not_space [OF assms] by (intro trim_left_runes_stop) auto
  then obtain w where "trim_left_runes (map rev space_runes) (rev s @ [c]) = w @ [c]" ..
  then have "trim_right_space (c # s) = c # rev w" by (simp add: trim_right_space_def)
  then show ?thesis using trim_left_space_plain [OF assms, of s] by (simp add: trim_space_def)
qed

lemma split_at_eq: "sep \<notin> set k \<Longrightarrow> split_byte_n sep 2 (k @ sep # v) = [k, v]"
proof -
  assume k: "sep \<notin> set k"
  then have "dropWhile (\<lambda>c. c \<noteq> sep) (k @ sep # v) = sep # v" "takeWhile (\<lambda>c. c \<noteq> sep) (k @ sep # v) = k"
    by (subst dropWhile_append2 takeWhile_append2; auto)+
  moreover have two: "(2 :: nat) = Suc (Suc 0)" by simp
  ultimately show ?thesis unfolding two by (simp del: One_nat_def)
qed

lemma contains_eq: "contains_str (k @ CHR ''='' # v) ''=''"
  by (induction k) (auto simp: contains_str_def has_prefix_def)

lemma parse_line_entry:
  assumes "keyRE k"
  shows "parse_line n (k @ CHR ''='' # v) = Inr (Some (k, v))"
proof -
  obtain c cs where k: "k = c # cs" using keyRE_chars [OF assms] by (cases k) auto
  have c: "plain_byte c" "c \<noteq> CHR ''#''" using keyRE_chars [OF assms] k by auto
  obtain w where w: "trim_space (k @ CHR ''='' # v) = c # w"
    using trim_space_head [OF c(1), of "cs @ CHR ''='' # v"] k by auto
  moreover have "CHR ''='' \<notin> set k" and "trim_space k = k" and "k \<noteq> []"
    using keyRE_chars [OF assms] trim_space_plain_word [of k] by auto
  ultimately show ?thesis
    using c(2) assms by (simp add: parse_line_def has_prefix_def contains_eq split_at_eq)
qed

lemma trim_space_Nil [simp]: "trim_space [] = []"
proof -
  have "trim_left_runes rs [] = []" for rs
    by (rule trim_left_runes_none) (auto simp: has_prefix_def)
  then show ?thesis by (simp add: trim_space_def trim_left_space_def trim_right_space_def)
qed

lemma replace_crlf_free: "CHR 13 \<notin> set s \<Longrightarrow> replace_crlf s = s"
  by (induction s rule: replace_crlf.induct) auto

definition entry_line :: "RepoSecret \<Rightarrow> string" where
  "entry_line r = rs_key r @ CHR ''='' # rs_value r"

definition form_safe :: "RepoSecret list \<Rightarrow> bool" where
  "form_safe rows \<longleftrightarrow> distinct (map rs_key rows) \<and>
     (\<forall>r \<in> set rows. keyRE (rs_key r) \<and> CHR 13 \<notin> set (rs_value r) \<and> CHR 10 \<notin> set (rs_value r))"

lemma entry_line_plain:
  assumes "keyRE (rs_key r)" and "CHR 13 \<notin> set (rs_value r)" and "CHR 10 \<notin> set (rs_value r)"
  shows "CHR 13 \<notin> set (entry_line r) \<and> CHR 10 \<notin> set (entry_line r)"
proof -
  have "\<not> plain_byte (CHR 13)" "\<not> plain_byte (CHR 10)" by (simp_all add: plain_byte_def)
  with keyRE_chars [OF assms(1)] assms(2,3) show ?thesis by (auto simp: entry_line_def)
qed

lemma split_lines:
  "(\<And>l. l \<in> set ls \<Longrightarrow> sep \<notin> set l) \<Longrightarrow> split_byte sep (concat (map (\<lambda>l. l @ [sep]) ls)) = ls @ [[]]"
  by (induction ls) (simp_all add: split_byte_append_sep)

lemma raw_text_lines: "secretsToRawText rows = concat (map (\<lambda>l. l @ [CHR 10]) (map entry_line rows))"
  by (simp add: secretsToRawText_def entry_line_def comp_def)

lemma normalize_raw_text:
  assumes "form_safe rows"
  shows "normalize_lines (secretsToRawText rows) = map entry_line rows @ [[]]"
proof -
  have plain: "CHR 13 \<notin> set l \<and> CHR 10 \<notin> set l" if "l \<in> set (map entry_line rows)" for l
    using that assms entry_line_plain by (auto simp: form_safe_def)
  then have "CHR 13 \<notin> set (secretsToRawText rows)" unfolding raw_text_lines by auto
  then have "replace_byte (CHR 13) [CHR 10] (replace_crlf (secretsToRawText rows)) = secretsToRawText rows"
    by (simp add: replace_crlf_free replace_byte_free)
  then show ?thesis
    unfolding normalize_lines_def raw_text_lines using plain split_lines [of "map entry_line rows" "CHR 10"] by metis
qed

lemma put_fresh: "k \<notin> fst ` set m \<Longrightarrow> put k v m = m @ [(k, v)]"
  by (auto simp: put_def filter_id_conv image_iff)

lemma parse_lines_entries:
  assumes "\<And>r. r \<in> set rows \<Longrightarrow> keyRE (rs_key r)" and "distinct (map fst (out @ entries rows))"
  shows "parse_lines n out (map entry_line rows @ [[]]) = Inr (out @ entries rows)"
  using assms
proof (induction rows arbitrary: n out)
  case Nil
  then show ?case by (simp add: entries_def parse_line_def)
next
  case (Cons r rows)
  have "parse_line n (entry_line r) = Inr (Some (rs_key r, rs_value r))"
    using Cons.prems(1) by (simp add: entry_line_def parse_line_entry)
  moreover have "put (rs_key r) (rs_value r) out = out @ [(rs_key r, rs_value r)]"
    using Cons.prems(2) by (intro put_fresh) (auto simp: entries_def)
  ultimately show ?case using Cons.IH [of "out @ [(rs_key r, rs_value r)]"] Cons.prems
    by (simp add: entries_def)
qed

text \<open>What the page shows, submitted unchanged, is what is stored.\<close>

lemma parse_raw_text:
  assumes "form_safe rows"
  shows "parseSecretsRaw (secretsToRawText rows) = Inr (entries rows)"
proof -
  have "distinct (map fst ([] @ entries rows))"
    using assms by (simp add: entries_def form_safe_def comp_def)
  from parse_lines_entries [OF _ this, of 1] assms show ?thesis
    by (simp add: parseSecretsRaw_def normalize_raw_text form_safe_def)
qed

section \<open>Saving\<close>

definition secret_upserts :: "string \<Rightarrow> time \<Rightarrow> (string \<times> string) list \<Rightarrow> (string \<Rightarrow> string option) \<Rightarrow> RepoSecret list" where
  "secret_upserts repo now parsed current =
     map (\<lambda>k. \<lparr>rs_repo = repo, rs_key = k, rs_value = the (map_of parsed k), rs_updated = now\<rparr>)
       (filter (\<lambda>k. current k \<noteq> map_of parsed k) (sort (map fst parsed)))"

definition apply_diff ::
    "(string \<Rightarrow> ('s, 'e, RepoSecret list) prog) \<Rightarrow> (RepoSecret \<Rightarrow> ('s, 'e, unit) prog) \<Rightarrow>
     (string \<Rightarrow> string \<Rightarrow> ('s, 'e, unit) prog) \<Rightarrow> ('s, 'e, time) prog \<Rightarrow>
     (string list \<Rightarrow> string list) \<Rightarrow> string \<Rightarrow> (string \<times> string) list \<Rightarrow> ('s, 'e, unit) prog" where
  "apply_diff lst up del now ord repo parsed =
     bindE (lst repo) (\<lambda>rows.
       let current = map_of (rev (entries rows)) in
       bindE now (\<lambda>t.
       bindE (for_each up (secret_upserts repo t parsed current)) (\<lambda>_.
         for_each (del repo)
           (filter (\<lambda>k. map_of parsed k = None) (ord (remdups (map fst (entries rows))))))))"

definition applySecretDiff :: "(string list \<Rightarrow> string list) \<Rightarrow> string \<Rightarrow> (string \<times> string) list \<Rightarrow> unit db" where
  "applySecretDiff = apply_diff ListSecrets UpsertSecret DeleteSecret time_now"

text \<open>
  The pages. \<open>RequestPath\<close>, which the layout reads, and \<open>AddedN\<close>, \<open>UpdatedN\<close> and \<open>RemovedN\<close>, which no
  handler sets, are left out of the views.
\<close>

record repoSecretsView =
  sv_title :: string
  sv_repo :: string
  sv_owner_segment :: string
  sv_repo_segment :: string
  sv_raw :: string
  sv_saved :: bool
  sv_validation :: string
  sv_error :: string

text \<open>A plain error, a page with its status, or a redirect.\<close>

datatype secrets_page =
    SecretsError nat string
  | SecretsPage nat repoSecretsView
  | SecretsRedirect string

definition secrets_repo :: "string \<Rightarrow> string \<Rightarrow> string" where
  "secrets_repo rawOwner rawRepo = to_lower (trim_space rawOwner @ ''/'' @ trim_space rawRepo)"

definition secrets_url :: "string \<Rightarrow> string" where
  "secrets_url full = ''/admin/repos/'' @ full @ ''/secrets''"

definition secrets_view :: "string \<Rightarrow> string \<Rightarrow> repoSecretsView" where
  "secrets_view rawOwner rawRepo =
     \<lparr>sv_title = ''Secrets: '' @ secrets_repo rawOwner rawRepo, sv_repo = secrets_repo rawOwner rawRepo,
      sv_owner_segment = to_lower (trim_space rawOwner), sv_repo_segment = to_lower (trim_space rawRepo),
      sv_raw = [], sv_saved = False, sv_validation = [], sv_error = []\<rparr>"

text \<open>The form is None when \<open>ParseForm\<close> fails, else the value of its field \<open>raw\<close>.\<close>

definition repoSecretsPost ::
    "(string list \<Rightarrow> string list) \<Rightarrow> bool \<Rightarrow> string \<Rightarrow> string \<Rightarrow> string option \<Rightarrow> ('e, secrets_page) act" where
  "repoSecretsPost ord has_store rawOwner rawRepo form =
     (if trim_space rawOwner = [] \<or> trim_space rawRepo = [] then ret (SecretsError 404 ''owner and repo required'')
      else (let full = secrets_repo rawOwner rawRepo in
        case form of
          None \<Rightarrow> ret (SecretsError 400 ''invalid form'')
        | Some raw \<Rightarrow>
            (let v = (secrets_view rawOwner rawRepo)\<lparr>sv_raw := raw\<rparr> in
             case parseSecretsRaw raw of
               Inl e \<Rightarrow> ret (SecretsPage 200 (v\<lparr>sv_validation := line_err_text e\<rparr>))
             | Inr parsed \<Rightarrow>
                 if \<not> has_store then ret (SecretsPage 500 (v\<lparr>sv_error := ''repo secret store not configured''\<rparr>))
                 else bindE (attempt (applySecretDiff ord full parsed)) (\<lambda>r.
                   ret (case r of
                          Inl _ \<Rightarrow> SecretsPage 500 (v\<lparr>sv_error := ''failed to save secrets''\<rparr>)
                        | Inr _ \<Rightarrow> SecretsRedirect (secrets_url full @ ''?msg=saved''))))))"

text \<open>\<open>msg\<close> is the query parameter of this name, empty when it is absent.\<close>

definition repoSecretsGet :: "bool \<Rightarrow> string \<Rightarrow> string \<Rightarrow> string \<Rightarrow> ('e, secrets_page) act" where
  "repoSecretsGet has_store rawOwner rawRepo msg =
     (if trim_space rawOwner = [] \<or> trim_space rawRepo = [] then ret (SecretsError 404 ''owner and repo required'')
      else (let v = (secrets_view rawOwner rawRepo)\<lparr>sv_saved := (msg = ''saved'')\<rparr> in
        if \<not> has_store then ret (SecretsPage 200 v)
        else bindE (attempt (ListSecrets (secrets_repo rawOwner rawRepo))) (\<lambda>r.
          ret (SecretsPage 200 (case r of
                 Inl e \<Rightarrow> v\<lparr>sv_error := ''failed to load secrets''\<rparr>
               | Inr rows \<Rightarrow> v\<lparr>sv_raw := secretsToRawText rows\<rparr>)))))"

text \<open>The index: every repo with a preview or a secret, in order, with its number of secrets.\<close>

record repoRow =
  rr_repo :: string
  rr_secrets :: nat
  rr_edit :: string

record reposIndexView =
  ri_title :: string
  ri_rows :: "repoRow list"
  ri_error :: string

fun repo_rows :: "bool \<Rightarrow> string list \<Rightarrow> ('e, repoRow list) act" where
  "repo_rows has_store [] = ret []"
| "repo_rows has_store (repo # repos) =
     bindE (if has_store then attempt (ListSecrets repo) else ret (Inr [])) (\<lambda>r.
     bindE (repo_rows has_store repos) (\<lambda>rest.
       ret (\<lparr>rr_repo = repo, rr_secrets = (case r of Inl _ \<Rightarrow> 0 | Inr rows \<Rightarrow> length rows),
             rr_edit = secrets_url repo\<rparr> # rest)))"

definition repos_of :: "store_err + string list \<Rightarrow> string list" where
  "repos_of r = (case r of Inl _ \<Rightarrow> [] | Inr repos \<Rightarrow> map to_lower (filter (\<lambda>x. x \<noteq> []) repos))"

definition index_error :: "store_err + string list \<Rightarrow> store_err + string list \<Rightarrow> string" where
  "index_error ps ss =
     (case ps of Inl _ \<Rightarrow> ''failed to list previews''
      | Inr _ \<Rightarrow> (case ss of Inl _ \<Rightarrow> ''failed to list repo secrets'' | Inr _ \<Rightarrow> []))"

definition reposIndex :: "bool \<Rightarrow> bool \<Rightarrow> ('e, reposIndexView) act" where
  "reposIndex has_previews has_secrets =
     bindE (if has_previews then attempt ListRepos else ret (Inr [])) (\<lambda>ps.
     bindE (if has_secrets then attempt ListSecretRepos else ret (Inr [])) (\<lambda>ss.
     bindE (repo_rows has_secrets (sort (remdups (repos_of ps @ repos_of ss)))) (\<lambda>rows.
       ret \<lparr>ri_title = ''Repositories'', ri_rows = rows, ri_error = index_error ps ss\<rparr>)))"

lemma repo_rows_repos:
  "repo_rows b repos s = (Inr rows, s') \<Longrightarrow> map rr_repo rows = repos \<and> (\<forall>r \<in> set rows. rr_edit r = secrets_url (rr_repo r))"
  by (induction repos arbitrary: rows s s') (fastforce simp: bindE_Inr)+

text \<open>One row for each repo, in order.\<close>

lemma reposIndex_rows:
  assumes "reposIndex hp hs s = (Inr v, s')"
  shows "sorted (map rr_repo (ri_rows v)) \<and> distinct (map rr_repo (ri_rows v))"
  using assms by (auto simp: reposIndex_def bindE_Inr dest!: repo_rows_repos)

section \<open>Saving replaces the secrets of the repo\<close>

context secret_map begin

lemma upserts_view:
  assumes "ok s" and "for_each up xs s = (Inr (), s')" and "\<And>x. x \<in> set xs \<Longrightarrow> to_lower (rs_repo x) = repo"
  shows "ok s' \<and> view s' = (view s)(repo := view s repo ++ map_of (rev (entries xs)))"
  using assms
proof (induction xs arbitrary: s)
  case (Cons x xs)
  from Cons.prems(2) obtain s1 where one: "up x s = (Inr (), s1)" and rest: "for_each up xs s1 = (Inr (), s')"
    by (auto simp: bindE_Inr)
  have "ok s1" using ok_up [OF Cons.prems(1), of x] one by simp
  moreover have "view s1 = (view s)(repo := (view s repo)(rs_key x \<mapsto> rs_value x))"
    using up_law [OF Cons.prems(1) one] Cons.prems(3) [of x] by simp
  ultimately show ?case using Cons.IH [OF _ rest] Cons.prems(3)
    by (auto simp: entries_def fun_eq_iff map_add_def split: option.split)
qed (simp add: entries_def)

lemma deletes_view:
  assumes "ok s" and "for_each (del repo) ks s = (Inr (), s')" and "to_lower repo = repo"
  shows "ok s' \<and> view s' = (view s)(repo := view s repo |` (- set ks))"
  using assms
proof (induction ks arbitrary: s)
  case (Cons k ks)
  from Cons.prems(2) obtain s1 where one: "del repo k s = (Inr (), s1)" and rest: "for_each (del repo) ks s1 = (Inr (), s')"
    by (auto simp: bindE_Inr)
  have "ok s1" using ok_del [OF Cons.prems(1), of repo k] one by simp
  moreover have "view s1 = (view s)(repo := (view s repo)(k := None))"
    using del_law [OF Cons.prems(1) one] Cons.prems(3) by simp
  ultimately show ?case using Cons.IH [OF _ rest] Cons.prems(3)
    by (auto simp: fun_eq_iff restrict_map_def)
qed (auto simp: fun_eq_iff restrict_map_def)

lemma diff_replaces:
  assumes ok: "ok s" and run: "apply_diff lst up del now ord repo parsed s = (Inr (), s')"
    and low: "to_lower repo = repo" and ord: "range_order ord" and keys: "distinct (map fst parsed)"
  shows "ok s' \<and> view s' = (view s)(repo := map_of parsed)"
proof -
  from run obtain rows s1 t s2 s3 where l: "lst repo s = (Inr rows, s1)" and n: "now s1 = (Inr t, s2)"
    and u: "for_each up (secret_upserts repo t parsed (map_of (rev (entries rows)))) s2 = (Inr (), s3)"
    and d: "for_each (del repo) (filter (\<lambda>k. map_of parsed k = None) (ord (remdups (map fst (entries rows))))) s3 = (Inr (), s')"
    by (auto simp: apply_diff_def bindE_Inr Let_def)
  have s2: "ok s2" "view s2 = view s"
    using ok_lst [OF ok, of repo] view_lst [of repo s] ok_now [of s1] view_now [of s1] l n by simp_all
  have cur: "distinct (map fst (entries rows))" "map_of (entries rows) = view s repo"
    using lst_law [OF ok l] low by simp_all
  let ?ups = "secret_upserts repo t parsed (view s repo)"
  have norm: "to_lower (rs_repo x) = repo" if "x \<in> set (secret_upserts repo t parsed c)" for x c
    using that low by (auto simp: secret_upserts_def)
  from upserts_view [OF s2(1) u norm] have s3: "ok s3"
    "view s3 = (view s)(repo := view s repo ++ map_of (rev (entries ?ups)))"
    by (simp_all add: s2 map_of_rev [OF cur(1)] cur(2))
  from deletes_view [OF s3(1) d low] have s': "ok s'" "view s' = (view s)(repo :=
      (view s repo ++ map_of (rev (entries ?ups))) |` (- {k \<in> fst ` set (entries rows). map_of parsed k = None}))"
    using ord by (simp_all add: s3 range_order_def Collect_conj_eq)
  have ups: "map_of (rev (entries ?ups)) k = (if view s repo k \<noteq> map_of parsed k then map_of parsed k else None)" for k
  proof -
    let ?ks = "filter (\<lambda>k. view s repo k \<noteq> map_of parsed k) (sort (map fst parsed))"
    have "entries ?ups = map (\<lambda>k. (k, the (map_of parsed k))) ?ks"
      by (simp add: entries_def secret_upserts_def)
    moreover have "distinct ?ks" using keys by simp
    ultimately have "map_of (rev (entries ?ups)) k = map_of (map (\<lambda>k. (k, the (map_of parsed k))) ?ks) k"
      by (subst map_of_rev) (simp_all add: comp_def)
    also have "\<dots> = (if k \<in> set ?ks then Some (the (map_of parsed k)) else None)"
      by (simp only: map_of_map_restrict restrict_map_def comp_def)
    also have "k \<in> set ?ks \<longleftrightarrow> view s repo k \<noteq> map_of parsed k \<and> map_of parsed k \<noteq> None"
      by (auto simp: map_of_eq_None_iff)
    finally show ?thesis by simp
  qed
  have dom: "view s repo k \<noteq> None \<longleftrightarrow> k \<in> fst ` set (entries rows)" for k
    using cur(2) by (metis map_of_eq_None_iff)
  have "((view s repo ++ map_of (rev (entries ?ups))) |` (- {k \<in> fst ` set (entries rows). map_of parsed k = None})) k
      = map_of parsed k" for k
    using dom [of k] by (auto simp: restrict_map_def map_add_def ups split: option.split)
  with s' show ?thesis by presburger
qed

end

lemmas diff_replaces_secrets = secrets.diff_replaces [folded applySecretDiff_def]

section \<open>Contracts\<close>

lemma keeps_applySecretDiff [inv_rules]: "obeys (keeps db_ok) (applySecretDiff ord repo parsed)"
proof -
  have up: "obeys (keeps db_ok) (for_each UpsertSecret (secret_upserts repo t parsed c))" if "representable t" for t c
    by (intro inv_rules) (auto simp: secret_upserts_def that)
  show ?thesis
    unfolding applySecretDiff_def apply_diff_def Let_def
    by (intro keeps_time_now inv.bindE up inv.for_each inv_rules)
qed

lemma hist_applySecretDiff [hist_rules]: "obeys history (applySecretDiff ord repo parsed)"
  unfolding applySecretDiff_def apply_diff_def Let_def by (intro hist_rules)

lemma moves_applySecretDiff [move_rules]: "obeys (moves_of store_ok status_of T) (applySecretDiff ord repo parsed)"
  unfolding applySecretDiff_def apply_diff_def Let_def by (intro move_rules)

lemma keeps_repoSecretsPost [inv_rules]: "obeys (keeps db_ok) (repoSecretsPost ord b o1 r1 form)"
  unfolding repoSecretsPost_def Let_def by (intro inv_rules)

lemma hist_repoSecretsPost [hist_rules]: "obeys history (repoSecretsPost ord b o1 r1 form)"
  unfolding repoSecretsPost_def Let_def by (intro hist_rules)

lemma moves_repoSecretsPost [move_rules]: "obeys (moves_of store_ok status_of T) (repoSecretsPost ord b o1 r1 form)"
  unfolding repoSecretsPost_def Let_def by (intro move_rules)

end
