(* ===== verification/System.thy ===== *)
theory System
  imports WebhookCases SecretsForm
begin

text \<open>
  The hub as one transition system. Each rule is one entry point of the running daemon as
  cmd/hub/daemon.go wires it: a start of the process, a request, a frame of an agent, a tick
  of the reconciler, a connection that opens, breaks or closes. A step runs its handler to
  the end; the label tells whether the step carries a status report of an agent.
\<close>

section \<open>Start and stop of the daemon\<close>

text \<open>The argument: no development token, or bcrypt's outcome on it.\<close>

definition startup :: "string option option \<Rightarrow> (hub_err, unit) act" where
  "startup dev =
     bindE (store ResetAllOnline) (\<lambda>_.
     bindE (store ResetAllAssigned) (\<lambda>_.
       case dev of None \<Rightarrow> ret () | Some h \<Rightarrow> logged (provisionDevAgent h)))"

text \<open>A new process: an empty registry, a dispatcher that is not paused.\<close>

definition new_process :: "hub \<Rightarrow> hub" where
  "new_process s = s\<lparr>conns := [], outbox := [], broken := [], paused := False\<rparr>"

text \<open>What the daemon does on SIGTERM: the dispatcher pauses, then every connection is closed.\<close>

definition shutdown :: "hub \<Rightarrow> hub" where
  "shutdown s = closeAll (Pause s)"

record daemon =
  dm_digest :: "string \<Rightarrow> string"
  dm_unmarshal :: "string \<Rightarrow> pullRequestEvent option"
  dm_bcrypt :: "string \<Rightarrow> string \<Rightarrow> bool"
  dm_url :: "string \<Rightarrow> string + string"

definition wired :: "(string list \<Rightarrow> string list) \<Rightarrow> ui_wiring" where
  "wired ord = \<lparr>w_secrets = True, w_dispatcher = True, w_teardown = True, w_order = ord\<rparr>"

datatype label = Own | Report StatusUpdateData

fun label_of :: "envelope option \<Rightarrow> label" where
  "label_of (Some (StatusUpdate d)) = Report d"
| "label_of _ = Own"

section \<open>Steps\<close>

inductive hub_step :: "daemon \<Rightarrow> label \<Rightarrow> hub \<Rightarrow> hub \<Rightarrow> bool" for k :: daemon where
  Start: "startup dev (new_process s) = (r, s') \<Longrightarrow> hub_step k Own s s'"
| Stop: "hub_step k Own s (shutdown s)"
| Hook: "handleWebhook (dm_digest k) (dm_unmarshal k) True rq s = (r :: hub_err + reply, s') \<Longrightarrow> hub_step k Own s s'"
| DeletePreview: "deletePreview True raw s = (r :: hub_err + reply, s') \<Longrightarrow> hub_step k Own s s'"
| Accept: "ServeHTTP (dm_bcrypt k) hdr s = (r :: hub_err + (reply + Agent), s1) \<Longrightarrow>
    (case r of Inr (Inr a) \<Rightarrow> snd (session (ag_id a) c first s1 :: (hub_err + handshake) \<times> hub) = s'
     | _ \<Rightarrow> s' = s1) \<Longrightarrow> hub_step k Own s s'"
| Frame: "connFor s ag \<noteq> None \<Longrightarrow> readLoop_frame True ag e s = (r :: hub_err + unit, s') \<Longrightarrow>
    hub_step k (label_of e) s s'"
| Sync: "range_order ord \<Longrightarrow> syncOnHello ord True True ag h s = (r :: hub_err + unit, s') \<Longrightarrow> hub_step k Own s s'"
| Broken: "hub_step k Own s (s\<lparr>broken := c # broken s\<rparr>)"
| Closed: "session_end ag c s = (r :: hub_err + unit, s') \<Longrightarrow> hub_step k Own s s'"
| Tick: "tick staleAfter s = (r, s') \<Longrightarrow> hub_step k Own s s'"
| CreateAgentAPI: "createAgentAPI req tok s = (r :: hub_err + reply, s') \<Longrightarrow> hub_step k Own s s'"
| DeleteAgentAPI: "deleteAgentAPI raw s = (r :: hub_err + reply, s') \<Longrightarrow> hub_step k Own s s'"
| CreateForm: "CreateAgentForm form tok s = (r :: hub_err + ui_reply, s') \<Longrightarrow> hub_step k Own s s'"
| DeleteForm: "agentDelete raw s = (r :: hub_err + ui_reply, s') \<Longrightarrow> hub_step k Own s s'"
| Teardowns: "agentTeardowns (wired ord) raw s = (r :: hub_err + ui_reply, s') \<Longrightarrow> hub_step k Own s s'"
| Rebuild: "previewRebuild (wired ord) j raw s = (r :: hub_err + ui_reply, s') \<Longrightarrow> hub_step k Own s s'"
| StopPreview: "previewStop (wired ord) raw s = (r :: hub_err + ui_reply, s') \<Longrightarrow> hub_step k Own s s'"
| TestBuild: "testBuildSubmit (dm_url k) (wired ord) raw f s = (r :: hub_err + ui_reply, s') \<Longrightarrow> hub_step k Own s s'"
| Secrets: "repoSecretsPost ord True owner repo f s = (r :: hub_err + secrets_page, s') \<Longrightarrow> hub_step k Own s s'"

inductive_cases reportE: "hub_step k (Report d) s s'"

fun_cases label_ofE: "label_of e = Report d"

lemma label_of_Report: "label_of e = Report d \<longleftrightarrow> e = Some (StatusUpdate d)"
  by (auto elim: label_ofE)

text \<open>Runs: the labels of the steps, in order.\<close>

inductive hub_run :: "daemon \<Rightarrow> label list \<Rightarrow> hub \<Rightarrow> hub \<Rightarrow> bool" for k :: daemon where
  Nil: "hub_run k [] s s"
| Snoc: "hub_run k ls s s' \<Longrightarrow> hub_step k l s' s'' \<Longrightarrow> hub_run k (ls @ [l]) s s''"

inductive_simps run_nil [simp]: "hub_run k [] s s'"
inductive_simps run_snoc: "hub_run k (ls @ [l]) s s'"

lemma run_one: "hub_run k [l] s s' \<longleftrightarrow> hub_step k l s s'"
  using run_snoc [of k "[]" l s s'] by simp

section \<open>Contracts of the daemon\<close>

text \<open>
  A contract of the daemon is one that every entry point obeys; the predicate tells for which
  status reports this is required. What every entry point obeys, every run obeys.
\<close>

locale daemon_contract = contract R for R :: "hub \<Rightarrow> hub \<Rightarrow> bool" +
  fixes reports :: "StatusUpdateData \<Rightarrow> bool"
  assumes renewed: "R s (new_process s)" and stopped: "R s (shutdown s)" and broke: "R s (s\<lparr>broken := c # broken s\<rparr>)"
    and reset_online: "obeys R ResetAllOnline" and reset_assigned: "obeys R ResetAllAssigned"
    and dev_agent: "obeys R (provisionDevAgent h)"
    and webhook: "obeys R (handleWebhook digest unmarshal True rq :: (hub_err, reply) act)"
    and delete_preview: "obeys R (deletePreview True raw :: (hub_err, reply) act)"
    and auth: "obeys R (ServeHTTP bcrypt hdr :: (hub_err, reply + Agent) act)"
    and session: "obeys R (session ag conn first :: (hub_err, handshake) act)"
    and ready: "obeys R (OnReady True ag)"
    and report: "reports d \<Longrightarrow> obeys R (OnStatusUpdate ag d)"
    and sync: "range_order ord \<Longrightarrow> obeys R (syncOnHello ord True True ag hello :: (hub_err, unit) act)"
    and closed: "obeys R (session_end ag conn :: (hub_err, unit) act)"
    and ticked: "obeys R (tick staleAfter)"
    and create_agent: "obeys R (createAgentAPI req tok :: (hub_err, reply) act)"
    and delete_agent: "obeys R (deleteAgentAPI raw :: (hub_err, reply) act)"
    and create_form: "obeys R (CreateAgentForm form tok :: (hub_err, ui_reply) act)"
    and delete_form: "obeys R (agentDelete raw :: (hub_err, ui_reply) act)"
    and teardowns: "obeys R (agentTeardowns w raw :: (hub_err, ui_reply) act)"
    and rebuild: "obeys R (previewRebuild w json raw :: (hub_err, ui_reply) act)"
    and stop_preview: "obeys R (previewStop w raw :: (hub_err, ui_reply) act)"
    and test_build: "obeys R (testBuildSubmit url w raw build :: (hub_err, ui_reply) act)"
    and secrets: "obeys R (repoSecretsPost ord True own repo txt :: (hub_err, secrets_page) act)"
begin

lemma started: "obeys R (startup dev)"
  unfolding startup_def
  by (intro bindE ret obeys_store obeys_option obeys_logged reset_online reset_assigned dev_agent)

lemma frame_obeys:
  assumes "\<And>d. label_of e = Report d \<Longrightarrow> reports d"
  shows "obeys R (readLoop_frame True ag e :: (hub_err, unit) act)"
  using assms obeys_logged [OF ready] obeys_logged [OF report] ret
  by (cases "(True, ag, e)" rule: readLoop_frame.cases) simp_all

lemma step:
  assumes "hub_step k l s s'" and "\<And>d. l = Report d \<Longrightarrow> reports d"
  shows "R s s'"
  using assms
proof cases
  case (Start dev r)
  show ?thesis using renewed obeysD [OF started Start(2)] by (rule trans)
next
  case (Accept hdr r s1 c first)
  have one: "R s s1" using obeysD [OF auth Accept(2)] .
  show ?thesis
  proof (cases "\<exists>a. r = Inr (Inr a)")
    case True
    then obtain a where "r = Inr (Inr a)" ..
    with Accept(3) have "R s1 s'" using obeys_apply [OF session, of s1 "ag_id a"] by auto
    with one show ?thesis by (rule trans)
  next
    case False
    with Accept(3) one show ?thesis by (auto split: sum.splits)
  qed
next
  case (Frame ag e r)
  then have "obeys R (readLoop_frame True ag e :: (hub_err, unit) act)"
    using assms(2) by (intro frame_obeys) simp
  then show ?thesis using Frame(3) by (rule obeysD)
qed (use renewed stopped broke in \<open>auto dest: obeysD [OF webhook] obeysD [OF delete_preview] obeysD [OF sync]
    obeysD [OF closed] obeysD [OF ticked] obeysD [OF create_agent] obeysD [OF delete_agent]
    obeysD [OF create_form] obeysD [OF delete_form] obeysD [OF teardowns] obeysD [OF rebuild]
    obeysD [OF stop_preview] obeysD [OF test_build] obeysD [OF secrets]\<close>)

lemma run:
  assumes "hub_run k ls s s'" and "\<And>d. Report d \<in> set ls \<Longrightarrow> reports d"
  shows "R s s'"
  using assms
proof (induction rule: hub_run.induct)
  case (Snoc ls s s' l s'')
  have "R s' s''" using Snoc.hyps(2) Snoc.prems by (intro step) auto
  moreover have "R s s'" using Snoc by auto
  ultimately show ?case using trans by blast
qed simp

end

section \<open>The database\<close>

lemma same_ServeHTTP [same_rules]: "obeys tabs_same (ServeHTTP bcrypt hdr)"
  unfolding ServeHTTP_def findAgentByToken_def by (intro same_rules)

lemma clock_ok_same: "clock s' = clock s \<Longrightarrow> clock_ok s' = clock_ok s"
  by (simp add: clock_ok_def)

lemma process_effects [simp]:
  "tabs (new_process s) = tabs s" "clock (new_process s) = clock s"
  "tabs (shutdown s) = tabs s" "clock (shutdown s) = clock s"
  by (simp_all add: new_process_def shutdown_def closeAll_def Pause_def)

interpretation database: daemon_contract "keeps db_ok" "\<lambda>_. True"
  by unfold_locales
    ((simp add: keeps_def clock_ok_def)?;
     (intro inv_rules obeys_keeps_of_same [OF same_ServeHTTP])?)+

interpretation past: daemon_contract history "\<lambda>_. True"
  by unfold_locales
    ((simp add: history_def)?; (intro hist_rules history_same [OF same_ServeHTTP])?)+

section \<open>The statuses\<close>

text \<open>What the hub does of its own accord, without a report of an agent.\<close>

definition own_moves :: transitions where
  "own_moves i a b \<longleftrightarrow>
     a = Some ''queued'' \<and> b = Some ''assigned'' \<or>
     a \<in> {None, Some ''assigned'', Some ''queued'', Some ''done'', Some ''failed''} \<and> b = Some ''queued'' \<or>
     a \<noteq> None \<and> b = Some ''teardown'' \<or>
     a \<in> Some ` set hello_statuses \<and> b = Some ''failed''"

lemma obeys_own:
  assumes "obeys (moves_of store_ok status_of T) m" and "\<And>i a b. T i a b \<Longrightarrow> own_moves i a b"
  shows "obeys (moves_of store_ok status_of own_moves) m"
  using moves_of_mono [OF obeysD [OF assms(1)]] assms(2) by (intro obeysI) blast

lemma moves_ResetAllAssigned: "obeys (moves_of store_ok status_of requeueing) ResetAllAssigned"
proof (rule obeysI)
  fix s r s' assume run: "ResetAllAssigned s = (r, s')"
  have ok: "store_ok s \<Longrightarrow> store_ok s'" by (rule store_ok_kept [OF wf_ResetAllAssigned _ run])
  show "moves_of store_ok status_of requeueing s s'"
  proof (cases r)
    case (Inl e)
    with run have "status_of s' = status_of s" by (metis atomicD atomic_ResetAllAssigned status_of_same)
    then show ?thesis using ok by (intro moves_ofI) simp_all
  next
    case (Inr n)
    with run obtain now evs where t: "tabs s' = (tabs s)\<lparr>tb_previews := update_where (\<lambda>q. row_status q = ''assigned'')
        (reset_row now) (tb_previews (tabs s)), tb_events := tb_events (tabs s) @ evs\<rparr>"
      using ResetAllAssigned_Inr by blast
    have "status_of s' i = status_of s i \<or> requeueing i (status_of s i) (status_of s' i)" for i
      unfolding status_of_def t
      by (cases "find (\<lambda>r. row_id r = i) (tb_previews (tabs s))")
        (auto simp: find_update_where_key reset_row_def requeueing_def)
    then show ?thesis using ok by (intro moves_ofI) simp_all
  qed
qed

lemma moves_process: "tabs s' = tabs s \<Longrightarrow> clock s' = clock s \<Longrightarrow> moves_of store_ok status_of T s s'"
  by (rule moves_ofI) (simp_all add: store_ok_def clock_ok_def status_of_def)

lemma moves_own:
  "webhook_moves i a b \<Longrightarrow> own_moves i a b" "losing i a b \<Longrightarrow> own_moves i a b"
  "requeueing i a b \<Longrightarrow> own_moves i a b" "dispatching i a b \<Longrightarrow> own_moves i a b"
  by (auto simp: own_moves_def webhook_moves_def losing_def requeueing_def dispatching_def)

lemma admin_own: "admin_moves i a b \<Longrightarrow> own_moves i a b"
proof -
  assume "admin_moves i a b"
  then consider "a \<in> Some ` set busy_statuses" "b = Some ''teardown''"
    | "a \<in> {None, Some ''done'', Some ''failed''}" "b = Some ''queued''" | "dispatching i a b"
    unfolding admin_moves_def by blast
  then show ?thesis
  proof cases
    case 3
    then show ?thesis by (rule moves_own(4))
  qed (auto simp: own_moves_def)
qed

interpretation own: daemon_contract "moves_of store_ok status_of own_moves" "\<lambda>_. False"
proof (unfold_locales, goal_cases)
  case (1 s)
  then show ?case by (rule moves_process) simp_all
next
  case (2 s)
  then show ?case by (rule moves_process) simp_all
next
  case (3 s c)
  then show ?case by (rule moves_process) simp_all
next
  case 5
  show ?case by (rule obeys_own [OF moves_ResetAllAssigned]) (rule moves_own)
next
  case 7
  show ?case by (rule obeys_own [OF moves_handleWebhook]) (rule moves_own)
next
  case 8
  show ?case by (rule obeys_own [OF moves_deletePreview]) (simp add: own_moves_def)
next
  case 9
  show ?case by (intro moves_same same_ServeHTTP)
next
  case 10
  show ?case by (rule moves_session)
next
  case 11
  show ?case by (rule obeys_own [OF moves_OnReady]) (rule moves_own)
next
  case (12 d ag)
  then show ?case by simp
next
  case 13
  then show ?case by (rule obeys_own [OF moves_syncOnHello]) (rule moves_own)
next
  case 14
  show ?case by (rule moves_session_end)
next
  case 15
  show ?case by (rule obeys_own [OF moves_tick]) (rule moves_own)
next
  case 20
  show ?case by (rule obeys_own [OF moves_agentTeardowns]) (rule admin_own)
next
  case 21
  show ?case by (rule obeys_own [OF moves_preview_actions(1)]) (rule admin_own)
next
  case 22
  show ?case by (rule obeys_own [OF moves_preview_actions(2)]) (rule admin_own)
next
  case 23
  show ?case by (rule obeys_own [OF moves_preview_actions(3)]) (rule admin_own)
qed (intro move_rules moves_agent_forms)+

text \<open>So only a report makes a preview building, running or done.\<close>

definition agent_statuses :: "string set" where
  "agent_statuses = {''building'', ''running'', ''done''}"

lemma own_moves_into:
  assumes "rtranclp (own_moves i) a b" and "b = Some st" and "st \<in> agent_statuses"
  shows "a = b"
  using assms by (induction rule: rtranclp_induct) (auto simp: own_moves_def agent_statuses_def)

lemma own_moves_alive: "rtranclp (own_moves i) a b \<Longrightarrow> a \<noteq> None \<Longrightarrow> b \<noteq> None"
  by (induction rule: rtranclp_induct) (auto simp: own_moves_def)

section \<open>The registry\<close>

text \<open>No handler outside a session's start and end touches the registry; it stays a map.\<close>

definition registry_kept :: "hub \<Rightarrow> hub \<Rightarrow> bool" where
  "registry_kept s s' \<longleftrightarrow> (registry_ok s \<longrightarrow> registry_ok s')"

interpretation reg: contract registry_kept
  by unfold_locales (auto simp: registry_kept_def)

lemma registry_of_frame: "obeys db_only m \<Longrightarrow> obeys registry_kept m"
  by (auto simp: obeys_def registry_kept_def dest: frame_registry_ok)

lemma registry_sends:
  "obeys registry_kept (SendJobAssign ag job)" "obeys registry_kept (SendTeardown ag i)"
  "obeys registry_kept (write_frame c e)" "obeys registry_kept (unregister ag c)"
  by (auto simp: obeys_def registry_kept_def registry_ok_def SendJobAssign_def SendTeardown_def send_to_def
      write_frame_def unregister_def remove_conn_def distinct_map_filter split: option.splits)

lemmas registry_rules =
  reg.rules obeys_cases obeys_attempt obeys_logged obeys_store registry_sends
  registry_of_frame [OF db_only_env(1)] registry_of_frame [OF db_only_env(2)]

lemmas store_frames =
  frame_Upsert frame_UpdateStatus frame_Claim frame_ResetAllAssigned frame_reads frame_agents frame_secrets
  frame_hydrate

lemma registry_OnReady: "obeys registry_kept (OnReady rs ag)"
proof (rule obeys_OnReady [OF reg.contract_axioms])
  show "obeys registry_kept (OnReady_active rs ag)"
    unfolding OnReady_active_def claim_for_def dispatch_claimed_def
    by (intro registry_rules registry_of_frame store_frames)
qed

lemma registry_OnStatusUpdate: "obeys registry_kept (OnStatusUpdate ag d)"
  unfolding OnStatusUpdate_def by (intro registry_rules registry_of_frame store_frames)

lemma registry_triggerDispatch: "obeys registry_kept (triggerDispatch w)"
  by (rule obeys_triggerDispatch [OF reg.contract_axioms registry_OnReady])

lemma registry_webhook:
  "obeys registry_kept (handleWebhook digest unmarshal ts rq)" "obeys registry_kept (deletePreview ts raw)"
  unfolding handleWebhook_def dispatch_action_def handleUpsert_def supersede_def after_upsert_def
    handleClose_def findPreviewByRepoPR_def send_teardown_for_def deletePreview_def Let_def
  by (intro registry_rules registry_of_frame store_frames)+

lemma registry_markOffline: "obeys registry_kept (markOffline ag)"
  by (rule registry_of_frame [OF markOffline_frame])

lemma registry_session: "obeys registry_kept (session ag c first)" "obeys registry_kept (session_end ag c)"
proof -
  show "obeys registry_kept (session ag c first)"
  proof (rule obeys_session [OF reg.contract_axioms])
    show "registry_kept s (snd (add_conn ag c s))" for s
      by (simp add: registry_kept_def registry_add)
    show "obeys registry_kept (session_registered ag c h)" for h
      unfolding session_registered_def
      by (intro registry_rules registry_markOffline registry_of_frame store_frames)
  qed
  show "obeys registry_kept (session_end ag c)"
    unfolding session_end_def by (intro registry_rules registry_markOffline)
qed

lemma registry_pages:
  "obeys registry_kept (ServeHTTP bcrypt hdr)"
  "obeys registry_kept (syncOnHello ord has_store ts ag h)"
  "obeys registry_kept (provisionDevAgent hash)"
  "obeys registry_kept (createAgentAPI req tok)" "obeys registry_kept (deleteAgentAPI raw)"
  "obeys registry_kept (CreateAgentForm form tok)" "obeys registry_kept (agentDelete raw)"
  "obeys registry_kept (agentTeardowns w raw)" "obeys registry_kept (previewRebuild w j raw)"
  "obeys registry_kept (previewStop w raw)" "obeys registry_kept (testBuildSubmit url w raw f)"
  unfolding ServeHTTP_def findAgentByToken_def syncOnHello_def provisionDevAgent_def createAgentAPI_def
    deleteAgentAPI_def CreateAgentForm_def agentDelete_def agentTeardowns_def teardown_one_def
    previewRebuild_def previewStop_def testBuildSubmit_def requeue_adhoc_def create_adhoc_def
    fetch_preview_def Let_def
  by (intro registry_rules registry_triggerDispatch registry_of_frame store_frames)+

lemma registry_tick: "obeys registry_kept (tick staleAfter)"
  unfolding tick_def requeue_stale_def requeue_def
  by (intro registry_rules obeys_count_orphans registry_of_frame store_frames)

lemma registry_secrets: "obeys registry_kept (repoSecretsPost ord b own repo txt)"
  unfolding repoSecretsPost_def applySecretDiff_def apply_diff_def Let_def
  by (intro registry_rules registry_of_frame store_frames)

interpretation registry: daemon_contract registry_kept "\<lambda>_. True"
proof (unfold_locales, goal_cases)
  case 2
  show ?case by (simp add: registry_kept_def registry_ok_def shutdown_def closeAll_def Pause_def)
next
  case 15
  show ?case by (rule registry_tick)
qed (simp add: registry_kept_def registry_ok_def new_process_def |
  intro registry_pages registry_webhook registry_session registry_OnReady registry_OnStatusUpdate
    registry_secrets registry_of_frame store_frames)+

end
