(* ===== verification/Samples.thy ===== *)
theory Samples
  imports WsLaws
begin

text \<open>
  A small hub state on which the properties are applied: one agent, connected on connection 7,
  one preview of PR 7 of the repo \<open>o/r\<close>, in any status and assigned or not, its events, a
  clock that stands still and identifiers \<open>u0, u1, ...\<close>.
\<close>

definition t0 :: time where "t0 = 63871200000 * nanos_per_sec"

lemma t0_representable [simp]: "representable t0"
  by (simp add: representable_def seconds_def t0_def nanos_per_sec_def days_before_year_def)

definition sample_row :: "string \<Rightarrow> string option \<Rightarrow> preview_row" where
  "sample_row st ag = \<lparr>row_id = ''p1'', row_repo = ''o/r'', row_pr = 7, row_sha = Some ''abc'',
     row_branch = ''main'', row_status = st, row_agent = ag, row_container = None, row_host = None,
     row_port = None, row_labels = ''[]'', row_error = None, row_created = iso8601 t0,
     row_updated = iso8601 t0, row_clone_url = ''url'', row_urls = [], row_adhoc = 0\<rparr>"

definition sample_events :: "string \<Rightarrow> event_row list" where
  "sample_events st =
     \<lparr>ev_id = ''e1'', ev_preview = ''p1'', ev_from = None, ev_to = ''queued'', ev_message = [],
      ev_created = iso8601 t0\<rparr> #
     (if st = ''queued'' then []
      else [\<lparr>ev_id = ''e2'', ev_preview = ''p1'', ev_from = Some ''queued'', ev_to = st, ev_message = [],
             ev_created = iso8601 t0\<rparr>])"

definition sample_agent :: agent_row where
  "sample_agent = \<lparr>arow_id = ''a1'', arow_name = ''n1'', arow_token_hash = ''h'', arow_labels = ''[]'',
     arow_status = ''online'', arow_last_seen = None, arow_created = iso8601 t0\<rparr>"

definition sample :: "string \<Rightarrow> string option \<Rightarrow> hub" where
  "sample st ag = \<lparr>tabs = \<lparr>tb_previews = [sample_row st ag], tb_events = sample_events st,
       tb_agents = [sample_agent], tb_secrets = []\<rparr>,
     conns = [(''a1'', 7)], outbox = [], broken = [], paused = False, faults = (\<lambda>_. False),
     uuids = (\<lambda>n. CHR ''u'' # nat_str n), clock = (\<lambda>_. t0), seqno = 0\<rparr>"

lemma decodeLabels_sample [simp]: "decodeLabels ''[]'' = Some []"
  by code_simp

lemmas sample_defs = sample_def sample_row_def sample_events_def sample_agent_def

lemma sample_simps [simp]:
  "conns (sample st ag) = [(''a1'', 7)]" "outbox (sample st ag) = []" "broken (sample st ag) = []"
  "paused (sample st ag) = False" "faults (sample st ag) = (\<lambda>_. False)" "clock (sample st ag) = (\<lambda>_. t0)"
  "tb_previews (tabs (sample st ag)) = [sample_row st ag]" "tb_agents (tabs (sample st ag)) = [sample_agent]"
  "tb_events (tabs (sample st ag)) = sample_events st" "tb_secrets (tabs (sample st ag)) = []"
  "arow_id sample_agent = ''a1''" "connFor (sample st ag) ''a1'' = Some 7"
  by (simp_all add: sample_def sample_agent_def connFor_def)

lemma sample_calm [simp]: "calm (sample st ag)"
  by (auto simp: calm_def sample_defs used_ids_def inj_def)

lemma sample_clock [simp]: "clock_ok (sample st ag)"
  by (simp add: clock_ok_def sample_defs)

lemma sample_wf: "ag = None \<or> ag = Some ''a1'' \<Longrightarrow> wf_tables (tabs (sample st ag))"
  by (auto simp: wf_tables_def sample_defs sha_unique_def agent_refs_def event_refs_def)

lemma sample_db_ok [simp]: "db_ok (tabs (sample st None))" "db_ok (tabs (sample st (Some ''a1'')))"
proof -
  have "decodable (tabs (sample st ag))" for ag
    by (auto simp: decodable_def decodable_preview_def decodable_agent_def sample_defs)
  moreover have "journal (tabs (sample st ag))" for ag
    by (auto simp: journal_def events_of_def sample_defs)
  ultimately show "db_ok (tabs (sample st None))" "db_ok (tabs (sample st (Some ''a1'')))"
    using sample_wf by (auto simp: db_ok_def)
qed

lemma sample_store_ok [simp]: "store_ok (sample st None)" "store_ok (sample st (Some ''a1''))"
  using sample_wf by (auto simp: store_ok_def)

lemma sample_status [simp]: "status_of (sample st ag) ''p1'' = Some st"
  by (simp add: status_of_def sample_defs)

end
