(* ===== verification/HubProperties.thy ===== *)
theory HubProperties
  imports System Samples
begin

text \<open>
  The properties of the hub, each a corollary of the laws of its component, and for each
  property with a hypothesis a run on the sample state to which it applies.
\<close>

section \<open>The system\<close>

lemma sample_registry [simp]: "registry_ok (sample st ag)"
  by (simp add: registry_ok_def sample_defs)

text \<open>A run of two steps on the sample: a tick of the reconciler, then a shutdown.\<close>

definition sample_daemon :: daemon where
  "sample_daemon = \<lparr>dm_digest = (\<lambda>_. ''k''), dm_unmarshal = (\<lambda>_. None), dm_bcrypt = (\<lambda>_ _. False),
     dm_url = Inr\<rparr>"

definition ticked :: "hub \<Rightarrow> hub" where
  "ticked s = snd (tick 0 s)"

lemma sample_run: "hub_run sample_daemon [Own, Own] s (shutdown (ticked s))"
proof -
  have "hub_step sample_daemon Own s (ticked s)"
    unfolding ticked_def by (rule hub_step.Tick [of 0 s "fst (tick 0 s)"]) simp
  then have "hub_run sample_daemon [Own] s (ticked s)" by (simp add: run_one)
  from hub_run.Snoc [OF this hub_step.Stop] show ?thesis by simp
qed

text \<open>C1: every run of the daemon, whatever fails and in whatever order its entry points are
  called, keeps the database consistent (constraints of the schema, decodable rows, an event
  journal that explains every status) and the registry a map of agents to connections.\<close>

theorem hub_invariant:
  assumes "hub_run k ls s s'" and "clock_ok s" and "db_ok (tabs s)" and "registry_ok s"
  shows "db_ok (tabs s') \<and> registry_ok s'"
  using database.run [OF assms(1)] registry.run [OF assms(1)] assms(2-4)
  by (auto simp: keeps_def registry_kept_def)

theorem hub_invariant_witness:
  "db_ok (tabs (shutdown (ticked (sample ''assigned'' (Some ''a1''))))) \<and>
   registry_ok (shutdown (ticked (sample ''assigned'' (Some ''a1''))))"
  by (rule hub_invariant [OF sample_run]) simp_all

text \<open>C2: history is never rewritten: along every run the event log only grows, no preview
  disappears, and a preview keeps its repo, its creation time, its origin and, once it has one,
  its commit.\<close>

theorem hub_history:
  assumes "hub_run k ls s s'"
  shows "(\<exists>es. tb_events (tabs s') = tb_events (tabs s) @ es) \<and>
    (\<forall>r \<in> set (tb_previews (tabs s)). \<exists>r' \<in> set (tb_previews (tabs s')).
       row_id r' = row_id r \<and> row_repo r' = row_repo r \<and> row_created r' = row_created r \<and>
       row_adhoc r' = row_adhoc r \<and> (row_sha r \<noteq> None \<longrightarrow> row_sha r' = row_sha r))"
  using past.run [OF assms] by (simp add: history_def evolves_def same_preview_def)

theorem hub_history_witness:
  "\<exists>es. tb_events (tabs (shutdown (ticked (sample ''queued'' None)))) = sample_events ''queued'' @ es"
  using hub_history [OF sample_run, of "sample ''queued'' None"] by (simp add: sample_def)

text \<open>C17: only a status report of an agent makes a preview building, running or done: after a
  run without reports, a preview in one of these statuses was in it before.\<close>

theorem only_reports_progress:
  assumes "hub_run k ls s s'" and "store_ok s" and "\<forall>l \<in> set ls. l = Own"
    and "status_of s' i = Some st" and "st \<in> {''building'', ''running'', ''done''}"
  shows "status_of s i = Some st"
proof -
  have "moves_of store_ok status_of own_moves s s'"
    using assms(3) by (intro own.run [OF assms(1)]) auto
  then have "rtranclp (own_moves i) (status_of s i) (status_of s' i)"
    using assms(2) by (simp add: moves_of_def)
  from own_moves_into [OF this assms(4)] assms(4,5) show ?thesis by (simp add: agent_statuses_def)
qed

theorem only_reports_progress_witness:
  "status_of (shutdown (ticked (sample ''queued'' None))) ''p1'' \<noteq> Some ''running''"
  using only_reports_progress [OF sample_run, of "sample ''queued'' None" "''p1''" "''running''"] by auto

section \<open>Dispatch\<close>

text \<open>C8: a READY of a connected agent, with the dispatcher running, a preview it may build
  among the first fifty queued and no failure, assigns one such preview and writes exactly one
  job, last, to the agent's connection.\<close>

theorem ready_is_answered:
  assumes "calm s" and "db_ok (tabs s)" and "clock_ok s" and "\<not> paused s"
    and "connFor s ag = Some c" and "c \<notin> set (broken s)"
    and "q \<in> set (queue_head (tabs s))" and "dispatchable ag (tabs s) q"
    and "OnReady rs ag s = (r, s')"
  shows "r = Inr () \<and> (\<exists>q' p env. q' \<in> set (queue_head (tabs s)) \<and> dispatchable ag (tabs s) q' \<and>
    status_of s' = (status_of s)(row_id q' \<mapsto> ''assigned'') \<and> pv_id p = row_id q' \<and>
    outbox s' = outbox s @ [(c, JobAssign (JobAssignFromPreview p env))])"
  using assms by (rule OnReady_dispatches)

lemma sample_queue [simp]: "queue_head (tabs (sample ''queued'' None)) = [sample_row ''queued'' None]"
  by (simp add: queue_head_def order_asc_def sample_def sample_row_def)

lemma sample_dispatchable: "dispatchable ''a1'' (tabs (sample ''queued'' None)) (sample_row ''queued'' None)"
  by (auto simp: dispatchable_def sample_defs)

theorem ready_is_answered_witness:
  "\<exists>p env. outbox (snd (OnReady True ''a1'' (sample ''queued'' None))) = [(7, JobAssign (JobAssignFromPreview p env))]"
  using ready_is_answered [of "sample ''queued'' None" "''a1''" 7 "sample_row ''queued'' None" True, OF _ _ _ _ _ _ _
      sample_dispatchable surjective_pairing]
  by auto

text \<open>C14: whatever fails, a READY either changes neither the tables nor the frames sent, or it
  claims the oldest preview the agent may build and sends at most that job, with the secrets of
  that preview's repo or none; a paused dispatcher does nothing.\<close>

theorem ready_is_safe:
  assumes "store_ok s" and "OnReady rs ag s = (r, s')"
  shows "tabs s' = tabs s \<and> outbox s' = outbox s \<or>
    \<not> paused s \<and> (\<exists>q u now. q \<in> set (queue_head (tabs s)) \<and> dispatchable ag (tabs s) q \<and>
        (\<forall>x \<in> set (queue_head (tabs s)). dispatchable ag (tabs s) x \<longrightarrow> row_created q \<le> row_created x) \<and>
        tabs s' = claimed q ag now u (tabs s) \<and>
        job_sent s s' ag (previewRowToDomain (claim_row ag (iso8601 now) q)))"
  using OnReady_effect [OF assms] by (simp add: dispatched_def)

theorem ready_is_safe_witness:
  "tabs (snd (OnReady True ''a1'' (Pause (sample ''queued'' None)))) = tabs (sample ''queued'' None)"
proof -
  have "store_ok (Pause (sample ''queued'' None))"
    using sample_store_ok(1) by (simp add: store_ok_def Pause_def clock_ok_def)
  from ready_is_safe [OF this surjective_pairing, of True "''a1''"] show ?thesis by (auto simp: Pause_def)
qed

text \<open>A preview is given to one agent only: a claim that follows a successful claim, by
  whatever agent and for whatever candidates, never takes the same preview.\<close>

lemma claim_once:
  assumes "wf_tables (tabs s)" and "Claim ids ag now s = (Inr p, s1)" and "tabs s2 = tabs s1"
    and "Claim ids' ag' now' s2 = (Inr p', s3)"
  shows "pv_id p' \<noteq> pv_id p"
proof
  assume same: "pv_id p' = pv_id p"
  from assms(2) obtain q rest u where cand: "claim_candidates ids (tabs s) = q # rest"
    and p: "previewRowToDomain (claim_row ag (iso8601 now) q) = Inr p"
    and t: "tabs s1 = claimed q ag now u (tabs s)" by (rule Claim_Inr)
  from assms(4) obtain q' rest' where cand': "claim_candidates ids' (tabs s2) = q' # rest'"
    and p': "previewRowToDomain (claim_row ag' (iso8601 now') q') = Inr p'" by (rule Claim_Inr)
  have "row_id q' = row_id q" using same previewRowToDomain_fields [OF p] previewRowToDomain_fields [OF p'] by simp
  moreover have "q' \<in> set (tb_previews (claimed q ag now u (tabs s)))" "row_status q' = ''queued''"
    using claim_candidates_Cons [OF cand'] assms(3) t by auto
  ultimately show False by (auto simp: claimed_def set_update_where)
qed

text \<open>The sample with a second queued preview.\<close>

definition sample_two :: hub where
  "sample_two = (let s = sample ''queued'' None in s\<lparr>tabs := (tabs s)\<lparr>tb_previews :=
     [sample_row ''queued'' None, (sample_row ''queued'' None)\<lparr>row_id := ''p2'', row_sha := None\<rparr>]\<rparr>\<rparr>)"

lemma calm_claimed:
  assumes "calm s" and "Claim ids ag now s = (r, s')" and "tabs s' = claimed q ag now u (tabs s)"
    and "u \<in> uuids s ` {seqno s..<seqno s'}"
  shows "calm s'"
proof -
  have "used_ids (claimed q ag now u (tabs s)) \<subseteq> insert u (used_ids (tabs s))"
    by (auto simp: used_ids_def claimed_def set_update_where intro: rev_image_eqI)
  with assms(3,4) show ?thesis
    using obeysD [OF frame_Claim assms(2)] by (intro calm_step [OF assms(1)]) auto
qed

lemma sample_two_rows: "tb_previews (tabs sample_two) =
    [sample_row ''queued'' None, (sample_row ''queued'' None)\<lparr>row_id := ''p2'', row_sha := None\<rparr>]"
  by (simp add: sample_two_def Let_def)

lemma sample_two_ok: "calm sample_two" "wf_tables (tabs sample_two)"
  "''a1'' \<in> arow_id ` set (tb_agents (tabs sample_two))"
  by (auto simp: calm_def sample_two_def Let_def sample_defs used_ids_def inj_def wf_tables_def sha_unique_def
      same_sha_key_def agent_refs_def event_refs_def)

lemma claims_on_two:
  "\<exists>p s1 p' s3. Claim [''p1'', ''p2''] ''a1'' t0 sample_two = (Inr p, s1) \<and>
     Claim [''p1'', ''p2''] ''a1'' t0 s1 = (Inr p', s3)"
proof -
  let ?ids = "[''p1'', ''p2'']" and ?one = "sample_row ''queued'' None"
  let ?two = "?one\<lparr>row_id := ''p2'', row_sha := None\<rparr>"
  have dec: "\<exists>p. previewRowToDomain (claim_row ''a1'' (iso8601 t0) q) = Inr p" if "q = ?one \<or> q = ?two" for q
    using that by (intro previewRowToDomain_decodable) (auto simp: decodable_preview_def sample_row_def claim_row_def)
  have "claim_candidates ?ids (tabs sample_two) = [?one, ?two]"
    by (simp add: claim_candidates_def order_asc_def sample_two_rows sample_row_def)
  from Claim_first [OF sample_two_ok(1) this sample_two_ok(3,2)] obtain s1 u where
    one: "Claim ?ids ''a1'' t0 sample_two = (previewRowToDomain (claim_row ''a1'' (iso8601 t0) ?one), s1)"
    and t1: "tabs s1 = claimed ?one ''a1'' t0 u (tabs sample_two)"
    and u: "u \<in> uuids sample_two ` {seqno sample_two..<seqno s1}" by blast
  have "calm s1" using calm_claimed [OF sample_two_ok(1) one t1 u] .
  moreover have "claim_candidates ?ids (tabs s1) = [?two]"
    by (simp add: claim_candidates_def order_asc_def t1 claimed_def sample_two_rows sample_row_def claim_row_def)
  moreover have "''a1'' \<in> arow_id ` set (tb_agents (tabs s1))" using sample_two_ok(3) by (simp add: t1 claimed_def)
  moreover have "clock_ok sample_two" by (simp add: clock_ok_def sample_two_def Let_def)
  then have "wf_tables (tabs s1)"
    using previews.ok_claim [OF _ one] sample_two_ok(2) by (simp add: store_ok_def)
  ultimately obtain s3 where
    "Claim ?ids ''a1'' t0 s1 = (previewRowToDomain (claim_row ''a1'' (iso8601 t0) ?two), s3)"
    using Claim_first by blast
  with one dec show ?thesis by metis
qed

lemma claim_once_witness:
  "\<exists>p s1 p' s3. Claim [''p1'', ''p2''] ''a1'' t0 sample_two = (Inr p, s1) \<and>
     Claim [''p1'', ''p2''] ''a1'' t0 s1 = (Inr p', s3) \<and> pv_id p' \<noteq> pv_id p"
  using claims_on_two claim_once [OF sample_two_ok(2) _ refl] by meson

section \<open>Status reports\<close>


definition sample_report :: "string \<Rightarrow> string option \<Rightarrow> StatusUpdateData" where
  "sample_report st sha = \<lparr>su_preview = ''p1'', su_status = st, su_message = [], su_container = None,
     su_host = None, su_port = None, su_error = None, su_urls = [], su_sha = sha\<rparr>"


text \<open>C16: the limit of the previous property: a report that resolves a preview without a commit to the commit of
  another preview of the repo fails with a uniqueness error, and its status is lost with it.\<close>

theorem report_rejected:
  assumes "calm s" and "store_ok s" and "su_preview d \<noteq> []" and "su_status d \<noteq> []"
    and "q \<in> set (tb_previews (tabs s))" and "row_id q = su_preview d" and "row_sha q = None"
    and "su_sha d = Some c" and "c \<noteq> []"
    and "p \<in> set (tb_previews (tabs s))" and "row_id p \<noteq> row_id q" and "row_repo p = row_repo q"
    and "row_sha p = Some c" and "ag \<in> arow_id ` set (tb_agents (tabs s))"
    and "OnStatusUpdate ag d s = (r, s')"
  shows "r = Inl (StoreErr UniqueViolation) \<and> tabs s' = tabs s"
  using report_lost [OF assms] by simp

definition sample_adhoc :: hub where
  "sample_adhoc = (let s = sample ''running'' (Some ''a1'') in s\<lparr>tabs := (tabs s)\<lparr>tb_previews :=
     [sample_row ''running'' (Some ''a1''),
      (sample_row ''building'' (Some ''a1''))\<lparr>row_id := ''p2'', row_sha := None, row_adhoc := 1\<rparr>]\<rparr>\<rparr>)"

theorem report_rejected_witness:
  "fst (OnStatusUpdate ''a1'' ((sample_report ''running'' (Some ''abc''))\<lparr>su_preview := ''p2''\<rparr>) sample_adhoc) =
     Inl (StoreErr UniqueViolation)"
proof -
  have "calm sample_adhoc"
    by (auto simp: calm_def sample_adhoc_def Let_def sample_defs used_ids_def inj_def)
  moreover have "store_ok sample_adhoc"
    by (auto simp: store_ok_def clock_ok_def wf_tables_def sample_adhoc_def Let_def sample_defs sha_unique_def
        same_sha_key_def agent_refs_def event_refs_def)
  ultimately show ?thesis
    using report_rejected [of sample_adhoc "(sample_report ''running'' (Some ''abc''))\<lparr>su_preview := ''p2''\<rparr>"
        "(sample_row ''building'' (Some ''a1''))\<lparr>row_id := ''p2'', row_sha := None, row_adhoc := 1\<rparr>" "''abc''"
        "sample_row ''running'' (Some ''a1'')" "''a1''", OF _ _ _ _ _ _ _ _ _ _ _ _ _ _ surjective_pairing]
    by (simp add: sample_adhoc_def Let_def sample_defs sample_report_def)
qed

end
