(* ===== verification/HubFlows.thy ===== *)
theory HubFlows
  imports HubProperties
begin

text \<open>
  What the entry points of the hub do to the previews: webhooks, handshakes, the reconciler, the
  pages of the admin and the texts the hub writes and reads back.
\<close>

section \<open>Webhooks\<close>

text \<open>A request that delivers a pull request event under the shared secret.\<close>

definition delivers ::
    "(string \<Rightarrow> string) \<Rightarrow> (string \<Rightarrow> pullRequestEvent option) \<Rightarrow> webhook_request \<Rightarrow> pullRequestEvent \<Rightarrow> bool" where
  "delivers digest unmarshal rq p \<longleftrightarrow> (\<exists>payload sig. rq_body rq = Some payload \<and> rq_signature rq = ''sha256='' @ sig \<and>
     hex_decode sig = Some (digest payload) \<and> rq_event rq = ''pull_request'' \<and> unmarshal payload = Some p \<and>
     pr_num_of p \<noteq> 0 \<and> pr_repo p \<noteq> [])"

definition lowered :: "pullRequestEvent \<Rightarrow> pullRequestEvent" where
  "lowered p = p\<lparr>pr_repo := to_lower (pr_repo p)\<rparr>"

lemma lowered_simps [simp]:
  "pr_action (lowered p) = pr_action p" "pr_sha (lowered p) = pr_sha p" "pr_repo (lowered p) = to_lower (pr_repo p)"
  by (simp_all add: lowered_def)

lemma handleWebhook_delivers:
  assumes "delivers digest unmarshal rq p"
  shows "handleWebhook digest unmarshal ts rq = dispatch_action ts p"
proof -
  from assms obtain payload sig where rq: "rq_body rq = Some payload" "rq_event rq = ''pull_request''"
      "unmarshal payload = Some p" "pr_num_of p \<noteq> 0" "pr_repo p \<noteq> []"
    and sig: "rq_signature rq = ''sha256='' @ sig" "hex_decode sig = Some (digest payload)"
    unfolding delivers_def by blast
  have "trim_prefix (rq_signature rq) ''sha256='' = sig" "has_prefix (rq_signature rq) ''sha256=''" "rq_signature rq \<noteq> []"
    unfolding sig(1) by (rule trim_prefix_append, rule has_prefix_append, simp)
  then have "check_signature digest (rq_signature rq) payload = None"
    by (simp add: check_signature_def sig(2))
  with rq show ?thesis by (simp add: handleWebhook_def fun_eq_iff)
qed

text \<open>C13: only a request signed under the shared secret, with a pull request event of a repo and a
  number, changes anything; without it not even an identifier is drawn.\<close>

theorem webhook_authentic:
  assumes "handleWebhook digest unmarshal ts rq s = (r, s')" and "s' \<noteq> s"
  shows "\<exists>p. delivers digest unmarshal rq p \<and> pr_action p \<in> {''opened'', ''synchronize'', ''reopened'', ''closed''}"
proof -
  from webhook_needs_signature [OF assms] obtain p where p: "delivers digest unmarshal rq p"
    unfolding delivers_def by blast
  have "s' = s" if "pr_action p \<notin> {''opened'', ''synchronize'', ''reopened'', ''closed''}"
    using that assms(1) by (simp add: handleWebhook_delivers [OF p] dispatch_action_def Let_def)
  with p assms(2) show ?thesis by blast
qed

definition sample_pr :: "string \<Rightarrow> string \<Rightarrow> pullRequestEvent" where
  "sample_pr act sha = \<lparr>pr_action = act, pr_number = 7, pr_inner_number = 7, pr_sha = sha, pr_ref = ''main'',
     pr_labels = [], pr_repo = ''o/r'', pr_clone_url = ''url''\<rparr>"

definition sample_request :: webhook_request where
  "sample_request = \<lparr>rq_body = Some ''{}'', rq_signature = ''sha256=6b'', rq_event = ''pull_request''\<rparr>"

lemma sample_delivers: "delivers (\<lambda>_. ''k'') (\<lambda>_. Some (sample_pr act sha)) sample_request (sample_pr act sha)"
proof -
  have "hex_decode ''6b'' = Some ''k''" by code_simp
  then show ?thesis by (simp add: delivers_def sample_request_def sample_pr_def pr_num_of_def)
qed

lemma sample_lowered [simp]: "lowered (sample_pr act sha) = sample_pr act sha"
  by (simp add: lowered_def sample_pr_def to_lower_def lower_byte_def)

lemma sample_close_run:
  "handleWebhook (\<lambda>_. ''k'') (\<lambda>_. Some (sample_pr ''closed'' ''abc'')) True sample_request =
     handleClose True (sample_pr ''closed'' ''abc'') 7"
  unfolding handleWebhook_delivers [OF sample_delivers] dispatch_action_def Let_def lowered_def [symmetric]
    sample_lowered
  by (simp add: sample_pr_def pr_num_of_def)

lemma sample_newest: "newest_of_pr (tabs (sample st ag)) ''o/r'' 7 = Some (sample_row st ag)"
  by (simp add: newest_of_pr_def order_desc_def) (simp add: sample_row_def)

lemma sample_close:
  "status_of (snd (handleWebhook (\<lambda>_. ''k'') (\<lambda>_. Some (sample_pr ''closed'' ''abc'')) True sample_request
     (sample ''running'' None) :: (hub_err + reply) \<times> hub)) ''p1'' = Some ''teardown''"
proof -
  have repo: "pr_repo (sample_pr ''closed'' ''abc'') = ''o/r''" by (simp add: sample_pr_def)
  obtain r s' where run: "handleClose True (sample_pr ''closed'' ''abc'') 7 (sample ''running'' None) =
      (r :: hub_err + reply, s')" by fastforce
  from handleClose_outcome [OF sample_calm sample_db_ok(1) sample_clock run, of 7] run
  show ?thesis unfolding sample_close_run repo sample_newest by (simp add: sample_row_def)
qed

theorem webhook_authentic_witness:
  "\<exists>p. delivers (\<lambda>_. ''k'') (\<lambda>_. Some (sample_pr ''closed'' ''abc'')) sample_request p \<and>
     pr_action p \<in> {''opened'', ''synchronize'', ''reopened'', ''closed''}"
proof -
  let ?w = "handleWebhook (\<lambda>_. ''k'') (\<lambda>_. Some (sample_pr ''closed'' ''abc'')) True sample_request
      (sample ''running'' None) :: (hub_err + reply) \<times> hub"
  have "snd ?w \<noteq> sample ''running'' None"
  proof
    assume "snd ?w = sample ''running'' None"
    with sample_close have "status_of (sample ''running'' None) ''p1'' = Some ''teardown''" by metis
    then show False by simp
  qed
  from webhook_authentic [OF surjective_pairing this] show ?thesis .
qed

text \<open>C12: a signed \<open>closed\<close> event tears the newest preview of its PR down and no other, answers 202
  with its id, and sends the teardown to the agent that has it, if it is connected; when the PR has
  no preview, nothing happens and the event is answered as ignored.\<close>

theorem close_tears_down:
  assumes "calm s" and "db_ok (tabs s)" and "clock_ok s"
    and "delivers digest unmarshal rq p" and "pr_action p = ''closed''"
    and "handleWebhook digest unmarshal ts rq s = (r :: 'e + reply, s')"
  shows "case newest_of_pr (tabs s) (to_lower (pr_repo p)) (pr_num_of p) of
      None \<Rightarrow> r = Inr (writeIgnored ''reason'' ''no_existing_preview'') \<and> tabs s' = tabs s \<and> outbox s' = outbox s
    | Some q \<Rightarrow> r = Inr (writeStatus (row_id q) ''teardown'') \<and>
        status_of s' = (status_of s)(row_id q \<mapsto> ''teardown'') \<and>
        (ts \<and> (\<exists>ag. row_agent q = Some ag \<and> connFor s ag = Some c \<and> c \<notin> set (broken s)) \<longrightarrow>
           outbox s' = outbox s @ [(c, JobTeardown (row_id q))])"
proof -
  have "handleClose ts (lowered p) (pr_num_of p) s = (r, s')"
    using assms(4-6) by (simp add: handleWebhook_delivers dispatch_action_def Let_def lowered_def)
  from handleClose_outcome [OF assms(1-3) this, of c] show ?thesis unfolding lowered_simps .
qed

theorem close_tears_down_witness:
  "outbox (snd (handleWebhook (\<lambda>_. ''k'') (\<lambda>_. Some (sample_pr ''closed'' ''abc'')) True sample_request
     (sample ''running'' (Some ''a1'')) :: (hub_err + reply) \<times> hub)) = [(7, JobTeardown ''p1'')]"
proof -
  let ?p = "sample_pr ''closed'' ''abc''" and ?s = "sample ''running'' (Some ''a1'')"
  have p: "pr_action ?p = ''closed''" "to_lower (pr_repo ?p) = ''o/r''" "pr_num_of ?p = 7"
    by (simp_all add: sample_pr_def pr_num_of_def to_lower_def lower_byte_def)
  obtain r s' where run: "handleWebhook (\<lambda>_. ''k'') (\<lambda>_. Some ?p) True sample_request ?s = (r :: hub_err + reply, s')"
    by fastforce
  from close_tears_down [OF sample_calm sample_db_ok(2) sample_clock sample_delivers p(1) run, of 7] run
  show ?thesis unfolding p sample_newest by (simp add: sample_row_def)
qed

text \<open>C22: a signed \<open>synchronize\<close> event that brings a commit the repo does not have yet, while the PR
  has an active preview at another commit, tears that preview down, tells its agent if that is
  connected, and queues a new one: for the repo, PR, commit, branch, clone URL and labels of the
  event, without an agent. No other preview changes its status, and the reply names the new one.\<close>

theorem synchronize_replaces:
  assumes "calm s" and "db_ok (tabs s)" and "clock_ok s"
    and "delivers digest unmarshal rq p" and "pr_action p = ''synchronize''"
    and "active_of (tabs s) (to_lower (pr_repo p)) (pr_num_of p) = Some q"
    and "commitShaFromNullString (row_sha q) \<noteq> pr_sha p"
    and "sha_rows (preview_of_event (lowered p) (pr_num_of p) [] 0) (tabs s) = []"
    and "handleWebhook digest unmarshal ts rq s = (r :: 'e + reply, s')"
  shows "\<exists>i. status_of s i = None \<and> r = Inr (writeStatus i ''queued'') \<and>
    status_of s' = (status_of s)(row_id q \<mapsto> ''teardown'', i \<mapsto> ''queued'') \<and>
    (\<exists>x \<in> set (tb_previews (tabs s')). row_id x = i \<and> row_repo x = to_lower (pr_repo p) \<and> row_pr x = pr_num_of p \<and>
       row_sha x = (if pr_sha p = [] then None else Some (pr_sha p)) \<and> row_branch x = pr_ref p \<and>
       row_clone_url x = pr_clone_url p \<and> row_labels x = encodeLabels (pr_labels p) \<and> row_adhoc x = 0 \<and>
       row_agent x = None \<and> row_container x = None \<and> row_host x = None \<and> row_port x = None \<and> row_urls x = []) \<and>
    outbox s' = outbox s @ teardown_frames ts (Some q) s"
proof -
  have run: "handleUpsert ts (lowered p) (pr_num_of p) s = (r, s')"
    using assms(4,5,9) by (simp add: handleWebhook_delivers dispatch_action_def Let_def lowered_def)
  have old: "Some q = superseded (lowered p) (pr_num_of p) (tabs s)"
    using assms(5-7) by (simp add: superseded_def lowered_def)
  from new_commit [OF assms(1-3) old assms(8) run] obtain i now where
    new: "status_of s i = None" "r = Inr (writeStatus i ''queued'')"
      "status_of s' = (torn_down (Some q) s)(i \<mapsto> ''queued'')"
      "fresh_row (lowered p) (pr_num_of p) i now (old_id (Some q)) \<in> set (tb_previews (tabs s'))"
      "outbox s' = outbox s @ teardown_frames ts (Some q) s" by blast
  then show ?thesis
    by (intro exI [of _ i] conjI bexI [OF _ new(4)]) (simp_all add: torn_down_def fresh_row_def lowered_def)
qed

theorem synchronize_replaces_witness:
  "\<exists>x \<in> set (tb_previews (tabs (snd (handleWebhook (\<lambda>_. ''k'') (\<lambda>_. Some (sample_pr ''synchronize'' ''def'')) True sample_request
     (sample ''running'' (Some ''a1'')) :: (hub_err + reply) \<times> hub)))). row_id x \<noteq> ''p1'' \<and> row_pr x = 7 \<and> row_sha x = Some ''def''"
proof -
  let ?p = "sample_pr ''synchronize'' ''def''" and ?s = "sample ''running'' (Some ''a1'')"
  have p: "pr_action ?p = ''synchronize''" "to_lower (pr_repo ?p) = ''o/r''" "pr_num_of ?p = 7" "pr_sha ?p = ''def''"
    by (simp_all add: sample_pr_def pr_num_of_def to_lower_def lower_byte_def)
  have active: "active_of (tabs ?s) ''o/r'' 7 = Some (sample_row ''running'' (Some ''a1''))"
    by (simp add: active_of_def order_desc_def active_statuses_def) (simp add: sample_row_def)
  have new: "sha_rows (preview_of_event (lowered ?p) 7 [] 0) (tabs ?s) = []"
    by (simp add: sha_rows_def same_sha_key_def preview_of_event_def insert_row_def)
       (simp add: sample_row_def sample_pr_def nullStringFromCommitSha_def)
  obtain r s' where run: "handleWebhook (\<lambda>_. ''k'') (\<lambda>_. Some ?p) True sample_request ?s = (r :: hub_err + reply, s')"
    by fastforce
  have act: "active_of (tabs ?s) (to_lower (pr_repo ?p)) (pr_num_of ?p) = Some (sample_row ''running'' (Some ''a1''))"
    unfolding p by (rule active)
  have "commitShaFromNullString (row_sha (sample_row ''running'' (Some ''a1''))) \<noteq> pr_sha ?p"
    by (simp add: p sample_row_def commitShaFromNullString_def)
  from synchronize_replaces [OF sample_calm sample_db_ok(2) sample_clock sample_delivers p(1) act this _ run] new
  obtain i x where "status_of ?s i = None" "x \<in> set (tb_previews (tabs s'))" "row_id x = i" "row_pr x = 7" "row_sha x = Some ''def''"
    by (auto simp: p)
  with run sample_status [of "''running''" "Some ''a1''"] show ?thesis by (metis option.distinct(1) snd_conv)
qed

text \<open>C23: an event for a commit the repo already has creates no preview: a finished one is queued
  again under its own id, any other keeps its status; it gets the number, branch, labels and clone
  URL of the event, and the reply names it with its status. A \<open>synchronize\<close> event, a force-push
  back to an earlier commit say, also tears down the active preview of the PR when that is at
  another commit, and tells its agent.\<close>

theorem known_commit_reused:
  assumes "calm s" and "db_ok (tabs s)" and "clock_ok s"
    and "delivers digest unmarshal rq p" and "pr_action p \<in> {''opened'', ''synchronize'', ''reopened''}"
    and "sha_rows (preview_of_event (lowered p) (pr_num_of p) [] 0) (tabs s) = q # rest"
    and "handleWebhook digest unmarshal ts rq s = (r :: 'e + reply, s')"
  shows "let old = superseded (lowered p) (pr_num_of p) (tabs s) in
    (if row_status q \<in> {''done'', ''failed''}
     then r = Inr (writeStatus (row_id q) ''queued'') \<and> status_of s' = (torn_down old s)(row_id q \<mapsto> ''queued'')
     else r = Inr (writeStatus (row_id q) (row_status q)) \<and> status_of s' = torn_down old s) \<and>
    (\<exists>x \<in> set (tb_previews (tabs s')). row_id x = row_id q \<and> row_pr x = pr_num_of p \<and> row_branch x = pr_ref p \<and>
       row_labels x = encodeLabels (pr_labels p) \<and> row_clone_url x = pr_clone_url p) \<and>
    outbox s' = outbox s @ teardown_frames ts old s"
proof -
  have "handleUpsert ts (lowered p) (pr_num_of p) s = (r, s')"
    using assms(4,5,7) by (simp add: handleWebhook_delivers dispatch_action_def Let_def lowered_def)
  from known_commit [OF assms(1-3) refl assms(6) this] show ?thesis
    unfolding Let_def by (simp add: reopenable_def refreshes_def) (simp add: lowered_def)
qed

theorem known_commit_reused_witness:
  "status_of (snd (handleWebhook (\<lambda>_. ''k'') (\<lambda>_. Some (sample_pr ''reopened'' ''abc'')) True sample_request
     (sample ''failed'' (Some ''a1'')) :: (hub_err + reply) \<times> hub)) ''p1'' = Some ''queued''"
proof -
  let ?p = "sample_pr ''reopened'' ''abc''" and ?s = "sample ''failed'' (Some ''a1'')"
  have p: "pr_action ?p \<in> {''opened'', ''synchronize'', ''reopened''}" "pr_num_of ?p = 7"
    by (simp_all add: sample_pr_def pr_num_of_def)
  have known: "sha_rows (preview_of_event (lowered ?p) 7 [] 0) (tabs ?s) = [sample_row ''failed'' (Some ''a1'')]"
    by (simp add: sha_rows_def same_sha_key_def preview_of_event_def insert_row_def)
       (simp add: sample_row_def sample_pr_def nullStringFromCommitSha_def)
  obtain r s' where run: "handleWebhook (\<lambda>_. ''k'') (\<lambda>_. Some ?p) True sample_request ?s = (r :: hub_err + reply, s')"
    by fastforce
  have "sha_rows (preview_of_event (lowered ?p) (pr_num_of ?p) [] 0) (tabs ?s) = [sample_row ''failed'' (Some ''a1'')]"
    unfolding p(2) by (rule known)
  from known_commit_reused [OF sample_calm sample_db_ok(2) sample_clock sample_delivers p(1) this run] run
  show ?thesis unfolding Let_def by (simp add: sample_row_def)
qed

section \<open>Agents\<close>

text \<open>C24: the hub opens a session only for a registered agent whose token hash the presented
  bearer token matches, and only on a connection whose first frame is a HELLO of the protocol
  version, while no other connection of that agent is registered; it then answers with WELCOME.\<close>

theorem session_authentic:
  assumes "ServeHTTP bcrypt hdr s = (Inr (Inr a), s1)"
    and "session (ag_id a) c first s2 = (Inr (Established h) :: 'e + handshake, s')"
  shows "(\<exists>v row. hdr = ''Bearer '' @ v \<and> has_prefix (trim_space v) ''agt_'' \<and> bcrypt (ag_token_hash a) (trim_space v) \<and>
      row \<in> set (tb_agents (tabs s)) \<and> rowToAgent row = Inr a) \<and>
    first = Some (Hello h) \<and> hello_version h = ProtoVersion \<and>
    connFor s2 (ag_id a) = None \<and> connFor s' = (connFor s2)(ag_id a \<mapsto> c) \<and>
    outbox s' = outbox s2 @ [(c, Welcome \<lparr>welcome_version = ProtoVersion, welcome_agent = ag_id a\<rparr>)]"
  using ServeHTTP_accepts [OF assms(1)] session_outcome [OF assms(2)] by (auto simp: token_prefix_def)

definition sample_hello :: "string list option \<Rightarrow> HelloData" where
  "sample_hello running = \<lparr>hello_version = ProtoVersion, hello_host = [], hello_running = running\<rparr>"

definition sample_offline :: hub where
  "sample_offline = (sample ''queued'' None)\<lparr>conns := []\<rparr>"

lemma sample_auth:
  "\<exists>a s1. (ServeHTTP (\<lambda>h raw. raw = ''agt_1'') ''Bearer agt_1'' (sample ''queued'' None) :: (hub_err + reply + Agent) \<times> hub)
     = (Inr (Inr a), s1) \<and> ag_id a = ''a1''"
proof -
  have "trim_space ''agt_1'' = ''agt_1''"
    by (rule trim_space_plain_word) (simp_all add: plain_byte_def)
  then have raw: "parseBearer ''Bearer agt_1'' = Some ''agt_1''"
    by (simp add: parseBearer_def has_prefix_def)
  obtain a where a: "rowToAgent sample_agent = Inr a" "ag_id a = ''a1''"
    by (simp add: rowToAgent_def sample_agent_def)
  have "ListAgents (sample ''queued'' None) = (Inr [a], step_env (sample ''queued'' None))"
    by (simp add: ListAgents_def listAgents_def query_def exec_def bindE_def order_desc_def a(1) step_env_def sample_def)
  with raw a show ?thesis
    by (simp add: ServeHTTP_def findAgentByToken_def bindE_def attempt_def store_def Verify_def token_prefix_def has_prefix_def)
qed

theorem session_authentic_witness:
  "\<exists>(a :: Agent) s'. ag_id a = ''a1'' \<and> connFor s' ''a1'' = Some 9 \<and>
     (session (ag_id a) 9 (Some (Hello (sample_hello None))) sample_offline :: (hub_err + handshake) \<times> hub)
       = (Inr (Established (sample_hello None)), s')"
proof -
  obtain a s1 where auth: "(ServeHTTP (\<lambda>h raw. raw = ''agt_1'') ''Bearer agt_1'' (sample ''queued'' None)
      :: (hub_err + reply + Agent) \<times> hub) = (Inr (Inr a), s1)" and a: "ag_id a = ''a1''" using sample_auth by blast
  have "fst (session ''a1'' 9 (Some (Hello (sample_hello None))) sample_offline :: (hub_err + handshake) \<times> hub) =
      Inr (Established (sample_hello None))"
    by (simp add: session_def sample_hello_def add_conn_def sample_offline_def connFor_def session_registered_def
        time_now_def bindE_def attempt_def UpdateAgentStatus_def exec_def updateAgentStatus_def write_frame_def
        none_is_not_found_def)
  then obtain s' where run: "(session (ag_id a) 9 (Some (Hello (sample_hello None))) sample_offline
      :: (hub_err + handshake) \<times> hub) = (Inr (Established (sample_hello None)), s')"
    unfolding a by (metis prod.collapse)
  from session_authentic [OF auth run] have "connFor s' ''a1'' = Some 9" unfolding a by simp
  with a run show ?thesis by blast
qed

text \<open>C21: without failures the comparison on HELLO is exact: of the previews the hub has given to the
  agent those it does not list become failed and no other preview changes, and the agent is sent
  one teardown for each preview it lists that the hub has not given to it.\<close>

theorem hello_compares:
  assumes "range_order ord" and "calm s" and "db_ok (tabs s)" and "clock_ok s"
    and "hello_running h = Some running" and "connFor s ag = Some c" and "c \<notin> set (broken s)"
    and "syncOnHello ord True True ag h s = (r :: 'e + unit, s')"
  shows "r = Inr () \<and>
    status_of s' = (\<lambda>i. if i \<in> active_at ag (tabs s) - set running then Some ''failed'' else status_of s i) \<and>
    (\<exists>orphans. outbox s' = outbox s @ map (\<lambda>i. (c, JobTeardown i)) orphans \<and>
      set orphans = set running - active_at ag (tabs s) \<and> distinct orphans)"
  using syncOnHello_exact [OF assms(1-5,8)] assms(6,7) by blast

theorem hello_compares_witness:
  "status_of (snd (syncOnHello (\<lambda>xs. xs) True True ''a1'' (sample_hello (Some [''p5'']))
     (sample ''running'' (Some ''a1'')) :: (hub_err + unit) \<times> hub)) ''p1'' = Some ''failed''"
proof -
  let ?s = "sample ''running'' (Some ''a1'')"
  have ord: "range_order (\<lambda>xs. xs)" by (simp add: range_order_def)
  obtain r s' where run: "syncOnHello (\<lambda>xs. xs) True True ''a1'' (sample_hello (Some [''p5''])) ?s = (r :: hub_err + unit, s')"
    by fastforce
  have "''p1'' \<in> active_at ''a1'' (tabs ?s)"
    by (auto simp: active_at_def hello_statuses_def image_iff sample_row_def)
  with hello_compares [OF ord sample_calm sample_db_ok(2) sample_clock _ _ _ run, of "[''p5'']" 7] run
  show ?thesis by (simp add: sample_hello_def)
qed

section \<open>The reconciler\<close>

text \<open>C38: without failures a tick of the reconciler puts exactly the stale assignments back into the
  queue, and nothing else changes its status: those whose last update, as a text, is before the
  cutoff, which is the clock at the tick less the configured duration. An assignment is stale when
  its last update is in a second before that of the cutoff, and is not when it is in a later one.
  The tick counts the running previews of agents that are not connected.\<close>

theorem tick_requeues:
  assumes "calm s" and "db_ok (tabs s)" and "clock_ok s" and "tick staleAfter s = (r, s')"
    and "int cutoff = int (clock s (seqno s)) - staleAfter" and "representable cutoff"
  shows "status_of s' = (\<lambda>i. if \<exists>q \<in> set (tb_previews (tabs s)). row_id q = i \<and> row_status q = ''assigned'' \<and>
      row_updated q < iso8601 cutoff then Some ''queued'' else status_of s i) \<and>
    (\<forall>u. representable u \<longrightarrow> (seconds u < seconds cutoff \<longrightarrow> iso8601 u < iso8601 cutoff) \<and>
       (seconds cutoff < seconds u \<longrightarrow> \<not> iso8601 u < iso8601 cutoff)) \<and>
    r = Inr (length (filter (\<lambda>q. row_status q = ''running'' \<and> (\<exists>ag. row_agent q = Some ag \<and> connFor s' ag = None))
      (tb_previews (tabs s'))))"
proof -
  have cutoff: "nat (int (clock s (seqno s)) - staleAfter) = cutoff" using assms(5) by linarith
  have "orphan_row (OnlineAgentIDs s') = (\<lambda>q. row_status q = ''running'' \<and> (\<exists>ag. row_agent q = Some ag \<and> connFor s' ag = None))"
    by (auto simp: fun_eq_iff orphan_row_def OnlineAgentIDs_def connFor_def map_of_eq_None_iff)
  moreover have "i \<in> stale_ids cutoff (tabs s) \<longleftrightarrow> (\<exists>q \<in> set (tb_previews (tabs s)). row_id q = i \<and> row_status q = ''assigned'' \<and>
      row_updated q < iso8601 cutoff)" for i
    by (auto simp: stale_ids_def stale_row_def)
  moreover have "seconds u < seconds cutoff \<Longrightarrow> iso8601 u < iso8601 cutoff"
    "seconds cutoff < seconds u \<Longrightarrow> \<not> iso8601 u < iso8601 cutoff" if "representable u" for u
    using iso8601_less [OF _ assms(6), of u] iso8601_less [OF _ that, of cutoff] by auto
  ultimately show ?thesis using tick_calm [OF assms(1-4)] unfolding cutoff by simp
qed

theorem tick_requeues_witness:
  "status_of (snd (tick (- 5 * int nanos_per_sec) (sample ''assigned'' (Some ''a1'')))) ''p1'' = Some ''queued''"
proof -
  let ?s = "sample ''assigned'' (Some ''a1'')" and ?c = "t0 + 5 * nanos_per_sec"
  have c: "representable ?c" "seconds t0 < seconds ?c"
    by (simp_all add: representable_def seconds_def t0_def nanos_per_sec_def days_before_year_def)
  have cut: "int ?c = int (clock ?s (seqno ?s)) - (- 5 * int nanos_per_sec)" by simp
  from tick_requeues [OF sample_calm sample_db_ok(2) sample_clock surjective_pairing cut c(1)]
  have st: "status_of (snd (tick (- 5 * int nanos_per_sec) ?s)) = (\<lambda>i. if \<exists>q \<in> set (tb_previews (tabs ?s)). row_id q = i \<and>
      row_status q = ''assigned'' \<and> row_updated q < iso8601 ?c then Some ''queued'' else status_of ?s i)"
    and old: "iso8601 t0 < iso8601 ?c" using c(2) t0_representable by blast+
  then show ?thesis by (simp add: sample_row_def)
qed

section \<open>The form of the secrets\<close>

lemma secrets_post_run:
  assumes "repoSecretsPost ord True owner repo (Some txt) s = (Inr (SecretsRedirect url) :: 'e + secrets_page, s')"
    and "store_ok s" and "range_order ord"
  shows "url = secrets_url (secrets_repo owner repo) @ ''?msg=saved'' \<and>
    (\<exists>parsed. parseSecretsRaw txt = Inr parsed \<and> (\<forall>(k, v) \<in> set parsed. keyRE k) \<and>
       secrets_of s' = (secrets_of s)(secrets_repo owner repo := map_of parsed))"
proof -
  let ?F = "secrets_repo owner repo"
  obtain parsed where parsed: "parseSecretsRaw txt = Inr parsed"
    using assms(1) by (auto simp: repoSecretsPost_def Let_def split: if_splits sum.splits)
  obtain q t where q: "applySecretDiff ord ?F parsed s = (q, t)" by fastforce
  with assms(1) parsed have "url = secrets_url ?F @ ''?msg=saved'' \<and> q = Inr () \<and> t = s'"
    by (cases q) (simp_all add: repoSecretsPost_def Let_def bindE_def attempt_def split: if_splits)
  with q have url: "url = secrets_url ?F @ ''?msg=saved''" and save: "applySecretDiff ord ?F parsed s = (Inr (), s')"
    by simp_all
  have "distinct (map fst parsed) \<and> (\<forall>(k, v) \<in> set parsed. keyRE k)" using parseSecretsRaw_ok [OF parsed] .
  moreover have "to_lower ?F = ?F" by (simp add: secrets_repo_def)
  ultimately show ?thesis
    using diff_replaces_secrets [OF assms(2) save _ assms(3)] parsed url by simp
qed

text \<open>C26: saving the secrets of a repo replaces them: what is stored for the repo afterwards are
  exactly the variables of the submitted text, each under a legal key, and the secrets of every
  other repo are as they were. The browser is sent to \<open>/admin/repos/<repo>/secrets?msg=saved\<close>, the
  name of the repo written as it is: when it has a slash of its own, which a request may hide as
  \<open>%2F\<close>, that address is not one the hub serves.\<close>

theorem secrets_replaced:
  assumes "repoSecretsPost ord True owner repo (Some txt) s = (Inr (SecretsRedirect url) :: 'e + secrets_page, s')"
    and "store_ok s" and "range_order ord"
  shows "url = ''/admin/repos/'' @ secrets_repo owner repo @ ''/secrets?msg=saved'' \<and>
    (\<exists>parsed. parseSecretsRaw txt = Inr parsed \<and> (\<forall>(k, v) \<in> set parsed. keyRE k) \<and>
       secrets_of s' = (secrets_of s)(secrets_repo owner repo := map_of parsed))"
  using secrets_post_run [OF assms] by (simp add: secrets_url_def)

text \<open>A submission that is refused stores nothing.\<close>

lemma secrets_refused:
  assumes "parseSecretsRaw txt = Inl e"
  shows "snd (repoSecretsPost ord b owner repo (Some txt) s :: ('e + secrets_page) \<times> hub) = s"
  using assms by (simp add: repoSecretsPost_def Let_def)

definition sample_secret :: RepoSecret where
  "sample_secret = \<lparr>rs_repo = ''o/r'', rs_key = ''A'', rs_value = ''1'', rs_updated = t0\<rparr>"

lemma sample_secret_parsed: "parseSecretsRaw (secretsToRawText [sample_secret]) = Inr [(''A'', ''1'')]"
  using parse_raw_text [of "[sample_secret]"]
  by (simp add: form_safe_def sample_secret_def keyRE_def key_start_def is_letter_def is_upper_def entries_def)

lemma sample_save:
  "\<exists>s'. applySecretDiff (\<lambda>xs. xs) ''o/r'' [(''A'', ''1'')] (sample ''queued'' None) = (Inr (), s')"
proof -
  have names: "to_lower ''o/r'' = ''o/r''" by (simp add: to_lower_def lower_byte_def)
  have empty: "ListSecrets ''o/r'' (sample ''queued'' None) = (Inr [], step_env (sample ''queued'' None))"
    by (simp add: ListSecrets_def listRepoSecrets_def query_def exec_def bindE_def order_asc_def sample_def step_env_def)
  have up: "\<exists>s'. UpsertSecret x s = (Inr (), s')" if "faults s = (\<lambda>_. False)" for x and s :: hub
    using that by (simp add: UpsertSecret_def exec_def bindE_def time_now_def upsertRepoSecret_def step_env_def)
  let ?s = "step_env (step_env (sample ''queued'' None))"
  have "faults ?s = (\<lambda>_. False)" by (simp add: step_env_def)
  from up [OF this] obtain s' where
    s': "UpsertSecret \<lparr>rs_repo = ''o/r'', rs_key = ''A'', rs_value = ''1'', rs_updated = t0\<rparr> ?s = (Inr (), s')" by blast
  have now: "time_now (step_env (sample ''queued'' None)) = (Inr t0, ?s)" by (simp add: time_now_def step_env_def)
  have ups: "secret_upserts ''o/r'' t0 [(''A'', ''1'')] (map_of (rev (entries []))) =
      [\<lparr>rs_repo = ''o/r'', rs_key = ''A'', rs_value = ''1'', rs_updated = t0\<rparr>]"
    by (simp add: secret_upserts_def entries_def)
  have "applySecretDiff (\<lambda>xs. xs) ''o/r'' [(''A'', ''1'')] (sample ''queued'' None) = (Inr (), s')"
    unfolding applySecretDiff_def apply_diff_def Let_def bindE_def [of "ListSecrets r" for r] empty prod.case sum.case
      bindE_def [of time_now] now ups for_each.simps
    by (simp add: bindE_def s' entries_def)
  then show ?thesis by blast
qed

theorem secrets_replaced_witness:
  "\<exists>s'. (repoSecretsPost (\<lambda>xs. xs) True ''o'' ''r'' (Some (secretsToRawText [sample_secret])) (sample ''queued'' None)
      :: (hub_err + secrets_page) \<times> hub) = (Inr (SecretsRedirect ''/admin/repos/o/r/secrets?msg=saved''), s') \<and> secrets_of s' ''o/r'' = [''A'' \<mapsto> ''1'']"
proof -
  have names: "trim_space ''o'' = ''o''" "trim_space ''r'' = ''r''" "to_lower ''o/r'' = ''o/r''"
    by (simp_all add: trim_space_plain_word plain_byte_def to_lower_def lower_byte_def)
  obtain s' where save: "applySecretDiff (\<lambda>xs. xs) ''o/r'' [(''A'', ''1'')] (sample ''queued'' None) = (Inr (), s')"
    using sample_save by blast
  have run: "(repoSecretsPost (\<lambda>xs. xs) True ''o'' ''r'' (Some (secretsToRawText [sample_secret])) (sample ''queued'' None)
      :: (hub_err + secrets_page) \<times> hub) = (Inr (SecretsRedirect ''/admin/repos/o/r/secrets?msg=saved''), s')"
    by (simp add: repoSecretsPost_def secrets_repo_def secrets_url_def names sample_secret_parsed Let_def bindE_def
        attempt_def save)
  have "range_order (\<lambda>xs. xs)" by (simp add: range_order_def)
  from secrets_replaced [OF run sample_store_ok(1) this] sample_secret_parsed run show ?thesis
    by (auto simp: secrets_repo_def names)
qed

end
