(* ===== verification/HubTexts.thy ===== *)
theory HubTexts
  imports HubFlows
begin

text \<open>
  The texts the hub writes and reads back: the page of the secrets, the columns of a preview
  that hold JSON, and its times, which the database compares as texts.
\<close>

section \<open>The page of the secrets\<close>

lemma secrets_get_run:
  assumes "repoSecretsGet True owner repo msg s = (Inr (SecretsPage st v) :: 'e + secrets_page, s')" and "sv_error v = []"
  shows "\<exists>rows. ListSecrets (secrets_repo owner repo) s = (Inr rows, s') \<and> sv_raw v = secretsToRawText rows"
proof -
  obtain q t where q: "ListSecrets (secrets_repo owner repo) s = (q, t)" by fastforce
  with assms have "\<exists>rows. q = Inr rows \<and> t = s' \<and> sv_raw v = secretsToRawText rows"
    by (cases q) (auto simp: repoSecretsGet_def Let_def bindE_def attempt_def split: if_splits)
  with q show ?thesis by blast
qed

text \<open>C27: submitting the page of the secrets as it was shown changes no secret, when every stored
  value is on one line and every stored key is legal.\<close>

theorem secrets_roundtrip:
  assumes "repoSecretsGet True owner repo msg s = (Inr (SecretsPage st v) :: 'e + secrets_page, s1)" and "sv_error v = []"
    and "repoSecretsPost ord True owner repo (Some (sv_raw v)) s2 = (Inr (SecretsRedirect url) :: 'e + secrets_page, s')"
    and "tabs s2 = tabs s" and "store_ok s2" and "range_order ord"
    and "\<forall>k w. secrets_of s (secrets_repo owner repo) k = Some w \<longrightarrow> keyRE k \<and> CHR 13 \<notin> set w \<and> CHR 10 \<notin> set w"
  shows "secrets_of s' = secrets_of s"
proof -
  let ?full = "secrets_repo owner repo"
  from secrets_get_run [OF assms(1,2)] secrets_post_run [OF assms(3,5,6)] obtain rows parsed where
    rows: "ListSecrets ?full s = (Inr rows, s1)" and page: "sv_raw v = secretsToRawText rows"
    and parsed: "parseSecretsRaw (sv_raw v) = Inr parsed" "secrets_of s' = (secrets_of s2)(?full := map_of parsed)" by metis
  have wf: "wf_tables (tabs s)" using assms(4,5) by (simp add: store_ok_def)
  have "to_lower ?full = ?full" by (simp add: secrets_repo_def)
  with ListSecrets_Inr [OF rows wf] have keys: "distinct (map fst (entries rows))"
    and stored: "map_of (entries rows) = secrets_of s ?full" by simp_all
  have "keyRE (rs_key r) \<and> CHR 13 \<notin> set (rs_value r) \<and> CHR 10 \<notin> set (rs_value r)" if "r \<in> set rows" for r
  proof -
    from that have "(rs_key r, rs_value r) \<in> set (entries rows)" by (auto simp: entries_def)
    with keys have "secrets_of s ?full (rs_key r) = Some (rs_value r)" unfolding stored [symmetric] by simp
    with assms(7) show ?thesis by blast
  qed
  moreover have "distinct (map rs_key rows)" using keys by (simp add: entries_def comp_def)
  ultimately have "parseSecretsRaw (sv_raw v) = Inr (entries rows)"
    unfolding page by (intro parse_raw_text) (simp add: form_safe_def)
  with parsed stored secrets_of_same [OF assms(4)] show ?thesis by simp
qed

definition sample_vault :: hub where
  "sample_vault = (let s = sample ''queued'' None in s\<lparr>tabs := (tabs s)\<lparr>tb_secrets :=
     [\<lparr>sec_repo = ''o/r'', sec_key = ''A'', sec_value = ''1'', sec_updated = iso8601 t0\<rparr>]\<rparr>\<rparr>)"

theorem secrets_roundtrip_witness:
  "secrets_of (snd (repoSecretsPost (\<lambda>xs. xs) True ''o'' ''r'' (Some (secretsToRawText [sample_secret])) sample_vault
     :: (hub_err + secrets_page) \<times> hub)) ''o/r'' = [''A'' \<mapsto> ''1'']"
proof -
  have names: "trim_space ''o'' = ''o''" "trim_space ''r'' = ''r''" "to_lower ''o/r'' = ''o/r''"
    by (simp_all add: trim_space_plain_word plain_byte_def to_lower_def lower_byte_def)
  let ?s = "step_env sample_vault"
  have list: "ListSecrets ''o/r'' sample_vault = (Inr [sample_secret], ?s)"
    by (simp add: ListSecrets_def listRepoSecrets_def query_def exec_def bindE_def order_asc_def sample_vault_def
        sample_def step_env_def secret_to_domain_def sample_secret_def names normRepo_def)
  then obtain v where get: "(repoSecretsGet True ''o'' ''r'' [] sample_vault :: (hub_err + secrets_page) \<times> hub) =
      (Inr (SecretsPage 200 v), ?s)" and v: "sv_error v = []" "sv_raw v = secretsToRawText [sample_secret]"
    by (simp add: repoSecretsGet_def secrets_repo_def secrets_view_def names Let_def bindE_def attempt_def)
  have now: "time_now ?s = (Inr t0, step_env ?s)"
    by (simp add: time_now_def step_env_def sample_vault_def Let_def)
  have "secret_upserts ''o/r'' t0 [(''A'', ''1'')] (map_of (rev (entries [sample_secret]))) = []"
    by (simp add: secret_upserts_def entries_def sample_secret_def)
  then have "applySecretDiff (\<lambda>xs. xs) ''o/r'' [(''A'', ''1'')] sample_vault = (Inr (), step_env ?s)"
    unfolding applySecretDiff_def apply_diff_def Let_def bindE_def [of "ListSecrets r" for r] list prod.case sum.case
      bindE_def [of time_now] now
    by (simp add: bindE_def entries_def sample_secret_def)
  then have post: "(repoSecretsPost (\<lambda>xs. xs) True ''o'' ''r'' (Some (secretsToRawText [sample_secret])) sample_vault
      :: (hub_err + secrets_page) \<times> hub) = (Inr (SecretsRedirect ''/admin/repos/o/r/secrets?msg=saved''), step_env ?s)"
    by (simp add: repoSecretsPost_def secrets_repo_def secrets_url_def names sample_secret_parsed Let_def bindE_def attempt_def)
  have vault: "secrets_of sample_vault ''o/r'' = [''A'' \<mapsto> ''1'']"
    by (simp add: secrets_of_def sample_vault_def Let_def secret_key_is_def fun_eq_iff)
  have "store_ok sample_vault"
    using sample_store_ok(1) [of "''queued''"]
    by (simp add: store_ok_def clock_ok_def sample_vault_def Let_def wf_tables_def agent_refs_def event_refs_def)
  moreover have "\<forall>k v. secrets_of sample_vault (secrets_repo ''o'' ''r'') k = Some v \<longrightarrow>
      keyRE k \<and> CHR 13 \<notin> set v \<and> CHR 10 \<notin> set v"
    unfolding secrets_repo_def names using vault by (simp add: names keyRE_def key_start_def is_letter_def is_upper_def)
  moreover have "range_order (\<lambda>xs. xs)" by (simp add: range_order_def)
  ultimately have "secrets_of (step_env ?s) = secrets_of sample_vault"
    by (intro secrets_roundtrip [OF get v(1) post [folded v(2)] refl])
  with vault post show ?thesis by simp
qed

section \<open>The columns of a preview\<close>

text \<open>What an insert writes is read back, for texts that are UTF-8 and times from year 1 to 9999.\<close>

lemma insert_row_read:
  assumes "list_all valid_utf8 (pv_labels p)" and "representable created" and "representable (pv_updated p)"
  shows "previewRowToDomain (insert_row p created) = Inr (p\<lparr>pv_status := ''queued'', pv_agent := None,
    pv_container := None, pv_host := None, pv_port := None, pv_urls := [], pv_error := None, pv_created := created\<rparr>)"
  using decodeLabels_encodeLabels_valid [OF assms(1)] parse_time_iso8601 [OF assms(2)] parse_time_iso8601 [OF assms(3)]
  by (simp add: previewRowToDomain_def insert_row_def)

lemma GetByID_calm:
  assumes "calm s" and "wf_tables (tabs s)"
  shows "fst (GetByID i s) = (case find (\<lambda>r. row_id r = i) (tb_previews (tabs s)) of
     None \<Rightarrow> Inl ErrNotFound | Some r \<Rightarrow> previewRowToDomain r)"
  using assms by (simp add: GetByID_def getPreviewByID_def get_one_calm find_filter_id split: option.split)

text \<open>C28: a preview that is stored under a new id, for a commit the repo does not have yet, is read
  back by its id as it was, labels and times included, but in status queued and without agent,
  container, host, port, URLs and error. Every other preview is read back as before.\<close>

theorem preview_stored:
  assumes "calm s" and "store_ok s" and "sha_rows p (tabs s) = []" and "pv_id p \<notin> row_id ` set (tb_previews (tabs s))"
    and "list_all valid_utf8 (pv_labels p)" and "representable (pv_created p)" and "representable (pv_updated p)"
    and "Upsert p s = (r, s1)" and "tabs s2 = tabs s1" and "calm s2"
  shows "r = Inr (True, None) \<and>
    fst (GetByID (pv_id p) s2) = Inr (p\<lparr>pv_status := ''queued'', pv_agent := None, pv_container := None,
      pv_host := None, pv_port := None, pv_urls := [], pv_error := None\<rparr>) \<and>
    (\<forall>i. i \<noteq> pv_id p \<longrightarrow> fst (GetByID i s2) = fst (GetByID i s))"
proof -
  from Upsert_new [OF assms(1,3,4)] assms(8) obtain u where r: "r = Inr (True, None)" and t: "tabs s1 = born p u (tabs s)"
    by auto
  have wf: "wf_tables (tabs s)" "wf_tables (tabs s2)"
    using assms(2) previews.ok_upsert [OF assms(2,8)] assms(9) by (simp_all add: store_ok_def)
  have rows: "tb_previews (tabs s2) = tb_previews (tabs s) @ [insert_row p (pv_created p)]"
    using assms(9) by (simp add: t born_def)
  have "find (\<lambda>r. row_id r = pv_id p) (tb_previews (tabs s)) = None" using assms(4) by (simp add: find_key_None_iff)
  then have "find (\<lambda>r. row_id r = i) (tb_previews (tabs s2)) = (if i = pv_id p then Some (insert_row p (pv_created p))
      else find (\<lambda>r. row_id r = i) (tb_previews (tabs s)))" for i
    by (auto simp: rows find_append_None split: option.split)
  with r show ?thesis
    using insert_row_read [OF assms(5-7)] by (simp add: GetByID_calm [OF assms(10) wf(2)] GetByID_calm [OF assms(1) wf(1)])
qed

definition sample_preview :: Preview where
  "sample_preview = \<lparr>pv_id = ''p2'', pv_repo = ''o/r'', pv_pr = 8, pv_sha = ''def'', pv_branch = ''b'', pv_status = [],
     pv_agent = None, pv_container = None, pv_host = None, pv_port = None, pv_clone_url = ''url'', pv_urls = [],
     pv_labels = [''a\"b'', ''<c>''], pv_error = None, pv_adhoc = False, pv_created = t0, pv_updated = t0 + 1\<rparr>"

theorem preview_stored_witness:
  "\<exists>s1. Upsert sample_preview (sample ''queued'' None) = (Inr (True, None), s1) \<and>
     fst (GetByID ''p2'' (sample ''queued'' None\<lparr>tabs := tabs s1, uuids := (\<lambda>n. CHR ''w'' # nat_str n)\<rparr>)) =
       Inr (sample_preview\<lparr>pv_status := ''queued''\<rparr>)"
proof -
  let ?s = "sample ''queued'' None" and ?p = sample_preview
  obtain r s1 where run: "Upsert ?p ?s = (r, s1)" by fastforce
  let ?s2 = "?s\<lparr>tabs := tabs s1, uuids := (\<lambda>n. CHR ''w'' # nat_str n)\<rparr>"
  have new: "sha_rows ?p (tabs ?s) = []" "pv_id ?p \<notin> row_id ` set (tb_previews (tabs ?s))"
    by (simp_all add: sha_rows_def same_sha_key_def nullStringFromCommitSha_def) (simp_all add: sample_preview_def sample_row_def)
  have "list_all valid_utf8 (pv_labels ?p)" by (auto simp: sample_preview_def byte_in_def intro!: ascii_valid)
  moreover have "representable (pv_created ?p)" "representable (pv_updated ?p)"
    by (simp_all add: sample_preview_def representable_def seconds_def t0_def nanos_per_sec_def days_before_year_def)
  moreover from Upsert_new [OF sample_calm new] run obtain u where t: "tabs s1 = born ?p u (tabs ?s)"
    and u: "u \<in> range (uuids ?s)" by auto
  have "calm ?s2"
    using u by (auto simp: calm_def used_ids_def t born_def inj_def sample_preview_def) (auto simp: sample_defs)
  ultimately show ?thesis
    using preview_stored [OF sample_calm sample_store_ok(1) new _ _ _ run, of ?s2] run
    by (simp add: sample_preview_def)
qed

section \<open>Reports keep a state calm\<close>

text \<open>No failure arises and the agents stay registered.\<close>

definition steady :: "hub \<Rightarrow> hub \<Rightarrow> bool" where
  "steady s s' \<longleftrightarrow> (calm s \<longrightarrow> calm s') \<and> tb_agents (tabs s') = tb_agents (tabs s)"

interpretation steady: contract steady
  by unfold_locales (auto simp: steady_def)

lemma steady_time: "obeys steady time_now"
  by (simp add: obeys_def steady_def time_now_def calm_env)

lemma steady_update: "obeys steady (UpdateStatus i from to msg now f)"
proof (rule obeysI)
  fix s r s' assume run: "UpdateStatus i from to msg now f s = (r, s')"
  have "tb_agents (tabs s') = tb_agents (tabs s)"
  proof (cases r)
    case (Inl e)
    with run show ?thesis using atomic_UpdateStatus by (metis atomicD)
  next
    case (Inr x)
    with run show ?thesis by (auto elim!: UpdateStatus_Inr simp: status_written_def)
  qed
  then show "steady s s'" using calm_UpdateStatus [OF _ run] by (simp add: steady_def)
qed

lemma steady_report: "obeys steady (OnStatusUpdate ag d)"
  unfolding OnStatusUpdate_def
  by (intro steady.rules obeys_cases obeys_attempt obeys_store steady_time steady_update)

section \<open>The page of a preview\<close>

lemma GetByID_env: "calm s \<Longrightarrow> snd (GetByID i s) = step_env s"
  by (simp add: GetByID_def getPreviewByID_def get_one_calm)

text \<open>C29: what an agent reports is what the page of the preview shows: the status, with the buttons
  that go with it, the URL of every service, the error, and the agent with host and port while it
  runs.\<close>

theorem report_shown:
  assumes "calm s" and "db_ok (tabs s)" and "clock_ok s" and "su_preview d \<noteq> []" and "su_status d \<noteq> []"
    and "trim_space (su_preview d) = su_preview d"
    and "status_of s (su_preview d) \<noteq> None" and "ag \<in> arow_id ` set (tb_agents (tabs s))"
    and "report_sha_free d (tabs s)" and "distinct (map fst (su_urls d))" and "url_text_ok (su_urls d)"
    and "OnStatusUpdate ag d s = (r, s1)" and "tabs s2 = tabs s1" and "calm s2"
  shows "\<exists>v. fst (previewDetail (su_preview d) msg s2) = (Inr (Inr v) :: 'e + (ui_reply + preview_detail)) \<and>
    dr_id (pd_preview v) = su_preview d \<and> dr_status (pd_preview v) = su_status d \<and> pd_urls v = map_of (su_urls d) \<and>
    pd_stop v = (su_status d = ''running'') \<and> pd_rebuild v = (su_status d \<in> {''done'', ''failed''}) \<and>
    (\<forall>e. su_error d = Some e \<longrightarrow> dr_error (pd_preview v) = e \<and> pd_diagnosis v = diagnoseBuildError e) \<and>
    (\<forall>h n. su_status d = ''running'' \<and> ag \<noteq> [] \<and> su_host d = Some h \<and> su_port d = Some n \<longrightarrow>
       pd_agent_line v = ag @ '' ('' @ h @ '':'' @ itoa n @ '')'')"
proof -
  let ?i = "su_preview d"
  have ok: "store_ok s" and wf: "wf_tables (tabs s)" using assms(2,3) by (simp_all add: db_ok_def store_ok_def)
  from report_lands(3) [OF assms(1) ok assms(4,5,7-9,12)] obtain n where
    rows: "tb_previews (tabs s1) = update_where (\<lambda>q. row_id q = ?i) (reported_row ag d (clock s n)) (tb_previews (tabs s))" ..
  have "db_ok (tabs s2)" using obeysD [OF keeps_OnStatusUpdate assms(12)] assms(2,3,13) by (simp add: keeps_def)
  then have wf2: "wf_tables (tabs s2)" and dec: "decodable (tabs s2)" by (simp_all add: db_ok_def)
  from assms(7) obtain q where q: "find (\<lambda>r. row_id r = ?i) (tb_previews (tabs s)) = Some q" by (auto simp: status_of_def)
  define x where "x = reported_row ag d (clock s n) q"
  have find: "find (\<lambda>r. row_id r = ?i) (tb_previews (tabs s2)) = Some x"
    using q by (subst assms(13), subst rows, subst find_update_where_key)
      (auto simp: x_def reported_row_def dest: find_SomeD)
  then have "x \<in> set (tb_previews (tabs s2))" "row_id x = ?i" by (auto dest: find_SomeD)
  with dec previewRowToDomain_decodable [of x] obtain p where p: "previewRowToDomain x = Inr p"
    by (auto simp: decodable_def)
  have "row_status x = su_status d" by (simp add: x_def reported_row_def)
  with p \<open>row_id x = ?i\<close> have cols: "pv_id p = ?i" "pv_status p = su_status d" "pv_urls p = row_urls x" "pv_error p = row_error x"
      "pv_agent p = row_agent x" "pv_host p = row_host x" "pv_port p = row_port x"
    by (auto simp: previewRowToDomain_def split: option.splits)
  have urls: "decodeURLs (pv_urls p) = map_of (su_urls d)"
    unfolding cols(3) using decodeURLs_encode_map [OF assms(10,11)]
    by (simp add: x_def reported_row_def) (simp add: decodeURLs_def)
  have error: "pv_error p = Some e" if "su_error d = Some e" for e
    unfolding cols(4) using that by (simp add: x_def reported_row_def)
  have agent: "pv_agent p = Some ag \<and> pv_host p = Some h \<and> pv_port p = Some n"
    if "su_status d = ''running''" "ag \<noteq> []" "su_host d = Some h" "su_port d = Some n" for h n
    unfolding cols(5-7) using that by (simp add: x_def reported_row_def)
  have get: "GetByID ?i s2 = (Inr p, step_env s2)"
    using GetByID_calm [OF assms(14) wf2, of ?i] GetByID_env [OF assms(14), of ?i] find p by (simp add: prod_eq_iff)
  then have "\<exists>events. fst (previewDetail ?i msg s2) = (Inr (Inr (detail_of msg p events)) :: 'e + (ui_reply + preview_detail))"
    using assms(4,6) by (auto simp: previewDetail_def Let_def fetch_preview_def bindE_def attempt_def split: prod.split)
  then obtain events where
    "fst (previewDetail ?i msg s2) = (Inr (Inr (detail_of msg p events)) :: 'e + (ui_reply + preview_detail))" ..
  then show ?thesis
    by (intro exI [of _ "detail_of msg p events"])
      (auto simp: detail_of_def Let_def cols(1,2) urls agent_line_def error agent)
qed

theorem report_shown_witness:
  "\<exists>v. fst (previewDetail ''p1'' [] (snd (OnStatusUpdate ''a1'' ((sample_report ''running'' None)\<lparr>su_urls := [(''web'', ''http://h/p1/'')]\<rparr>)
        (sample ''building'' (Some ''a1''))))) = (Inr (Inr v) :: hub_err + (ui_reply + preview_detail)) \<and>
     pd_urls v ''web'' = Some ''http://h/p1/'' \<and> pd_stop v"
proof -
  let ?d = "(sample_report ''running'' None)\<lparr>su_urls := [(''web'', ''http://h/p1/'')]\<rparr>" and ?s = "sample ''building'' (Some ''a1'')"
  obtain r s1 where run: "OnStatusUpdate ''a1'' ?d ?s = (r, s1)" by fastforce
  have d: "su_preview ?d = ''p1''" "su_status ?d = ''running''" "trim_space ''p1'' = ''p1''"
    by (simp_all add: sample_report_def trim_space_plain_word plain_byte_def)
  have free: "report_sha_free ?d (tabs ?s)"
    by (simp add: report_sha_free_def sample_defs sample_report_def sha_taken_def)
  have "valid_utf8 ''web''" "valid_utf8 ''http://h/p1/''" by (rule ascii_valid, simp add: byte_in_def)+
  then have urls: "distinct (map fst (su_urls ?d))" "url_text_ok (su_urls ?d)" by (simp_all add: url_text_ok_def)
  have calm: "calm s1" using obeysD [OF steady_report run] by (simp add: steady_def)
  have "\<exists>v. fst (previewDetail (su_preview ?d) [] s1) = (Inr (Inr v) :: hub_err + (ui_reply + preview_detail)) \<and>
      pd_urls v = map_of (su_urls ?d) \<and> pd_stop v = (su_status ?d = ''running'')"
    using report_shown [OF sample_calm sample_db_ok(2) sample_clock _ _ _ _ _ free urls run _ calm, of "[]"] d by simp blast
  with d run show ?thesis by auto
qed

end
