(* ===== verification/StatusSpec.thy ===== *)
theory StatusSpec
  imports HubProperties
begin

text \<open>
  An abstract specification of the store as the clients of the hub see it: a board of preview
  ids with their statuses, and two operations, a guarded move and taking a queued preview. The
  store refines it: on a database in order and without failures each operation, and so each
  sequence of them, gives the same results and the board of the state after it.
\<close>

section \<open>Functional refinement of programs\<close>

text \<open>\<open>m\<close> does on the states that satisfy \<open>I\<close> what \<open>n\<close> does on their abstractions.\<close>

definition refines :: "('s \<Rightarrow> bool) \<Rightarrow> ('s \<Rightarrow> 'b) \<Rightarrow> ('s, 'e, 'a) prog \<Rightarrow> ('b, 'e, 'a) prog \<Rightarrow> bool" where
  "refines I look m n \<longleftrightarrow> (\<forall>s r s'. I s \<longrightarrow> m s = (r, s') \<longrightarrow> I s' \<and> n (look s) = (r, look s'))"

named_theorems refine_rules "rules by which a composed program refines a composed specification"

lemma refinesI:
  "(\<And>s r s'. I s \<Longrightarrow> m s = (r, s') \<Longrightarrow> I s' \<and> n (look s) = (r, look s')) \<Longrightarrow> refines I look m n"
  by (simp add: refines_def)

lemma refinesD: "refines I look m n \<Longrightarrow> I s \<Longrightarrow> m s = (r, s') \<Longrightarrow> I s' \<and> n (look s) = (r, look s')"
  by (simp add: refines_def)

lemma refines_ret [refine_rules]: "refines I look (ret x) (ret x)"
  by (simp add: refines_def)

lemma refines_throw [refine_rules]: "refines I look (throw e) (throw e)"
  by (simp add: refines_def)

lemma refines_bindE [refine_rules]:
  assumes "refines I look m n" and "\<And>x. refines I look (k x) (l x)"
  shows "refines I look (bindE m k) (bindE n l)"
proof (rule refinesI)
  fix s r s' assume "I s" and run: "bindE m k s = (r, s')"
  obtain q t where m: "m s = (q, t)" by fastforce
  from refinesD [OF assms(1) \<open>I s\<close> m] have t: "I t" "n (look s) = (q, look t)" by simp_all
  show "I s' \<and> bindE n l (look s) = (r, look s')"
  proof (cases q)
    case (Inl e)
    with run m t show ?thesis by (auto simp: bindE_def)
  next
    case (Inr x)
    with run m have "k x t = (r, s')" by (simp add: bindE_def)
    from refinesD [OF assms(2) t(1) this] Inr t(2) show ?thesis by (simp add: bindE_def)
  qed
qed

lemma refines_attempt [refine_rules]: "refines I look m n \<Longrightarrow> refines I look (attempt m) (attempt n)"
  by (fastforce simp: refines_def attempt_def split: prod.splits)

text \<open>A sequence of calls, with all their results.\<close>

fun collect :: "('x \<Rightarrow> ('s, 'e, unit) prog) \<Rightarrow> 'x list \<Rightarrow> ('s, 'f, ('e + unit) list) prog" where
  "collect f [] = ret []"
| "collect f (x # xs) = bindE (attempt (f x)) (\<lambda>r. bindE (collect f xs) (\<lambda>rs. ret (r # rs)))"

lemma refines_collect [refine_rules]:
  "(\<And>x. x \<in> set xs \<Longrightarrow> refines I look (f x) (g x)) \<Longrightarrow> refines I look (collect f xs) (collect g xs)"
  by (induction xs) (auto intro!: refine_rules)

section \<open>The board\<close>

type_synonym board = "string \<Rightarrow> string option"

datatype board_op =
    Move string string string string time  \<comment> \<open>preview, expected status or empty, new status, message\<close>
  | Take string string time  \<comment> \<open>preview, agent\<close>

fun spec_op :: "board_op \<Rightarrow> (board, store_err, unit) prog" where
  "spec_op (Move i from to msg now) b =
     (case b i of
        None \<Rightarrow> (Inl ErrNotFound, b)
      | Some st \<Rightarrow> if from \<noteq> [] \<and> st \<noteq> from then (Inl ErrStaleState, b) else (Inr (), b(i \<mapsto> to)))"
| "spec_op (Take i ag now) b =
     (if b i = Some ''queued'' then (Inr (), b(i \<mapsto> ''assigned'')) else (Inl ErrNotFound, b))"

fun store_op :: "board_op \<Rightarrow> unit db" where
  "store_op (Move i from to msg now) = UpdateStatus i from to msg now no_fields"
| "store_op (Take i ag now) = bindE (Claim [i] ag now) (\<lambda>_. ret ())"

definition in_order :: "string set \<Rightarrow> hub \<Rightarrow> bool" where
  "in_order ags s \<longleftrightarrow> calm s \<and> db_ok (tabs s) \<and> clock_ok s \<and> ags \<subseteq> arow_id ` set (tb_agents (tabs s))"

fun op_ok :: "string set \<Rightarrow> board_op \<Rightarrow> bool" where
  "op_ok ags (Move i from to msg now) \<longleftrightarrow> representable now"
| "op_ok ags (Take i ag now) \<longleftrightarrow> representable now \<and> ag \<in> ags"

lemma move_refines:
  assumes "representable now"
  shows "refines (in_order ags) status_of (store_op (Move i from to msg now)) (spec_op (Move i from to msg now))"
proof (rule refinesI)
  fix s r s' assume I: "in_order ags s" and "store_op (Move i from to msg now) s = (r, s')"
  then have run: "UpdateStatus i from to msg now no_fields s = (r, s')" by simp
  have s: "calm s" "wf_tables (tabs s)" using I by (simp_all add: in_order_def db_ok_def)
  have "fst (UpdateStatus i from to msg now no_fields s) = update_result i from to msg now no_fields (tabs s)"
    by (rule UpdateStatus_outcome [OF s])
  then have r: "r = update_result i from to msg now no_fields (tabs s)" using run by simp
  have st: "status_of s i = map_option row_status (find (\<lambda>r. row_id r = i) (tb_previews (tabs s)))"
    by (simp add: status_of_def)
  have agents: "tb_agents (tabs s') = tb_agents (tabs s)"
  proof (cases r)
    case (Inl e)
    with run show ?thesis using atomic_UpdateStatus by (metis atomicD)
  next
    case (Inr x)
    with run show ?thesis by (auto elim!: UpdateStatus_Inr simp: status_written_def)
  qed
  have "keeps db_ok s s'" using obeysD [OF db_ok_UpdateStatus [OF assms] run] .
  then have "in_order ags s'"
    using I calm_UpdateStatus [OF s(1) run] agents by (simp add: in_order_def keeps_def)
  moreover have "spec_op (Move i from to msg now) (status_of s) = (r, status_of s')"
  proof (cases r)
    case (Inl e)
    then have "status_of s' = status_of s" using run previews.update_failed by blast
    with r Inl show ?thesis unfolding plain_update_result [OF s(2)]
      by (cases "find (\<lambda>r. row_id r = i) (tb_previews (tabs s))") (simp_all add: st split: if_splits)
  next
    case (Inr x)
    then have "status_of s' = (status_of s)(i \<mapsto> to)"
      using UpdateStatus_status [of i "from" to msg now no_fields s s'] run s(2) by auto
    with r Inr show ?thesis unfolding plain_update_result [OF s(2)]
      by (cases "find (\<lambda>r. row_id r = i) (tb_previews (tabs s))") (simp_all add: st split: if_splits)
  qed
  ultimately show "in_order ags s' \<and> spec_op (Move i from to msg now) (status_of s) = (r, status_of s')" by blast
qed

text \<open>Taking one preview.\<close>

lemma no_candidate:
  assumes "calm s" and "claim_candidates [i] (tabs s) = []"
  shows "fst (Claim [i] ag now s) = Inl ErrNotFound"
proof -
  have none: "claimPreview ag (iso8601 now) [i] (tabs s) = Inl SqlErrNoRows"
    using assms(2) by (simp add: claimPreview_def)
  let ?body = "bindE (translate_no_rows (exec (claimPreview ag (iso8601 now) [i]))) (\<lambda>row.
      bindE new_uuid (\<lambda>u.
      bindE (exec (insertPreviewEvent
        \<lparr>ev_id = u, ev_preview = row_id row, ev_from = Some ''queued'', ev_to = ''assigned'',
         ev_message = [], ev_created = iso8601 now\<rparr>)) (\<lambda>_. ret row)))"
  have body: "fst (?body (step_env s)) = Inl ErrNotFound"
    using calm_no_fault [OF assms(1)] none
    by (simp add: bindE_def translate_no_rows_def catchE_def exec_def)
  have "obeys db_only ?body" by (intro frame_rules)
  from transact_calm [OF assms(1) this] body have "fst (claim_tx [i] ag now s) = Inl ErrNotFound"
    unfolding claim_tx_def by (rule trans)
  then show ?thesis by (cases "claim_tx [i] ag now s") (simp add: Claim_tx bindE_def)
qed

lemma candidate_of_queued:
  assumes "status_of s i = Some ''queued''"
  shows "claim_candidates [i] (tabs s) \<noteq> []"
proof -
  from assms obtain q where "find (\<lambda>r. row_id r = i) (tb_previews (tabs s)) = Some q" "row_status q = ''queued''"
    by (auto simp: status_of_def)
  then have "q \<in> set (tb_previews (tabs s))" "row_id q = i" "row_status q = ''queued''" by (auto dest: find_SomeD)
  then have "q \<in> set (claim_candidates [i] (tabs s))" by (simp add: claim_candidates_def order_asc_def)
  then show ?thesis by auto
qed

lemma queued_of_candidate:
  assumes "wf_tables (tabs s)" and "claim_candidates [i] (tabs s) = q # rest"
  shows "row_id q = i" and "status_of s i = Some ''queued''" and "q \<in> set (tb_previews (tabs s))"
  using claim_candidates_Cons [OF assms(2)] status_of_row [OF assms(1), of q] by auto

lemma status_of_claimed:
  assumes "tabs s' = claimed q ag now u (tabs s)" and "q \<in> set (tb_previews (tabs s))"
  shows "status_of s' = (status_of s)(row_id q \<mapsto> ''assigned'')"
  using assms(2)
  by (intro status_of_update [where f = "claim_row ag (iso8601 now)"]) (auto simp: assms(1) claimed_def)

lemma take_refines:
  assumes "representable now" and "ag \<in> ags"
  shows "refines (in_order ags) status_of (store_op (Take i ag now)) (spec_op (Take i ag now))"
proof (rule refinesI)
  fix s r s' assume I: "in_order ags s" and "store_op (Take i ag now) s = (r, s')"
  then obtain x where run: "Claim [i] ag now s = (x, s')" and r: "r = map_sum id (\<lambda>_. ()) x"
    by (auto simp: bindE_def split: prod.splits sum.splits)
  have s: "calm s" "wf_tables (tabs s)" "decodable (tabs s)" "ag \<in> arow_id ` set (tb_agents (tabs s))"
    using I assms(2) by (auto simp: in_order_def db_ok_def)
  have db: "db_ok (tabs s') \<and> clock_ok s'"
    using obeysD [OF db_ok_Claim [OF assms(1)] run] I by (simp add: keeps_def in_order_def)
  show "in_order ags s' \<and> spec_op (Take i ag now) (status_of s) = (r, status_of s')"
  proof (cases "claim_candidates [i] (tabs s)")
    case Nil
    then have x: "x = Inl ErrNotFound" using no_candidate [OF s(1) Nil, of ag now] run by simp
    then have t: "tabs s' = tabs s" using Claim_run [OF run] Nil by auto
    have "status_of s i \<noteq> Some ''queued''" using candidate_of_queued Nil by blast
    moreover have "calm s'"
      using calm_step [OF s(1) obeysD [OF frame_Claim run]] t by simp
    moreover have "status_of s' = status_of s" using t by (rule status_of_same)
    ultimately show ?thesis using db I x r t by (simp add: in_order_def)
  next
    case (Cons q rest)
    note q = queued_of_candidate [OF s(2) Cons]
    from Claim_first [OF s(1) Cons s(4,2), of now] run obtain u where
      x: "x = previewRowToDomain (claim_row ag (iso8601 now) q)"
      and t: "tabs s' = claimed q ag now u (tabs s)" "u \<in> uuids s ` {seqno s..<seqno s'}" by auto
    have "decodable_preview (claim_row ag (iso8601 now) q)"
      using s(3) q(3) assms(1) by (auto simp: decodable_def decodable_preview_def claim_row_def)
    then obtain p where "x = Inr p" using x previewRowToDomain_decodable by metis
    moreover have "calm s'" by (rule calm_claimed [OF s(1) run t])
    moreover have "tb_agents (tabs s') = tb_agents (tabs s)" by (simp add: t(1) claimed_def)
    ultimately show ?thesis
      using db I r q status_of_claimed [OF t(1) q(3)] by (simp add: in_order_def)
  qed
qed

lemma op_refines: "op_ok ags x \<Longrightarrow> refines (in_order ags) status_of (store_op x) (spec_op x)"
  by (cases x) (simp_all only: op_ok.simps move_refines take_refines)

section \<open>The store refines the board\<close>

text \<open>C3: on a database in order and without failures, every sequence of guarded moves and takes gives
  exactly the results of the abstract board, and leaves the database in order with the board as its
  statuses.\<close>

theorem store_refines_board:
  assumes "in_order ags s" and "list_all (op_ok ags) ops" and "collect store_op ops s = (r :: 'e + (store_err + unit) list, s')"
  shows "in_order ags s' \<and> collect spec_op ops (status_of s) = (r, status_of s')"
proof -
  have "refines (in_order ags) status_of (collect store_op ops)
      (collect spec_op ops :: (board, 'e, (store_err + unit) list) prog)"
    using assms(2) by (intro refines_collect op_refines) (simp add: list_all_iff)
  from refinesD [OF this assms(1,3)] show ?thesis .
qed

theorem store_refines_board_witness:
  "\<exists>s'. collect store_op [Take ''p1'' ''a1'' t0, Move ''p1'' ''queued'' ''done'' [] t0, Take ''p1'' ''a1'' t0]
     (sample ''queued'' None) = (Inr [Inr (), Inl ErrStaleState, Inl ErrNotFound] :: hub_err + (store_err + unit) list, s') \<and>
     status_of s' ''p1'' = Some ''assigned''"
proof -
  let ?ops = "[Take ''p1'' ''a1'' t0, Move ''p1'' ''queued'' ''done'' [] t0, Take ''p1'' ''a1'' t0]"
  obtain r s' where run: "collect store_op ?ops (sample ''queued'' None) = (r :: hub_err + (store_err + unit) list, s')"
    by fastforce
  have "in_order {''a1''} (sample ''queued'' None)" by (simp add: in_order_def)
  from store_refines_board [OF this _ run] have
    "collect spec_op ?ops (status_of (sample ''queued'' None)) = (r, status_of s')" by simp
  then have "r = Inr [Inr (), Inl ErrStaleState, Inl ErrNotFound]"
    and b: "status_of s' = (status_of (sample ''queued'' None))(''p1'' \<mapsto> ''assigned'')"
    by (auto simp: bindE_def attempt_def)
  moreover from b have "status_of s' ''p1'' = Some ''assigned''" by simp
  ultimately show ?thesis using run by blast
qed

end
