(* ===== verification/GoPath.thy ===== *)
theory GoPath
  imports LabelCodec
begin

text \<open>
  \<open>filepath.Clean\<close> and \<open>filepath.Join\<close> of the Go standard library on a Unix system, as far as
  the agent uses them: lexical, without looking at the file system. The parts of a path are
  its components after cleaning; \<open>Join\<close> of a directory and a plain name adds one part.
\<close>

section \<open>Cleaning\<close>

text \<open>The second argument is the output so far, last component first.\<close>

fun clean_parts :: "bool \<Rightarrow> string list \<Rightarrow> string list \<Rightarrow> string list" where
  "clean_parts rooted out [] = rev out"
| "clean_parts rooted out (p # ps) =
     (if p = [] \<or> p = ''.'' then clean_parts rooted out ps
      else if p = ''..'' then
        (case out of
           [] \<Rightarrow> clean_parts rooted (if rooted then [] else [p]) ps
         | q # qs \<Rightarrow> clean_parts rooted (if q = ''..'' then p # out else qs) ps)
      else clean_parts rooted (p # out) ps)"

definition is_abs :: "string \<Rightarrow> bool" where
  "is_abs s \<longleftrightarrow> has_prefix s ''/''"

definition path_parts :: "string \<Rightarrow> string list" where
  "path_parts s = clean_parts (is_abs s) [] (split_byte CHR ''/'' s)"

definition show_path :: "bool \<Rightarrow> string list \<Rightarrow> string" where
  "show_path rooted ps =
     (if rooted then CHR ''/'' # join_with ''/'' ps else if ps = [] then ''.'' else join_with ''/'' ps)"

definition clean :: "string \<Rightarrow> string" where
  "clean s = show_path (is_abs s) (path_parts s)"

definition path_join :: "string list \<Rightarrow> string" where
  "path_join elems =
     (let es = filter (\<lambda>e. e \<noteq> []) elems in if es = [] then [] else clean (join_with ''/'' es))"

lemma clean_samples:
  "clean ''/a/../b//./c'' = ''/b/c''" "clean ''../a/../..'' = ''../..''" "clean [] = ''.''"
  "path_join [''/w'', ''./x/../compose.yml''] = ''/w/compose.yml''"
  by code_simp+

section \<open>Parts of a path\<close>

definition plain_name :: "string \<Rightarrow> bool" where
  "plain_name x \<longleftrightarrow> x \<notin> {[], ''.'', ''..''} \<and> CHR ''/'' \<notin> set x"

text \<open>
  What is left after cleaning: plain names, behind dot-dots when the path is relative. The
  condition is on the reversed list, as \<open>clean_parts\<close> keeps it.
\<close>

fun normal_rev :: "bool \<Rightarrow> string list \<Rightarrow> bool" where
  "normal_rev rooted [] = True"
| "normal_rev rooted (p # out) \<longleftrightarrow> normal_rev rooted out \<and>
     (plain_name p \<or> p = ''..'' \<and> \<not> rooted \<and> (out = [] \<or> hd out = ''..''))"

definition normal :: "bool \<Rightarrow> string list \<Rightarrow> bool" where
  "normal rooted ps \<longleftrightarrow> normal_rev rooted (rev ps)"

lemma normal_rev_suffix: "normal_rev r (xs @ ys) \<Longrightarrow> normal_rev r ys"
  by (induction xs) auto

lemma clean_parts_normal:
  assumes "normal_rev rooted out" and "\<forall>p \<in> set ps. CHR ''/'' \<notin> set p"
  shows "normal rooted (clean_parts rooted out ps)"
  using assms
  by (induction rooted out ps rule: clean_parts.induct)
    (auto simp: normal_def plain_name_def split: list.splits)

lemma clean_parts_of_normal:
  assumes "normal_rev rooted (rev ps @ out)"
  shows "clean_parts rooted out ps = rev out @ ps"
  using assms
proof (induction rooted out ps rule: clean_parts.induct)
  case (2 rooted out p ps)
  from 2(5) have "normal_rev rooted (rev ps @ p # out)" by simp
  then have "normal_rev rooted (p # out)" by (rule normal_rev_suffix)
  with 2 show ?case by (cases out) (auto simp: plain_name_def)
qed simp

lemma split_parts_free: "p \<in> set (split_byte CHR ''/'' s) \<Longrightarrow> CHR ''/'' \<notin> set p"
  by (rule split_byte_no_sep)

lemma path_parts_normal: "normal (is_abs s) (path_parts s)"
  unfolding path_parts_def by (rule clean_parts_normal) (auto dest: split_parts_free)

lemma normal_rev_free: "normal_rev r out \<Longrightarrow> p \<in> set out \<Longrightarrow> CHR ''/'' \<notin> set p \<and> p \<noteq> []"
  by (induction out) (auto simp: plain_name_def)

lemma normal_free: "normal r ps \<Longrightarrow> p \<in> set ps \<Longrightarrow> CHR ''/'' \<notin> set p \<and> p \<noteq> []"
  using normal_rev_free [of r "rev ps"] by (simp add: normal_def)

lemma split_byte_append: "split_byte sep (w @ sep # s) = split_byte sep w @ split_byte sep s"
  by (induction w) (auto split: list.splits)

lemma split_join:
  assumes "ps \<noteq> []" and "\<forall>p \<in> set ps. CHR ''/'' \<notin> set p"
  shows "split_byte CHR ''/'' (join_with ''/'' ps) = ps"
  using assms
proof (induction ps)
  case (Cons p ps)
  then show ?case
    using split_byte_append_sep [of "CHR ''/''" p "join_with ''/'' ps"]
    by (cases ps) (auto simp: split_byte_free)
qed simp

lemma is_abs_show:
  assumes "normal rooted ps"
  shows "is_abs (show_path rooted ps) = rooted"
proof (cases ps)
  case (Cons p qs)
  with assms have "CHR ''/'' \<notin> set p" "p \<noteq> []" using normal_free by auto
  then have "p \<noteq> [] \<and> hd p \<noteq> CHR ''/''" by (metis hd_in_set)
  with Cons show ?thesis
    by (cases p; cases qs) (auto simp: show_path_def is_abs_def has_prefix_def)
qed (auto simp: show_path_def is_abs_def has_prefix_def)

lemma path_parts_show:
  assumes "normal rooted ps"
  shows "path_parts (show_path rooted ps) = ps"
proof -
  have free: "\<forall>p \<in> set ps. CHR ''/'' \<notin> set p" using assms normal_free by blast
  have "clean_parts rooted [] (split_byte CHR ''/'' (show_path rooted ps)) = ps"
  proof (cases "ps = []")
    case True
    then show ?thesis by (cases rooted) (simp_all add: show_path_def)
  next
    case False
    have parts: "clean_parts rooted [] ps = ps"
      using clean_parts_of_normal [of rooted ps "[]"] assms by (simp add: normal_def)
    show ?thesis
    proof (cases rooted)
      case True
      then have "split_byte CHR ''/'' (show_path rooted ps) = [] # ps"
        using split_byte_append_sep [of "CHR ''/''" "[]" "join_with ''/'' ps"] split_join [OF False free]
        by (simp add: show_path_def)
      with parts show ?thesis by simp
    next
      case rel: False
      with parts show ?thesis using split_join [OF False free] False by (simp add: show_path_def)
    qed
  qed
  then show ?thesis using is_abs_show [OF assms] by (simp add: path_parts_def)
qed

lemma path_parts_clean [simp]: "path_parts (clean s) = path_parts s"
  unfolding clean_def by (rule path_parts_show [OF path_parts_normal])

lemma is_abs_clean [simp]: "is_abs (clean s) = is_abs s"
  unfolding clean_def by (rule is_abs_show [OF path_parts_normal])

lemma clean_idem [simp]: "clean (clean s) = clean s"
  using is_abs_clean [of s] path_parts_clean [of s] by (simp add: clean_def)

section \<open>Joining a directory and a name\<close>

lemma clean_parts_snoc:
  "plain_name p \<Longrightarrow> clean_parts r out (ps @ [p]) = clean_parts r out ps @ [p]"
  by (induction r out ps rule: clean_parts.induct) (auto simp: plain_name_def split: list.splits)

lemma clean_parts_snocs:
  "list_all plain_name xs \<Longrightarrow> clean_parts r out (ps @ xs) = clean_parts r out ps @ xs"
proof (induction xs rule: rev_induct)
  case (snoc x xs)
  then show ?case using clean_parts_snoc [of x r out "ps @ xs"] by simp
qed simp

lemma split_join_names:
  "list_all plain_name xs \<Longrightarrow>
     split_byte CHR ''/'' (join_with ''/'' (dir # xs)) = split_byte CHR ''/'' dir @ xs"
proof (induction xs arbitrary: dir)
  case (Cons x xs)
  then have "split_byte CHR ''/'' x = [x]" by (auto simp: plain_name_def split_byte_free)
  with Cons show ?case using split_byte_append [of "CHR ''/''" dir "join_with ''/'' (x # xs)"] by simp
qed simp

lemma join_names:
  assumes "dir \<noteq> []" and "list_all plain_name xs"
  shows "path_parts (path_join (dir # xs)) = path_parts dir @ xs"
    and "is_abs (path_join (dir # xs)) = is_abs dir"
proof -
  have "filter (\<lambda>e. e \<noteq> []) xs = xs" using assms(2) by (auto simp: plain_name_def list_all_iff)
  then have j: "path_join (dir # xs) = clean (join_with ''/'' (dir # xs))"
    using assms(1) by (simp add: path_join_def)
  have a: "is_abs (join_with ''/'' (dir # xs)) = is_abs dir"
    using assms(1) by (cases dir; cases xs) (auto simp: is_abs_def has_prefix_def)
  then have "path_parts (join_with ''/'' (dir # xs)) = path_parts dir @ xs"
    by (simp add: path_parts_def split_join_names [OF assms(2)] clean_parts_snocs [OF assms(2)])
  with j a show "path_parts (path_join (dir # xs)) = path_parts dir @ xs"
    and "is_abs (path_join (dir # xs)) = is_abs dir" by simp_all
qed

lemma path_join_nonempty: "dir \<noteq> [] \<Longrightarrow> path_join (dir # xs) \<noteq> []"
proof -
  have "normal r ps \<Longrightarrow> show_path r ps \<noteq> []" for r ps
    using normal_free [of r ps] by (cases ps; cases "tl ps") (auto simp: show_path_def)
  then have "clean s \<noteq> []" for s unfolding clean_def using path_parts_normal by blast
  then show "dir \<noteq> [] \<Longrightarrow> path_join (dir # xs) \<noteq> []" by (simp add: path_join_def Let_def)
qed

end
