(* ===== verification/PreviewConfig.thy ===== *)
theory PreviewConfig
  imports GoPath
begin

text \<open>
  internal/agent/preview_config.go: the file \<open>.preview.yml\<close> of a repository, found, read and
  validated. The YAML reader is an argument; so is what the file system shows at the time of
  the call (the kind of the node at a path, the content of a file).
\<close>

section \<open>Maps and files\<close>

text \<open>A Go map is an association list read with \<open>map_of\<close>; its keys, collected and sorted.\<close>

definition sorted_keys :: "(string \<times> 'v) list \<Rightarrow> string list" where
  "sorted_keys m = sort (remdups (map fst m))"

lemma sorted_keys_facts [simp]:
  "set (sorted_keys m) = fst ` set m" "distinct (sorted_keys m)" "sorted (sorted_keys m)"
  by (simp_all add: sorted_keys_def)

lemma sorted_keys_Nil_iff [simp]: "sorted_keys m = [] \<longleftrightarrow> m = []"
  by (metis image_is_empty set_empty sorted_keys_facts(1))

lemma sorted_keys_lookup: "k \<in> set (sorted_keys m) \<Longrightarrow> \<exists>v. map_of m k = Some v"
  by (metis map_of_eq_None_iff not_None_eq sorted_keys_facts(1))

lemma sorted_keys_cong: "fst ` set m = fst ` set m' \<Longrightarrow> sorted_keys m = sorted_keys m'"
  by (metis sorted_distinct_set_unique sorted_keys_facts)

lemma map_of_tabulate:
  "map_of (map (\<lambda>k. (k, f (the (map_of m k)))) (sorted_keys m)) x = map_option f (map_of m x)"
proof -
  have "map_of (map (\<lambda>k. (k, f (the (map_of m k)))) ks) x =
      (if x \<in> set ks then Some (f (the (map_of m x))) else None)" for ks
    by (induction ks) auto
  moreover have "x \<notin> set (sorted_keys m) \<Longrightarrow> map_of m x = None" by (simp add: map_of_eq_None_iff)
  ultimately show ?thesis using sorted_keys_lookup [of x m] by fastforce
qed

text \<open>What \<open>os.Stat\<close> tells of a path.\<close>

datatype node = Absent | StatFailed | RegularFile | Directory

definition stat_ok :: "node \<Rightarrow> bool" where
  "stat_ok n \<longleftrightarrow> n = RegularFile \<or> n = Directory"

datatype read_error = NotExist | ReadFailed string

section \<open>Configurations\<close>

record PreviewService =
  svc_port :: int
  svc_path :: string
  svc_strip :: bool

record PreviewConfig =
  pc_compose :: string
  pc_dockerfile :: string
  pc_services :: "(string \<times> PreviewService) list"

record rawPreviewService =
  raw_port :: int
  raw_path :: string
  raw_strip :: "bool option"

record rawPreviewConfig =
  raw_compose :: string
  raw_dockerfile :: string
  raw_services :: "(string \<times> rawPreviewService) list"

datatype config_reason =
    ServicesEmpty | ServiceNameInvalid | PortInvalid | PathInvalid | DuplicatePath
  | BuildFileNotFound | YamlParse string

datatype config_error = ConfigMissing | ConfigRead string | ConfigInvalid config_reason

fun reason_text :: "config_reason \<Rightarrow> string" where
  "reason_text ServicesEmpty = ''services_empty''"
| "reason_text ServiceNameInvalid = ''service_name_invalid''"
| "reason_text PortInvalid = ''port_invalid''"
| "reason_text PathInvalid = ''path_invalid''"
| "reason_text DuplicatePath = ''duplicate_path''"
| "reason_text BuildFileNotFound = ''build_file_not_found''"
| "reason_text (YamlParse e) = ''yaml_parse: '' @ e"

fun config_error_text :: "config_error \<Rightarrow> string" where
  "config_error_text ConfigMissing = ''preview config missing''"
| "config_error_text (ConfigRead e) = ''preview config read: '' @ e"
| "config_error_text (ConfigInvalid r) = ''preview config invalid: '' @ reason_text r"

definition FirstService :: "PreviewConfig \<Rightarrow> (string \<times> PreviewService) option" where
  "FirstService c =
     (case sorted_keys (pc_services c) of
        [] \<Rightarrow> None
      | k # _ \<Rightarrow> Some (k, the (map_of (pc_services c) k)))"

text \<open>\<open>^[a-z0-9_-]+$\<close>\<close>

definition service_char :: "char \<Rightarrow> bool" where
  "service_char c \<longleftrightarrow> is_lower c \<or> is_digit c \<or> c = CHR ''_'' \<or> c = CHR ''-''"

definition serviceNamePattern :: "string \<Rightarrow> bool" where
  "serviceNamePattern s \<longleftrightarrow> s \<noteq> [] \<and> list_all service_char s"

section \<open>Loading\<close>

definition findConfigFile :: "(string \<Rightarrow> node) \<Rightarrow> string \<Rightarrow> string option" where
  "findConfigFile stat worktree =
     find (\<lambda>p. stat p = RegularFile)
       (map (\<lambda>nm. path_join [worktree, nm]) [''.preview.yml'', ''.preview.yaml''])"

definition buildFileExists :: "(string \<Rightarrow> node) \<Rightarrow> string \<Rightarrow> string \<Rightarrow> bool" where
  "buildFileExists stat worktree ref \<longleftrightarrow>
     stat (if is_abs ref then ref else path_join [worktree, ref]) = RegularFile"

definition service_of :: "rawPreviewService \<Rightarrow> PreviewService" where
  "service_of r = \<lparr>svc_port = raw_port r, svc_path = raw_path r,
     svc_strip = (case raw_strip r of None \<Rightarrow> True | Some b \<Rightarrow> b)\<rparr>"

definition check_service :: "string list \<Rightarrow> string \<Rightarrow> rawPreviewService \<Rightarrow> config_reason option" where
  "check_service seen nm r =
     (if \<not> serviceNamePattern nm then Some ServiceNameInvalid
      else if raw_port r \<le> 0 \<or> raw_port r > 65535 then Some PortInvalid
      else if raw_path r = [] \<or> hd (raw_path r) \<noteq> CHR ''/'' then Some PathInvalid
      else if raw_path r \<in> set seen then Some DuplicatePath
      else None)"

text \<open>The loop over the sorted names; the second argument holds the paths seen so far.\<close>

fun check_services ::
    "(string \<times> rawPreviewService) list \<Rightarrow> string list \<Rightarrow> string list \<Rightarrow>
     config_reason + (string \<times> PreviewService) list" where
  "check_services raws seen [] = Inr []"
| "check_services raws seen (nm # nms) =
     (let r = the (map_of raws nm) in
      case check_service seen nm r of
        Some e \<Rightarrow> Inl e
      | None \<Rightarrow>
          (case check_services raws (raw_path r # seen) nms of
             Inl e \<Rightarrow> Inl e
           | Inr rest \<Rightarrow> Inr ((nm, service_of r) # rest)))"

definition validate_config :: "(string \<Rightarrow> bool) \<Rightarrow> rawPreviewConfig \<Rightarrow> config_reason + PreviewConfig" where
  "validate_config file_exists raw =
     (if raw_compose raw \<noteq> [] \<and> \<not> file_exists (raw_compose raw) then Inl BuildFileNotFound
      else if raw_dockerfile raw \<noteq> [] \<and> \<not> file_exists (raw_dockerfile raw) then Inl BuildFileNotFound
      else if raw_services raw = [] then Inl ServicesEmpty
      else map_sum (\<lambda>e. e)
        (\<lambda>svcs. \<lparr>pc_compose = raw_compose raw, pc_dockerfile = raw_dockerfile raw, pc_services = svcs\<rparr>)
        (check_services (raw_services raw) [] (sorted_keys (raw_services raw))))"

definition LoadPreviewConfig ::
    "(string \<Rightarrow> string + rawPreviewConfig) \<Rightarrow> (string \<Rightarrow> node) \<Rightarrow> (string \<Rightarrow> read_error + string) \<Rightarrow>
     string \<Rightarrow> config_error + PreviewConfig" where
  "LoadPreviewConfig yaml stat read worktree =
     (case findConfigFile stat worktree of
        None \<Rightarrow> Inl ConfigMissing
      | Some path \<Rightarrow>
          (case read path of
             Inl NotExist \<Rightarrow> Inl ConfigMissing
           | Inl (ReadFailed e) \<Rightarrow> Inl (ConfigRead e)
           | Inr data \<Rightarrow>
               (case yaml data of
                  Inl e \<Rightarrow> Inl (ConfigInvalid (YamlParse e))
                | Inr raw \<Rightarrow>
                    map_sum ConfigInvalid (\<lambda>c. c) (validate_config (buildFileExists stat worktree) raw))))"

section \<open>What validation guarantees\<close>

definition service_ok :: "string \<Rightarrow> PreviewService \<Rightarrow> bool" where
  "service_ok nm s \<longleftrightarrow> serviceNamePattern nm \<and> 0 < svc_port s \<and> svc_port s \<le> 65535 \<and> has_prefix (svc_path s) ''/''"

definition valid_services :: "(string \<times> PreviewService) list \<Rightarrow> bool" where
  "valid_services svcs \<longleftrightarrow> distinct (map fst svcs) \<and> distinct (map (svc_path \<circ> snd) svcs) \<and>
     (\<forall>(nm, s) \<in> set svcs. service_ok nm s)"

lemma has_slash: "has_prefix p ''/'' \<longleftrightarrow> p \<noteq> [] \<and> hd p = CHR ''/''"
  by (cases p) (auto simp: has_prefix_def)

lemma check_service_None:
  "check_service seen nm r = None \<longleftrightarrow> service_ok nm (service_of r) \<and> raw_path r \<notin> set seen"
  by (auto simp: check_service_def service_ok_def service_of_def has_slash not_le)

lemma check_services_Cons:
  "check_services raws seen (nm # nms) = Inr svcs \<longleftrightarrow>
     (let r = the (map_of raws nm) in service_ok nm (service_of r) \<and> raw_path r \<notin> set seen \<and>
       (\<exists>rest. check_services raws (raw_path r # seen) nms = Inr rest \<and> svcs = (nm, service_of r) # rest))"
  using check_service_None [of seen nm "the (map_of raws nm)"]
  by (cases "check_service seen nm (the (map_of raws nm))") (auto simp: Let_def split: sum.split)

lemma valid_services_Cons:
  "valid_services ((nm, s) # svcs) \<longleftrightarrow> service_ok nm s \<and> nm \<notin> fst ` set svcs \<and>
     (\<forall>x \<in> snd ` set svcs. svc_path x \<noteq> svc_path s) \<and> valid_services svcs"
  by (auto simp: valid_services_def image_iff)

lemma check_services_iff:
  assumes "distinct nms"
  shows "check_services raws seen nms = Inr svcs \<longleftrightarrow>
    svcs = map (\<lambda>nm. (nm, service_of (the (map_of raws nm)))) nms \<and> valid_services svcs \<and>
    (\<forall>s \<in> snd ` set svcs. svc_path s \<notin> set seen)"
  using assms
proof (induction nms arbitrary: seen svcs)
  case (Cons nm nms)
  have "svc_path (service_of r) = raw_path r" for r by (simp add: service_of_def)
  with Cons.prems show ?case
    unfolding check_services_Cons Let_def
    by (auto simp: Cons.IH valid_services_Cons image_iff)
qed (auto simp: valid_services_def)

lemma validate_config_Inr:
  "validate_config ex raw = Inr c \<longleftrightarrow>
     pc_compose c = raw_compose raw \<and> (raw_compose raw \<noteq> [] \<longrightarrow> ex (raw_compose raw)) \<and>
     pc_dockerfile c = raw_dockerfile raw \<and> (raw_dockerfile raw \<noteq> [] \<longrightarrow> ex (raw_dockerfile raw)) \<and>
     raw_services raw \<noteq> [] \<and> valid_services (pc_services c) \<and>
     pc_services c = map (\<lambda>nm. (nm, service_of (the (map_of (raw_services raw) nm)))) (sorted_keys (raw_services raw))"
proof -
  have "validate_config ex raw = Inr c \<longleftrightarrow>
      (raw_compose raw \<noteq> [] \<longrightarrow> ex (raw_compose raw)) \<and> (raw_dockerfile raw \<noteq> [] \<longrightarrow> ex (raw_dockerfile raw)) \<and>
      raw_services raw \<noteq> [] \<and> pc_compose c = raw_compose raw \<and> pc_dockerfile c = raw_dockerfile raw \<and>
      check_services (raw_services raw) [] (sorted_keys (raw_services raw)) = Inr (pc_services c)"
    by (cases c; cases "check_services (raw_services raw) [] (sorted_keys (raw_services raw))")
      (auto simp: validate_config_def)
  then show ?thesis by (auto simp: check_services_iff)
qed

lemma FirstService_of_valid: "pc_services c \<noteq> [] \<Longrightarrow> FirstService c \<noteq> None"
  by (auto simp: FirstService_def split: list.split)

lemma FirstService_least:
  assumes "FirstService c = Some (nm, s)"
  shows "map_of (pc_services c) nm = Some s \<and> (\<forall>x \<in> fst ` set (pc_services c). nm \<le> x)"
proof -
  obtain ks where ks: "sorted_keys (pc_services c) = nm # ks" "s = the (map_of (pc_services c) nm)"
    using assms by (auto simp: FirstService_def split: list.splits)
  have "sorted (nm # ks)" using ks(1) sorted_keys_facts(3) by metis
  moreover have "set (nm # ks) = fst ` set (pc_services c)" using ks(1) sorted_keys_facts(1) by metis
  ultimately show ?thesis using ks sorted_keys_lookup [of nm "pc_services c"]
    by (metis list.set_intros(1) option.sel set_ConsD order_refl sorted_simps(2))
qed

end
