(* ===== verification/TraefikLabels.thy ===== *)
theory TraefikLabels
  imports PreviewConfig
begin

text \<open>
  internal/agent/labels.go: the labels by which Traefik routes a preview, the override file
  of docker compose, the names of the routers to wait for and the URLs reported to the hub.
\<close>

section \<open>Labels\<close>

definition traefikNetwork :: string where "traefikNetwork = ''preview-net''"
definition buildModeCompose :: string where "buildModeCompose = ''compose''"
definition buildModeDockerfile :: string where "buildModeDockerfile = ''dockerfile''"

definition routerName :: "string \<Rightarrow> string \<Rightarrow> string" where
  "routerName pid nm = pid @ ''-'' @ nm"

definition fullPath :: "string \<Rightarrow> PreviewService \<Rightarrow> string" where
  "fullPath pid svc = ''/'' @ pid @ svc_path svc"

definition route_rule :: "string \<Rightarrow> string" where
  "route_rule path = ''PathPrefix(`'' @ path @ ''`)''"

definition ServiceLabels :: "string \<Rightarrow> string \<Rightarrow> PreviewService \<Rightarrow> (string \<times> string) list" where
  "ServiceLabels pid nm svc =
     (let router = routerName pid nm; path = fullPath pid svc; strip = router @ ''-strip'' in
      [(''traefik.enable'', ''true''),
       (''traefik.docker.network'', traefikNetwork),
       (''traefik.http.routers.'' @ router @ ''.rule'', route_rule path),
       (''traefik.http.routers.'' @ router @ ''.entrypoints'', ''web''),
       (''traefik.http.services.'' @ router @ ''.loadbalancer.server.port'', itoa (svc_port svc))] @
      (if svc_strip svc
       then [(''traefik.http.routers.'' @ router @ ''.middlewares'', strip),
             (''traefik.http.middlewares.'' @ strip @ ''.stripprefix.prefixes'', path)]
       else []))"

section \<open>The override file of docker compose\<close>

text \<open>\<open>composeOverride\<close> before it is written as YAML: per service its networks and labels.\<close>

record composeOverride =
  ov_services :: "(string \<times> string list \<times> string list) list"
  ov_networks :: "(string \<times> bool) list"

definition label_lines :: "(string \<times> string) list \<Rightarrow> string list" where
  "label_lines m = map (\<lambda>k. k @ ''='' @ the (map_of m k)) (sorted_keys m)"

definition ComposeOverride :: "string \<Rightarrow> PreviewConfig \<Rightarrow> composeOverride" where
  "ComposeOverride pid cfg =
     \<lparr>ov_services = map (\<lambda>nm. (nm, [traefikNetwork],
          label_lines (ServiceLabels pid nm (the (map_of (pc_services cfg) nm)))))
        (sorted_keys (pc_services cfg)),
      ov_networks = [(traefikNetwork, True)]\<rparr>"

section \<open>Routers and URLs\<close>

definition RouterNames :: "string \<Rightarrow> PreviewConfig \<Rightarrow> string \<Rightarrow> string list" where
  "RouterNames pid cfg mode =
     (if mode = buildModeCompose then sort (map (routerName pid) (sorted_keys (pc_services cfg)))
      else if mode = buildModeDockerfile then
        (case FirstService cfg of None \<Rightarrow> [] | Some (nm, _) \<Rightarrow> [routerName pid nm])
      else [])"

definition url_of :: "string \<Rightarrow> int \<Rightarrow> string \<Rightarrow> PreviewService \<Rightarrow> string" where
  "url_of host port pid svc = ''http://'' @ host @ '':'' @ itoa port @ ''/'' @ pid @ svc_path svc"

definition PreviewURLs :: "string \<Rightarrow> PreviewConfig \<Rightarrow> string \<Rightarrow> int \<Rightarrow> (string \<times> string) list" where
  "PreviewURLs pid cfg advHost traefikPort =
     (let host = (if advHost = [] then ''127.0.0.1'' else advHost) in
      map (\<lambda>nm. (nm, url_of host traefikPort pid (the (map_of (pc_services cfg) nm))))
        (sorted_keys (pc_services cfg)))"

section \<open>Routing\<close>

lemma routerName_inject [simp]: "routerName pid m = routerName pid n \<longleftrightarrow> m = n"
  by (simp add: routerName_def)

text \<open>The keys of the labels are pairwise different, so the list is the map the code builds.\<close>

lemma ServiceLabels_distinct: "distinct (map fst (ServiceLabels pid nm svc))"
  by (cases "svc_strip svc") (simp_all add: ServiceLabels_def Let_def)

lemma ServiceLabels_rule:
  "map_of (ServiceLabels pid nm svc) (''traefik.http.routers.'' @ routerName pid nm @ ''.rule'')
     = Some (route_rule (fullPath pid svc))"
  by (simp add: ServiceLabels_def Let_def)

lemma set_RouterNames_compose:
  "set (RouterNames pid cfg buildModeCompose) = routerName pid ` fst ` set (pc_services cfg)"
  by (simp add: RouterNames_def)

lemma PreviewURLs_lookup:
  "map_of (PreviewURLs pid cfg host port) nm =
     map_option (url_of (if host = [] then ''127.0.0.1'' else host) port pid) (map_of (pc_services cfg) nm)"
  by (simp only: PreviewURLs_def Let_def map_of_tabulate)

text \<open>A URL is its host and port followed by exactly the path the router of its service matches.\<close>

lemma url_path: "url_of host port pid svc = ''http://'' @ host @ '':'' @ itoa port @ fullPath pid svc"
  by (simp add: url_of_def fullPath_def)

text \<open>
  Two services, of the same preview or of different ones, have different routes: an id holds
  no slash, and a path starts with one.
\<close>

lemma fullPath_inject:
  assumes "CHR ''/'' \<notin> set pid" and "CHR ''/'' \<notin> set pid'"
    and "has_prefix (svc_path s) ''/''" and "has_prefix (svc_path s') ''/''"
    and "fullPath pid s = fullPath pid' s'"
  shows "pid = pid' \<and> svc_path s = svc_path s'"
proof -
  have cut: "takeWhile (\<lambda>c. c \<noteq> CHR ''/'') (i @ p) = i" if "CHR ''/'' \<notin> set i" and "has_prefix p ''/''" for i p
  proof -
    from that(2) obtain r where "p = CHR ''/'' # r" by (auto simp: has_prefix_iff)
    with that(1) show ?thesis by (induction i) auto
  qed
  have eq: "pid @ svc_path s = pid' @ svc_path s'" using assms(5) by (simp add: fullPath_def)
  then have "pid = pid'" using cut [OF assms(1,3)] cut [OF assms(2,4)] by metis
  with eq show ?thesis by simp
qed

lemma route_rule_inject [simp]: "route_rule p = route_rule q \<longleftrightarrow> p = q"
  by (simp add: route_rule_def)

end
