(* ===== verification/Dotenv.thy ===== *)
theory Dotenv
  imports PreviewConfig
begin

text \<open>
  internal/agent/dotenv.go: the text of the \<open>.env\<close> file written into a worktree, one line per
  variable. A line break inside a value is written as a backslash and an \<open>n\<close>.
\<close>

definition escapeDotenvValue :: "string \<Rightarrow> string" where
  "escapeDotenvValue v =
     (if CHR 10 \<notin> set v then v else replace_byte (CHR 10) [CHR 92, CHR ''n''] v)"

definition dotenv_line :: "string \<Rightarrow> string \<Rightarrow> string" where
  "dotenv_line k v = k @ CHR ''='' # escapeDotenvValue v"

text \<open>None: the map is empty and no file is written.\<close>

definition dotenv_text :: "(string \<times> string) list \<Rightarrow> string option" where
  "dotenv_text env =
     (if env = [] then None
      else Some (concat (map (\<lambda>k. dotenv_line k (the (map_of env k)) @ [CHR 10]) (sorted_keys env))))"

lemma escape_no_break: "CHR 10 \<notin> set (escapeDotenvValue v)"
  by (simp add: escapeDotenvValue_def replace_byte_removes)

lemma escape_plain: "CHR 10 \<notin> set v \<Longrightarrow> escapeDotenvValue v = v"
  by (simp add: escapeDotenvValue_def)

text \<open>
  The lines of the file are those of the variables, one each and in order of the names: no
  value can add a line of its own.
\<close>

lemma split_lines_of:
  assumes "\<forall>l \<in> set ls. CHR 10 \<notin> set l"
  shows "split_byte (CHR 10) (concat (map (\<lambda>l. l @ [CHR 10]) ls)) = ls @ [[]]"
  using assms by (induction ls) (auto simp: split_byte_append_sep)

lemma dotenv_lines:
  assumes "\<forall>k \<in> fst ` set env. CHR 10 \<notin> set k" and "dotenv_text env = Some content"
  shows "split_byte (CHR 10) content = map (\<lambda>k. dotenv_line k (the (map_of env k))) (sorted_keys env) @ [[]]"
proof -
  let ?ls = "map (\<lambda>k. dotenv_line k (the (map_of env k))) (sorted_keys env)"
  have "content = concat (map (\<lambda>l. l @ [CHR 10]) ?ls)"
    using assms(2) by (auto simp: dotenv_text_def comp_def split: if_splits)
  moreover have "\<forall>l \<in> set ?ls. CHR 10 \<notin> set l"
    using assms(1) escape_no_break by (auto simp: dotenv_line_def)
  ultimately show ?thesis using split_lines_of [of ?ls] by simp
qed

text \<open>
  The text determines the variables: what stands before and behind the first \<open>=\<close> of its lines.
  How docker compose reads such a file (quotes, dollar signs, comments) is not modelled.
\<close>

definition line_parts :: "string \<Rightarrow> (string \<times> string) list" where
  "line_parts content = map (\<lambda>l. (takeWhile (\<lambda>c. c \<noteq> CHR ''='') l, tl (dropWhile (\<lambda>c. c \<noteq> CHR ''='') l)))
     (filter (\<lambda>l. l \<noteq> []) (split_byte (CHR 10) content))"

lemma line_parts_of_text:
  assumes keys: "\<forall>k \<in> fst ` set env. CHR 10 \<notin> set k \<and> CHR ''='' \<notin> set k"
    and content: "dotenv_text env = Some content"
  shows "map_of (line_parts content) = (\<lambda>k. map_option escapeDotenvValue (map_of env k))"
proof -
  let ?line = "\<lambda>k. dotenv_line k (the (map_of env k))"
  have split: "(takeWhile (\<lambda>c. c \<noteq> CHR ''='') (?line k), tl (dropWhile (\<lambda>c. c \<noteq> CHR ''='') (?line k))) =
      (k, escapeDotenvValue (the (map_of env k)))" if "k \<in> fst ` set env" for k
    using keys that by (auto simp: dotenv_line_def takeWhile_append dropWhile_append)
  have "?line k \<noteq> []" for k by (simp add: dotenv_line_def)
  then have "line_parts content = map (\<lambda>k. (k, escapeDotenvValue (the (map_of env k)))) (sorted_keys env)"
    using dotenv_lines [OF _ content] keys split by (auto simp: line_parts_def comp_def)
  then show ?thesis by (simp add: map_of_tabulate fun_eq_iff)
qed

lemma dotenv_determines:
  assumes "\<forall>k \<in> fst ` set env. CHR 10 \<notin> set k \<and> CHR ''='' \<notin> set k"
    and "\<forall>k \<in> fst ` set env'. CHR 10 \<notin> set k \<and> CHR ''='' \<notin> set k"
    and "dotenv_text env = Some content" and "dotenv_text env' = Some content"
  shows "(\<lambda>k. map_option escapeDotenvValue (map_of env' k)) = (\<lambda>k. map_option escapeDotenvValue (map_of env k))"
  using line_parts_of_text [OF assms(1,3)] line_parts_of_text [OF assms(2,4)] by simp

end
