(* ===== verification/AgentWorld.thy ===== *)
theory AgentWorld
  imports Protocol TraefikLabels Dotenv
begin

text \<open>
  The state of the agent and what surrounds it. Every call that leaves the process (a command,
  the docker daemon, a write to the file system, a frame to the hub) is an effect: it is
  appended to the trace and answered by the environment, which may fail it at will: the trace
  holds the attempts, a frame whose write fails included. What the
  agent reads (files, containers) the environment shows per moment. The answers are arguments
  of the model: nothing is assumed of git, docker, Traefik or the YAML library.
\<close>

section \<open>The docker client\<close>

record PortBinding =
  pb_container :: int
  pb_host :: int
  pb_protocol :: string

record CreateOptions =
  co_image :: string
  co_name :: string
  co_labels :: "(string \<times> string) list"
  co_ports :: "PortBinding list"
  co_networks :: "string list"
  co_volumes :: "string list"
  co_cmd :: "string list"
  co_env :: "string list"

datatype docker_err = ErrDockerNotFound | DockerErr string

record ContainerSummary =
  cs_id :: string
  cs_labels :: "(string \<times> string) list"

record ContainerInspectResult =
  in_host_port :: int
  in_labels :: "(string \<times> string) list"
  in_status :: string

section \<open>Effects\<close>

datatype effect =
    Exec "string list"  \<comment> \<open>\<open>CmdRunner.Run\<close>\<close>
  | Output "string list"  \<comment> \<open>\<open>CmdRunner.Output\<close>\<close>
  | ImageBuild string string  \<comment> \<open>context directory and tag\<close>
  | ContainerCreate CreateOptions
  | ContainerStart string
  | ContainerStop string
  | ContainerRemove string
  | NetworkCreate string string bool  \<comment> \<open>name, driver, attachable\<close>
  | WriteFile string string
  | RemoveFile string
  | RemoveAll string
  | MkdirAll string
  | Frame envelope

record agent_env =
  answers :: "nat \<Rightarrow> effect \<Rightarrow> string + string"
  stat_at :: "nat \<Rightarrow> string \<Rightarrow> node"
  read_at :: "nat \<Rightarrow> string \<Rightarrow> read_error + string"
  readdir_at :: "nat \<Rightarrow> string \<Rightarrow> read_error + (string \<times> bool) list"  \<comment> \<open>name, is a directory\<close>
  inspect_at :: "nat \<Rightarrow> string \<Rightarrow> docker_err + ContainerInspectResult"
  list_at :: "nat \<Rightarrow> string \<Rightarrow> docker_err + ContainerSummary list"
  network_at :: "nat \<Rightarrow> string \<Rightarrow> docker_err + string"  \<comment> \<open>the driver of the network\<close>
  routers_at :: "nat \<Rightarrow> string \<Rightarrow> string + nat \<times> (string + string)"
    \<comment> \<open>Traefik's answer to a URL: the HTTP status, and the status field or the error of decoding it\<close>
  elapsed_at :: "nat \<Rightarrow> nat"  \<comment> \<open>the nanoseconds a step takes, less one\<close>
  ctx_at :: "nat \<Rightarrow> string option"  \<comment> \<open>the error of the context once it is cancelled\<close>
  read_yaml :: "string \<Rightarrow> string + rawPreviewConfig"
  write_yaml :: "composeOverride \<Rightarrow> string + string"
  compose_json :: "string \<Rightarrow> string + string list"  \<comment> \<open>the project names of \<open>docker compose ls\<close>\<close>
  with_token :: "string \<Rightarrow> string \<Rightarrow> string option"
    \<comment> \<open>an https URL with a user; None if it does not parse or has another scheme\<close>

section \<open>The state of the agent\<close>

record RepoCache =
  rc_url :: string
  rc_auth :: string
  rc_dir :: string

record runningJob =
  jb_container :: string
  jb_host :: string
  jb_port :: int
  jb_worktree :: string
  jb_repo :: string
  jb_mode :: string
  jb_compose :: string

record agent =
  jobs :: "(string \<times> runningJob) list"
  building :: "string list"
  a_paused :: bool
  inFlight :: int
  maxJobs :: int
  has_ready :: bool
  advHost :: string
  traefikPort :: int
  traefikAPIPort :: int
  routerReadyTimeout :: int
  workDir :: string
  token :: string
  repos :: "(string \<times> RepoCache) list"
  prefetched :: "string list"
  online :: bool
  trace :: "effect list"
  moment :: nat
  slept :: nat
  env :: agent_env

type_synonym 'a run = "(agent, string, 'a) prog"

text \<open>
  The clock, in nanoseconds since the agent started: every step takes at least one, and what
  the agent has slept comes on top.
\<close>

definition clock :: "agent \<Rightarrow> int" where
  "clock s = int (sum_list (map (\<lambda>n. Suc (elapsed_at (env s) n)) [0..<moment s]) + slept s)"

definition perform :: "effect \<Rightarrow> string run" where
  "perform e s = (answers (env s) (moment s) e, s\<lparr>trace := trace s @ [e], moment := Suc (moment s)\<rparr>)"

definition observe :: "(agent_env \<Rightarrow> nat \<Rightarrow> 'a) \<Rightarrow> (agent, 'e, 'a) prog" where
  "observe f s = (Inr (f (env s) (moment s)), s\<lparr>moment := Suc (moment s)\<rparr>)"

definition modify :: "(agent \<Rightarrow> agent) \<Rightarrow> (agent, 'e, unit) prog" where
  "modify f s = (Inr (), f s)"

definition gets :: "(agent \<Rightarrow> 'a) \<Rightarrow> (agent, 'e, 'a) prog" where
  "gets f s = (Inr (f s), s)"

lemma clock_mono:
  assumes "env t = env s" and "moment s \<le> moment t" and "slept s \<le> slept t"
  shows "clock s + int (moment t - moment s) + int (slept t - slept s) \<le> clock t"
proof -
  have "(\<Sum>n\<leftarrow>[0..<m]. Suc (f n)) + k \<le> (\<Sum>n\<leftarrow>[0..<m + k]. Suc (f n))" for f and m k :: nat
    by (induction k) simp_all
  from this [where m = "moment s" and k = "moment t - moment s" and f = "elapsed_at (env s)"] assms
  show ?thesis by (simp add: clock_def)
qed

text \<open>An error wrapped as \<open>fmt.Errorf("prefix: %w", err)\<close>.\<close>

definition wrap :: "string \<Rightarrow> 'a run \<Rightarrow> 'a run" where
  "wrap prefix m = catchE m (\<lambda>e. throw (prefix @ '': '' @ e))"

text \<open>\<open>Client.SendStatusUpdate\<close> and \<open>Client.SendReady\<close>: an error without a connection.\<close>

definition send_frame :: "string \<Rightarrow> envelope \<Rightarrow> unit run" where
  "send_frame who e s =
     (if \<not> online s then (Inl (''client.'' @ who @ '': not connected''), s)
      else bindE (perform (Frame e)) (\<lambda>_. ret ()) s)"

definition SendStatusUpdate :: "StatusUpdateData \<Rightarrow> unit run" where
  "SendStatusUpdate d = send_frame ''SendStatusUpdate'' (StatusUpdate d)"

definition SendReady :: "unit run" where
  "SendReady = send_frame ''SendReady'' (Ready [] 1)"

lemma runs [prog_elims]:
  "perform e s = (r, s') \<longleftrightarrow> r = answers (env s) (moment s) e \<and>
     s' = s\<lparr>trace := trace s @ [e], moment := Suc (moment s)\<rparr>"
  "observe f s = (Inr x, s') \<longleftrightarrow> x = f (env s) (moment s) \<and> s' = s\<lparr>moment := Suc (moment s)\<rparr>"
  "modify g s = (Inr u, s') \<longleftrightarrow> s' = g s"
  "gets h s = (Inr y, s') \<longleftrightarrow> y = h s \<and> s' = s"
  by (auto simp: perform_def observe_def modify_def gets_def)

lemma no_error [simp]:
  "observe f s \<noteq> (Inl e, s')" "modify g s \<noteq> (Inl e, s')" "gets h s \<noteq> (Inl e, s')"
  by (simp_all add: observe_def modify_def gets_def)

lemma bindE_attempt [simp]: "bindE (attempt m) k s = k (fst (m s)) (snd (m s))"
  by (simp add: bindE_def attempt_def split: prod.split)

lemma bindE_reads [simp]:
  "bindE (gets f) k s = k (f s) s"
  "bindE (modify g) l s = l () (g s)"
  "bindE (observe h) n s = n (h (env s) (moment s)) (s\<lparr>moment := Suc (moment s)\<rparr>)"
  by (simp_all add: bindE_def gets_def modify_def observe_def)

section \<open>Contracts on the trace\<close>

text \<open>The state moves on and every effect it adds is allowed.\<close>

definition emits :: "(effect \<Rightarrow> bool) \<Rightarrow> agent \<Rightarrow> agent \<Rightarrow> bool" where
  "emits P s s' \<longleftrightarrow> (\<exists>new. trace s' = trace s @ new \<and> list_all P new) \<and> moment s \<le> moment s'
     \<and> slept s \<le> slept s' \<and> env s' = env s \<and> online s' = online s \<and> workDir s' = workDir s \<and> repos s' = repos s
     \<and> jobs s' = jobs s"

named_theorems emit_rules "effects that a program of the agent adds to the trace"

lemma emits_trans: "emits P s t \<Longrightarrow> emits P t u \<Longrightarrow> emits P s u"
proof -
  assume st: "emits P s t" and tu: "emits P t u"
  obtain a b where "trace t = trace s @ a" "trace u = trace t @ b" "list_all P a" "list_all P b"
    using st tu by (auto simp: emits_def)
  then have "trace u = trace s @ (a @ b) \<and> list_all P (a @ b)" by simp
  with st tu show ?thesis by (auto simp: emits_def)
qed

interpretation emit: contract "emits P" for P
proof
  show "emits P s s" for s by (simp add: emits_def)
qed (rule emits_trans)

lemma emits_mono: "emits P s s' \<Longrightarrow> (\<And>e. P e \<Longrightarrow> Q e) \<Longrightarrow> emits Q s s'"
  by (auto simp: emits_def list_all_iff)

lemma emits_perform: "P e \<Longrightarrow> obeys (emits P) (perform e)"
  by (auto simp: obeys_def emits_def perform_def)

lemma emits_observe: "obeys (emits P) (observe f)"
  by (auto simp: obeys_def emits_def observe_def)

lemma emits_gets: "obeys (emits P) (gets f)"
  by (auto simp: obeys_def emits_def gets_def)

lemma emits_modify:
  "(\<And>s. trace (f s) = trace s \<and> moment (f s) = moment s \<and> slept (f s) = slept s \<and> env (f s) = env s \<and> online (f s) = online s
     \<and> workDir (f s) = workDir s \<and> repos (f s) = repos s \<and> jobs (f s) = jobs s) \<Longrightarrow> obeys (emits P) (modify f)"
  by (auto simp: obeys_def emits_def modify_def)

lemma obeys_wrap: "contract R \<Longrightarrow> obeys R m \<Longrightarrow> obeys R (wrap prefix m)"
  unfolding wrap_def by (intro contract.catchE contract.throw)

lemma emits_frame: "P (Frame e) \<Longrightarrow> obeys (emits P) (send_frame who e)"
proof -
  assume "P (Frame e)"
  then have "obeys (emits P) (bindE (perform (Frame e)) (\<lambda>_. ret ()))"
    by (intro emit.bindE emits_perform emit.ret)
  then show ?thesis by (simp add: obeys_def send_frame_def)
qed

lemma emits_SendStatusUpdate: "P (Frame (StatusUpdate d)) \<Longrightarrow> obeys (emits P) (SendStatusUpdate d)"
  unfolding SendStatusUpdate_def by (rule emits_frame)

lemma emits_SendReady: "P (Frame (Ready [] 1)) \<Longrightarrow> obeys (emits P) SendReady"
  unfolding SendReady_def by (rule emits_frame)

lemmas emits_wrap = obeys_wrap [OF emit.contract_axioms]

lemmas [emit_rules] = emit.rules obeys_cases obeys_attempt obeys_logged emits_wrap
  emits_observe emits_gets

end
