(* ===== verification/RepoCache.thy ===== *)
theory RepoCache
  imports AgentWorld
begin

text \<open>
  internal/agent/repocache.go and repocache_multi.go: one bare clone per repository, one
  worktree per preview. The commands are effects; the mutex around clone and fetch has no
  counterpart, for an operation runs to its end here.
\<close>

section \<open>Names\<close>

definition cut_prefix :: "string \<Rightarrow> string \<Rightarrow> (string \<Rightarrow> string) \<Rightarrow> string" where
  "cut_prefix s p f = (if has_prefix s p then f (trim_prefix s p) else s)"

definition strip_scheme :: "string \<Rightarrow> string" where
  "strip_scheme s =
     (case find (has_prefix s) [''https://'', ''http://'', ''ssh://''] of
        None \<Rightarrow> s
      | Some p \<Rightarrow> trim_prefix s p)"

fun replace_first :: "char \<Rightarrow> char \<Rightarrow> string \<Rightarrow> string" where
  "replace_first a b [] = []"
| "replace_first a b (c # s) = (if c = a then b # s else c # replace_first a b s)"

definition bad_chars :: string where
  "bad_chars = '':*?'' @ [CHR 0x22] @ ''<>|'' @ [CHR 92]"

definition sanitizePathChars :: "string \<Rightarrow> string" where
  "sanitizePathChars s = map (\<lambda>c. if c \<in> set bad_chars then CHR ''_'' else c) s"

definition trim_char :: "char \<Rightarrow> string \<Rightarrow> string" where
  "trim_char c s = rev (dropWhile (\<lambda>x. x = c) (rev (dropWhile (\<lambda>x. x = c) s)))"

definition RepoSlug :: "string \<Rightarrow> string" where
  "RepoSlug url =
     (let s1 = strip_scheme url;
          s2 = cut_prefix s1 ''file://'' (\<lambda>rest. trim_prefix rest ''/'');
          s3 = cut_prefix s2 ''git@'' (replace_first CHR '':'' CHR ''/'');
          s4 = replace_byte CHR ''/'' ''_'' (trim_suffix s3 ''.git'')
      in trim_char CHR ''_'' (sanitizePathChars s4))"

lemma RepoSlug_samples:
  "RepoSlug ''https://github.com/o/r.git'' = ''github.com_o_r''"
  "RepoSlug ''git@github.com:o/r.git'' = ''github.com_o_r''"
  "RepoSlug ''file:///tmp/x'' = ''tmp_x''"
  "RepoSlug ''ssh://git@h/o/r.git'' = ''h_o_r''"
  by code_simp+

lemma set_trim_char: "set (trim_char c s) \<subseteq> set s"
  by (auto simp: trim_char_def dest!: set_dropWhileD)

lemma trim_char_hd: "trim_char c s \<noteq> [] \<Longrightarrow> hd (trim_char c s) \<noteq> c \<and> last (trim_char c s) \<noteq> c"
proof -
  let ?d = "dropWhile (\<lambda>x. x = c) s"
  assume ne: "trim_char c s \<noteq> []"
  then have d: "dropWhile (\<lambda>x. x = c) (rev ?d) \<noteq> []" unfolding trim_char_def by blast
  then have "?d \<noteq> []" by (metis dropWhile.simps(1) rev.simps(1))
  then have first: "hd ?d \<noteq> c" by (metis (mono_tags, lifting) hd_dropWhile)
  obtain w where "rev ?d = w @ dropWhile (\<lambda>x. x = c) (rev ?d)" by (metis takeWhile_dropWhile_id)
  then have "?d = trim_char c s @ rev w" by (metis rev_append rev_rev_ident trim_char_def)
  with ne first have "hd (trim_char c s) \<noteq> c" by (metis hd_append2)
  moreover have "last (trim_char c s) \<noteq> c"
    using hd_dropWhile [OF d] by (simp add: trim_char_def last_rev d)
  ultimately show ?thesis by blast
qed

lemma RepoSlug_chars:
  "c \<in> set (RepoSlug url) \<Longrightarrow> c \<noteq> CHR ''/'' \<and> c \<notin> set bad_chars"
proof -
  have free: "CHR ''/'' \<notin> set (replace_byte CHR ''/'' ''_'' s)" for s by (simp add: replace_byte_removes)
  have "CHR ''_'' \<notin> set bad_chars" by (simp add: bad_chars_def)
  then have "c \<in> set (sanitizePathChars (replace_byte CHR ''/'' ''_'' s)) \<Longrightarrow> c \<noteq> CHR ''/'' \<and> c \<notin> set bad_chars" for s
    using free [of s] by (auto simp: sanitizePathChars_def split: if_splits)
  then show "c \<in> set (RepoSlug url) \<Longrightarrow> c \<noteq> CHR ''/'' \<and> c \<notin> set bad_chars"
    using set_trim_char by (fastforce simp: RepoSlug_def Let_def)
qed

lemma RepoSlug_plain: "RepoSlug url \<notin> {[], ''.'', ''..''} \<Longrightarrow> plain_name (RepoSlug url)"
  using RepoSlug_chars [of "CHR ''/''" url] by (auto simp: plain_name_def)

text \<open>\<open>filepath.Dir\<close>\<close>

definition path_dir :: "string \<Rightarrow> string" where
  "path_dir s = clean (rev (dropWhile (\<lambda>c. c \<noteq> CHR ''/'') (rev s)))"

section \<open>One repository\<close>

definition injectToken :: "agent_env \<Rightarrow> string \<Rightarrow> string \<Rightarrow> string" where
  "injectToken e rawURL tok =
     (if tok = [] then rawURL
      else case with_token e rawURL tok of None \<Rightarrow> rawURL | Some u \<Rightarrow> u)"

definition gitURL :: "RepoCache \<Rightarrow> string" where
  "gitURL c = (if rc_auth c \<noteq> [] then rc_auth c else rc_url c)"

definition NewRepoCache :: "string \<Rightarrow> string \<Rightarrow> RepoCache" where
  "NewRepoCache wd url = \<lparr>rc_url = url, rc_auth = [], rc_dir = path_join [wd, ''repos'', RepoSlug url]\<rparr>"

definition git :: "RepoCache \<Rightarrow> string list \<Rightarrow> string list" where
  "git c args = [''git'', ''--git-dir='' @ rc_dir c] @ args"

definition stat_path :: "string \<Rightarrow> node run" where
  "stat_path p = observe (\<lambda>e n. stat_at e n p)"

definition isInitialized :: "RepoCache \<Rightarrow> bool run" where
  "isInitialized c =
     bindE (stat_path (path_join [rc_dir c, ''HEAD''])) (\<lambda>h.
       if stat_ok h then ret True
       else bindE (stat_path (path_join [rc_dir c, ''objects''])) (\<lambda>o'. ret (stat_ok o')))"

definition fetch :: "RepoCache \<Rightarrow> unit run" where
  "fetch c = bindE (perform (Exec (git c
     [''fetch'', ''--prune'', gitURL c, ''+refs/heads/*:refs/remotes/origin/*'']))) (\<lambda>_. ret ())"

definition rc_Ensure :: "RepoCache \<Rightarrow> unit run" where
  "rc_Ensure c =
     bindE (isInitialized c) (\<lambda>init.
       if init then ret ()
       else bindE (wrap ''repocache.Ensure: mkdir parent'' (perform (MkdirAll (path_dir (rc_dir c))))) (\<lambda>_.
            bindE (wrap ''repocache.Ensure: clone''
                     (perform (Exec [''git'', ''clone'', ''--bare'', gitURL c, rc_dir c]))) (\<lambda>_. ret ())))"

definition worktreePath :: "RepoCache \<Rightarrow> string \<Rightarrow> string" where
  "worktreePath c pid = path_join [rc_dir c, ''worktrees'', ''preview-'' @ pid]"

definition verify_sha :: "RepoCache \<Rightarrow> string \<Rightarrow> string run" where
  "verify_sha c sha = perform (Exec (git c [''rev-parse'', ''--verify'', sha @ ''^{commit}'']))"

definition wrap_fetch :: "RepoCache \<Rightarrow> unit run" where
  "wrap_fetch c = wrap ''repocache.Checkout: fetch'' (fetch c)"

definition resolve_sha :: "RepoCache \<Rightarrow> string \<Rightarrow> string \<Rightarrow> string run" where
  "resolve_sha c sha branch =
     (if sha = [] then
        bindE (wrap_fetch c) (\<lambda>_.
        bindE (wrap (''repocache.Checkout: resolve ref '' @ go_quote branch)
                 (perform (Output (git c [''rev-parse'',
                    (if branch \<noteq> [] then ''refs/remotes/origin/'' @ branch else ''FETCH_HEAD'') @ ''^{commit}'']))))
          (\<lambda>resolved. ret (trim_space resolved)))
      else
        bindE (attempt (verify_sha c sha)) (\<lambda>v.
          case v of
            Inr _ \<Rightarrow> ret sha
          | Inl _ \<Rightarrow>
              bindE (wrap_fetch c) (\<lambda>_.
              bindE (wrap (''repocache.Checkout: sha '' @ sha @ '' not found after fetch'') (verify_sha c sha))
                (\<lambda>_. ret sha))))"

definition remove_worktree :: "RepoCache \<Rightarrow> string \<Rightarrow> effect" where
  "remove_worktree c path = Exec (git c [''worktree'', ''remove'', ''--force'', path])"

definition add_worktree :: "RepoCache \<Rightarrow> string \<Rightarrow> string \<Rightarrow> effect" where
  "add_worktree c path sha = Exec (git c [''worktree'', ''add'', ''--detach'', path, sha])"

definition rc_Checkout :: "RepoCache \<Rightarrow> string \<Rightarrow> string \<Rightarrow> string \<Rightarrow> string run" where
  "rc_Checkout c pid sha branch =
     (let path = worktreePath c pid in
      bindE (resolve_sha c sha branch) (\<lambda>commit.
      bindE (wrap ''repocache.Checkout: mkdir worktrees'' (perform (MkdirAll (path_dir path)))) (\<lambda>_.
      bindE (stat_path path) (\<lambda>st.
      bindE (if stat_ok st
             then bindE (logged (perform (remove_worktree c path))) (\<lambda>_. logged (perform (RemoveAll path)))
             else ret ()) (\<lambda>_.
      bindE (wrap ''repocache.Checkout: worktree add'' (perform (add_worktree c path commit)))
        (\<lambda>_. ret path))))))"

definition rc_Remove :: "RepoCache \<Rightarrow> string \<Rightarrow> unit run" where
  "rc_Remove c pid =
     (let path = worktreePath c pid in
      bindE (stat_path path) (\<lambda>st.
        if st = Absent then ret ()
        else bindE (logged (perform (remove_worktree c path))) (\<lambda>_.
             bindE (wrap ''repocache.Remove: remove all'' (perform (RemoveAll path))) (\<lambda>_. ret ()))))"

section \<open>All repositories\<close>

definition new_cache :: "agent \<Rightarrow> string \<Rightarrow> RepoCache" where
  "new_cache s url =
     (let c = NewRepoCache (workDir s) url in
      if token s \<noteq> [] then c\<lparr>rc_auth := injectToken (env s) url (token s)\<rparr> else c)"

definition getOrCreate :: "string \<Rightarrow> (agent, 'e, RepoCache) prog" where
  "getOrCreate url s =
     (case map_of (repos s) url of
        Some c \<Rightarrow> (Inr c, s)
      | None \<Rightarrow> (Inr (new_cache s url), s\<lparr>repos := (url, new_cache s url) # repos s\<rparr>))"

definition Ensure :: "string \<Rightarrow> unit run" where
  "Ensure url = bindE (getOrCreate url) rc_Ensure"

definition Checkout :: "string \<Rightarrow> string \<Rightarrow> string \<Rightarrow> string \<Rightarrow> string run" where
  "Checkout url pid sha branch = bindE (getOrCreate url) (\<lambda>c. rc_Checkout c pid sha branch)"

definition Remove :: "string \<Rightarrow> string \<Rightarrow> unit run" where
  "Remove url pid = bindE (getOrCreate url) (\<lambda>c. rc_Remove c pid)"

text \<open>\<open>StartPrefetch\<close>: whether a ticker is started; one tick of it fetches and logs a failure.\<close>

definition StartPrefetch :: "string \<Rightarrow> int \<Rightarrow> bool run" where
  "StartPrefetch url interval s =
     (if url \<in> set (prefetched s) then (Inr False, s)
      else bindE (getOrCreate url) (\<lambda>_. ret (interval > 0)) (s\<lparr>prefetched := url # prefetched s\<rparr>))"

definition prefetch_tick :: "RepoCache \<Rightarrow> unit run" where
  "prefetch_tick c = logged (fetch c)"

text \<open>The loops of \<open>PruneStaleWorktrees\<close>: the number of removed directories and the first error.\<close>

definition stale_entry :: "string list \<Rightarrow> string \<times> bool \<Rightarrow> bool" where
  "stale_entry active x \<longleftrightarrow>
     snd x \<and> has_prefix (fst x) ''preview-'' \<and> trim_prefix (fst x) ''preview-'' \<notin> set active"

fun prune_entries :: "string \<Rightarrow> string list \<Rightarrow> nat \<times> string option \<Rightarrow> (string \<times> bool) list \<Rightarrow> (nat \<times> string option) run" where
  "prune_entries dir active acc [] = ret acc"
| "prune_entries dir active acc (x # xs) =
     (if \<not> stale_entry active x then prune_entries dir active acc xs
      else bindE (attempt (perform (RemoveAll (path_join [dir, fst x])))) (\<lambda>r.
        prune_entries dir active
          (case r of
             Inl e \<Rightarrow> (fst acc, if snd acc = None then Some e else snd acc)
           | Inr _ \<Rightarrow> (Suc (fst acc), snd acc)) xs))"

fun prune_slugs :: "string \<Rightarrow> string list \<Rightarrow> nat \<times> string option \<Rightarrow> (string \<times> bool) list \<Rightarrow> (nat \<times> string option) run" where
  "prune_slugs reposDir active acc [] = ret acc"
| "prune_slugs reposDir active acc (x # xs) =
     (if \<not> snd x then prune_slugs reposDir active acc xs
      else (let dir = path_join [reposDir, fst x, ''worktrees''] in
        bindE (observe (\<lambda>e n. readdir_at e n dir)) (\<lambda>r.
          case r of
            Inl _ \<Rightarrow> prune_slugs reposDir active acc xs
          | Inr entries \<Rightarrow>
              bindE (prune_entries dir active acc entries) (\<lambda>acc'. prune_slugs reposDir active acc' xs))))"

definition PruneStaleWorktrees :: "string list \<Rightarrow> (nat \<times> string option) run" where
  "PruneStaleWorktrees active =
     bindE (gets workDir) (\<lambda>wd.
       let reposDir = path_join [wd, ''repos''] in
       bindE (observe (\<lambda>e n. readdir_at e n reposDir)) (\<lambda>r.
         case r of
           Inl NotExist \<Rightarrow> ret (0, None)
         | Inl (ReadFailed e) \<Rightarrow> ret (0, Some e)
         | Inr slugs \<Rightarrow> prune_slugs reposDir active (0, None) slugs))"

end
