(* ===== verification/RepoCacheLaws.thy ===== *)
theory RepoCacheLaws
  imports RepoCache
begin

text \<open>
  Where the caches keep their files, what their operations may delete, and what a checkout
  runs: the fetch only when the commit is missing, the worktree last.
\<close>

section \<open>Directories\<close>

text \<open>A worktree directory: \<open>repos/<slug>/worktrees/preview-<id>\<close> below the work directory.\<close>

definition worktree_dir :: "string \<Rightarrow> string \<Rightarrow> string \<Rightarrow> string \<Rightarrow> bool" where
  "worktree_dir wd slug pid p \<longleftrightarrow> plain_name slug \<and> CHR ''/'' \<notin> set pid \<and> is_abs p = is_abs wd \<and>
     path_parts p = path_parts wd @ [''repos'', slug, ''worktrees'', ''preview-'' @ pid]"

definition url_ok :: "string \<Rightarrow> bool" where
  "url_ok url \<longleftrightarrow> RepoSlug url \<notin> {[], ''.'', ''..''}"

definition cache_of :: "string \<Rightarrow> string \<Rightarrow> RepoCache \<Rightarrow> bool" where
  "cache_of wd url c \<longleftrightarrow> rc_url c = url \<and> rc_dir c = path_join [wd, ''repos'', RepoSlug url]"

text \<open>Every registered cache is the one its URL and the work directory give.\<close>

definition caches_ok :: "agent \<Rightarrow> bool" where
  "caches_ok s \<longleftrightarrow> (\<forall>(url, c) \<in> set (repos s). cache_of (workDir s) url c)"

lemma plain_preview: "CHR ''/'' \<notin> set pid \<Longrightarrow> plain_name (''preview-'' @ pid)"
  by (simp add: plain_name_def)

lemma cache_dir:
  assumes "cache_of wd url c" and "url_ok url" and "wd \<noteq> []" and "CHR ''/'' \<notin> set pid"
  shows "worktree_dir wd (RepoSlug url) pid (worktreePath c pid)"
proof -
  have slug: "plain_name (RepoSlug url)" using assms(2) by (intro RepoSlug_plain) (simp add: url_ok_def)
  then have dir: "path_parts (rc_dir c) = path_parts wd @ [''repos'', RepoSlug url]" "is_abs (rc_dir c) = is_abs wd"
    using join_names [of wd "[''repos'', RepoSlug url]"] assms(1,3)
    by (simp_all add: cache_of_def plain_name_def)
  have ne: "rc_dir c \<noteq> []" using assms(1,3) path_join_nonempty by (simp add: cache_of_def)
  have "list_all plain_name [''worktrees'', ''preview-'' @ pid]"
    using plain_preview [OF assms(4)] by (simp add: plain_name_def)
  from join_names [OF ne this] dir slug assms(4) show ?thesis
    by (simp add: worktree_dir_def worktreePath_def)
qed

text \<open>The directory of a cache: \<open>repos/<slug>\<close> below the work directory.\<close>

definition repo_dir :: "string \<Rightarrow> string \<Rightarrow> bool" where
  "repo_dir wd p \<longleftrightarrow> (\<exists>slug. plain_name slug \<and> is_abs p = is_abs wd \<and> path_parts p = path_parts wd @ [''repos'', slug])"

lemma cache_repo_dir:
  assumes "cache_of wd url c" and "url_ok url" and "wd \<noteq> []"
  shows "repo_dir wd (rc_dir c)"
proof -
  have "plain_name (RepoSlug url)" using assms(2) by (intro RepoSlug_plain) (simp add: url_ok_def)
  then show ?thesis
    using join_names [of wd "[''repos'', RepoSlug url]"] assms(1,3)
    by (auto simp: cache_of_def plain_name_def repo_dir_def)
qed

lemma cache_of_new [simp]:
  "cache_of wd url (NewRepoCache wd url)" "cache_of wd url (c\<lparr>rc_auth := a\<rparr>) = cache_of wd url c"
  by (simp_all add: cache_of_def NewRepoCache_def)

lemma cache_of_new_cache [simp]: "cache_of (workDir s) url (new_cache s url)"
  by (simp add: new_cache_def Let_def)

lemma getOrCreate_run:
  assumes "getOrCreate url s = (r, s')" and "caches_ok s"
  obtains c where "r = Inr c" and "cache_of (workDir s) url c" and "caches_ok s'"
    and "trace s' = trace s" "moment s' = moment s" "env s' = env s" "online s' = online s"
      "workDir s' = workDir s" "jobs s' = jobs s" "building s' = building s" "inFlight s' = inFlight s"
proof (cases "map_of (repos s) url")
  case (Some c)
  then have "(url, c) \<in> set (repos s)" by (rule map_of_SomeD)
  with assms(2) have "cache_of (workDir s) url c" by (auto simp: caches_ok_def)
  moreover have "r = Inr c" "s' = s" using Some assms(1) by (simp_all add: getOrCreate_def)
  ultimately show ?thesis using assms(2) by (intro that [of c]) simp_all
next
  case None
  with assms(1) have "r = Inr (new_cache s url)" and "s' = s\<lparr>repos := (url, new_cache s url) # repos s\<rparr>"
    by (simp_all add: getOrCreate_def)
  then show ?thesis using assms(2) by (intro that [of "new_cache s url"]) (simp_all add: caches_ok_def)
qed

section \<open>What a job may do\<close>

text \<open>
  An effect is confined to the given previews when it removes no directory but a worktree of
  theirs, writes or removes no file but one directly inside such a worktree, runs no command
  but those listed here, on caches below the work directory, worktrees of the previews and
  their compose projects, and builds or creates nothing but their images and containers.
  Started, stopped and removed containers are named by docker's answers: any is allowed.
\<close>

definition inside :: "string \<Rightarrow> string \<Rightarrow> string \<Rightarrow> bool" where
  "inside wd pid p \<longleftrightarrow> (\<exists>slug dir nm. worktree_dir wd slug pid dir \<and> plain_name nm \<and>
     is_abs p = is_abs wd \<and> path_parts p = path_parts dir @ [nm])"

lemma inside_join:
  assumes "worktree_dir wd slug pid dir" and "plain_name nm"
  shows "inside wd pid (path_join [dir, nm])"
proof -
  have "dir \<noteq> []" using assms(1) by (auto simp: worktree_dir_def path_parts_def)
  then show ?thesis using join_names [of dir "[nm]"] assms
    unfolding inside_def by (intro exI [of _ slug] exI [of _ dir] exI [of _ nm]) (simp add: worktree_dir_def)
qed

inductive job_command :: "string \<Rightarrow> (string \<Rightarrow> bool) \<Rightarrow> string list \<Rightarrow> bool" for wd :: string and ids :: "string \<Rightarrow> bool" where
  clone: "repo_dir wd dir \<Longrightarrow> job_command wd ids [''git'', ''clone'', ''--bare'', url, dir]"
| fetch: "repo_dir wd dir \<Longrightarrow> job_command wd ids [''git'', ''--git-dir='' @ dir, ''fetch'', ''--prune'', url, refs]"
| verify: "repo_dir wd dir \<Longrightarrow> job_command wd ids [''git'', ''--git-dir='' @ dir, ''rev-parse'', ''--verify'', commit]"
| worktree_add: "repo_dir wd dir \<Longrightarrow> ids pid \<Longrightarrow> worktree_dir wd slug pid p \<Longrightarrow>
    job_command wd ids [''git'', ''--git-dir='' @ dir, ''worktree'', ''add'', ''--detach'', p, commit]"
| worktree_remove: "repo_dir wd dir \<Longrightarrow> ids pid \<Longrightarrow> worktree_dir wd slug pid p \<Longrightarrow>
    job_command wd ids [''git'', ''--git-dir='' @ dir, ''worktree'', ''remove'', ''--force'', p]"
| compose_up: "ids pid \<Longrightarrow> inside wd pid override \<Longrightarrow>
    job_command wd ids [''docker'', ''compose'', ''-f'', composefile, ''-f'', override, ''--project-name'', ''preview-'' @ pid, ''up'', ''-d'']"
| compose_down: "ids pid \<Longrightarrow>
    job_command wd ids [''docker'', ''compose'', ''--project-name'', ''preview-'' @ pid, ''down'']"

lemmas job_commands = job_command.intros [simplified]

fun confined :: "string \<Rightarrow> (string \<Rightarrow> bool) \<Rightarrow> effect \<Rightarrow> bool" where
  "confined wd ids (RemoveAll p) \<longleftrightarrow> (\<exists>slug pid. ids pid \<and> worktree_dir wd slug pid p)"
| "confined wd ids (WriteFile p _) \<longleftrightarrow> (\<exists>pid. ids pid \<and> inside wd pid p)"
| "confined wd ids (RemoveFile p) \<longleftrightarrow> (\<exists>pid. ids pid \<and> inside wd pid p)"
| "confined wd ids (Exec args) \<longleftrightarrow> job_command wd ids args"
| "confined wd ids (Output args) \<longleftrightarrow> ''rev-parse'' \<in> set args"
| "confined wd ids (ImageBuild dir tag) \<longleftrightarrow>
     (\<exists>pid. ids pid \<and> tag = ''preview-'' @ pid @ '':latest'' \<and> (\<exists>slug. worktree_dir wd slug pid dir))"
| "confined wd ids (ContainerCreate opts) \<longleftrightarrow> (\<exists>pid. ids pid \<and> co_name opts = ''preview-'' @ pid)"
| "confined wd ids (NetworkCreate _ _ _) \<longleftrightarrow> False"
| "confined wd ids (MkdirAll _) \<longleftrightarrow> True"
| "confined wd ids (ContainerStart _) \<longleftrightarrow> True"
| "confined wd ids (ContainerStop _) \<longleftrightarrow> True"
| "confined wd ids (ContainerRemove _) \<longleftrightarrow> True"
| "confined wd ids (Frame _) \<longleftrightarrow> True"

lemma confined_worktree:
  assumes "repo_dir wd (rc_dir c)" and "worktree_dir wd slug pid p" and "ids pid"
  shows "confined wd ids (remove_worktree c p)" and "confined wd ids (add_worktree c p x)"
  using assms by (auto simp: remove_worktree_def add_worktree_def git_def intro: job_commands)

lemma confined_fetch: "repo_dir wd (rc_dir c) \<Longrightarrow> obeys (emits (confined wd ids)) (fetch c)"
  unfolding fetch_def
  by (intro emit_rules emits_perform) (simp add: git_def job_commands)

lemma confined_verify: "repo_dir wd (rc_dir c) \<Longrightarrow> obeys (emits (confined wd ids)) (verify_sha c sha)"
  unfolding verify_sha_def by (intro emits_perform) (simp add: git_def job_commands)

lemma emits_stat [emit_rules]: "obeys (emits P) (stat_path p)"
  unfolding stat_path_def by (intro emit_rules)

lemma confined_resolve:
  assumes "repo_dir wd (rc_dir c)"
  shows "obeys (emits (confined wd ids)) (resolve_sha c sha branch)"
  unfolding resolve_sha_def wrap_fetch_def
  by (intro emit_rules emits_perform confined_fetch confined_verify assms) (simp_all add: git_def)

lemma confined_ensure:
  assumes "repo_dir wd (rc_dir c)"
  shows "obeys (emits (confined wd ids)) (rc_Ensure c)"
  unfolding rc_Ensure_def isInitialized_def
  by (intro emit_rules emits_perform) (simp_all add: job_commands assms)

lemma confined_checkout:
  assumes "repo_dir wd (rc_dir c)" and "worktree_dir wd slug pid (worktreePath c pid)" and "ids pid"
  shows "obeys (emits (confined wd ids)) (rc_Checkout c pid sha branch)"
  unfolding rc_Checkout_def Let_def
  by (intro emit_rules emits_perform confined_resolve confined_worktree assms) (use assms in auto)

lemma confined_remove:
  assumes "repo_dir wd (rc_dir c)" and "worktree_dir wd slug pid (worktreePath c pid)" and "ids pid"
  shows "obeys (emits (confined wd ids)) (rc_Remove c pid)"
  unfolding rc_Remove_def Let_def
  by (intro emit_rules emits_perform confined_worktree assms) (use assms in auto)

section \<open>The contract of the agent's file handling\<close>

text \<open>
  What the agent knows of its files: the caches are those of their URLs, and a job started with
  compose names the worktree of its preview.
\<close>

definition job_ok :: "string \<Rightarrow> string \<Rightarrow> runningJob \<Rightarrow> bool" where
  "job_ok wd pid j \<longleftrightarrow>
     (jb_mode j = buildModeCompose \<longrightarrow> (\<exists>slug. worktree_dir wd slug pid (jb_worktree j))) \<and>
     (jb_repo j \<noteq> [] \<longrightarrow> url_ok (jb_repo j) \<and> CHR ''/'' \<notin> set pid)"

definition files_ok :: "agent \<Rightarrow> bool" where
  "files_ok s \<longleftrightarrow> workDir s \<noteq> [] \<and> caches_ok s \<and> (\<forall>(pid, j) \<in> set (jobs s). job_ok (workDir s) pid j)"

definition tidy :: "(string \<Rightarrow> bool) \<Rightarrow> agent \<Rightarrow> agent \<Rightarrow> bool" where
  "tidy ids s s' \<longleftrightarrow> (files_ok s \<longrightarrow>
     files_ok s' \<and> workDir s' = workDir s \<and>
     (\<exists>new. trace s' = trace s @ new \<and> list_all (confined (workDir s) ids) new))"

named_theorems tidy_rules "programs that delete nothing but the worktrees they own"

lemma tidy_trans: "tidy ids s t \<Longrightarrow> tidy ids t u \<Longrightarrow> tidy ids s u"
proof -
  assume st: "tidy ids s t" and tu: "tidy ids t u"
  show ?thesis unfolding tidy_def
  proof (intro impI)
    assume ok: "files_ok s"
    then obtain a where a: "files_ok t" "workDir t = workDir s" "trace t = trace s @ a"
        "list_all (confined (workDir s) ids) a" using st by (auto simp: tidy_def)
    then obtain b where b: "files_ok u" "workDir u = workDir t" "trace u = trace t @ b"
        "list_all (confined (workDir s) ids) b" using tu by (auto simp: tidy_def)
    from a b have "trace u = trace s @ (a @ b) \<and> list_all (confined (workDir s) ids) (a @ b)" by simp
    with a b show "files_ok u \<and> workDir u = workDir s \<and>
        (\<exists>new. trace u = trace s @ new \<and> list_all (confined (workDir s) ids) new)"
      by metis
  qed
qed

interpretation tidy: contract "tidy ids" for ids
proof
  show "tidy ids s s" for s by (simp add: tidy_def)
qed (rule tidy_trans)

lemma tidy_of_emits:
  assumes "\<And>wd. obeys (emits (confined wd ids)) m"
  shows "obeys (tidy ids) m"
  using assms unfolding obeys_def emits_def tidy_def files_ok_def caches_ok_def by metis

lemma tidy_cached:
  fixes f :: "RepoCache \<Rightarrow> 'a run"
  assumes "\<And>wd c. cache_of wd url c \<Longrightarrow> wd \<noteq> [] \<Longrightarrow> obeys (emits (confined wd ids)) (f c)"
  shows "obeys (tidy ids) (bindE (getOrCreate url) f)"
proof (rule obeysI)
  fix s r s' assume run: "bindE (getOrCreate url) f s = (r, s')"
  show "tidy ids s s'" unfolding tidy_def
  proof (intro impI)
    assume ok: "files_ok s"
    then have caches: "caches_ok s" and wd: "workDir s \<noteq> []" by (simp_all add: files_ok_def)
    obtain r1 s1 where get: "(getOrCreate url :: RepoCache run) s = (r1, s1)" by fastforce
    from getOrCreate_run [OF get caches] obtain c where c: "r1 = Inr c" "cache_of (workDir s) url c" "caches_ok s1"
      "trace s1 = trace s" "workDir s1 = workDir s" "jobs s1 = jobs s" by metis
    have "f c s1 = (r, s')" using run get unfolding c(1) bindE_def by simp
    then have "emits (confined (workDir s) ids) s1 s'"
      using assms [OF c(2) wd] by (metis obeysD)
    with c ok show "files_ok s' \<and> workDir s' = workDir s \<and>
        (\<exists>new. trace s' = trace s @ new \<and> list_all (confined (workDir s) ids) new)"
      by (simp add: emits_def caches_ok_def files_ok_def)
  qed
qed

lemma tidy_cache_ops [tidy_rules]:
  assumes "url_ok url" and "CHR ''/'' \<notin> set pid" and "ids pid"
  shows "obeys (tidy ids) (Checkout url pid sha branch)" and "obeys (tidy ids) (Remove url pid)"
  unfolding Checkout_def Remove_def
  by (rule tidy_cached, rule confined_checkout [OF cache_repo_dir cache_dir], use assms in simp_all)
    (rule tidy_cached, rule confined_remove [OF cache_repo_dir cache_dir], use assms in simp_all)

lemma tidy_Ensure [tidy_rules]:
  assumes "url_ok url"
  shows "obeys (tidy ids) (Ensure url)"
  unfolding Ensure_def by (rule tidy_cached, rule confined_ensure, rule cache_repo_dir) (use assms in simp_all)

lemmas [tidy_rules] = tidy.rules obeys_cases obeys_attempt obeys_logged

section \<open>Pruning\<close>

text \<open>What \<open>os.ReadDir\<close> guarantees: the names of the entries have no slash and are no dots.\<close>

definition entries_ok :: "agent_env \<Rightarrow> bool" where
  "entries_ok e \<longleftrightarrow> (\<forall>n d xs. readdir_at e n d = Inr xs \<longrightarrow> list_all (plain_name \<circ> fst) xs)"

lemma stale_worktree:
  assumes "stale_entry active x" and "plain_name (fst x)" and "plain_name slug" and "wd \<noteq> []"
    and "dir = path_join [path_join [wd, ''repos''], slug, ''worktrees'']"
  shows "\<exists>pid. pid \<notin> set active \<and> worktree_dir wd slug pid (path_join [dir, fst x])"
proof -
  from assms(1) have "has_prefix (fst x) ''preview-''" "trim_prefix (fst x) ''preview-'' \<notin> set active"
    unfolding stale_entry_def by blast+
  then obtain pid where x: "fst x = ''preview-'' @ pid" "pid \<notin> set active"
    unfolding has_prefix_iff by (metis trim_prefix_append)
  have "path_parts (path_join [wd, ''repos'']) = path_parts wd @ [''repos'']"
      "is_abs (path_join [wd, ''repos'']) = is_abs wd" "path_join [wd, ''repos''] \<noteq> []"
    using join_names [OF assms(4), of "[''repos'']"] path_join_nonempty [OF assms(4)] by (simp_all add: plain_name_def)
  then have "path_parts dir = path_parts wd @ [''repos'', slug, ''worktrees'']" "is_abs dir = is_abs wd" "dir \<noteq> []"
    using join_names [of "path_join [wd, ''repos'']" "[slug, ''worktrees'']"] path_join_nonempty assms(3,5)
    by (simp_all add: plain_name_def)
  then have "path_parts (path_join [dir, fst x]) = path_parts wd @ [''repos'', slug, ''worktrees'', fst x]"
      "is_abs (path_join [dir, fst x]) = is_abs wd"
    using join_names [of dir "[fst x]"] assms(2) by simp_all
  with x assms(2,3) show ?thesis by (auto simp: worktree_dir_def plain_name_def)
qed

definition removes :: "string \<Rightarrow> (string \<Rightarrow> bool) \<Rightarrow> effect \<Rightarrow> bool" where
  "removes wd ids e \<longleftrightarrow> (\<exists>p. e = RemoveAll p \<and> confined wd ids e)"

lemma removes_prune_entries:
  assumes "list_all (plain_name \<circ> fst) xs" and "plain_name slug" and "wd \<noteq> []"
    and "dir = path_join [path_join [wd, ''repos''], slug, ''worktrees'']"
  shows "obeys (emits (removes wd (\<lambda>i. i \<notin> set active))) (prune_entries dir active acc xs)"
  using assms(1)
proof (induction xs arbitrary: acc)
  case (Cons x xs)
  then have step: "obeys (emits (removes wd (\<lambda>i. i \<notin> set active))) (prune_entries dir active acc' xs)" for acc'
    by simp
  show ?case
  proof (cases "stale_entry active x")
    case True
    have "removes wd (\<lambda>i. i \<notin> set active) (RemoveAll (path_join [dir, fst x]))"
      using stale_worktree [OF True _ assms(2-4)] Cons.prems by (simp add: removes_def) blast
    then show ?thesis using True
      by (simp only: prune_entries.simps simp_thms if_False)
        (intro emit.bindE obeys_attempt emits_perform emit.contract_axioms step)
  next
    case False
    with step show ?thesis by simp
  qed
qed (simp add: emit.ret)

lemma removes_prune_slugs:
  assumes "wd \<noteq> []"
  shows "list_all (plain_name \<circ> fst) xs \<Longrightarrow> entries_ok e \<Longrightarrow>
    env s = e \<Longrightarrow> prune_slugs (path_join [wd, ''repos'']) active acc xs s = (r, s') \<Longrightarrow>
    emits (removes wd (\<lambda>i. i \<notin> set active)) s s'"
proof (induction xs arbitrary: acc s)
  case Nil
  then show ?case by (simp add: ret_def emit.refl)
next
  case (Cons x xs)
  let ?P = "removes wd (\<lambda>i. i \<notin> set active)"
  define dir where "dir = path_join [path_join [wd, ''repos''], fst x, ''worktrees'']"
  show ?case
  proof (cases "snd x")
    case False
    then show ?thesis using Cons by simp
  next
    case True
    define t where "t = s\<lparr>moment := Suc (moment s)\<rparr>"
    have t: "emits ?P s t" "env t = e" using Cons.prems by (simp_all add: t_def emits_def)
    show ?thesis
    proof (cases "readdir_at e (moment s) dir")
      case (Inl err)
      then have "prune_slugs (path_join [wd, ''repos'']) active acc xs t = (r, s')"
        using Cons.prems True by (simp add: bindE_def observe_def dir_def t_def Let_def)
      with Cons.IH [of t acc] Cons.prems t have "emits ?P t s'" by simp
      with t show ?thesis by (auto intro: emits_trans)
    next
      case (Inr entries)
      obtain r1 u where u: "prune_entries dir active acc entries t = (r1, u)" by fastforce
      have "list_all (plain_name \<circ> fst) entries" using Cons.prems(2) Inr by (auto simp: entries_ok_def)
      then have "obeys (emits ?P) (prune_entries dir active acc entries)"
        using removes_prune_entries [OF _ _ assms dir_def] Cons.prems(1) by simp
      then have tu: "emits ?P t u" using u by (rule obeysD)
      have run: "bindE (prune_entries dir active acc entries)
          (\<lambda>acc'. prune_slugs (path_join [wd, ''repos'']) active acc' xs) t = (r, s')"
        using Cons.prems True Inr by (simp add: bindE_def observe_def dir_def t_def Let_def)
      show ?thesis
      proof (cases r1)
        case (Inl e')
        then have "s' = u" using run u by (simp add: bindE_def)
        with t tu show ?thesis by (auto intro: emits_trans)
      next
        case (Inr acc')
        then have "prune_slugs (path_join [wd, ''repos'']) active acc' xs u = (r, s')"
          using run u by (simp add: bindE_def)
        moreover have "env u = e" using tu t(2) by (simp add: emits_def)
        ultimately have "emits ?P u s'" using Cons.IH [of u acc'] Cons.prems by simp
        with t tu show ?thesis by (auto intro: emits_trans)
      qed
    qed
  qed
qed

lemma prune_removes:
  assumes "entries_ok (env s)" and "workDir s \<noteq> []" and "PruneStaleWorktrees active s = (r, s')"
  shows "emits (removes (workDir s) (\<lambda>i. i \<notin> set active)) s s'"
proof -
  let ?P = "removes (workDir s) (\<lambda>i. i \<notin> set active)" and ?dir = "path_join [workDir s, ''repos'']"
  define t where "t = s\<lparr>moment := Suc (moment s)\<rparr>"
  have t: "emits ?P s t" "env t = env s" by (simp_all add: t_def emits_def)
  show ?thesis
  proof (cases "readdir_at (env s) (moment s) ?dir")
    case (Inl err)
    then have "s' = t" using assms(3)
      by (cases err) (simp_all add: PruneStaleWorktrees_def bindE_def gets_def observe_def ret_def t_def Let_def)
    with t show ?thesis by simp
  next
    case (Inr slugs)
    then have "prune_slugs ?dir active (0, None) slugs t = (r, s')" using assms(3)
      by (simp add: PruneStaleWorktrees_def bindE_def gets_def observe_def t_def Let_def)
    moreover have "list_all (plain_name \<circ> fst) slugs" using assms(1) Inr by (auto simp: entries_ok_def)
    ultimately have "emits ?P t s'" using removes_prune_slugs assms(1,2) t(2) by metis
    with t show ?thesis by (auto intro: emits_trans)
  qed
qed

section \<open>What a failed command shows\<close>

text \<open>
  \<open>execRunner.Run\<close>: the error of a failed command holds its arguments, the error of the process and
  the output. The clone runs on \<open>gitURL\<close>, which carries the access token when there is one, so a
  failed clone puts the token into the error, and with it into the report the hub stores.
\<close>

definition run_error :: "string list \<Rightarrow> string \<Rightarrow> string \<Rightarrow> string" where
  "run_error args err out = join_with '' '' args @ '': '' @ err @ '' (output: '' @ trim_space out @ '')''"

lemma join_with_member: "w \<in> set ws \<Longrightarrow> \<exists>a b. join_with sep ws = a @ w @ b"
proof (induction sep ws rule: join_with.induct)
  case (3 sep v u ws)
  show ?case
  proof (cases "w = v")
    case True
    then have "join_with sep (v # u # ws) = [] @ w @ sep @ join_with sep (u # ws)" by simp
    then show ?thesis by blast
  next
    case False
    with 3 obtain a b where "join_with sep (u # ws) = a @ w @ b" by auto
    then have "join_with sep (v # u # ws) = (v @ sep @ a) @ w @ b" by simp
    then show ?thesis by blast
  qed
next
  case (2 sep v)
  then have "join_with sep [v] = [] @ w @ []" by simp
  then show ?case by blast
qed simp

lemma clone_error_shows_url:
  assumes "rc_Ensure c s = (Inl e, s')"
    and "\<And>n. answers (env s) n (MkdirAll (path_dir (rc_dir c))) \<in> range Inr"
    and "\<And>n x. answers (env s) n (Exec [''git'', ''clone'', ''--bare'', gitURL c, rc_dir c]) = Inl x \<Longrightarrow>
      \<exists>err out. x = run_error [''git'', ''clone'', ''--bare'', gitURL c, rc_dir c] err out"
  shows "\<exists>a b. e = a @ gitURL c @ b"
proof -
  let ?clone = "[''git'', ''clone'', ''--bare'', gitURL c, rc_dir c]"
  have mkdir: "answers (env s) n (MkdirAll (path_dir (rc_dir c))) \<noteq> Inl x" for n x
    using assms(2) [of n] by auto
  obtain n x where x: "answers (env s) n (Exec ?clone) = Inl x" and e: "e = ''repocache.Ensure: clone: '' @ x"
    using assms(1) mkdir
    by (auto simp: rc_Ensure_def isInitialized_def stat_path_def wrap_def bindE_def catchE_def observe_def
        perform_def split: if_splits sum.splits prod.splits)
  from assms(3) [OF x] obtain err out where "x = run_error ?clone err out" by blast
  moreover obtain a b where "join_with '' '' ?clone = a @ gitURL c @ b"
    using join_with_member [of "gitURL c" ?clone "'' ''"] by auto
  ultimately have "e = (''repocache.Ensure: clone: '' @ a) @ gitURL c @ (b @ '': '' @ err @ '' (output: '' @ trim_space out @ '')'')"
    by (simp add: e run_error_def)
  then show ?thesis by blast
qed

end
