(* ===== verification/Slots.thy ===== *)
theory Slots
  imports AgentWorld
begin

text \<open>
  internal/agent/ready.go: the slots of an agent. After a job, and after a handshake, the agent
  announces each free slot with one READY frame.
\<close>

definition SetMaxJobs :: "int \<Rightarrow> agent \<Rightarrow> agent" where
  "SetMaxJobs n s = s\<lparr>maxJobs := if n < 1 then 1 else n\<rparr>"

definition slots :: "agent \<Rightarrow> int" where
  "slots s = maxJobs s - inFlight s"

text \<open>The loop that sends: it ends early when the agent is paused or a frame is not sent.\<close>

fun send_readies :: "nat \<Rightarrow> unit run" where
  "send_readies 0 = ret ()"
| "send_readies (Suc n) =
     bindE (gets a_paused) (\<lambda>p.
       if p then ret ()
       else bindE (attempt SendReady) (\<lambda>r. case r of Inl _ \<Rightarrow> ret () | Inr _ \<Rightarrow> send_readies n))"

definition maybeSendReady :: "unit run" where
  "maybeSendReady =
     bindE (gets has_ready) (\<lambda>h.
       if \<not> h then ret ()
       else bindE (modify (\<lambda>s. if maxJobs s < 1 then s\<lparr>maxJobs := 1\<rparr> else s)) (\<lambda>_.
            bindE (gets slots) (\<lambda>n. send_readies (nat n))))"

section \<open>Frames\<close>

text \<open>The frames among the effects.\<close>

fun frame_of :: "effect \<Rightarrow> envelope option" where
  "frame_of (Frame e) = Some e"
| "frame_of _ = None"

definition frames :: "agent \<Rightarrow> envelope list" where
  "frames s = List.map_filter frame_of (trace s)"

text \<open>The limit that counts: below one it is corrected to one.\<close>

definition limit :: "agent \<Rightarrow> int" where
  "limit s = (if maxJobs s < 1 then 1 else maxJobs s)"

lemma limit_update [simp]:
  "limit (s\<lparr>jobs := a\<rparr>) = limit s" "limit (s\<lparr>building := b\<rparr>) = limit s" "limit (s\<lparr>inFlight := c\<rparr>) = limit s"
  "limit (s\<lparr>repos := d\<rparr>) = limit s" "limit (s\<lparr>trace := e\<rparr>) = limit s" "limit (s\<lparr>moment := f\<rparr>) = limit s"
  "limit (s\<lparr>slept := g\<rparr>) = limit s"
  by (simp_all add: limit_def)

text \<open>Everything the jobs of the agent depend on, apart from its files and the frames it sent.\<close>

definition same_jobs :: "agent \<Rightarrow> agent \<Rightarrow> bool" where
  "same_jobs s s' \<longleftrightarrow> jobs s' = jobs s \<and> building s' = building s \<and> a_paused s' = a_paused s \<and> inFlight s' = inFlight s
     \<and> has_ready s' = has_ready s \<and> advHost s' = advHost s \<and> traefikPort s' = traefikPort s
     \<and> traefikAPIPort s' = traefikAPIPort s \<and> routerReadyTimeout s' = routerReadyTimeout s
     \<and> online s' = online s \<and> workDir s' = workDir s \<and> env s' = env s
     \<and> limit s' = limit s \<and> moment s \<le> moment s' \<and> slept s \<le> slept s'"

text \<open>
  The program sends the frames \<open>fs\<close>, or none without a connection, and keeps the jobs as they are.
\<close>

definition sends :: "envelope list \<Rightarrow> agent \<Rightarrow> agent \<Rightarrow> bool" where
  "sends fs s s' \<longleftrightarrow> same_jobs s s' \<and> frames s' = frames s @ (if online s then fs else [])"

definition quiet :: "agent \<Rightarrow> agent \<Rightarrow> bool" where
  "quiet s s' \<longleftrightarrow> sends [] s s' \<and> maxJobs s' = maxJobs s"

named_theorems quiet_rules "programs of the agent that send no frame"

lemma sends_Nil: "quiet s s' \<Longrightarrow> sends [] s s'"
  by (simp add: quiet_def)

lemma sends_trans: "sends fs s t \<Longrightarrow> sends gs t u \<Longrightarrow> sends (fs @ gs) s u"
  by (simp add: sends_def same_jobs_def)

lemma same_jobs_trans: "same_jobs s t \<Longrightarrow> same_jobs t u \<Longrightarrow> same_jobs s u"
  by (simp add: same_jobs_def)

interpretation quiet: contract quiet
proof
  show "quiet s s" for s by (simp add: quiet_def sends_def same_jobs_def)
next
  show "quiet s u" if "quiet s t" and "quiet t u" for s t u
    using that by (simp add: quiet_def sends_def same_jobs_def)
qed

lemma quiet_perform: "frame_of e = None \<Longrightarrow> obeys quiet (perform e)"
  by (simp add: obeys_def perform_def quiet_def sends_def same_jobs_def frames_def map_filter_def)

lemma quiet_observe: "obeys quiet (observe f)"
  by (simp add: obeys_def observe_def quiet_def sends_def same_jobs_def frames_def)

lemma quiet_gets: "obeys quiet (gets f)"
  by (simp add: obeys_def gets_def)

lemmas quiet_wrap = obeys_wrap [OF quiet.contract_axioms]

lemmas [quiet_rules] = quiet.rules obeys_cases obeys_attempt obeys_logged quiet_wrap quiet_observe quiet_gets

lemma send_frame_sends:
  "sends [e] s (snd (send_frame who e s)) \<and> maxJobs (snd (send_frame who e s)) = maxJobs s"
proof (cases "online s")
  case True
  then have "snd (send_frame who e s) = s\<lparr>trace := trace s @ [Frame e], moment := Suc (moment s)\<rparr>"
    by (simp add: send_frame_def bindE_def perform_def split: sum.splits)
  with True show ?thesis by (simp add: sends_def same_jobs_def frames_def map_filter_def)
next
  case False
  then show ?thesis by (simp add: send_frame_def sends_def same_jobs_def)
qed

section \<open>How many frames\<close>

text \<open>At most \<open>n\<close>, and exactly \<open>n\<close> when the agent runs and every frame is taken.\<close>

lemma send_readies_sends:
  "\<exists>k \<le> n. sends (replicate k (Ready [] 1)) s (snd (send_readies n s)) \<and>
    maxJobs (snd (send_readies n s)) = maxJobs s \<and>
    (online s \<and> \<not> a_paused s \<and> (\<forall>m. \<exists>x. answers (env s) m (Frame (Ready [] 1)) = Inr x) \<longrightarrow> k = n) \<and>
    (a_paused s \<longrightarrow> k = 0)"
proof (induction n arbitrary: s)
  case 0
  have "sends [] s s" by (rule sends_Nil) (rule quiet.refl)
  then show ?case by simp
next
  case (Suc n)
  let ?t = "snd (SendReady s)"
  have t: "sends [Ready [] 1] s ?t" "maxJobs ?t = maxJobs s"
    using send_frame_sends by (simp_all add: SendReady_def)
  then have keep: "online ?t = online s" "a_paused ?t = a_paused s" "env ?t = env s"
    by (simp_all add: sends_def same_jobs_def)
  show ?case
  proof (cases "a_paused s")
    case True
    have "sends [] s s" by (rule sends_Nil) (rule quiet.refl)
    with True show ?thesis by (intro exI [of _ 0]) simp
  next
    case False
    show ?thesis
    proof (cases "fst (SendReady s)")
      case (Inl e)
      then have stop: "snd (send_readies (Suc n) s) = ?t"
        using False by simp
      from Inl have "\<not> online s \<or> (\<exists>e'. answers (env s) (moment s) (Frame (Ready [] 1)) = Inl e')"
        by (cases "answers (env s) (moment s) (Frame (Ready [] 1))")
          (simp_all add: SendReady_def send_frame_def bindE_def perform_def split: if_splits)
      then have "\<not> (online s \<and> (\<forall>m. \<exists>x. answers (env s) m (Frame (Ready [] 1)) = Inr x))" by (metis Inl_Inr_False)
      with stop t False show ?thesis by (intro exI [of _ 1]) (auto simp del: send_readies.simps)
    next
      case (Inr u)
      then have go: "snd (send_readies (Suc n) s) = snd (send_readies n ?t)"
        using False by simp
      from Suc.IH [of ?t] obtain k where k: "k \<le> n"
          "sends (replicate k (Ready [] 1)) ?t (snd (send_readies n ?t))"
          "maxJobs (snd (send_readies n ?t)) = maxJobs ?t"
          "online s \<and> \<not> a_paused s \<and> (\<forall>m. \<exists>x. answers (env s) m (Frame (Ready [] 1)) = Inr x) \<longrightarrow> k = n"
        unfolding keep by blast
      have "sends (replicate (Suc k) (Ready [] 1)) s (snd (send_readies n ?t))"
        using sends_trans [OF t(1) k(2)] by simp
      with k t(2) False show ?thesis unfolding go by (intro exI [of _ "Suc k"]) auto
    qed
  qed
qed

lemma maybeSendReady_sends:
  "\<exists>k. sends (replicate k (Ready [] 1)) s (snd (maybeSendReady s)) \<and>
    int k \<le> max 0 (limit s - inFlight s) \<and> (\<not> has_ready s \<or> a_paused s \<longrightarrow> k = 0) \<and>
    (online s \<and> has_ready s \<and> \<not> a_paused s \<and> (\<forall>m. \<exists>x. answers (env s) m (Frame (Ready [] 1)) = Inr x)
       \<longrightarrow> int k = max 0 (limit s - inFlight s))"
proof (cases "has_ready s")
  case False
  have "sends [] s s" by (rule sends_Nil) (rule quiet.refl)
  with False show ?thesis by (intro exI [of _ 0]) (simp add: maybeSendReady_def)
next
  case True
  define t where "t = (if maxJobs s < 1 then s\<lparr>maxJobs := 1\<rparr> else s)"
  have t: "sends [] s t" "online t = online s" "env t = env s" "a_paused t = a_paused s" "slots t = limit s - inFlight s"
    by (simp_all add: t_def sends_def same_jobs_def frames_def slots_def) (simp_all add: limit_def)
  have run: "snd (maybeSendReady s) = snd (send_readies (nat (limit s - inFlight s)) t)"
    using True t(5) by (simp add: maybeSendReady_def t_def)
  from send_readies_sends [of _ t] obtain k where k: "k \<le> nat (limit s - inFlight s)"
      "sends (replicate k (Ready [] 1)) t (snd (send_readies (nat (limit s - inFlight s)) t))"
      "online s \<and> \<not> a_paused s \<and> (\<forall>m. \<exists>x. answers (env s) m (Frame (Ready [] 1)) = Inr x) \<longrightarrow> k = nat (limit s - inFlight s)"
      "a_paused s \<longrightarrow> k = 0"
    unfolding t(2-4) by blast
  have "sends (replicate k (Ready [] 1)) s (snd (maybeSendReady s))"
    using sends_trans [OF t(1) k(2)] run by simp
  with k True show ?thesis by (intro exI [of _ k]) auto
qed

end
