(* ===== verification/TraefikReady.thy ===== *)
theory TraefikReady
  imports Slots
begin

text \<open>
  internal/agent/traefik_ready.go and runner_ready.go: polling Traefik until every router of a
  preview is enabled, the context is cancelled or the time is up.
\<close>

section \<open>Polling\<close>

definition millisecond :: int where "millisecond = 10 ^ 6"
definition traefikPollInitial :: int where "traefikPollInitial = 100 * millisecond"
definition traefikPollMax :: int where "traefikPollMax = 250 * millisecond"

text \<open>\<open>http.Client{Timeout: 1 * time.Second}\<close>: the time a request may take.\<close>

definition clientTimeout :: int where "clientTimeout = 1000 * millisecond"

datatype wait_error = CtxDone string | RoutersTimeout "string option"

definition router_url :: "string \<Rightarrow> string \<Rightarrow> string" where
  "router_url base nm = base @ ''/api/http/routers/'' @ nm @ ''@docker''"

fun allEnabled :: "string \<Rightarrow> string list \<Rightarrow> agent \<Rightarrow> (bool \<times> string option) \<times> agent" where
  "allEnabled base [] s = ((True, None), s)"
| "allEnabled base (nm # nms) s =
     (let url = router_url base nm; s' = s\<lparr>moment := Suc (moment s)\<rparr> in
      case routers_at (env s) (moment s) url of
        Inl e \<Rightarrow> ((False, Some e), s')
      | Inr (code, body) \<Rightarrow>
          if code = 404 then ((False, None), s')
          else if code \<noteq> 200
          then ((False, Some (''traefik api: '' @ url @ '' -> HTTP '' @ itoa (int code))), s')
          else (case body of
                  Inl e \<Rightarrow> ((False, Some e), s')
                | Inr status \<Rightarrow>
                    if status \<noteq> ''enabled'' then ((False, None), s') else allEnabled base nms s'))"

text \<open>\<open>time.Duration(float64(interval) * 1.5)\<close>; the product is exact at these sizes.\<close>

definition next_interval :: "int \<Rightarrow> int" where
  "next_interval i = min (i * 3 div 2) traefikPollMax"

definition sleep :: "int \<Rightarrow> agent \<Rightarrow> agent" where
  "sleep d s = s\<lparr>slept := slept s + nat d, moment := Suc (moment s)\<rparr>"

lemma allEnabled_moves:
  "allEnabled base nms s = (r, s') \<Longrightarrow> s' = s\<lparr>moment := moment s'\<rparr> \<and> moment s \<le> moment s'"
proof (induction nms arbitrary: s r)
  case (Cons nm nms)
  let ?t = "s\<lparr>moment := Suc (moment s)\<rparr>"
  have "s' = ?t \<or> (\<exists>r. allEnabled base nms ?t = (r, s'))"
    using Cons.prems by (auto simp: Let_def split: sum.splits prod.splits if_splits)
  then show ?case
  proof
    assume "\<exists>r. allEnabled base nms ?t = (r, s')"
    then have "s' = ?t\<lparr>moment := moment s'\<rparr> \<and> moment ?t \<le> moment s'" using Cons.IH by blast
    then show ?thesis by simp
  qed simp
qed simp

lemma clock_sleep: "clock s < clock (sleep d s)" "env (sleep d s) = env s"
  by (simp_all add: clock_def sleep_def)

lemma clock_allEnabled: "allEnabled base nms s = (r, s') \<Longrightarrow> clock s \<le> clock s'"
proof -
  assume "allEnabled base nms s = (r, s')"
  then obtain m where "s' = s\<lparr>moment := m\<rparr>" "moment s \<le> m" using allEnabled_moves by metis
  then show "clock s \<le> clock s'" using clock_mono [of s' s] by simp
qed

function wait_loop ::
    "string \<Rightarrow> string list \<Rightarrow> int \<Rightarrow> int \<Rightarrow> agent \<Rightarrow> (wait_error + unit) \<times> agent" where
  "wait_loop base names deadline interval s =
     (case ctx_at (env s) (moment s) of
        Some e \<Rightarrow> (Inl (CtxDone e), s)
      | None \<Rightarrow>
          (case allEnabled base names s of
             ((ok, lastErr), s1) \<Rightarrow>
               if ok then (Inr (), s1)
               else if clock s1 > deadline then (Inl (RoutersTimeout lastErr), s1)
               else (case ctx_at (env s1) (moment s1) of
                       Some e \<Rightarrow> (Inl (CtxDone e), s1)
                     | None \<Rightarrow> wait_loop base names deadline (next_interval interval) (sleep interval s1))))"
  by pat_completeness auto
termination
proof (relation "measure (\<lambda>(base, names, deadline, interval, s). nat (deadline + 1 - clock s))")
  fix base names deadline interval and s :: agent and r s1 and ok :: bool and e :: "string option"
  assume run: "(r, s1) = allEnabled base names s" and late: "\<not> deadline < clock s1"
  from clock_allEnabled [OF run [symmetric]] late
  show "((base, names, deadline, next_interval interval, sleep interval s1), base, names, deadline, interval, s)
      \<in> measure (\<lambda>(base, names, deadline, interval, s). nat (deadline + 1 - clock s))"
    using clock_sleep(1) [of s1 interval] by simp
qed simp

declare wait_loop.simps [simp del]

section \<open>Waiting\<close>

definition WaitTraefikRouters :: "string \<Rightarrow> string list \<Rightarrow> int \<Rightarrow> agent \<Rightarrow> (wait_error + unit) \<times> agent" where
  "WaitTraefikRouters base names timeout s =
     (if base = [] \<or> timeout \<le> 0 \<or> names = [] then (Inr (), s)
      else wait_loop base names (clock s + timeout) traefikPollInitial s)"

definition api_base :: "int \<Rightarrow> string" where
  "api_base port = ''http://127.0.0.1:'' @ itoa port"

text \<open>\<open>waitRouters\<close>: the outcome is only logged.\<close>

definition waitRouters :: "string \<Rightarrow> PreviewConfig \<Rightarrow> string \<Rightarrow> unit run" where
  "waitRouters pid cfg mode s =
     (if traefikAPIPort s = 0 \<or> routerReadyTimeout s \<le> 0 then (Inr (), s)
      else if mode \<noteq> buildModeCompose \<and> mode \<noteq> buildModeDockerfile then (Inr (), s)
      else let names = RouterNames pid cfg mode in
           if names = [] then (Inr (), s)
           else (Inr (), snd (WaitTraefikRouters (api_base (traefikAPIPort s)) names (routerReadyTimeout s) s)))"

section \<open>What the outcome tells\<close>

text \<open>Between two moments Traefik has shown the router as enabled; the context has been cancelled.\<close>

definition enabled_between :: "agent_env \<Rightarrow> string \<Rightarrow> nat \<Rightarrow> nat \<Rightarrow> bool" where
  "enabled_between e url a b \<longleftrightarrow> (\<exists>m \<in> set [a..<b]. routers_at e m url = Inr (200, Inr ''enabled''))"

definition cancelled_between :: "agent_env \<Rightarrow> string \<Rightarrow> nat \<Rightarrow> nat \<Rightarrow> bool" where
  "cancelled_between e err a b \<longleftrightarrow> (\<exists>m \<in> set [a..<Suc b]. ctx_at e m = Some err)"

lemma between_earlier:
  "enabled_between e url b c \<Longrightarrow> a \<le> b \<Longrightarrow> enabled_between e url a c"
  "cancelled_between e err b c \<Longrightarrow> a \<le> b \<Longrightarrow> cancelled_between e err a c"
  by (auto simp: enabled_between_def cancelled_between_def intro: order_trans)

lemma allEnabled_True:
  assumes "allEnabled base nms s = ((True, e), s')" and "nm \<in> set nms"
  shows "enabled_between (env s) (router_url base nm) (moment s) (moment s')"
  using assms
proof (induction nms arbitrary: s)
  case (Cons a nms)
  let ?t = "s\<lparr>moment := Suc (moment s)\<rparr>"
  have first: "routers_at (env s) (moment s) (router_url base a) = Inr (200, Inr ''enabled'')"
    and rest: "allEnabled base nms ?t = ((True, e), s')"
    using Cons.prems(1) by (auto simp: Let_def split: sum.splits prod.splits if_splits)
  have le: "Suc (moment s) \<le> moment s'" using allEnabled_moves [OF rest] by simp
  show ?case
  proof (cases "nm = a")
    case True
    with first le show ?thesis by (auto simp: enabled_between_def)
  next
    case False
    with Cons.IH [OF rest] Cons.prems(2)
    have "enabled_between (env s) (router_url base nm) (Suc (moment s)) (moment s')" by simp
    then show ?thesis by (rule between_earlier(1)) simp
  qed
qed simp

text \<open>The loop only moves the clock, and it never sleeps past the deadline by more than one interval.\<close>

definition waits_from :: "agent \<Rightarrow> int \<Rightarrow> agent \<Rightarrow> bool" where
  "waits_from s deadline s' \<longleftrightarrow> s' = s\<lparr>moment := moment s', slept := slept s'\<rparr> \<and> moment s \<le> moment s' \<and>
     slept s \<le> slept s' \<and> (slept s' = slept s \<or> int (slept s') \<le> int (slept s) + (deadline - clock s) + traefikPollMax)"

lemma wait_loop_outcome:
  assumes "0 \<le> interval" and "interval \<le> traefikPollMax"
    and "wait_loop base names deadline interval s = (r, s')"
  shows "waits_from s deadline s'
    \<and> (r = Inr () \<longrightarrow> (\<forall>nm \<in> set names. enabled_between (env s) (router_url base nm) (moment s) (moment s')))
    \<and> (\<forall>e. r = Inl (RoutersTimeout e) \<longrightarrow> clock s' > deadline)
    \<and> (\<forall>e. r = Inl (CtxDone e) \<longrightarrow> cancelled_between (env s) e (moment s) (moment s'))"
  using assms
proof (induction base names deadline interval s arbitrary: r s' rule: wait_loop.induct)
  case (1 base names deadline interval s)
  have start: "waits_from s deadline s" by (simp add: waits_from_def)
  show ?case
  proof (cases "ctx_at (env s) (moment s)")
    case (Some e)
    with 1(4) start show ?thesis by (subst (asm) wait_loop.simps) (auto simp: cancelled_between_def)
  next
    case None
    obtain ok lastErr s1 where all: "allEnabled base names s = ((ok, lastErr), s1)"
      by (metis prod.exhaust)
    then obtain m where m: "s1 = s\<lparr>moment := m\<rparr>" "moment s \<le> m" using allEnabled_moves by metis
    then have same: "env s1 = env s" "slept s1 = slept s" "moment s1 = m" by simp_all
    have here: "waits_from s deadline s1" using m by (simp add: waits_from_def)
    consider (ok) "ok" "r = Inr ()" "s' = s1"
      | (late) "\<not> ok" "clock s1 > deadline" "r = Inl (RoutersTimeout lastErr)" "s' = s1"
      | (cancelled) e where "\<not> ok" "ctx_at (env s) (moment s1) = Some e" "r = Inl (CtxDone e)" "s' = s1"
      | (again) "\<not> ok" "\<not> clock s1 > deadline" "ctx_at (env s) (moment s1) = None"
          "wait_loop base names deadline (next_interval interval) (sleep interval s1) = (r, s')"
      using 1(4) None all same
      by (subst (asm) wait_loop.simps) (auto split: if_splits option.splits)
    then show ?thesis
    proof cases
      case ok
      with all allEnabled_True here show ?thesis by auto
    next
      case late
      with here show ?thesis by auto
    next
      case cancelled
      with here same(3) m(2) show ?thesis by (auto simp: cancelled_between_def)
    next
      case again
      let ?t = "sleep interval s1"
      have t: "?t = s\<lparr>moment := Suc m, slept := slept s + nat interval\<rparr>"
        by (simp add: sleep_def m(1))
      then have t': "env ?t = env s" "moment s \<le> moment ?t" "slept ?t = slept s + nat interval" using m(2) by simp_all
      have next_ok: "0 \<le> next_interval interval" "next_interval interval \<le> traefikPollMax"
        using 1(2) by (simp_all add: next_interval_def traefikPollMax_def millisecond_def)
      have IH: "waits_from ?t deadline s'
          \<and> (r = Inr () \<longrightarrow> (\<forall>nm \<in> set names. enabled_between (env ?t) (router_url base nm) (moment ?t) (moment s')))
          \<and> (\<forall>e. r = Inl (RoutersTimeout e) \<longrightarrow> clock s' > deadline)
          \<and> (\<forall>e. r = Inl (CtxDone e) \<longrightarrow> cancelled_between (env ?t) e (moment ?t) (moment s'))"
        by (rule 1(1) [OF None all [symmetric] refl again(1,2) _ next_ok again(4)]) (use same again(3) in simp)
      have "clock s + int (slept ?t - slept s) \<le> clock ?t"
        using clock_mono [of ?t s] t' by simp
      then have bound: "int (slept s') \<le> int (slept s) + (deadline - clock s) + traefikPollMax"
        using IH t'(3) 1(2,3) again(2) clock_allEnabled [OF all] unfolding waits_from_def by linarith
      have shape: "s' = s\<lparr>moment := moment s', slept := slept s'\<rparr>"
      proof -
        obtain a b where "s' = ?t\<lparr>moment := a, slept := b\<rparr>" using IH unfolding waits_from_def by blast
        then show ?thesis unfolding t by simp
      qed
      have "moment s \<le> moment s'" "slept s \<le> slept s'"
        using IH t'(2,3) unfolding waits_from_def by linarith+
      with bound shape have "waits_from s deadline s'" unfolding waits_from_def by simp
      with IH show ?thesis unfolding t'(1) using between_earlier [OF _ t'(2)] by simp
    qed
  qed
qed

text \<open>
  The time the loop takes: once the deadline has passed it only finishes the poll it is in, and
  a sleep that starts before the deadline ends at most one interval after it.
\<close>

definition prompt :: "agent_env \<Rightarrow> bool" where
  "prompt e \<longleftrightarrow> (\<forall>m. int (Suc (elapsed_at e m)) \<le> clientTimeout)"

lemma clock_step: "clock (s\<lparr>moment := Suc (moment s)\<rparr>) = clock s + int (Suc (elapsed_at (env s) (moment s)))"
  by (simp add: clock_def)

lemma allEnabled_time:
  assumes "prompt (env s)" and "allEnabled base nms s = (r, s')"
  shows "clock s' \<le> clock s + int (length nms) * clientTimeout"
  using assms
proof (induction nms arbitrary: s r)
  case (Cons nm nms)
  let ?t = "s\<lparr>moment := Suc (moment s)\<rparr>"
  have t: "clock ?t \<le> clock s + clientTimeout" "prompt (env ?t)"
    using Cons.prems(1) unfolding clock_step by (simp_all add: prompt_def)
  have nonneg: "0 \<le> clientTimeout" by (simp add: clientTimeout_def millisecond_def)
  have "s' = ?t \<or> (\<exists>r. allEnabled base nms ?t = (r, s'))"
    using Cons.prems(2) by (auto simp: Let_def split: sum.splits prod.splits if_splits)
  then show ?case
  proof
    assume "s' = ?t"
    then show ?thesis using t nonneg by (simp add: distrib_right) (smt (verit) mult_nonneg_nonneg of_nat_0_le_iff)
  next
    assume "\<exists>r. allEnabled base nms ?t = (r, s')"
    then have "clock s' \<le> clock ?t + int (length nms) * clientTimeout" using Cons.IH t(2) by blast
    then show ?thesis using t(1) by (simp add: distrib_right)
  qed
qed simp

lemma wait_loop_time:
  assumes "prompt (env s)" and "0 \<le> interval" and "interval \<le> traefikPollMax"
    and "wait_loop base names deadline interval s = (r, s')"
  shows "clock s' \<le> max (clock s) (deadline + traefikPollMax + clientTimeout) + int (length names) * clientTimeout"
  using assms
proof (induction base names deadline interval s arbitrary: r s' rule: wait_loop.induct)
  case (1 base names deadline interval s)
  let ?n = "int (length names) * clientTimeout"
  have n: "0 \<le> ?n" by (simp add: clientTimeout_def millisecond_def)
  show ?case
  proof (cases "ctx_at (env s) (moment s)")
    case (Some e)
    with 1(5) n show ?thesis by (subst (asm) wait_loop.simps) auto
  next
    case None
    obtain ok lastErr s1 where all: "allEnabled base names s = ((ok, lastErr), s1)"
      by (metis prod.exhaust)
    then obtain m where m: "s1 = s\<lparr>moment := m\<rparr>" using allEnabled_moves by metis
    have time: "clock s1 \<le> clock s + ?n" using allEnabled_time [OF 1(2) all] .
    consider "s' = s1"
      | (again) "\<not> ok" "\<not> clock s1 > deadline" "ctx_at (env s1) (moment s1) = None"
          "wait_loop base names deadline (next_interval interval) (sleep interval s1) = (r, s')"
      using 1(5) None all by (subst (asm) wait_loop.simps) (auto split: if_splits option.splits)
    then show ?thesis
    proof cases
      case again
      let ?t = "sleep interval s1"
      have env: "prompt (env ?t)" using 1(2) m by (simp add: sleep_def)
      have "clock ?t = clock s1 + interval + int (Suc (elapsed_at (env s) (moment s1)))"
        using 1(3) m by (simp add: sleep_def clock_def)
      then have t: "clock ?t \<le> deadline + traefikPollMax + clientTimeout"
        using again(2) 1(2,4) unfolding prompt_def by (smt (verit))
      have next_ok: "0 \<le> next_interval interval" "next_interval interval \<le> traefikPollMax"
        using 1(3) by (simp_all add: next_interval_def traefikPollMax_def millisecond_def)
      have "clock s' \<le> max (clock ?t) (deadline + traefikPollMax + clientTimeout) + ?n"
        by (rule 1(1) [OF None all [symmetric] refl again(1,2) again(3) env next_ok again(4)])
      with t show ?thesis by simp
    qed (use time in simp)
  qed
qed

lemma wait_quiet:
  assumes "WaitTraefikRouters base names timeout s = (r, s')"
  shows "s' = s\<lparr>moment := moment s', slept := slept s'\<rparr> \<and> moment s \<le> moment s' \<and> slept s \<le> slept s'"
proof (cases "base = [] \<or> timeout \<le> 0 \<or> names = []")
  case True
  with assms show ?thesis by (auto simp: WaitTraefikRouters_def)
next
  case False
  then have "wait_loop base names (clock s + timeout) traefikPollInitial s = (r, s')"
    using assms by (simp add: WaitTraefikRouters_def)
  from wait_loop_outcome [OF _ _ this] show ?thesis
    by (simp add: traefikPollInitial_def traefikPollMax_def millisecond_def waits_from_def)
qed

lemma waitRouters_run:
  "fst (waitRouters pid cfg mode s) = Inr () \<and>
   (\<exists>m k. moment s \<le> m \<and> slept s \<le> k \<and> snd (waitRouters pid cfg mode s) = s\<lparr>moment := m, slept := k\<rparr>)"
proof -
  let ?P = "\<lambda>s'. \<exists>m k. moment s \<le> m \<and> slept s \<le> k \<and> s' = s\<lparr>moment := m, slept := k\<rparr>"
  have wait: "?P (snd (WaitTraefikRouters base names timeout s))" for base names timeout
    using wait_quiet [of base names timeout s] by (metis prod.collapse)
  have "?P s" by (intro exI [of _ "moment s"] exI [of _ "slept s"]) simp
  moreover obtain base names timeout where
    "waitRouters pid cfg mode s \<in> {(Inr (), s), (Inr (), snd (WaitTraefikRouters base names timeout s))}"
    unfolding waitRouters_def Let_def by (metis insertCI)
  ultimately show ?thesis using wait by fastforce
qed

lemma quiet_waitRouters [quiet_rules]: "obeys quiet (waitRouters pid cfg mode)"
  unfolding obeys_def
proof
  fix s
  obtain m k where "moment s \<le> m" "slept s \<le> k" "snd (waitRouters pid cfg mode s) = s\<lparr>moment := m, slept := k\<rparr>"
    using waitRouters_run by metis
  then show "quiet s (snd (waitRouters pid cfg mode s))"
    by (simp add: quiet_def sends_def same_jobs_def frames_def)
qed

lemma emits_waitRouters [emit_rules]: "obeys (emits P) (waitRouters pid cfg mode)"
  unfolding obeys_def
proof
  fix s
  obtain m k where "moment s \<le> m" "slept s \<le> k" "snd (waitRouters pid cfg mode s) = s\<lparr>moment := m, slept := k\<rparr>"
    using waitRouters_run by metis
  then show "emits P s (snd (waitRouters pid cfg mode s))" by (simp add: emits_def)
qed

end
