(* ===== verification/Runner.thy ===== *)
theory Runner
  imports RepoCacheLaws TraefikReady
begin

text \<open>
  internal/agent/runner.go: the jobs of an agent. A job is handled to its end: the deferred
  function of \<open>Handle\<close> runs on every return of its body. What the logger writes has no
  counterpart.
\<close>

section \<open>The jobs\<close>

text \<open>\<open>sync.Map\<close>: storing replaces the entry of the key.\<close>

definition map_store :: "string \<Rightarrow> 'v \<Rightarrow> (string \<times> 'v) list \<Rightarrow> (string \<times> 'v) list" where
  "map_store k v m = (k, v) # filter (\<lambda>x. fst x \<noteq> k) m"

definition map_delete :: "string \<Rightarrow> (string \<times> 'v) list \<Rightarrow> (string \<times> 'v) list" where
  "map_delete k m = filter (\<lambda>x. fst x \<noteq> k) m"

lemma map_of_delete: "map_of (filter (\<lambda>x. fst x \<noteq> k) m) i = (if i = k then None else map_of m i)"
  by (induction m) auto

lemma map_of_map_store [simp]: "map_of (map_store k v m) i = (if i = k then Some v else map_of m i)"
  by (simp add: map_store_def map_of_delete)

lemma map_of_delete' [simp]: "map_of (map_delete k m) i = (if i = k then None else map_of m i)"
  by (simp add: map_delete_def map_of_delete)

definition Pause_agent :: "agent \<Rightarrow> agent" where
  "Pause_agent s = s\<lparr>a_paused := True\<rparr>"

definition SetTraefikPort :: "int \<Rightarrow> agent \<Rightarrow> agent" where
  "SetTraefikPort port s = (if port > 0 then s\<lparr>traefikPort := port\<rparr> else s)"

text \<open>
  \<open>RunningPreviewIDs\<close> ranges over the jobs first and over the marks of previews being built
  second: two reads, between which other goroutines may act (theory RunnerTasks). What it finds
  when nothing comes between is \<open>listed_ids\<close>.
\<close>

definition running_ids :: "string list \<Rightarrow> string list \<Rightarrow> string list" where
  "running_ids running marked = remdups (running @ marked)"

definition RunningPreviewIDs :: "(agent, 'e, string list) prog" where
  "RunningPreviewIDs =
     bindE (gets (\<lambda>s. map fst (jobs s))) (\<lambda>running.
     bindE (gets building) (\<lambda>marked. ret (running_ids running marked)))"

definition listed_ids :: "agent \<Rightarrow> string list" where
  "listed_ids s = running_ids (map fst (jobs s)) (building s)"

lemma set_running_ids [simp]: "set (running_ids js bs) = set js \<union> set bs"
  by (simp add: running_ids_def)

lemma set_listed_ids: "set (listed_ids s) = fst ` set (jobs s) \<union> set (building s)"
  by (simp add: listed_ids_def)

lemma RunningPreviewIDs_run [simp]:
  "RunningPreviewIDs s = (Inr (listed_ids s), s)" "bindE RunningPreviewIDs k s = k (listed_ids s) s"
  by (simp_all add: RunningPreviewIDs_def listed_ids_def bindE_def [of "bindE m l" k for m l])

definition RegisterRestoredJob :: "string \<Rightarrow> string \<Rightarrow> string \<Rightarrow> int \<Rightarrow> agent \<Rightarrow> agent" where
  "RegisterRestoredJob pid cid host port s =
     s\<lparr>jobs := map_store pid \<lparr>jb_container = cid, jb_host = host, jb_port = port, jb_worktree = [],
        jb_repo = [], jb_mode = buildModeDockerfile, jb_compose = []\<rparr> (jobs s)\<rparr>"

lemma quiet_RunningPreviewIDs [quiet_rules]: "obeys quiet RunningPreviewIDs"
  by (simp add: obeys_def quiet.refl)

section \<open>Reports\<close>

text \<open>A \<open>StatusUpdateData\<close> with the fields of a composite literal that name only these.\<close>

definition status_report :: "string \<Rightarrow> string \<Rightarrow> string \<Rightarrow> StatusUpdateData" where
  "status_report pid st msg =
     \<lparr>su_preview = pid, su_status = st, su_message = msg, su_container = None, su_host = None,
      su_port = None, su_error = None, su_urls = [], su_sha = None\<rparr>"

definition building_report :: "string \<Rightarrow> StatusUpdateData" where
  "building_report pid = status_report pid ''building'' ''checkout_started''"

definition sha_report :: "string \<Rightarrow> string \<Rightarrow> StatusUpdateData" where
  "sha_report pid sha = (status_report pid ''building'' [])\<lparr>su_sha := (if sha \<noteq> [] then Some sha else None)\<rparr>"

definition failed_report :: "string \<Rightarrow> string \<Rightarrow> string \<Rightarrow> StatusUpdateData" where
  "failed_report pid reason err = (status_report pid ''failed'' reason)\<lparr>su_error := Some err\<rparr>"

definition running_report :: "string \<Rightarrow> string \<Rightarrow> string \<Rightarrow> int \<Rightarrow> (string \<times> string) list \<Rightarrow> StatusUpdateData" where
  "running_report pid cid host port urls =
     (status_report pid ''running'' [])\<lparr>su_container := (if cid \<noteq> [] then Some cid else None),
        su_host := Some host, su_port := Some port, su_urls := urls\<rparr>"

definition done_report :: "string \<Rightarrow> StatusUpdateData" where
  "done_report pid = status_report pid ''done'' []"

definition fail :: "string \<Rightarrow> string \<Rightarrow> string \<Rightarrow> 'a run" where
  "fail pid reason cause =
     (let msg = reason @ '': '' @ cause in
      bindE (logged (SendStatusUpdate (failed_report pid reason msg))) (\<lambda>_. throw msg))"

text \<open>\<open>if err := m; err != nil { return r.fail(ctx, pid, reason, err) }\<close>\<close>

definition or_fail :: "string \<Rightarrow> string \<Rightarrow> 'a run \<Rightarrow> 'a run" where
  "or_fail pid reason m = catchE m (fail pid reason)"

section \<open>Building\<close>

definition detectBuildFiles ::
    "(string \<Rightarrow> node) \<Rightarrow> string \<Rightarrow> PreviewConfig \<Rightarrow> string + (string \<times> string \<times> string)" where
  "detectBuildFiles stat worktree cfg =
     (if pc_compose cfg \<noteq> [] then Inr (path_join [worktree, pc_compose cfg], [], buildModeCompose)
      else case find (\<lambda>p. stat_ok (stat p)) (map (\<lambda>nm. path_join [worktree, nm])
                [''docker-compose.yml'', ''docker-compose.yaml'', ''compose.yml'', ''compose.yaml'']) of
        Some p \<Rightarrow> Inr (p, [], buildModeCompose)
      | None \<Rightarrow>
          if pc_dockerfile cfg \<noteq> [] then Inr ([], path_join [worktree, pc_dockerfile cfg], buildModeDockerfile)
          else (let p = path_join [worktree, ''Dockerfile''] in
                if stat_ok (stat p) then Inr ([], p, buildModeDockerfile)
                else Inl ''no docker-compose.yml or Dockerfile found in worktree''))"

definition override_path :: "string \<Rightarrow> string \<Rightarrow> string" where
  "override_path worktree pid = path_join [worktree, ''.preview-override-'' @ pid @ ''.yml'']"

definition projectName :: "string \<Rightarrow> string" where
  "projectName pid = ''preview-'' @ pid"

definition ComposeOverrideYAML :: "string \<Rightarrow> PreviewConfig \<Rightarrow> string run" where
  "ComposeOverrideYAML pid cfg =
     bindE (observe (\<lambda>e n. write_yaml e (ComposeOverride pid cfg))) lift_result"

definition handleCompose :: "string \<Rightarrow> string \<Rightarrow> string \<Rightarrow> PreviewConfig \<Rightarrow> string run" where
  "handleCompose pid worktree composefile cfg =
     bindE (or_fail pid ''compose_override_yaml'' (ComposeOverrideYAML pid cfg)) (\<lambda>data.
     bindE (or_fail pid ''compose_override_write'' (perform (WriteFile (override_path worktree pid) data))) (\<lambda>_.
     bindE (or_fail pid ''compose_up''
              (perform (Exec [''docker'', ''compose'', ''-f'', composefile, ''-f'', override_path worktree pid,
                 ''--project-name'', projectName pid, ''up'', ''-d'']))) (\<lambda>_. ret [])))"

definition preview_options :: "string \<Rightarrow> string \<Rightarrow> PreviewService \<Rightarrow> CreateOptions" where
  "preview_options pid nm svc =
     \<lparr>co_image = projectName pid @ '':latest'', co_name = projectName pid,
      co_labels = map_store ''hub-preview-id'' pid (ServiceLabels pid nm svc),
      co_ports = [\<lparr>pb_container = svc_port svc, pb_host = 0, pb_protocol = []\<rparr>],
      co_networks = [traefikNetwork], co_volumes = [], co_cmd = [], co_env = []\<rparr>"

definition handleDockerfile :: "string \<Rightarrow> string \<Rightarrow> PreviewConfig \<Rightarrow> string run" where
  "handleDockerfile pid worktree cfg =
     bindE (or_fail pid ''image_build'' (perform (ImageBuild worktree (projectName pid @ '':latest'')))) (\<lambda>_.
       case FirstService cfg of
         None \<Rightarrow> fail pid ''no_service'' ''no service defined in .preview.yml''
       | Some (nm, svc) \<Rightarrow>
           bindE (or_fail pid ''container_create'' (perform (ContainerCreate (preview_options pid nm svc)))) (\<lambda>cid.
           bindE (attempt (perform (ContainerStart cid))) (\<lambda>r.
             case r of
               Inl e \<Rightarrow> bindE (logged (perform (ContainerRemove cid))) (\<lambda>_. fail pid ''container_start'' e)
             | Inr _ \<Rightarrow> ret cid)))"

definition WriteDotenv :: "string \<Rightarrow> (string \<times> string) list \<Rightarrow> unit run" where
  "WriteDotenv path vars =
     (case dotenv_text vars of
        None \<Rightarrow> ret ()
      | Some content \<Rightarrow> bindE (wrap ''WriteDotenv'' (perform (WriteFile path content))) (\<lambda>_. ret ()))"

section \<open>A job\<close>

text \<open>The part of \<open>Handle\<close> up to the checkout: it gives the worktree.\<close>

definition checkout_job :: "JobAssignData \<Rightarrow> string run" where
  "checkout_job msg =
     (let pid = ja_preview msg in
      bindE (logged (SendStatusUpdate (building_report pid))) (\<lambda>_.
        if ja_url msg = [] then fail pid ''repo_url_missing'' ''JobAssignData.RepoURL is empty''
        else
          bindE (or_fail pid ''repocache_ensure'' (Ensure (ja_url msg))) (\<lambda>_.
          or_fail pid ''repocache_checkout'' (Checkout (ja_url msg) pid (ja_sha msg) (ja_branch msg)))))"

definition resolve_head :: "string \<Rightarrow> (agent, 'e, string) prog" where
  "resolve_head worktree =
     bindE (attempt (perform (Output [''git'', ''-C'', worktree, ''rev-parse'', ''HEAD'']))) (\<lambda>r.
       ret (case r of Inl _ \<Rightarrow> [] | Inr out \<Rightarrow> trim_space out))"

definition load_config :: "string \<Rightarrow> string \<Rightarrow> PreviewConfig run" where
  "load_config pid worktree =
     bindE (observe (\<lambda>e n. LoadPreviewConfig (read_yaml e) (stat_at e n) (read_at e n) worktree)) (\<lambda>r.
       case r of
         Inr cfg \<Rightarrow> ret cfg
       | Inl ConfigMissing \<Rightarrow> fail pid ''preview_config_missing'' (config_error_text ConfigMissing)
       | Inl err \<Rightarrow> fail pid ''preview_config_invalid'' (config_error_text err))"

definition build :: "string \<Rightarrow> string \<Rightarrow> PreviewConfig \<Rightarrow> string \<times> string \<times> string \<Rightarrow> string run" where
  "build pid worktree cfg files =
     (case files of (composefile, _, mode) \<Rightarrow>
        if mode = buildModeCompose then handleCompose pid worktree composefile cfg
        else handleDockerfile pid worktree cfg)"

definition new_job :: "agent \<Rightarrow> JobAssignData \<Rightarrow> string \<Rightarrow> string \<Rightarrow> string \<Rightarrow> string \<Rightarrow> runningJob" where
  "new_job s msg worktree cid mode composefile =
     \<lparr>jb_container = cid, jb_host = advHost s, jb_port = traefikPort s, jb_worktree = worktree,
      jb_repo = ja_url msg, jb_mode = mode, jb_compose = composefile\<rparr>"

text \<open>The part of \<open>Handle\<close> after the checkout.\<close>

definition build_job :: "JobAssignData \<Rightarrow> string \<Rightarrow> unit run" where
  "build_job msg worktree =
     (let pid = ja_preview msg in
      bindE (logged (WriteDotenv (path_join [worktree, ''.env'']) (ja_env msg))) (\<lambda>_.
      bindE (resolve_head worktree) (\<lambda>sha.
      bindE (logged (SendStatusUpdate (sha_report pid sha))) (\<lambda>_.
      bindE (load_config pid worktree) (\<lambda>cfg.
      bindE (or_fail pid ''no_build_artifact''
               (bindE (observe (\<lambda>e n. detectBuildFiles (stat_at e n) worktree cfg)) lift_result)) (\<lambda>files.
      bindE (build pid worktree cfg files) (\<lambda>cid.
      bindE (waitRouters pid cfg (snd (snd files))) (\<lambda>_.
      bindE (modify (\<lambda>s. s\<lparr>jobs := map_store pid (new_job s msg worktree cid (snd (snd files)) (fst files)) (jobs s)\<rparr>)) (\<lambda>_.
      bindE (gets (\<lambda>s. running_report pid cid (advHost s) (traefikPort s)
               (PreviewURLs pid cfg (advHost s) (traefikPort s)))) (\<lambda>rep.
      logged (SendStatusUpdate rep)))))))))))"

definition begin_job :: "string \<Rightarrow> agent \<Rightarrow> agent" where
  "begin_job pid s =
     s\<lparr>inFlight := inFlight s + 1, building := (if pid \<in> set (building s) then building s else pid # building s)\<rparr>"

text \<open>The deferred function of \<open>Handle\<close>; the worktree is empty when the checkout failed.\<close>

definition end_job :: "JobAssignData \<Rightarrow> string \<Rightarrow> unit run" where
  "end_job msg worktree =
     (let pid = ja_preview msg in
      bindE (modify (\<lambda>s. s\<lparr>building := removeAll pid (building s), inFlight := inFlight s - 1\<rparr>)) (\<lambda>_.
      bindE (gets (\<lambda>s. worktree \<noteq> [] \<and> map_of (jobs s) pid = None)) (\<lambda>clean_up.
      bindE (if clean_up then logged (Remove (ja_url msg) pid) else ret ()) (\<lambda>_.
      maybeSendReady))))"

definition handle_job :: "JobAssignData \<Rightarrow> unit run" where
  "handle_job msg =
     bindE (attempt (checkout_job msg)) (\<lambda>c.
       case c of
         Inl e \<Rightarrow> bindE (end_job msg []) (\<lambda>_. throw e)
       | Inr worktree \<Rightarrow>
           bindE (attempt (build_job msg worktree)) (\<lambda>r.
           bindE (end_job msg worktree) (\<lambda>_. lift_result r)))"

definition Handle :: "JobAssignData \<Rightarrow> unit run" where
  "Handle msg =
     bindE (gets a_paused) (\<lambda>p.
       if p then logged (SendStatusUpdate (failed_report (ja_preview msg) ''agent shutting down'' ''agent shutting down''))
       else bindE (modify (begin_job (ja_preview msg))) (\<lambda>_. handle_job msg))"

section \<open>Taking a preview down\<close>

definition stop_job :: "string \<Rightarrow> runningJob \<Rightarrow> unit run" where
  "stop_job pid job =
     (if jb_mode job = buildModeCompose then
        bindE (logged (perform (Exec [''docker'', ''compose'', ''--project-name'', projectName pid, ''down'']))) (\<lambda>_.
        logged (perform (RemoveFile (override_path (jb_worktree job) pid))))
      else
        bindE (logged (perform (ContainerStop (jb_container job)))) (\<lambda>_.
        logged (perform (ContainerRemove (jb_container job)))))"

definition Teardown :: "string \<Rightarrow> unit run" where
  "Teardown pid =
     bindE (gets (\<lambda>s. map_of (jobs s) pid)) (\<lambda>j.
       case j of
         None \<Rightarrow> logged (SendStatusUpdate (done_report pid))
       | Some job \<Rightarrow>
           bindE (stop_job pid job) (\<lambda>_.
           bindE (if jb_repo job \<noteq> [] then logged (Remove (jb_repo job) pid) else ret ()) (\<lambda>_.
           bindE (modify (\<lambda>s. s\<lparr>jobs := map_delete pid (jobs s)\<rparr>)) (\<lambda>_.
           wrap ''runner.Teardown: send done'' (SendStatusUpdate (done_report pid))))))"

end
