(* ===== verification/RunnerLaws.thy ===== *)
theory RunnerLaws
  imports Runner
begin

text \<open>
  What a job reports and what it leaves behind: the frames a run of \<open>Handle\<close> sends, in order,
  the state of the slots afterwards, and the files it may touch.
\<close>

section \<open>Programs that send nothing\<close>

lemma quiet_getOrCreate [quiet_rules]: "obeys quiet (getOrCreate url)"
  by (simp add: obeys_def getOrCreate_def quiet_def sends_def same_jobs_def frames_def split: option.split)

lemma quiet_files [quiet_rules]:
  "obeys quiet (fetch c)" "obeys quiet (stat_path p)" "obeys quiet (isInitialized c)"
  "obeys quiet (verify_sha c sha)" "obeys quiet (wrap_fetch c)"
  unfolding fetch_def stat_path_def isInitialized_def verify_sha_def wrap_fetch_def
  by (intro quiet_rules quiet_perform; simp)+

lemma quiet_resolve_sha [quiet_rules]: "obeys quiet (resolve_sha c sha branch)"
  unfolding resolve_sha_def by (intro quiet_rules quiet_perform) simp_all

lemma quiet_cache_ops [quiet_rules]:
  "obeys quiet (Ensure url)" "obeys quiet (Checkout url pid sha branch)" "obeys quiet (Remove url pid)"
  unfolding Ensure_def rc_Ensure_def Checkout_def rc_Checkout_def Remove_def rc_Remove_def Let_def
    remove_worktree_def add_worktree_def
  by (intro quiet_rules quiet_perform; simp)+

lemma quiet_WriteDotenv [quiet_rules]: "obeys quiet (WriteDotenv path vars)"
  unfolding WriteDotenv_def by (intro quiet_rules quiet_perform) simp_all

lemma quiet_resolve_head [quiet_rules]: "obeys quiet (resolve_head worktree)"
  unfolding resolve_head_def by (intro quiet_rules quiet_perform) simp_all

section \<open>Steps of a build\<close>

text \<open>
  A step either succeeds and sends nothing, or fails and has reported the failure it returns.
\<close>

definition reported :: "string \<Rightarrow> string + 'a \<Rightarrow> agent \<Rightarrow> agent \<Rightarrow> bool" where
  "reported pid r s s' \<longleftrightarrow> (case r of
     Inr _ \<Rightarrow> quiet s s'
   | Inl e \<Rightarrow> \<exists>reason. sends [StatusUpdate (failed_report pid reason e)] s s')"

definition builds :: "string \<Rightarrow> 'a run \<Rightarrow> bool" where
  "builds pid m \<longleftrightarrow> (\<forall>s. reported pid (fst (m s)) s (snd (m s)))"

named_theorems build_rules "steps of a build that report their failure"

lemma reported_simps [simp]:
  "reported pid (Inr x) s s' \<longleftrightarrow> quiet s s'"
  "reported pid (Inl e) s s' \<longleftrightarrow> (\<exists>reason. sends [StatusUpdate (failed_report pid reason e)] s s')"
  by (simp_all add: reported_def)

lemma builds_run: "builds pid m \<Longrightarrow> m s = (r, s') \<Longrightarrow> reported pid r s s'"
  by (metis builds_def fst_conv snd_conv)

lemma buildsI: "(\<And>s r s'. m s = (r, s') \<Longrightarrow> reported pid r s s') \<Longrightarrow> builds pid m"
  by (simp add: builds_def)

lemma quiet_sends: "quiet s t \<Longrightarrow> sends fs t u \<Longrightarrow> sends fs s u"
  using sends_trans [of "[]" s t fs u] by (simp add: quiet_def)

lemma sends_quiet: "sends fs s t \<Longrightarrow> quiet t u \<Longrightarrow> sends fs s u"
  using sends_trans [of fs s t "[]" u] by (simp add: quiet_def)

lemma quiet_reported: "quiet s t \<Longrightarrow> reported pid r t u \<Longrightarrow> reported pid r s u"
  by (cases r) (auto intro: quiet_sends quiet.trans)

lemma builds_bindE [build_rules]:
  assumes "builds pid m" and "\<And>x. builds pid (k x)"
  shows "builds pid (bindE m k)"
proof (rule buildsI)
  fix s r s' assume run: "bindE m k s = (r, s')"
  obtain q t where m: "m s = (q, t)" by fastforce
  then have q: "reported pid q s t" using assms(1) by (rule builds_run [rotated])
  show "reported pid r s s'"
  proof (cases q)
    case (Inl e)
    with run m q show ?thesis by (auto simp: bindE_def)
  next
    case (Inr x)
    then have "k x t = (r, s')" using run m by (simp add: bindE_def)
    with assms(2) have "reported pid r t s'" by (rule builds_run)
    with q Inr show ?thesis by (simp add: quiet_reported)
  qed
qed

lemma builds_ret [build_rules]: "builds pid (ret x)"
  by (simp add: builds_def)

lemma report_sends: "sends [StatusUpdate d] s (snd (SendStatusUpdate d s))"
  unfolding SendStatusUpdate_def using send_frame_sends by blast

lemma fail_run: "fail pid reason cause s =
    (Inl (reason @ '': '' @ cause), snd (SendStatusUpdate (failed_report pid reason (reason @ '': '' @ cause)) s))"
  by (simp add: fail_def Let_def)

lemma builds_fail [build_rules]: "builds pid (fail pid reason cause)"
  unfolding builds_def using report_sends by (auto simp: fail_run)

lemma builds_or_fail [build_rules]:
  assumes "obeys quiet m"
  shows "builds pid (or_fail pid reason m)"
proof (rule buildsI)
  fix s r s' assume run: "or_fail pid reason m s = (r, s')"
  obtain q t where m: "m s = (q, t)" by fastforce
  then have "quiet s t" using assms by (metis obeysD)
  moreover have "reported pid r t s'"
    using run m by (cases q) (auto simp: or_fail_def catchE_def intro: builds_run [OF builds_fail])
  ultimately show "reported pid r s s'" by (rule quiet_reported)
qed

lemma fst_total [simp]: "fst (attempt m s) = Inr (fst (m s))" "fst (logged m s) = Inr ()"
  by (simp_all add: attempt_def logged_def split: prod.split)

lemma builds_total [build_rules]:
  "builds pid (observe f)"
  "obeys quiet m \<Longrightarrow> builds pid (attempt m)"
  "obeys quiet n \<Longrightarrow> builds pid (logged n)"
  "builds pid (waitRouters pid' cfg mode)"
  using quiet_observe [of f] quiet_waitRouters [of pid' cfg mode] waitRouters_run [of pid' cfg mode]
  by (simp_all add: builds_def obeys_def observe_def)

lemma builds_cases [build_rules]:
  "(\<And>x. builds pid (f x)) \<Longrightarrow> (\<And>y. builds pid (g y)) \<Longrightarrow> builds pid (case v of Inl x \<Rightarrow> f x | Inr y \<Rightarrow> g y)"
  "builds pid m \<Longrightarrow> (\<And>x. builds pid (h x)) \<Longrightarrow> builds pid (case w of None \<Rightarrow> m | Some x \<Rightarrow> h x)"
  "(c = ConfigMissing \<Longrightarrow> builds pid m1) \<Longrightarrow> (\<And>x. builds pid (m2 x)) \<Longrightarrow> (\<And>x. builds pid (m3 x)) \<Longrightarrow>
     builds pid (case c of ConfigMissing \<Rightarrow> m1 | ConfigRead x \<Rightarrow> m2 x | ConfigInvalid x \<Rightarrow> m3 x)"
  "(\<And>x y. builds pid (l x y)) \<Longrightarrow> builds pid (case p of (x, y) \<Rightarrow> l x y)"
  "builds pid m \<Longrightarrow> builds pid m' \<Longrightarrow> builds pid (if b then m else m')"
  by (simp_all split: sum.split option.split prod.split config_error.split)

lemma builds_config [build_rules]:
  "builds pid (load_config pid worktree)"
  unfolding load_config_def by (intro build_rules)

lemma builds_handleCompose [build_rules]: "builds pid (handleCompose pid worktree composefile cfg)"
  unfolding handleCompose_def ComposeOverrideYAML_def by (intro build_rules quiet_rules quiet_perform) simp_all

lemma builds_handleDockerfile [build_rules]: "builds pid (handleDockerfile pid worktree cfg)"
  unfolding handleDockerfile_def by (intro build_rules quiet_rules quiet_perform) simp_all

lemma builds_build [build_rules]: "builds pid (build pid worktree cfg files)"
  unfolding build_def by (intro build_rules)

section \<open>The phases of a job\<close>

lemma reported_trans: "sends fs s t \<Longrightarrow> reported pid r t u \<Longrightarrow>
   (case r of Inr _ \<Rightarrow> sends fs s u
    | Inl e \<Rightarrow> \<exists>reason. sends (fs @ [StatusUpdate (failed_report pid reason e)]) s u)"
  using sends_trans sends_quiet by (cases r) fastforce+

lemma checkout_job_run:
  assumes "checkout_job msg s = (r, s')"
  shows "case r of
      Inr _ \<Rightarrow> sends [StatusUpdate (building_report (ja_preview msg))] s s'
    | Inl e \<Rightarrow> \<exists>reason. sends [StatusUpdate (building_report (ja_preview msg)),
                            StatusUpdate (failed_report (ja_preview msg) reason e)] s s'"
proof -
  let ?pid = "ja_preview msg" and ?b = "StatusUpdate (building_report (ja_preview msg))"
  define t where "t = snd (SendStatusUpdate (building_report ?pid) s)"
  define rest where "rest = (if ja_url msg = [] then fail ?pid ''repo_url_missing'' ''JobAssignData.RepoURL is empty''
      else bindE (or_fail ?pid ''repocache_ensure'' (Ensure (ja_url msg))) (\<lambda>_.
        or_fail ?pid ''repocache_checkout'' (Checkout (ja_url msg) ?pid (ja_sha msg) (ja_branch msg))))"
  have t: "sends [?b] s t" unfolding t_def by (rule report_sends)
  have "builds ?pid rest" unfolding rest_def by (intro build_rules quiet_rules)
  moreover have "rest t = (r, s')" using assms by (simp add: checkout_job_def rest_def t_def Let_def)
  ultimately have "reported ?pid r t s'" by (rule builds_run)
  with t have "case r of Inr _ \<Rightarrow> sends [?b] s s'
      | Inl e \<Rightarrow> \<exists>reason. sends ([?b] @ [StatusUpdate (failed_report ?pid reason e)]) s s'"
    by (rule reported_trans)
  then show ?thesis by (simp only: append_Cons append_Nil)
qed

text \<open>
  The steps between the second report and the registration, and the registration with the last
  report. The result of the first part are the configuration, the build files and the container.
\<close>

definition prepare_job :: "string \<Rightarrow> string \<Rightarrow> (PreviewConfig \<times> (string \<times> string \<times> string) \<times> string) run" where
  "prepare_job pid worktree =
     bindE (load_config pid worktree) (\<lambda>cfg.
     bindE (or_fail pid ''no_build_artifact''
              (bindE (observe (\<lambda>e n. detectBuildFiles (stat_at e n) worktree cfg)) lift_result)) (\<lambda>files.
     bindE (build pid worktree cfg files) (\<lambda>cid.
     bindE (waitRouters pid cfg (snd (snd files))) (\<lambda>_. ret (cfg, files, cid)))))"

definition register_job ::
    "JobAssignData \<Rightarrow> string \<Rightarrow> PreviewConfig \<times> (string \<times> string \<times> string) \<times> string \<Rightarrow> unit run" where
  "register_job msg worktree x = (case x of (cfg, files, cid) \<Rightarrow>
     bindE (modify (\<lambda>s. s\<lparr>jobs := map_store (ja_preview msg) (new_job s msg worktree cid (snd (snd files)) (fst files)) (jobs s)\<rparr>)) (\<lambda>_.
     bindE (gets (\<lambda>s. running_report (ja_preview msg) cid (advHost s) (traefikPort s)
              (PreviewURLs (ja_preview msg) cfg (advHost s) (traefikPort s)))) (\<lambda>rep.
     logged (SendStatusUpdate rep))))"

lemma bindE_assoc: "bindE (bindE m k) l = bindE m (\<lambda>x. bindE (k x) l)"
  by (simp add: bindE_def fun_eq_iff split: prod.split sum.split)

lemma bindE_ret [simp]: "bindE (ret x) k = k x"
  by (simp add: bindE_def fun_eq_iff)

lemma bindE_step: "m s = (Inr x, t) \<Longrightarrow> bindE m k s = k x t"
  by (simp add: bindE_def)

lemma bindE_total: "fst (m s) = Inr x \<Longrightarrow> bindE m k s = k x (snd (m s))"
  by (cases "m s") (simp add: bindE_def)

lemma build_job_split:
  "build_job msg worktree =
     bindE (logged (WriteDotenv (path_join [worktree, ''.env'']) (ja_env msg))) (\<lambda>_.
     bindE (resolve_head worktree) (\<lambda>sha.
     bindE (logged (SendStatusUpdate (sha_report (ja_preview msg) sha))) (\<lambda>_.
     bindE (prepare_job (ja_preview msg) worktree) (register_job msg worktree))))"
  by (simp only: build_job_def prepare_job_def register_job_def Let_def bindE_assoc bindE_ret prod.case)

lemma builds_prepare: "builds pid (prepare_job pid worktree)"
  unfolding prepare_job_def by (intro build_rules quiet_rules)

text \<open>A run that fails changes no job; a run that succeeds has registered one and reported it.\<close>

definition job_started :: "JobAssignData \<Rightarrow> string \<Rightarrow> envelope list \<Rightarrow> agent \<Rightarrow> agent \<Rightarrow> bool" where
  "job_started msg worktree fs s s' \<longleftrightarrow> (\<exists>cfg (files :: string \<times> string \<times> string) cid.
     sends (fs @ [StatusUpdate (running_report (ja_preview msg) cid (advHost s) (traefikPort s)
                    (PreviewURLs (ja_preview msg) cfg (advHost s) (traefikPort s)))])
       (s\<lparr>jobs := map_store (ja_preview msg) (new_job s msg worktree cid (snd (snd files)) (fst files)) (jobs s)\<rparr>) s')"

lemma sends_jobs: "sends fs s t \<Longrightarrow> sends fs (s\<lparr>jobs := J\<rparr>) (t\<lparr>jobs := J\<rparr>)"
  by (simp add: sends_def same_jobs_def frames_def)

lemma register_job_run:
  assumes "sends fs s t"
  shows "fst (register_job msg worktree x t) = Inr () \<and> job_started msg worktree fs s (snd (register_job msg worktree x t))"
proof -
  obtain cfg files cid where x: "x = (cfg, files, cid)" by (metis prod.exhaust)
  let ?pid = "ja_preview msg"
  let ?J = "map_store ?pid (new_job s msg worktree cid (snd (snd files)) (fst files)) (jobs s)"
  have same: "jobs t = jobs s" "advHost t = advHost s" "traefikPort t = traefikPort s"
    using assms by (simp_all add: sends_def same_jobs_def)
  let ?rep = "running_report ?pid cid (advHost s) (traefikPort s) (PreviewURLs ?pid cfg (advHost s) (traefikPort s))"
  have run: "register_job msg worktree x t = (Inr (), snd (SendStatusUpdate ?rep (t\<lparr>jobs := ?J\<rparr>)))"
    by (simp add: register_job_def x new_job_def same logged_def)
  have "sends (fs @ [StatusUpdate ?rep]) (s\<lparr>jobs := ?J\<rparr>) (snd (SendStatusUpdate ?rep (t\<lparr>jobs := ?J\<rparr>)))"
    by (rule sends_trans [OF sends_jobs [OF assms] report_sends])
  then show ?thesis unfolding run job_started_def by auto
qed

lemma resolve_head_total: "\<exists>sha. fst (resolve_head worktree s) = Inr sha"
  by (simp add: resolve_head_def)

lemma build_job_run:
  assumes "build_job msg worktree s = (r, s')"
  shows "\<exists>sha. (case r of
      Inr _ \<Rightarrow> job_started msg worktree [StatusUpdate (sha_report (ja_preview msg) sha)] s s'
    | Inl e \<Rightarrow> \<exists>reason. sends [StatusUpdate (sha_report (ja_preview msg) sha),
                            StatusUpdate (failed_report (ja_preview msg) reason e)] s s')"
proof -
  let ?pid = "ja_preview msg"
  define s1 where "s1 = snd (WriteDotenv (path_join [worktree, ''.env'']) (ja_env msg) s)"
  have s1: "quiet s s1" unfolding s1_def by (rule obeys_apply [OF quiet_WriteDotenv])
  obtain sha s2 where head: "(resolve_head worktree :: string run) s1 = (Inr sha, s2)"
    using resolve_head_total by (metis prod.collapse)
  then have "quiet s1 s2" by (rule obeysD [OF quiet_resolve_head])
  with s1 have s2: "quiet s s2" by (rule quiet.trans)
  let ?sha = "StatusUpdate (sha_report ?pid sha)"
  define s3 where "s3 = snd (SendStatusUpdate (sha_report ?pid sha) s2)"
  have s3: "sends [?sha] s s3" unfolding s3_def by (rule quiet_sends [OF s2 report_sends])
  obtain q s4 where prep: "prepare_job ?pid worktree s3 = (q, s4)" by fastforce
  then have q: "reported ?pid q s3 s4" by (rule builds_run [OF builds_prepare])
  have run: "bindE (prepare_job ?pid worktree) (register_job msg worktree) s3 = (r, s')"
    using assms unfolding build_job_split bindE_logged s1_def [symmetric] s3_def
    by (simp only: bindE_step [where m = "resolve_head worktree", OF head])
  show ?thesis
  proof (cases q)
    case (Inl e)
    then have "r = Inl e" "s' = s4" using run prep by (simp_all add: bindE_def)
    with reported_trans [OF s3 q] Inl show ?thesis by auto
  next
    case (Inr x)
    then have "register_job msg worktree x s4 = (r, s')" using run prep by (simp add: bindE_def)
    moreover have "sends [?sha] s s4" using reported_trans [OF s3 q] Inr by simp
    ultimately have "r = Inr () \<and> job_started msg worktree [?sha] s s'"
      using register_job_run by (metis fst_conv snd_conv)
    then show ?thesis by auto
  qed
qed

section \<open>A whole job\<close>

text \<open>The slots after the deferred function, and the READY frames it sends.\<close>

definition readies :: "nat \<Rightarrow> envelope list" where
  "readies k = replicate k (Ready [] 1)"

definition free_slots :: "agent \<Rightarrow> int" where
  "free_slots s = max 0 (limit s - inFlight s)"

text \<open>The agent announces its slots, and every announcement is taken.\<close>

definition takes_ready :: "agent \<Rightarrow> bool" where
  "takes_ready s \<longleftrightarrow> online s \<and> has_ready s \<and> \<not> a_paused s \<and> (\<forall>m. \<exists>x. answers (env s) m (Frame (Ready [] 1)) = Inr x)"

definition released :: "JobAssignData \<Rightarrow> agent \<Rightarrow> agent" where
  "released msg s = s\<lparr>building := removeAll (ja_preview msg) (building s), inFlight := inFlight s - 1\<rparr>"

lemma end_job_run:
  "fst (end_job msg worktree s) = Inr () \<and>
   (\<exists>k. sends (readies k) (released msg s) (snd (end_job msg worktree s)) \<and>
      int k \<le> free_slots (released msg s) \<and>
      (takes_ready s \<longrightarrow> int k = free_slots (released msg s)))"
proof -
  let ?t = "released msg s"
  define clean_up where "clean_up = (worktree \<noteq> [] \<and> map_of (jobs s) (ja_preview msg) = None)"
  define u where "u = (if clean_up then snd (Remove (ja_url msg) (ja_preview msg) ?t) else ?t)"
  have run: "end_job msg worktree s = maybeSendReady u"
    by (auto simp: end_job_def Let_def released_def u_def clean_up_def)
  have "quiet ?t u" unfolding u_def using quiet_cache_ops(3) by (auto dest: obeys_apply)
  then have tu: "sends [] ?t u" "limit u = limit ?t" by (simp_all add: quiet_def limit_def)
  then have same: "inFlight u = inFlight ?t" "online u = online s" "has_ready u = has_ready s"
      "a_paused u = a_paused s" "env u = env s"
    by (simp_all add: sends_def same_jobs_def released_def)
  have total: "fst (send_readies n x) = Inr ()" for n x
    by (induction n arbitrary: x) (auto split: sum.split)
  have "fst (maybeSendReady u) = Inr ()" by (simp add: maybeSendReady_def total)
  moreover from maybeSendReady_sends [of u] obtain k where k: "sends (readies k) u (snd (maybeSendReady u))"
      "int k \<le> max 0 (limit ?t - inFlight ?t)"
      "takes_ready s \<longrightarrow> int k = max 0 (limit ?t - inFlight ?t)"
    unfolding same tu(2) readies_def takes_ready_def by blast
  moreover have "sends (readies k) ?t (snd (maybeSendReady u))"
    using sends_trans [OF tu(1) k(1)] by simp
  ultimately show ?thesis unfolding run free_slots_def by blast
qed

lemma begin_end:
  assumes "pid = ja_preview msg"
  shows "released msg (begin_job pid s) = s\<lparr>building := removeAll pid (building s)\<rparr>"
  using assms by (simp add: released_def begin_job_def)

lemma begin_job_jobs: "begin_job pid (s\<lparr>jobs := J\<rparr>) = (begin_job pid s)\<lparr>jobs := J\<rparr>"
  by (cases s) (simp add: begin_job_def)

lemma end_after:
  assumes "sends fs (begin_job (ja_preview msg) s) t"
  shows "\<exists>k. sends (fs @ readies k) (s\<lparr>building := removeAll (ja_preview msg) (building s)\<rparr>) (snd (end_job msg worktree t)) \<and>
    int k \<le> free_slots s \<and>
    (takes_ready s \<longrightarrow> int k = free_slots s)"
proof -
  let ?s = "s\<lparr>building := removeAll (ja_preview msg) (building s)\<rparr>"
  have "limit (released msg t) = limit t" by (simp add: limit_def released_def)
  with assms have free: "free_slots (released msg t) = free_slots s"
      and same: "online t = online s" "has_ready t = has_ready s" "a_paused t = a_paused s" "env t = env s"
    by (simp_all add: sends_def same_jobs_def begin_job_def released_def free_slots_def)
  then have ready: "takes_ready t = takes_ready s" by (simp add: takes_ready_def)
  have "sends fs ?s (released msg t)"
    using assms by (auto simp: sends_def same_jobs_def begin_job_def released_def frames_def)
  with end_job_run [of msg worktree t] sends_trans show ?thesis unfolding free ready by blast
qed

text \<open>
  The frames and the state after a job the agent accepts: first the report that the checkout
  starts; then either the failure, with or without a second building report before it, and the
  jobs as they were; or the second building report, the registration and the running report;
  then the READY frames.
\<close>

definition job_outcome :: "JobAssignData \<Rightarrow> string + unit \<Rightarrow> envelope list \<Rightarrow> agent \<Rightarrow> agent \<Rightarrow> bool" where
  "job_outcome msg r rs s s' \<longleftrightarrow>
     (let pid = ja_preview msg; b = StatusUpdate (building_report pid) in
      case r of
        Inl e \<Rightarrow> \<exists>reason shas. length shas \<le> 1 \<and>
          sends (b # map (\<lambda>sha. StatusUpdate (sha_report pid sha)) shas @ StatusUpdate (failed_report pid reason e) # rs)
            (s\<lparr>building := removeAll pid (building s)\<rparr>) s'
      | Inr _ \<Rightarrow> \<exists>sha worktree cfg files cid.
          sends (b # StatusUpdate (sha_report pid sha) #
                   StatusUpdate (running_report pid cid (advHost s) (traefikPort s)
                     (PreviewURLs pid cfg (advHost s) (traefikPort s))) # rs)
            (s\<lparr>jobs := map_store pid (new_job s msg worktree cid (snd (snd (files :: string \<times> string \<times> string))) (fst files)) (jobs s),
               building := removeAll pid (building s)\<rparr>) s')"

lemma outcome_failed:
  assumes "sends (StatusUpdate (building_report (ja_preview msg)) # map (\<lambda>sha. StatusUpdate (sha_report (ja_preview msg) sha)) shas @
      StatusUpdate (failed_report (ja_preview msg) reason e) # rs)
    (s\<lparr>building := removeAll (ja_preview msg) (building s)\<rparr>) s'" and "length shas \<le> 1"
  shows "job_outcome msg (Inl e) rs s s'"
  unfolding job_outcome_def Let_def sum.case using assms by blast

lemma outcome_running:
  fixes files :: "string \<times> string \<times> string"
  assumes "sends (StatusUpdate (building_report (ja_preview msg)) # StatusUpdate (sha_report (ja_preview msg) sha) #
      StatusUpdate (running_report (ja_preview msg) cid (advHost s) (traefikPort s)
        (PreviewURLs (ja_preview msg) cfg (advHost s) (traefikPort s))) # rs)
    (s\<lparr>jobs := map_store (ja_preview msg) (new_job s msg worktree cid (snd (snd files)) (fst files)) (jobs s),
       building := removeAll (ja_preview msg) (building s)\<rparr>) s'"
  shows "job_outcome msg (Inr u) rs s s'"
  unfolding job_outcome_def Let_def sum.case using assms by blast

lemma handle_job_run:
  assumes "handle_job msg (begin_job (ja_preview msg) s) = (r, s')"
  shows "\<exists>k. job_outcome msg r (readies k) s s' \<and> int k \<le> free_slots s \<and>
    (takes_ready s \<longrightarrow> int k = free_slots s)"
proof -
  let ?pid = "ja_preview msg" and ?b = "StatusUpdate (building_report (ja_preview msg))"
  obtain c t where c: "checkout_job msg (begin_job ?pid s) = (c, t)" by fastforce
  note phase1 = checkout_job_run [OF c]
  show ?thesis
  proof (cases c)
    case (Inl e)
    then have run: "r = Inl e" "s' = snd (end_job msg [] t)"
      using assms c end_job_run [of msg "[]" t]
      by (simp_all add: handle_job_def bindE_def [of "end_job msg []"] split: prod.splits sum.splits)
    from phase1 Inl obtain reason where
      "sends [?b, StatusUpdate (failed_report ?pid reason e)] (begin_job ?pid s) t" by auto
    from end_after [OF this, of "[]"] obtain k where k: "int k \<le> free_slots s" "takes_ready s \<longrightarrow> int k = free_slots s"
        "sends (?b # StatusUpdate (failed_report ?pid reason e) # readies k)
           (s\<lparr>building := removeAll ?pid (building s)\<rparr>) s'"
      unfolding run(2) by auto
    then have "job_outcome msg r (readies k) s s'"
      using outcome_failed [where shas = "[]"] by (simp add: run(1))
    with k show ?thesis by blast
  next
    case (Inr worktree)
    with phase1 have b: "sends [?b] (begin_job ?pid s) t" by simp
    obtain q u where q: "build_job msg worktree t = (q, u)" by fastforce
    then have run: "r = q" "s' = snd (end_job msg worktree u)"
      using assms c Inr end_job_run [of msg worktree u]
      by (simp_all add: handle_job_def bindE_def [of "end_job msg worktree"] split: prod.splits sum.splits)
    from build_job_run [OF q] obtain sha where sha: "case q of
      Inr _ \<Rightarrow> job_started msg worktree [StatusUpdate (sha_report ?pid sha)] t u
    | Inl e \<Rightarrow> \<exists>reason. sends [StatusUpdate (sha_report ?pid sha), StatusUpdate (failed_report ?pid reason e)] t u"
      by blast
    show ?thesis
    proof (cases q)
      case (Inl e)
      with sha obtain reason where
        "sends [StatusUpdate (sha_report ?pid sha), StatusUpdate (failed_report ?pid reason e)] t u" by auto
      from sends_trans [OF b this] have
        "sends [?b, StatusUpdate (sha_report ?pid sha), StatusUpdate (failed_report ?pid reason e)] (begin_job ?pid s) u"
        by simp
      from end_after [OF this, of worktree] obtain k where k: "int k \<le> free_slots s" "takes_ready s \<longrightarrow> int k = free_slots s"
          "sends (?b # StatusUpdate (sha_report ?pid sha) # StatusUpdate (failed_report ?pid reason e) # readies k)
             (s\<lparr>building := removeAll ?pid (building s)\<rparr>) s'"
        unfolding run(2) by auto
      then have "job_outcome msg r (readies k) s s'"
        using outcome_failed [where shas = "[sha]"] by (simp add: run(1) Inl)
      with k show ?thesis by blast
    next
      case (Inr unit)
      with sha obtain cfg cid and files :: "string \<times> string \<times> string" where st:
        "sends ([StatusUpdate (sha_report ?pid sha)] @ [StatusUpdate (running_report ?pid cid (advHost t) (traefikPort t)
             (PreviewURLs ?pid cfg (advHost t) (traefikPort t)))])
           (t\<lparr>jobs := map_store ?pid (new_job t msg worktree cid (snd (snd files)) (fst files)) (jobs t)\<rparr>) u"
        by (auto simp: job_started_def)
      have same: "advHost t = advHost s" "traefikPort t = traefikPort s" "jobs t = jobs s"
        using b by (simp_all add: sends_def same_jobs_def begin_job_def)
      let ?J = "map_store ?pid (new_job s msg worktree cid (snd (snd files)) (fst files)) (jobs s)"
      let ?run = "StatusUpdate (running_report ?pid cid (advHost s) (traefikPort s)
          (PreviewURLs ?pid cfg (advHost s) (traefikPort s)))"
      have st': "sends [StatusUpdate (sha_report ?pid sha), ?run] (t\<lparr>jobs := ?J\<rparr>) u"
        using st by (simp add: same new_job_def)
      have "sends [?b] (begin_job ?pid (s\<lparr>jobs := ?J\<rparr>)) (t\<lparr>jobs := ?J\<rparr>)"
        using sends_jobs [OF b, of ?J] by (simp only: begin_job_jobs)
      from sends_trans [OF this st'] have
        "sends [?b, StatusUpdate (sha_report ?pid sha), ?run] (begin_job ?pid (s\<lparr>jobs := ?J\<rparr>)) u" by simp
      from end_after [OF this, of worktree] obtain k where k: "int k \<le> free_slots s" "takes_ready s \<longrightarrow> int k = free_slots s"
          "sends (?b # StatusUpdate (sha_report ?pid sha) # ?run # readies k)
             (s\<lparr>jobs := ?J, building := removeAll ?pid (building s)\<rparr>) s'"
        unfolding run(2) by (auto simp: free_slots_def takes_ready_def)
      then have "job_outcome msg r (readies k) s s'"
        unfolding run(1) Inr by (intro outcome_running)
      with k show ?thesis by blast
    qed
  qed
qed

lemma Handle_run:
  assumes "\<not> a_paused s" and "Handle msg s = (r, s')"
  shows "\<exists>k. job_outcome msg r (readies k) s s' \<and> int k \<le> free_slots s \<and> (takes_ready s \<longrightarrow> int k = free_slots s)"
  using assms by (intro handle_job_run) (simp add: Handle_def)

lemma Handle_paused:
  assumes "a_paused s"
  shows "fst (Handle msg s) = Inr ()"
    "sends [StatusUpdate (failed_report (ja_preview msg) ''agent shutting down'' ''agent shutting down'')] s (snd (Handle msg s))"
  using assms report_sends by (simp_all add: Handle_def)

section \<open>A teardown\<close>

lemma quiet_stop_job [quiet_rules]: "obeys quiet (stop_job pid job)"
  unfolding stop_job_def by (intro quiet_rules quiet_perform) simp_all

lemma delete_absent: "map_of m k = None \<Longrightarrow> map_delete k m = m"
  by (induction m) (auto simp: map_delete_def split: if_splits)

text \<open>The job is forgotten and the preview reported as done, whatever fails on the way.\<close>

lemma Teardown_run:
  assumes "Teardown pid s = (r, s')"
  shows "sends [StatusUpdate (done_report pid)] (s\<lparr>jobs := map_delete pid (jobs s)\<rparr>) s'"
proof (cases "map_of (jobs s) pid")
  case None
  then have "s' = snd (SendStatusUpdate (done_report pid) s)" using assms by (simp add: Teardown_def logged_def)
  then show ?thesis using report_sends [of "done_report pid" s] None by (simp add: delete_absent)
next
  case (Some job)
  define rm :: "unit run" where "rm = (if jb_repo job \<noteq> [] then logged (Remove (jb_repo job) pid) else ret ())"
  define t where "t = snd (rm (snd (stop_job pid job s)))"
  have total: "fst (stop_job pid job x) = Inr ()" for x by (simp add: stop_job_def)
  have "quiet s (snd (stop_job pid job s))" by (rule obeys_apply) (rule quiet_stop_job)
  moreover have "obeys quiet rm" unfolding rm_def by (intro quiet_rules)
  ultimately have "quiet s t" unfolding t_def by (metis obeys_apply quiet.trans)
  then have "sends [] s t" by (simp add: quiet_def)
  from sends_jobs [OF this] have t: "sends [] (s\<lparr>jobs := map_delete pid (jobs s)\<rparr>) (t\<lparr>jobs := map_delete pid (jobs s)\<rparr>)"
      "jobs t = jobs s" using \<open>sends [] s t\<close> by (simp_all add: sends_def same_jobs_def)
  have total2: "fst (rm x) = Inr ()" for x by (simp add: rm_def)
  have "Teardown pid s = wrap ''runner.Teardown: send done'' (SendStatusUpdate (done_report pid)) (t\<lparr>jobs := map_delete pid (jobs t)\<rparr>)"
    unfolding Teardown_def bindE_reads Some option.case rm_def [symmetric] bindE_total [OF total] bindE_total [OF total2] t_def ..
  with assms have "s' = snd (wrap ''runner.Teardown: send done'' (SendStatusUpdate (done_report pid)) (t\<lparr>jobs := map_delete pid (jobs t)\<rparr>))"
    by simp
  then have "s' = snd (SendStatusUpdate (done_report pid) (t\<lparr>jobs := map_delete pid (jobs t)\<rparr>))"
    by (simp add: wrap_def catchE_def split: prod.split sum.split)
  with sends_trans [OF t(1) report_sends] t(2) show ?thesis by simp
qed

section \<open>Files\<close>

text \<open>Programs whose writes stay inside the worktree of the preview.\<close>

lemma checkout_path:
  assumes "Checkout url pid sha branch s = (Inr path, s')" and "files_ok s" and "url_ok url" and "CHR ''/'' \<notin> set pid"
  shows "worktree_dir (workDir s) (RepoSlug url) pid path"
proof -
  obtain r1 s1 where get: "(getOrCreate url :: RepoCache run) s = (r1, s1)" by fastforce
  from assms(2) have ok: "caches_ok s" "workDir s \<noteq> []" by (simp_all add: files_ok_def)
  from getOrCreate_run [OF get ok(1)] obtain c where c: "r1 = Inr c" "cache_of (workDir s) url c" by metis
  with get assms(1) have "rc_Checkout c pid sha branch s1 = (Inr path, s')"
    by (simp add: Checkout_def bindE_def)
  then have "path = worktreePath c pid"
    by (auto simp: rc_Checkout_def Let_def bindE_Inr)
  with cache_dir [OF c(2) assms(3) ok(2) assms(4)] show ?thesis by simp
qed

lemma obeys_tidy_emits: "(\<And>wd. obeys (emits (confined wd ids)) m) \<Longrightarrow> obeys (tidy ids) m"
  by (rule tidy_of_emits)

lemma confined_report [emit_rules]:
  "obeys (emits (confined wd ids)) (SendStatusUpdate d)"
  by (rule emits_SendStatusUpdate) simp

lemma confined_fail [emit_rules]: "obeys (emits (confined wd ids)) (fail pid reason cause)"
  unfolding fail_def Let_def by (intro emit_rules)

lemma confined_or_fail [emit_rules]:
  "obeys (emits (confined wd ids)) m \<Longrightarrow> obeys (emits (confined wd ids)) (or_fail pid reason m)"
  unfolding or_fail_def by (intro emit_rules)

lemma confined_dotenv:
  assumes "worktree_dir wd slug pid worktree" and "ids pid"
  shows "obeys (emits (confined wd ids)) (WriteDotenv (path_join [worktree, ''.env'']) vars)"
proof -
  have "inside wd pid (path_join [worktree, ''.env''])"
    by (rule inside_join [OF assms(1)]) (simp add: plain_name_def)
  then show ?thesis unfolding WriteDotenv_def
    by (intro emit_rules emits_perform) (use assms(2) in auto)
qed

lemma confined_override:
  assumes "worktree_dir wd slug pid worktree"
  shows "inside wd pid (override_path worktree pid)"
  unfolding override_path_def
  by (rule inside_join [OF assms]) (use assms in \<open>auto simp: plain_name_def worktree_dir_def\<close>)

lemma confined_builds:
  assumes "worktree_dir wd slug pid worktree" and "ids pid"
  shows "obeys (emits (confined wd ids)) (prepare_job pid worktree)"
  unfolding prepare_job_def load_config_def build_def handleCompose_def handleDockerfile_def ComposeOverrideYAML_def
  by (intro emit_rules emits_perform)
    (use assms confined_override in \<open>auto split: config_error.split intro!: emit_rules job_commands
      simp: projectName_def preview_options_def\<close>)

end
