(* ===== verification/RunnerFiles.thy ===== *)
theory RunnerFiles
  imports RunnerLaws
begin

text \<open>
  The files a job touches: handling an assignment or a teardown deletes and writes nothing
  outside the worktree of the preview it names, and keeps what the agent knows of its files.
\<close>

section \<open>The contract below a known work directory\<close>

definition tidy_in :: "string \<Rightarrow> (string \<Rightarrow> bool) \<Rightarrow> agent \<Rightarrow> agent \<Rightarrow> bool" where
  "tidy_in wd ids s s' \<longleftrightarrow> (workDir s = wd \<longrightarrow> tidy ids s s')"

interpretation tidy_in: contract "tidy_in wd ids" for wd ids
proof
  show "tidy_in wd ids s s" for s by (simp add: tidy_in_def)
next
  fix s t u assume st: "tidy_in wd ids s t" and tu: "tidy_in wd ids t u"
  show "tidy_in wd ids s u" unfolding tidy_in_def
  proof
    assume wd: "workDir s = wd"
    show "tidy ids s u"
    proof (cases "files_ok s")
      case True
      with st wd have "workDir t = wd" by (simp add: tidy_in_def tidy_def)
      with st tu wd show ?thesis by (auto simp: tidy_in_def intro: tidy_trans)
    next
      case False
      then show ?thesis by (simp add: tidy_def)
    qed
  qed
qed

lemma tidy_in_of_emits: "obeys (emits (confined wd ids)) m \<Longrightarrow> obeys (tidy_in wd ids) m"
  by (auto simp: obeys_def emits_def tidy_in_def tidy_def files_ok_def caches_ok_def)

lemma tidy_in_of_tidy: "obeys (tidy ids) m \<Longrightarrow> obeys (tidy_in wd ids) m"
  by (simp add: obeys_def tidy_in_def)

lemma tidy_of_tidy_in: "(\<And>wd. obeys (tidy_in wd ids) m) \<Longrightarrow> obeys (tidy ids) m"
  by (auto simp: obeys_def tidy_in_def)

named_theorems tidy_in_rules "programs confined to the worktrees below a known directory"

lemmas [tidy_in_rules] = tidy_in.rules obeys_cases obeys_attempt obeys_logged

lemma tidy_in_modify:
  assumes "\<And>s. workDir s = wd \<Longrightarrow> files_ok s \<Longrightarrow> files_ok (f s) \<and> workDir (f s) = wd \<and> trace (f s) = trace s"
  shows "obeys (tidy_in wd ids) (modify f)"
  using assms by (auto simp: obeys_def tidy_in_def tidy_def modify_def)

lemma tidy_in_gets [tidy_in_rules]: "obeys (tidy_in wd ids) (gets f)"
  by (simp add: obeys_def gets_def)

lemma tidy_in_report [tidy_in_rules]: "obeys (tidy_in wd ids) (SendStatusUpdate d)"
  by (rule tidy_in_of_emits) (rule confined_report)

text \<open>A step that is only reached with a result of the one before.\<close>

lemma tidy_in_after:
  assumes "obeys (tidy_in wd ids) m"
    and "\<And>s x s'. workDir s = wd \<Longrightarrow> files_ok s \<Longrightarrow> m s = (Inr x, s') \<Longrightarrow> obeys (tidy_in wd ids) (k x)"
  shows "obeys (tidy_in wd ids) (bindE m k)"
proof (rule obeysI)
  fix s r u assume run: "bindE m k s = (r, u)"
  show "tidy_in wd ids s u"
  proof (cases "workDir s = wd \<and> files_ok s")
    case True
    obtain q t where m: "m s = (q, t)" by fastforce
    then have st: "tidy_in wd ids s t" using assms(1) by (metis obeysD)
    show ?thesis
    proof (cases q)
      case (Inl e)
      with run m st show ?thesis by (simp add: bindE_def)
    next
      case (Inr x)
      with run m have "k x t = (r, u)" by (simp add: bindE_def)
      moreover have "obeys (tidy_in wd ids) (k x)" using assms(2) [of s x t] True m Inr by blast
      ultimately have "tidy_in wd ids t u" by (metis obeysD)
      with st show ?thesis by (rule tidy_in.trans)
    qed
  next
    case False
    then show ?thesis by (auto simp: tidy_in_def tidy_def)
  qed
qed

section \<open>Handling an assignment\<close>

lemma tidy_in_fail [tidy_in_rules]: "obeys (tidy_in wd ids) (fail pid reason cause)"
  unfolding fail_def Let_def by (intro tidy_in_rules)

lemma tidy_in_or_fail [tidy_in_rules]:
  "obeys (tidy_in wd ids) m \<Longrightarrow> obeys (tidy_in wd ids) (or_fail pid reason m)"
  unfolding or_fail_def by (intro tidy_in_rules)

lemma tidy_in_cache [tidy_in_rules]:
  "url_ok url \<Longrightarrow> CHR ''/'' \<notin> set pid \<Longrightarrow> ids pid \<Longrightarrow> obeys (tidy_in wd ids) (Checkout url pid sha branch)"
  "url_ok url \<Longrightarrow> CHR ''/'' \<notin> set pid \<Longrightarrow> ids pid \<Longrightarrow> obeys (tidy_in wd ids) (Remove url pid)"
  "url_ok url \<Longrightarrow> obeys (tidy_in wd ids) (Ensure url)"
  by (rule tidy_in_of_tidy, rule tidy_cache_ops tidy_Ensure; assumption?)+

lemma tidy_in_checkout_job:
  assumes "url_ok (ja_url msg)" and "CHR ''/'' \<notin> set (ja_preview msg)" and "ids (ja_preview msg)"
  shows "obeys (tidy_in wd ids) (checkout_job msg)"
  unfolding checkout_job_def Let_def by (intro tidy_in_rules assms)

lemma tidy_in_readies [tidy_in_rules]: "obeys (tidy_in wd ids) (send_readies n)"
proof (induction n)
  case (Suc n)
  have "obeys (tidy_in wd ids) SendReady" by (rule tidy_in_of_emits) (rule emits_SendReady, simp)
  with Suc show ?case unfolding send_readies.simps by (intro tidy_in_rules)
qed (simp only: send_readies.simps tidy_in.ret)

lemma tidy_in_maybeSendReady [tidy_in_rules]: "obeys (tidy_in wd ids) maybeSendReady"
  unfolding maybeSendReady_def
  by (intro tidy_in_rules tidy_in_modify) (simp add: files_ok_def caches_ok_def)

lemma tidy_in_end_job:
  assumes "url_ok (ja_url msg)" and "CHR ''/'' \<notin> set (ja_preview msg)" and "ids (ja_preview msg)"
  shows "obeys (tidy_in wd ids) (end_job msg worktree)"
  unfolding end_job_def Let_def
  by (intro tidy_in_rules assms tidy_in_modify) (simp add: files_ok_def caches_ok_def)

lemma files_ok_store:
  assumes "files_ok s" and "job_ok (workDir s) pid j"
  shows "files_ok (s\<lparr>jobs := map_store pid j (jobs s)\<rparr>)"
  using assms by (auto simp: files_ok_def caches_ok_def map_store_def)

lemma files_ok_delete: "files_ok s \<Longrightarrow> files_ok (s\<lparr>jobs := map_delete pid (jobs s)\<rparr>)"
  by (auto simp: files_ok_def caches_ok_def map_delete_def)

lemma tidy_in_build_job:
  assumes url: "url_ok (ja_url msg)" and pid: "CHR ''/'' \<notin> set (ja_preview msg)" "ids (ja_preview msg)"
    and dir: "worktree_dir wd slug (ja_preview msg) worktree"
  shows "obeys (tidy_in wd ids) (build_job msg worktree)"
proof -
  have reg: "obeys (tidy_in wd ids) (register_job msg worktree x)" for x
    unfolding register_job_def
    by (intro tidy_in_rules tidy_in_modify)
      (use url pid dir in \<open>auto intro!: files_ok_store simp: job_ok_def new_job_def\<close>)
  have head: "obeys (emits (confined wd ids)) (resolve_head worktree)"
    unfolding resolve_head_def by (intro emit_rules emits_perform) simp
  have dotenv: "obeys (emits (confined wd ids)) (WriteDotenv (path_join [worktree, ''.env'']) (ja_env msg))"
    by (rule confined_dotenv) (rule dir, rule pid)
  have prepare: "obeys (emits (confined wd ids)) (prepare_job (ja_preview msg) worktree)"
    by (rule confined_builds) (rule dir, rule pid)
  show ?thesis unfolding build_job_split
    by (intro tidy_in_rules reg tidy_in_of_emits [OF dotenv] tidy_in_of_emits [OF head] tidy_in_of_emits [OF prepare])
qed

lemma or_fail_Inr: "or_fail pid reason m s = (Inr x, s') \<longleftrightarrow> m s = (Inr x, s')"
  by (auto simp: or_fail_def catchE_Inr fail_run)

lemma checkout_job_worktree:
  assumes "checkout_job msg s = (Inr worktree, s')" and ok: "files_ok s"
    and url: "url_ok (ja_url msg)" and pid: "CHR ''/'' \<notin> set (ja_preview msg)"
  shows "worktree_dir (workDir s) (RepoSlug (ja_url msg)) (ja_preview msg) worktree"
proof -
  define t where "t = snd (SendStatusUpdate (building_report (ja_preview msg)) s)"
  obtain x u where ensure: "Ensure (ja_url msg) t = (Inr x, u)"
      and checkout: "Checkout (ja_url msg) (ja_preview msg) (ja_sha msg) (ja_branch msg) u = (Inr worktree, s')"
    using assms(1) by (auto simp: checkout_job_def Let_def t_def [symmetric] fail_run bindE_Inr or_fail_Inr split: if_splits)
  have "tidy_in (workDir s) (\<lambda>_. True) s t" unfolding t_def by (rule obeys_apply) (rule tidy_in_report)
  moreover have "tidy_in (workDir s) (\<lambda>_. True) t u" using ensure tidy_in_cache(3) [OF url] by (metis obeysD)
  ultimately have "tidy_in (workDir s) (\<lambda>_. True) s u" by (rule tidy_in.trans)
  then have "files_ok u" "workDir u = workDir s" using ok by (simp_all add: tidy_in_def tidy_def)
  with checkout_path [OF checkout _ url pid] show ?thesis by simp
qed

lemma tidy_in_handle_job:
  assumes url: "url_ok (ja_url msg)" and pid: "CHR ''/'' \<notin> set (ja_preview msg)" "ids (ja_preview msg)"
  shows "obeys (tidy_in wd ids) (handle_job msg)"
  unfolding handle_job_def
proof (rule tidy_in_after)
  show "obeys (tidy_in wd ids) (attempt (checkout_job msg))"
    by (intro obeys_attempt tidy_in_checkout_job assms)
next
  fix s c s' assume wd: "workDir s = wd" and ok: "files_ok s" and run: "attempt (checkout_job msg) s = (Inr c, s')"
  have fin: "obeys (tidy_in wd ids) (end_job msg w)" for w by (intro tidy_in_end_job assms)
  show "obeys (tidy_in wd ids) (case c of
       Inl e \<Rightarrow> bindE (end_job msg []) (\<lambda>_. throw e)
     | Inr worktree \<Rightarrow> bindE (attempt (build_job msg worktree)) (\<lambda>r. bindE (end_job msg worktree) (\<lambda>_. lift_result r)))"
  proof (cases c)
    case (Inl e)
    then show ?thesis by (simp add: tidy_in.bindE fin tidy_in.throw)
  next
    case (Inr worktree)
    with run have "checkout_job msg s = (Inr worktree, s')" by (simp add: attempt_Inr)
    then have "worktree_dir wd (RepoSlug (ja_url msg)) (ja_preview msg) worktree"
      using checkout_job_worktree ok url pid(1) wd by metis
    then have "obeys (tidy_in wd ids) (build_job msg worktree)"
      by (rule tidy_in_build_job [of msg ids wd, OF assms])
    with fin show ?thesis
      unfolding Inr sum.case by (intro tidy_in_rules)
  qed
qed

lemma tidy_Handle:
  assumes "url_ok (ja_url msg)" and "CHR ''/'' \<notin> set (ja_preview msg)" and "ids (ja_preview msg)"
  shows "obeys (tidy ids) (Handle msg)"
proof (rule tidy_of_tidy_in)
  fix wd
  show "obeys (tidy_in wd ids) (Handle msg)" unfolding Handle_def
    by (intro tidy_in_rules tidy_in_handle_job assms tidy_in_modify)
      (simp add: files_ok_def caches_ok_def begin_job_def)
qed

section \<open>Handling a teardown\<close>

lemma tidy_Teardown:
  assumes "ids pid"
  shows "obeys (tidy ids) (Teardown pid)"
proof (rule tidy_of_tidy_in)
  fix wd
  have stop: "obeys (tidy_in wd ids) (stop_job pid job)" if "job_ok wd pid job" for job
  proof -
    have "confined wd ids (RemoveFile (override_path (jb_worktree job) pid))" if "jb_mode job = buildModeCompose"
      using confined_override assms that \<open>job_ok wd pid job\<close> by (auto simp: job_ok_def)
    moreover have "confined wd ids (Exec [''docker'', ''compose'', ''--project-name'', projectName pid, ''down''])"
      using assms by (simp add: projectName_def job_commands)
    ultimately show ?thesis unfolding stop_job_def
      by (auto intro!: tidy_in_rules tidy_in_of_emits [OF emits_perform] simp del: confined.simps(4))
  qed
  have del: "obeys (tidy_in wd ids) (modify (\<lambda>s. s\<lparr>jobs := map_delete pid (jobs s)\<rparr>))"
    by (rule tidy_in_modify) (simp add: files_ok_delete)
  show "obeys (tidy_in wd ids) (Teardown pid)" unfolding Teardown_def
  proof (rule tidy_in_after)
    show "obeys (tidy_in wd ids) (gets (\<lambda>s. map_of (jobs s) pid))" by (rule tidy_in_gets)
  next
    fix s j s' assume wd: "workDir s = wd" and ok: "files_ok s" and "gets (\<lambda>s. map_of (jobs s) pid) s = (Inr j, s')"
    then have j: "j = map_of (jobs s) pid" unfolding gets_def by blast
    show "obeys (tidy_in wd ids) (case j of
        None \<Rightarrow> logged (SendStatusUpdate (done_report pid))
      | Some job \<Rightarrow>
          bindE (stop_job pid job) (\<lambda>_.
          bindE (if jb_repo job \<noteq> [] then logged (Remove (jb_repo job) pid) else ret ()) (\<lambda>_.
          bindE (modify (\<lambda>s. s\<lparr>jobs := map_delete pid (jobs s)\<rparr>)) (\<lambda>_.
          wrap ''runner.Teardown: send done'' (SendStatusUpdate (done_report pid))))))"
    proof (cases j)
      case None
      then show ?thesis by (simp add: tidy_in_rules obeys_logged tidy_in_report)
    next
      case (Some job)
      with j have "(pid, job) \<in> set (jobs s)" by (metis map_of_SomeD)
      with ok wd have job: "job_ok wd pid job" by (auto simp: files_ok_def)
      then have "jb_repo job \<noteq> [] \<Longrightarrow> obeys (tidy_in wd ids) (Remove (jb_repo job) pid)"
        using assms by (intro tidy_in_cache) (auto simp: job_ok_def)
      then have "obeys (tidy_in wd ids) (if jb_repo job \<noteq> [] then logged (Remove (jb_repo job) pid) else ret ())"
        by (auto intro: tidy_in_rules)
      from this stop [OF job] del show ?thesis
        unfolding Some option.case
        by (intro tidy_in.bindE obeys_wrap [OF tidy_in.contract_axioms] tidy_in_report)
    qed
  qed
qed

end
