(* ===== verification/Orphans.thy ===== *)
theory Orphans
  imports RunnerFiles
begin

text \<open>
  internal/agent/orphan_restore.go and compose_orphan.go: what a starting agent takes over from
  the one before it, and what it clears away.
\<close>

section \<open>Restoring containers\<close>

definition hub_label :: string where
  "hub_label = ''hub-preview-id''"

definition own_preview :: "ContainerSummary \<Rightarrow> string option" where
  "own_preview c = (case map_of (cs_labels c) hub_label of
     None \<Rightarrow> None
   | Some pid \<Rightarrow> if pid = [] then None else Some pid)"

fun restore_each :: "string \<Rightarrow> ContainerSummary list \<Rightarrow> string list run" where
  "restore_each adv [] = ret []"
| "restore_each adv (c # cs) =
     (case own_preview c of
        None \<Rightarrow> restore_each adv cs
      | Some pid \<Rightarrow>
          bindE (observe (\<lambda>e n. inspect_at e n (cs_id c))) (\<lambda>r.
          bindE (modify (RegisterRestoredJob pid (cs_id c) (if adv = [] then ''127.0.0.1'' else adv)
                   (case r of Inl _ \<Rightarrow> 0 | Inr insp \<Rightarrow> in_host_port insp))) (\<lambda>_.
          bindE (restore_each adv cs) (\<lambda>rest. ret (pid # rest)))))"

definition RestoreOrphans :: "string \<Rightarrow> (docker_err + string list) run" where
  "RestoreOrphans adv =
     bindE (observe (\<lambda>e n. list_at e n hub_label)) (\<lambda>r.
       case r of
         Inl e \<Rightarrow> ret (Inl e)
       | Inr cs \<Rightarrow> bindE (restore_each adv cs) (\<lambda>ids. ret (Inr ids)))"

section \<open>Compose projects without a job\<close>

definition parseComposeLs :: "(string \<Rightarrow> string + string list) \<Rightarrow> string \<Rightarrow> string + string list" where
  "parseComposeLs json out =
     (let t = trim_space out in if t = [] \<or> t = ''[]'' then Inr [] else json t)"

definition compose_down :: "string \<Rightarrow> effect" where
  "compose_down project = Exec [''docker'', ''compose'', ''--project-name'', project, ''down'']"

text \<open>The loop over the projects: how many were taken down, and the first error.\<close>

fun down_each :: "string list \<Rightarrow> nat \<times> string option \<Rightarrow> string list \<Rightarrow> (nat \<times> string option) run" where
  "down_each active acc [] = ret acc"
| "down_each active acc (p # ps) =
     (if \<not> has_prefix p ''preview-'' \<or> p \<in> set active then down_each active acc ps
      else bindE (attempt (perform (compose_down p))) (\<lambda>r.
        down_each active
          (case r of
             Inl e \<Rightarrow> (fst acc, if snd acc = None then Some e else snd acc)
           | Inr _ \<Rightarrow> (Suc (fst acc), snd acc)) ps))"

definition PruneComposeOrphans :: "(nat \<times> string option) run" where
  "PruneComposeOrphans =
     bindE (attempt (perform (Output [''docker'', ''compose'', ''ls'', ''--format'', ''json'']))) (\<lambda>o'.
       case o' of
         Inl e \<Rightarrow> ret (0, Some (''compose ls: '' @ e))
       | Inr out \<Rightarrow>
           bindE (observe (\<lambda>e n. parseComposeLs (compose_json e) out)) (\<lambda>ps.
             case ps of
               Inl e \<Rightarrow> ret (0, Some (''parse compose ls: '' @ e))
             | Inr projects \<Rightarrow>
                 bindE RunningPreviewIDs (\<lambda>ids.
                   down_each (map projectName ids) (0, None) projects)))"

section \<open>What is restored\<close>

text \<open>
  Nothing but jobs is added: one for each of the ids, each a container without a repository.
\<close>

definition restored :: "string list \<Rightarrow> agent \<Rightarrow> agent \<Rightarrow> bool" where
  "restored ids s s' \<longleftrightarrow> quiet s (s'\<lparr>jobs := jobs s\<rparr>) \<and> trace s' = trace s \<and> repos s' = repos s \<and>
     (\<forall>pid. map_of (jobs s') pid \<noteq> None \<longleftrightarrow> map_of (jobs s) pid \<noteq> None \<or> pid \<in> set ids) \<and>
     (\<forall>(pid, j) \<in> set (jobs s'). (pid, j) \<in> set (jobs s) \<or> jb_mode j = buildModeDockerfile \<and> jb_repo j = [])"

lemma restored_Nil: "restored [] s (s\<lparr>moment := Suc (moment s)\<rparr>)" "restored [] s s"
  by (auto simp: restored_def quiet_def sends_def same_jobs_def frames_def)

lemma restored_trans:
  assumes "restored a s t" and "restored b t u"
  shows "restored (a @ b) s u"
proof -
  have "quiet s (u\<lparr>jobs := jobs s\<rparr>)"
    using assms by (simp add: restored_def quiet_def sends_def same_jobs_def frames_def)
  with assms show ?thesis unfolding restored_def by (auto simp del: not_None_eq)
qed

lemma restored_register:
  "restored [pid] s (RegisterRestoredJob pid cid host port s)"
  by (auto simp: restored_def RegisterRestoredJob_def quiet_def sends_def same_jobs_def frames_def map_store_def map_of_delete)

lemma restore_each_run:
  "\<exists>s'. restore_each adv cs s = (Inr (List.map_filter own_preview cs), s') \<and>
     restored (List.map_filter own_preview cs) s s'"
proof (induction cs arbitrary: s)
  case Nil
  then show ?case by (simp add: map_filter_def restored_Nil)
next
  case (Cons c cs)
  show ?case
  proof (cases "own_preview c")
    case None
    with Cons show ?thesis by (simp add: map_filter_def)
  next
    case (Some pid)
    define t where "t = RegisterRestoredJob pid (cs_id c) (if adv = [] then ''127.0.0.1'' else adv)
        (case inspect_at (env s) (moment s) (cs_id c) of Inl _ \<Rightarrow> 0 | Inr insp \<Rightarrow> in_host_port insp)
        (s\<lparr>moment := Suc (moment s)\<rparr>)"
    have st: "restored [pid] s t"
      using restored_trans [OF restored_Nil(1) restored_register] unfolding t_def by simp
    from Cons.IH [of t] obtain u where u: "restore_each adv cs t = (Inr (List.map_filter own_preview cs), u)"
        "restored (List.map_filter own_preview cs) t u" by blast
    then have "restore_each adv (c # cs) s = (Inr (pid # List.map_filter own_preview cs), u)"
      using Some by (simp add: t_def bindE_def [of "restore_each adv cs"])
    with restored_trans [OF st u(2)] Some show ?thesis by (simp add: map_filter_def)
  qed
qed

lemma RestoreOrphans_run:
  "\<exists>s'. RestoreOrphans adv s = (Inr (map_sum id (List.map_filter own_preview) (list_at (env s) (moment s) hub_label)), s')
     \<and> restored (case list_at (env s) (moment s) hub_label of Inl _ \<Rightarrow> [] | Inr cs \<Rightarrow> List.map_filter own_preview cs) s s'"
proof (cases "list_at (env s) (moment s) hub_label")
  case (Inl e)
  then show ?thesis by (simp add: RestoreOrphans_def restored_Nil)
next
  case (Inr cs)
  obtain u where "restore_each adv cs (s\<lparr>moment := Suc (moment s)\<rparr>) = (Inr (List.map_filter own_preview cs), u)"
      "restored (List.map_filter own_preview cs) (s\<lparr>moment := Suc (moment s)\<rparr>) u"
    using restore_each_run by blast
  with restored_trans [OF restored_Nil(1) this(2)] Inr show ?thesis
    by (simp add: RestoreOrphans_def bindE_def [of "restore_each adv cs"])
qed

section \<open>What is taken down\<close>

text \<open>Only projects of previews without a job are taken down.\<close>

fun spares :: "string list \<Rightarrow> effect \<Rightarrow> bool" where
  "spares ids (Exec args) \<longleftrightarrow> (\<forall>pid \<in> set ids. Exec args \<noteq> compose_down (projectName pid)) \<and>
     (\<exists>p. Exec args = compose_down p \<and> has_prefix p ''preview-'')"
| "spares ids (Output args) \<longleftrightarrow> True"
| "spares ids _ \<longleftrightarrow> False"

lemma down_each_spares: "obeys (emits (spares ids)) (down_each (map projectName ids) acc ps)"
proof (induction ps arbitrary: acc)
  case (Cons p ps)
  have "obeys (emits (spares ids)) (perform (compose_down p))"
    if "has_prefix p ''preview-''" and "p \<notin> set (map projectName ids)"
    by (rule emits_perform) (use that in \<open>auto simp: compose_down_def\<close>)
  then show ?case
    by (simp only: down_each.simps split: if_split)
      (intro conjI impI Cons.IH emit.bindE obeys_attempt; blast)
qed (simp only: down_each.simps emit.ret)

lemma PruneComposeOrphans_spares:
  assumes "PruneComposeOrphans s = (r, s')"
  shows "emits (spares (listed_ids s)) s s'"
proof -
  let ?ls = "Output [''docker'', ''compose'', ''ls'', ''--format'', ''json'']" and ?ids = "listed_ids s"
  define t where "t = s\<lparr>trace := trace s @ [?ls], moment := Suc (moment s)\<rparr>"
  define u where "u = t\<lparr>moment := Suc (moment t)\<rparr>"
  have st: "emits (spares ?ids) s t" and su: "emits (spares ?ids) s u" by (auto simp: emits_def t_def u_def)
  have ids: "listed_ids u = ?ids" by (simp add: listed_ids_def t_def u_def)
  have t: "(perform ?ls :: string run) s = (answers (env s) (moment s) ?ls, t)" by (simp add: perform_def t_def)
  consider "s' = t" | "s' = u" | ps where "down_each (map projectName ?ids) (0, None) ps u = (r, s')"
    using assms by (auto simp: PruneComposeOrphans_def t u_def [symmetric] ids split: sum.splits)
  then show ?thesis
  proof cases
    case (3 ps)
    then have "emits (spares ?ids) u s'" by (rule obeysD [OF down_each_spares])
    with su show ?thesis by (rule emits_trans)
  qed (use st su in simp_all)
qed

end
