(* ===== verification/Traefik.thy ===== *)
theory Traefik
  imports AgentWorld
begin

text \<open>
  internal/agent/traefik.go: the network of the previews and the Traefik container, created
  when missing and replaced when its specification changed. SHA-256 is an argument.
\<close>

section \<open>The specification\<close>

record TraefikSpec =
  ts_image :: string
  ts_port :: int
  ts_api :: int
  ts_network :: string
  ts_container :: string

definition traefikSpecLabel :: string where
  "traefikSpecLabel = ''preview.traefik.spec''"

definition spec_text :: "TraefikSpec \<Rightarrow> string" where
  "spec_text t = ts_image t @ ''|'' @ itoa (ts_port t) @ ''|'' @ ts_network t @ ''|'' @ itoa (ts_api t)"

text \<open>\<open>sha256\<close> gives the digest in hexadecimal.\<close>

definition specHash :: "(string \<Rightarrow> string) \<Rightarrow> TraefikSpec \<Rightarrow> string" where
  "specHash sha256 t = sha256 (spec_text t)"

definition traefik_cmd :: "TraefikSpec \<Rightarrow> string list" where
  "traefik_cmd t =
     [''--providers.docker=true'', ''--providers.docker.exposedbydefault=false'',
      ''--providers.docker.network='' @ ts_network t, ''--entrypoints.web.address=:80'', ''--api.dashboard=false''] @
     (if ts_api t > 0 then [''--api.insecure=true'', ''--entrypoints.traefik.address=:8080''] else [])"

definition traefik_ports :: "TraefikSpec \<Rightarrow> PortBinding list" where
  "traefik_ports t =
     \<lparr>pb_container = 80, pb_host = ts_port t, pb_protocol = []\<rparr> #
     (if ts_api t > 0 then [\<lparr>pb_container = 8080, pb_host = ts_api t, pb_protocol = []\<rparr>] else [])"

definition traefik_options :: "string \<Rightarrow> TraefikSpec \<Rightarrow> CreateOptions" where
  "traefik_options hash t =
     \<lparr>co_image = ts_image t, co_name = ts_container t, co_labels = [(traefikSpecLabel, hash)],
      co_ports = traefik_ports t, co_networks = [ts_network t],
      co_volumes = [''/var/run/docker.sock:/var/run/docker.sock:ro''], co_cmd = traefik_cmd t, co_env = []\<rparr>"

section \<open>The operations\<close>

text \<open>Reading a Go map: the empty string for a key it does not have.\<close>

definition label_value :: "(string \<times> string) list \<Rightarrow> string \<Rightarrow> string" where
  "label_value m k = (case map_of m k of None \<Rightarrow> [] | Some v \<Rightarrow> v)"

definition EnsureNetwork :: "string \<Rightarrow> unit run" where
  "EnsureNetwork nm =
     bindE (observe (\<lambda>e n. network_at e n nm)) (\<lambda>r.
       case r of
         Inr driver \<Rightarrow>
           if driver \<noteq> ''bridge''
           then throw (''ensure_network: '' @ go_quote nm @ '' exists but driver='' @ go_quote driver @ '', expected bridge'')
           else ret ()
       | Inl (DockerErr e) \<Rightarrow> throw (''ensure_network: inspect: '' @ e)
       | Inl ErrDockerNotFound \<Rightarrow>
           bindE (wrap ''ensure_network: create'' (perform (NetworkCreate nm ''bridge'' True))) (\<lambda>_. ret ()))"

definition traefikPortConflict :: string where
  "traefikPortConflict = ''traefik: HostPort and APIHostPort must differ''"

definition create_traefik :: "string \<Rightarrow> TraefikSpec \<Rightarrow> unit run" where
  "create_traefik hash t =
     bindE (wrap ''ensure_traefik: create'' (perform (ContainerCreate (traefik_options hash t)))) (\<lambda>cid.
     bindE (wrap ''ensure_traefik: start'' (perform (ContainerStart cid))) (\<lambda>_. ret ()))"

definition EnsureTraefik :: "(string \<Rightarrow> string) \<Rightarrow> TraefikSpec \<Rightarrow> unit run" where
  "EnsureTraefik sha256 t =
     (if ts_api t > 0 \<and> ts_port t = ts_api t then throw traefikPortConflict
      else let hash = specHash sha256 t in
        bindE (observe (\<lambda>e n. inspect_at e n (ts_container t))) (\<lambda>r.
          case r of
            Inr insp \<Rightarrow>
              if label_value (in_labels insp) traefikSpecLabel = hash then ret ()
              else
                bindE (logged (perform (ContainerStop (ts_container t)))) (\<lambda>_.
                bindE (wrap ''ensure_traefik: remove stale container'' (perform (ContainerRemove (ts_container t))))
                  (\<lambda>_. create_traefik hash t))
          | Inl ErrDockerNotFound \<Rightarrow> create_traefik hash t
          | Inl (DockerErr e) \<Rightarrow> throw (''ensure_traefik: inspect: '' @ e)))"

section \<open>Outcomes\<close>

text \<open>The frames of \<open>wrap\<close> do not change what a run does, only the text of its error.\<close>

lemma wrap_run [prog_elims]:
  "wrap p m s = (Inr x, s') \<longleftrightarrow> m s = (Inr x, s')"
  "wrap p m s = (Inl e, s') \<longleftrightarrow> (\<exists>e'. m s = (Inl e', s') \<and> e = p @ '': '' @ e')"
  by (auto simp: wrap_def catchE_def throw_def split: prod.splits sum.splits)

lemma create_traefik_ok:
  assumes "create_traefik hash t s = (Inr (), s')"
  shows "\<exists>cid. trace s' = trace s @ [ContainerCreate (traefik_options hash t), ContainerStart cid]
    \<and> answers (env s) (moment s) (ContainerCreate (traefik_options hash t)) = Inr cid"
  using assms by (auto simp: create_traefik_def prog_elims)

text \<open>
  A successful run leaves the container alone exactly when its label is the hash of the
  specification; otherwise it ends by creating and starting one with that label, after removing
  the container it found, if there was one.
\<close>

lemma EnsureTraefik_ok:
  assumes "EnsureTraefik sha t s = (Inr (), s')"
  shows "\<not> (ts_api t > 0 \<and> ts_port t = ts_api t) \<and>
    (case inspect_at (env s) (moment s) (ts_container t) of
       Inr insp \<Rightarrow>
         (if label_value (in_labels insp) traefikSpecLabel = specHash sha t then trace s' = trace s
          else \<exists>cid. trace s' = trace s @ [ContainerStop (ts_container t), ContainerRemove (ts_container t),
                 ContainerCreate (traefik_options (specHash sha t) t), ContainerStart cid])
     | Inl ErrDockerNotFound \<Rightarrow>
         (\<exists>cid. trace s' = trace s @ [ContainerCreate (traefik_options (specHash sha t) t), ContainerStart cid])
     | Inl (DockerErr e) \<Rightarrow> False)"
  using assms
  by (auto simp: EnsureTraefik_def Let_def prog_elims perform_def dest!: create_traefik_ok
      split: if_splits sum.splits docker_err.splits)

lemma itoa_chars: "c \<in> set (itoa n) \<Longrightarrow> is_digit c \<or> c = CHR ''-''"
  using nat_str_digits by (auto simp: itoa_def list_all_iff split: if_splits)

lemma itoa_no_bar: "CHR ''|'' \<notin> set (itoa n)"
  using itoa_chars [of "CHR ''|''" n] by (auto simp: is_digit_def)

lemma itoa_inject [simp]: "itoa m = itoa n \<longleftrightarrow> m = n"
proof
  have plus: "hd (nat_str k) \<noteq> CHR ''-''" for k
    using nat_str_digits [of k] by (cases "nat_str k") (auto simp: is_digit_def)
  assume eq: "itoa m = itoa n"
  show "m = n"
  proof (cases "m < 0"; cases "n < 0")
    assume "m < 0" and "\<not> n < 0"
    with eq plus [of "nat n"] show ?thesis by (cases "nat_str (nat n)") (simp_all add: itoa_def)
  next
    assume "\<not> m < 0" and "n < 0"
    with eq plus [of "nat m"] show ?thesis by (cases "nat_str (nat m)") (simp_all add: itoa_def)
  qed (use eq in \<open>auto simp: itoa_def\<close>)
qed simp

text \<open>The hashed text determines what it is made of, when no name holds a bar.\<close>

lemma spec_text_inject:
  assumes "CHR ''|'' \<notin> set (ts_image t)" "CHR ''|'' \<notin> set (ts_image u)"
    and "CHR ''|'' \<notin> set (ts_network t)" "CHR ''|'' \<notin> set (ts_network u)"
    and "spec_text t = spec_text u"
  shows "ts_image t = ts_image u \<and> ts_port t = ts_port u \<and> ts_network t = ts_network u \<and> ts_api t = ts_api u"
proof -
  have parts: "split_byte CHR ''|'' (spec_text x) = [ts_image x, itoa (ts_port x), ts_network x, itoa (ts_api x)]"
    if "CHR ''|'' \<notin> set (ts_image x)" "CHR ''|'' \<notin> set (ts_network x)" for x
    using that itoa_no_bar by (simp add: spec_text_def split_byte_append_sep split_byte_free)
  from parts [OF assms(1,3)] parts [OF assms(2,4)] assms(5) show ?thesis by simp
qed

end
