(* ===== verification/AgentConfig.thy ===== *)
theory AgentConfig
  imports Traefik
begin

text \<open>
  internal/agent/config.go: the settings of an agent from its command line and environment. The
  loop of the flag package is written out; reading a number or a duration from a text is an
  argument, as are the variables of the process.
\<close>

section \<open>The process\<close>

record os =
  getenv :: "string \<Rightarrow> string"
  home :: "string option"
  read_int :: "string \<Rightarrow> string + int"  \<comment> \<open>the value of an int flag\<close>
  scan_int :: "string \<Rightarrow> int option"  \<comment> \<open>\<open>fmt.Sscanf(v, "%d", &n)\<close>\<close>
  read_duration :: "string \<Rightarrow> string + int"  \<comment> \<open>\<open>time.ParseDuration\<close>, in nanoseconds\<close>

definition envOr :: "os \<Rightarrow> string \<Rightarrow> string \<Rightarrow> string" where
  "envOr w k def = (if getenv w k \<noteq> [] then getenv w k else def)"

definition envInt :: "os \<Rightarrow> string \<Rightarrow> int \<Rightarrow> int" where
  "envInt w k def =
     (if getenv w k \<noteq> [] then (case scan_int w (getenv w k) of Some n \<Rightarrow> n | None \<Rightarrow> def) else def)"

definition defaultWorkDir :: "os \<Rightarrow> string" where
  "defaultWorkDir w = (case home w of Some h \<Rightarrow> h @ ''/.hub-agent'' | None \<Rightarrow> ''.hub-agent'')"

section \<open>Flags\<close>

datatype cfg_error = MissingRequiredFlag string | HelpRequested | CfgError string

definition string_flags :: "string list" where
  "string_flags = [''hub-url'', ''token'', ''advertise-host'', ''log-level'', ''work-dir'', ''prefetch-interval'',
     ''traefik-image'', ''router-ready-timeout'', ''github-token'']"

definition int_flags :: "string list" where
  "int_flags = [''max-jobs'', ''traefik-port'', ''traefik-api-port'']"

text \<open>The name of a flag and the value after \<open>=\<close>; the \<open>=\<close> is never the first character.\<close>

definition split_flag :: "string \<Rightarrow> string \<times> string option" where
  "split_flag nm =
     (let rest = dropWhile (\<lambda>c. c \<noteq> CHR ''='') nm in
      (takeWhile (\<lambda>c. c \<noteq> CHR ''='') nm, if rest = [] then None else Some (tl rest)))"

definition set_flag :: "os \<Rightarrow> string \<Rightarrow> string \<Rightarrow> cfg_error option" where
  "set_flag w nm v =
     (if nm \<in> set int_flags then
        (case read_int w v of
           Inl e \<Rightarrow> Some (CfgError (''invalid value '' @ go_quote v @ '' for flag -'' @ nm @ '': '' @ e))
         | Inr _ \<Rightarrow> None)
      else None)"

definition undefined_flag :: "string \<Rightarrow> cfg_error" where
  "undefined_flag nm =
     (if nm \<in> {''help'', ''h''} then HelpRequested else CfgError (''flag provided but not defined: -'' @ nm))"

text \<open>The settings of the command line, the last one first.\<close>

function parse_flags :: "os \<Rightarrow> (string \<times> string) list \<Rightarrow> string list \<Rightarrow> cfg_error + (string \<times> string) list" where
  "parse_flags w acc [] = Inr acc"
| "parse_flags w acc (s # args) =
     (if length s < 2 \<or> hd s \<noteq> CHR ''-'' then Inr acc
      else if s = ''--'' then Inr acc
      else let nm = (if s ! 1 = CHR ''-'' then drop 2 s else tl s) in
        if nm = [] \<or> hd nm = CHR ''-'' \<or> hd nm = CHR ''='' then Inl (CfgError (''bad flag syntax: '' @ s))
        else (case split_flag nm of (name, value) \<Rightarrow>
          if name \<notin> set string_flags \<union> set int_flags then Inl (undefined_flag name)
          else (case value of
            Some v \<Rightarrow> (case set_flag w name v of Some e \<Rightarrow> Inl e | None \<Rightarrow> parse_flags w ((name, v) # acc) args)
          | None \<Rightarrow>
              (case args of
                 [] \<Rightarrow> Inl (CfgError (''flag needs an argument: -'' @ name))
               | v # args' \<Rightarrow>
                   (case set_flag w name v of Some e \<Rightarrow> Inl e | None \<Rightarrow> parse_flags w ((name, v) # acc) args')))))"
  by pat_completeness auto
termination by (relation "measure (\<lambda>(w, acc, args). length args)") auto

section \<open>The settings\<close>

record Config =
  HubURL :: string
  cfg_token :: string
  AdvertiseHost :: string
  LogLevel :: string
  WorkDir :: string
  PrefetchInterval :: int
  MaxJobs :: int
  TraefikPort :: int
  TraefikImage :: string
  TraefikAPIPort :: int
  RouterReadyTimeout :: int
  GitHubToken :: string

definition maxJobsHardCap :: int where "maxJobsHardCap = 64"

definition str_flag :: "(string \<times> string) list \<Rightarrow> string \<Rightarrow> string \<Rightarrow> string" where
  "str_flag flags nm def = (case map_of flags nm of Some v \<Rightarrow> v | None \<Rightarrow> def)"

definition num_flag :: "os \<Rightarrow> (string \<times> string) list \<Rightarrow> string \<Rightarrow> int \<Rightarrow> int" where
  "num_flag w flags nm def =
     (case map_of flags nm of
        Some v \<Rightarrow> (case read_int w v of Inr n \<Rightarrow> n | Inl _ \<Rightarrow> def)
      | None \<Rightarrow> def)"

definition clamp_jobs :: "int \<Rightarrow> int" where
  "clamp_jobs n = (let m = (if n < 1 then 1 else n) in if m > maxJobsHardCap then maxJobsHardCap else m)"

text \<open>The checks after the flags are parsed, in their order.\<close>

definition check_config :: "os \<Rightarrow> (string \<times> string) list \<Rightarrow> cfg_error + Config" where
  "check_config w flags =
     (let url = str_flag flags ''hub-url'' (getenv w ''HUB_URL'');
          tok = str_flag flags ''token'' (getenv w ''HUB_TOKEN'');
          prefetch = str_flag flags ''prefetch-interval'' (envOr w ''AGENT_PREFETCH_INTERVAL'' ''5m'');
          port = num_flag w flags ''traefik-port'' (envInt w ''AGENT_TRAEFIK_PORT'' 8080);
          api = num_flag w flags ''traefik-api-port'' (envInt w ''AGENT_TRAEFIK_API_PORT'' 9080);
          ready = str_flag flags ''router-ready-timeout'' (envOr w ''AGENT_ROUTER_READY_TIMEOUT'' ''30s'')
      in if url = [] then Inl (MissingRequiredFlag ''--hub-url or HUB_URL required'')
         else if tok = [] then Inl (MissingRequiredFlag ''--token or HUB_TOKEN required'')
         else case read_duration w prefetch of
           Inl e \<Rightarrow> Inl (CfgError (''invalid --prefetch-interval '' @ go_quote prefetch @ '': '' @ e))
         | Inr pf \<Rightarrow>
             if port < 1 \<or> port > 65535 then
               Inl (CfgError (''invalid --traefik-port '' @ itoa port @ '': must be 1..65535''))
             else if api < 0 \<or> api > 65535 then
               Inl (CfgError (''invalid --traefik-api-port '' @ itoa api @ '': must be 0..65535''))
             else if api > 0 \<and> api = port then
               Inl (CfgError (''--traefik-api-port and --traefik-port must differ (both = '' @ itoa port @ '')''))
             else (case read_duration w ready of
               Inl e \<Rightarrow> Inl (CfgError (''invalid --router-ready-timeout '' @ go_quote ready @ '': '' @ e))
             | Inr rrt \<Rightarrow>
                 if rrt < 0 then Inl (CfgError (''invalid --router-ready-timeout '' @ go_quote ready @ '': must be >= 0''))
                 else Inr \<lparr>HubURL = url, cfg_token = tok,
                   AdvertiseHost = str_flag flags ''advertise-host'' (getenv w ''AGENT_ADVERTISE_HOST''),
                   LogLevel = str_flag flags ''log-level'' (envOr w ''LOG_LEVEL'' ''info''),
                   WorkDir = str_flag flags ''work-dir'' (envOr w ''AGENT_WORK_DIR'' (defaultWorkDir w)),
                   PrefetchInterval = pf,
                   MaxJobs = clamp_jobs (num_flag w flags ''max-jobs'' (envInt w ''AGENT_MAX_JOBS'' 1)),
                   TraefikPort = port,
                   TraefikImage = str_flag flags ''traefik-image'' (envOr w ''AGENT_TRAEFIK_IMAGE'' ''traefik:v3.1''),
                   TraefikAPIPort = api, RouterReadyTimeout = rrt,
                   GitHubToken = str_flag flags ''github-token'' (getenv w ''GITHUB_TOKEN'')\<rparr>))"

definition ParseConfig :: "os \<Rightarrow> string list \<Rightarrow> cfg_error + Config" where
  "ParseConfig w args =
     (case parse_flags w [] args of Inl e \<Rightarrow> Inl e | Inr flags \<Rightarrow> check_config w flags)"

section \<open>What a configuration guarantees\<close>

definition config_ok :: "Config \<Rightarrow> bool" where
  "config_ok c \<longleftrightarrow> HubURL c \<noteq> [] \<and> cfg_token c \<noteq> [] \<and> 1 \<le> MaxJobs c \<and> MaxJobs c \<le> maxJobsHardCap \<and>
     1 \<le> TraefikPort c \<and> TraefikPort c \<le> 65535 \<and> 0 \<le> TraefikAPIPort c \<and> TraefikAPIPort c \<le> 65535 \<and>
     (TraefikAPIPort c > 0 \<longrightarrow> TraefikAPIPort c \<noteq> TraefikPort c) \<and> 0 \<le> RouterReadyTimeout c"

lemma clamp_bounds: "1 \<le> clamp_jobs n" "clamp_jobs n \<le> maxJobsHardCap"
  by (auto simp: clamp_jobs_def maxJobsHardCap_def Let_def)

lemma clamp_id: "1 \<le> n \<Longrightarrow> n \<le> maxJobsHardCap \<Longrightarrow> clamp_jobs n = n"
  by (simp add: clamp_jobs_def maxJobsHardCap_def)

lemma check_config_ok: "check_config w flags = Inr c \<Longrightarrow> config_ok c"
  using clamp_bounds
  by (auto simp: check_config_def Let_def config_ok_def split: if_splits sum.splits)

definition spec_of :: "Config \<Rightarrow> TraefikSpec" where
  "spec_of c = \<lparr>ts_image = TraefikImage c, ts_port = TraefikPort c, ts_api = TraefikAPIPort c,
     ts_network = ''preview-net'', ts_container = ''preview-traefik''\<rparr>"

end
