(* ===== verification/Backoff.thy ===== *)
theory Backoff
  imports Complex_Main Prelude
begin

text \<open>
  internal/agent/backoff.go: the waiting times between two connections. The random number and
  the rounding of \<open>float64\<close> arithmetic are arguments; durations are nanoseconds.
\<close>

section \<open>The generator\<close>

definition BackoffInitial :: int where "BackoffInitial = 10 ^ 9"
definition BackoffMax :: int where "BackoffMax = 30 * 10 ^ 9"
definition BackoffJitter :: rat where "BackoffJitter = 1 / 5"

definition truncate_rat :: "rat \<Rightarrow> int" where
  "truncate_rat x = (if x < 0 then - \<lfloor>- x\<rfloor> else \<lfloor>x\<rfloor>)"

text \<open>\<open>fl\<close> rounds to the nearest \<open>float64\<close>; \<open>r\<close> is \<open>rng.Float64()\<close>.\<close>

definition jitter :: "(rat \<Rightarrow> rat) \<Rightarrow> int \<Rightarrow> rat \<Rightarrow> rat \<Rightarrow> int" where
  "jitter fl d factor r =
     (if factor \<le> 0 then d
      else let delta = fl (fl (fl (r * 2) - 1) * factor)
           in truncate_rat (fl (fl (of_int d) * fl (1 + delta))))"

definition step_up :: "int \<Rightarrow> int" where
  "step_up current =
     (if current = 0 then BackoffInitial
      else if current * 2 > BackoffMax then BackoffMax else current * 2)"

definition Next :: "(rat \<Rightarrow> rat) \<Rightarrow> rat \<Rightarrow> int \<Rightarrow> int \<times> int" where
  "Next fl r current = (jitter fl (step_up current) (fl BackoffJitter) r, step_up current)"

definition Reset :: "int \<Rightarrow> int" where
  "Reset current = 0"

text \<open>The waiting times of a sequence of calls, one random number each.\<close>

fun waits :: "(rat \<Rightarrow> rat) \<Rightarrow> rat list \<Rightarrow> int \<Rightarrow> int list" where
  "waits fl [] current = []"
| "waits fl (r # rs) current = (case Next fl r current of (d, c) \<Rightarrow> d # waits fl rs c)"

section \<open>The sequence without jitter\<close>

definition ideal :: "nat \<Rightarrow> int" where
  "ideal n = min BackoffMax (BackoffInitial * 2 ^ n)"

lemma ideal_pos: "BackoffInitial \<le> ideal n" "ideal n \<le> BackoffMax"
  by (simp_all add: ideal_def BackoffInitial_def BackoffMax_def)

lemma step_up_0: "step_up 0 = ideal 0"
  by (simp add: step_up_def ideal_def BackoffInitial_def BackoffMax_def)

lemma step_up_ideal: "step_up (ideal n) = ideal (Suc n)"
proof -
  have "ideal n \<noteq> 0" using ideal_pos(1) [of n] by (simp add: BackoffInitial_def)
  moreover have "BackoffInitial * 2 ^ n \<ge> 0" by (simp add: BackoffInitial_def)
  ultimately show ?thesis by (auto simp: step_up_def ideal_def min_def BackoffMax_def)
qed

section \<open>The bounds of the jitter\<close>

text \<open>What IEEE 754 promises of the rounding of a normal number: a relative error of at most 2^-53.\<close>

definition rounds :: "(rat \<Rightarrow> rat) \<Rightarrow> bool" where
  "rounds fl \<longleftrightarrow> (\<forall>x. \<bar>fl x - x\<bar> \<le> \<bar>x\<bar> / 2 ^ 53)"

lemma rounds_within:
  assumes "rounds fl" and "\<bar>x\<bar> \<le> b"
  shows "\<bar>fl x\<bar> \<le> b * (1 + 1 / 2 ^ 53)"
proof -
  have "\<bar>fl x\<bar> \<le> \<bar>x\<bar> + \<bar>fl x - x\<bar>" by linarith
  also have "\<dots> \<le> \<bar>x\<bar> + \<bar>x\<bar> / 2 ^ 53" using assms(1) by (simp add: rounds_def)
  also have "\<dots> \<le> b * (1 + 1 / 2 ^ 53)" using assms(2) by (simp add: field_simps)
  finally show ?thesis .
qed

lemma rounds_between:
  assumes "rounds fl" and "0 \<le> a" and "a \<le> x" and "x \<le> b"
  shows "a * (1 - 1 / 2 ^ 53) \<le> fl x \<and> fl x \<le> b * (1 + 1 / 2 ^ 53)"
proof -
  have "\<bar>fl x - x\<bar> \<le> x / 2 ^ 53" using assms(1-3) unfolding rounds_def by (metis abs_of_nonneg order_trans)
  then have "x - x / 2 ^ 53 \<le> fl x" "fl x \<le> x + x / 2 ^ 53" by linarith+
  moreover have "a - a / 2 ^ 53 \<le> x - x / 2 ^ 53" "x + x / 2 ^ 53 \<le> b + b / 2 ^ 53"
    using assms(3,4) by (simp_all add: field_simps)
  ultimately show ?thesis by (simp add: field_simps)
qed

lemma jitter_delta:
  assumes "rounds fl" and "0 \<le> r" and "r < 1"
  shows "\<bar>fl (fl (fl (r * 2) - 1) * fl BackoffJitter)\<bar> \<le> 201 / 1000"
proof -
  have "0 * (1 - 1 / 2 ^ 53) \<le> fl (r * 2) \<and> fl (r * 2) \<le> 2 * (1 + 1 / 2 ^ 53)"
    by (rule rounds_between [OF assms(1)]) (use assms in simp_all)
  then have "0 \<le> fl (r * 2)" "fl (r * 2) \<le> 2 * (1 + 1 / 2 ^ 53)" by simp_all
  then have "\<bar>fl (r * 2) - 1\<bar> \<le> 1 + 2 / 2 ^ 53" unfolding abs_le_iff by (simp add: field_simps)
  from rounds_within [OF assms(1) this] have a: "\<bar>fl (fl (r * 2) - 1)\<bar> \<le> 1001 / 1000" by simp
  have b: "\<bar>fl BackoffJitter\<bar> \<le> 1 / 5 * (1 + 1 / 2 ^ 53)"
    by (rule rounds_within [OF assms(1)]) (simp add: BackoffJitter_def)
  have "\<bar>fl (fl (r * 2) - 1) * fl BackoffJitter\<bar> \<le> 1001 / 1000 * (1 / 5 * (1 + 1 / 2 ^ 53))"
    unfolding abs_mult by (rule mult_mono [OF a b]) simp_all
  from rounds_within [OF assms(1) this] show ?thesis by simp
qed

lemma truncate_bounds: "0 \<le> x \<Longrightarrow> x - 1 < of_int (truncate_rat x) \<and> of_int (truncate_rat x) \<le> x"
  by (simp add: truncate_rat_def) linarith

lemma jitter_bounds:
  assumes fl: "rounds fl" and r: "0 \<le> r" "r < 1" and d: "BackoffInitial \<le> d"
  shows "79 * d \<le> 100 * jitter fl d (fl BackoffJitter) r \<and> 100 * jitter fl d (fl BackoffJitter) r \<le> 121 * d"
proof -
  define delta where "delta = fl (fl (fl (r * 2) - 1) * fl BackoffJitter)"
  define x where "x = fl (fl (of_int d) * fl (1 + delta))"
  have D: "1000000000 \<le> (of_int d :: rat)"
  proof -
    have "of_int (10 ^ 9) \<le> (of_int d :: rat)" using d unfolding BackoffInitial_def of_int_le_iff .
    then show ?thesis by simp
  qed
  have "\<bar>delta\<bar> \<le> 201 / 1000" using jitter_delta [OF fl r] by (simp add: delta_def)
  then have "799 / 1000 \<le> 1 + delta" "1 + delta \<le> 1201 / 1000" by linarith+
  from rounds_between [OF fl _ this] have one: "798 / 1000 \<le> fl (1 + delta)" "fl (1 + delta) \<le> 1202 / 1000"
    by simp_all
  have two: "of_int d * (1 - 1 / 2 ^ 53) \<le> fl (of_int d)" "fl (of_int d) \<le> of_int d * (1 + 1 / 2 ^ 53)"
    using rounds_between [OF fl, of "of_int d" "of_int d" "of_int d"] D by simp_all
  have "of_int d * (1 - 1 / 2 ^ 53) * (798 / 1000) \<le> fl (of_int d) * fl (1 + delta)"
    by (rule mult_mono [OF two(1) one(1)]) (use D two in simp_all)
  moreover have "fl (of_int d) * fl (1 + delta) \<le> of_int d * (1 + 1 / 2 ^ 53) * (1202 / 1000)"
    by (rule mult_mono [OF two(2) one(2)]) (use D one in simp_all)
  ultimately have "of_int d * (1 - 1 / 2 ^ 53) * (798 / 1000) * (1 - 1 / 2 ^ 53) \<le> x \<and>
      x \<le> of_int d * (1 + 1 / 2 ^ 53) * (1202 / 1000) * (1 + 1 / 2 ^ 53)"
    unfolding x_def by (intro rounds_between [OF fl]) (use D in simp_all)
  then have x: "of_int d * (797 / 1000) \<le> x" "x \<le> of_int d * (1203 / 1000)" using D by simp_all
  then have "x - 1 < of_int (truncate_rat x)" "of_int (truncate_rat x) \<le> x"
    using truncate_bounds [of x] D by simp_all
  with x D have "79 * (of_int d :: rat) \<le> 100 * of_int (truncate_rat x)"
      "100 * of_int (truncate_rat x) \<le> 121 * (of_int d :: rat)" by linarith+
  then have "of_int (79 * d) \<le> (of_int (100 * truncate_rat x) :: rat)"
      "(of_int (100 * truncate_rat x) :: rat) \<le> of_int (121 * d)" by simp_all
  then have "79 * d \<le> 100 * truncate_rat x" "100 * truncate_rat x \<le> 121 * d"
    unfolding of_int_le_iff by simp_all
  moreover have "0 < fl BackoffJitter"
    using rounds_between [OF fl, of "1/5" BackoffJitter "1/5"] by (simp add: BackoffJitter_def)
  then have "jitter fl d (fl BackoffJitter) r = truncate_rat x"
    by (simp add: jitter_def delta_def x_def Let_def)
  ultimately show ?thesis by simp
qed

lemma waits_bounds:
  assumes fl: "rounds fl" and rs: "\<forall>r \<in> set rs. 0 \<le> r \<and> r < 1"
    and "step_up c = ideal k" and "i < length rs"
  shows "79 * ideal (k + i) \<le> 100 * waits fl rs c ! i \<and> 100 * waits fl rs c ! i \<le> 121 * ideal (k + i)"
  using assms(2-4)
proof (induction rs arbitrary: c k i)
  case (Cons r rs)
  show ?case
  proof (cases i)
    case 0
    have "79 * ideal k \<le> 100 * jitter fl (ideal k) (fl BackoffJitter) r \<and>
        100 * jitter fl (ideal k) (fl BackoffJitter) r \<le> 121 * ideal k"
      by (rule jitter_bounds [OF fl]) (use Cons.prems ideal_pos in simp_all)
    with 0 Cons.prems(2) show ?thesis by (simp add: Next_def)
  next
    case (Suc j)
    have "step_up (ideal k) = ideal (Suc k)" by (rule step_up_ideal)
    from Cons.IH [OF _ this, of j] Suc Cons.prems show ?thesis by (simp add: Next_def)
  qed
qed simp

end
