(* ===== verification/AgentMain.thy ===== *)
theory AgentMain
  imports Orphans AgentConfig Backoff
begin

text \<open>
  cmd/agent/main.go and internal/agent/client.go: how an agent starts, and its connections to
  the hub. A job or a teardown received on a connection is handled to its end before the next
  message is read; the code starts a goroutine for each, and this is the order without overlap.
\<close>

section \<open>Starting\<close>

text \<open>\<open>NewRunner\<close> and \<open>NewMultiRepoCache\<close>\<close>

definition fresh_agent :: "Config \<Rightarrow> agent_env \<Rightarrow> agent" where
  "fresh_agent cfg e =
     \<lparr>jobs = [], building = [], a_paused = False, inFlight = 0, maxJobs = 1, has_ready = False,
      advHost = (if AdvertiseHost cfg = [] then ''127.0.0.1'' else AdvertiseHost cfg),
      traefikPort = 8080, traefikAPIPort = 0, routerReadyTimeout = 0, workDir = WorkDir cfg, token = GitHubToken cfg,
      repos = [], prefetched = [], online = False, trace = [], moment = 0, slept = 0, env = e\<rparr>"

definition wire_runner :: "Config \<Rightarrow> agent \<Rightarrow> agent" where
  "wire_runner cfg s = (SetTraefikPort (TraefikPort cfg) s)
     \<lparr>traefikAPIPort := TraefikAPIPort cfg, routerReadyTimeout := RouterReadyTimeout cfg\<rparr>"

text \<open>\<open>runStart\<close> up to the connection loop.\<close>

definition agent_startup :: "(string \<Rightarrow> string) \<Rightarrow> Config \<Rightarrow> unit run" where
  "agent_startup sha256 cfg =
     bindE (logged (EnsureNetwork ''preview-net'')) (\<lambda>_.
     bindE (logged (EnsureTraefik sha256 (spec_of cfg))) (\<lambda>_.
     bindE (modify (wire_runner cfg)) (\<lambda>_.
     bindE (RestoreOrphans (AdvertiseHost cfg)) (\<lambda>ids.
     bindE (logged (PruneStaleWorktrees (case ids of Inl _ \<Rightarrow> [] | Inr xs \<Rightarrow> xs))) (\<lambda>_.
     bindE (logged PruneComposeOrphans) (\<lambda>_.
     modify (\<lambda>s. SetMaxJobs (MaxJobs cfg) (s\<lparr>has_ready := True\<rparr>))))))))"

section \<open>One connection\<close>

text \<open>
  What the network does with a connection: whether dialing works, what comes first, the messages
  that follow (None for one that does not decode) and the error that ends it.
\<close>

record agent_session =
  ses_dial :: "string option"
  ses_welcome :: "string + string + envelope"  \<comment> \<open>read error, decoding error, message\<close>
  ses_inbox :: "envelope option list"
  ses_end :: string

definition dispatchMessage :: "envelope \<Rightarrow> unit run" where
  "dispatchMessage m =
     (case m of
        JobAssign d \<Rightarrow> logged (Handle d)
      | JobTeardown pid \<Rightarrow> logged (Teardown pid)
      | _ \<Rightarrow> ret ())"

fun read_loop :: "envelope option list \<Rightarrow> unit run" where
  "read_loop [] = ret ()"
| "read_loop (None # inbox) = read_loop inbox"
| "read_loop (Some e # inbox) = bindE (dispatchMessage e) (\<lambda>_. read_loop inbox)"

definition hello_data :: "Config \<Rightarrow> string list \<Rightarrow> HelloData" where
  "hello_data cfg ids = \<lparr>hello_version = ProtoVersion, hello_host = AdvertiseHost cfg,
     hello_running = Some ids\<rparr>"

definition set_connected :: "bool \<Rightarrow> (agent, 'e, unit) prog" where
  "set_connected b = modify (\<lambda>s. s\<lparr>online := b\<rparr>)"

text \<open>The part after the connection is registered, with the deferred function that clears it.\<close>

definition talk :: "agent_session \<Rightarrow> unit run" where
  "talk ses =
     bindE (set_connected True) (\<lambda>_.
     bindE maybeSendReady (\<lambda>_.
     bindE (read_loop (ses_inbox ses)) (\<lambda>_.
     bindE (set_connected False) (\<lambda>_. throw (ses_end ses)))))"

definition once :: "Config \<Rightarrow> agent_session \<Rightarrow> unit run" where
  "once cfg ses =
     (case ses_dial ses of
        Some e \<Rightarrow> throw (''dial: '' @ e)
      | None \<Rightarrow>
          bindE RunningPreviewIDs (\<lambda>ids.
          bindE (wrap ''write hello'' (perform (Frame (Hello (hello_data cfg ids))))) (\<lambda>_.
            case ses_welcome ses of
              Inl e \<Rightarrow> throw (''read welcome: '' @ e)
            | Inr (Inl e) \<Rightarrow> throw (''decode welcome: '' @ e)
            | Inr (Inr m) \<Rightarrow>
                if type_name m \<noteq> ''WELCOME'' then throw (''unexpected first message: '' @ type_name m)
                else talk ses)))"

section \<open>The connection loop\<close>

text \<open>
  \<open>Run\<close> on a sequence of connections, each with the random number drawn for the wait after it:
  the waits, the state of the backoff and that of the agent.
\<close>

fun Run :: "Config \<Rightarrow> (rat \<Rightarrow> rat) \<Rightarrow> (agent_session \<times> rat) list \<Rightarrow> int \<Rightarrow> agent \<Rightarrow> int list \<times> int \<times> agent" where
  "Run cfg fl [] current s = ([], current, s)"
| "Run cfg fl ((ses, r) # rest) current s =
     (if ctx_at (env s) (moment s) \<noteq> None then ([], current, s)
      else let s1 = snd (once cfg ses s);
               c1 = (if ses_dial ses = None then Reset current else current)
           in if ctx_at (env s1) (moment s1) \<noteq> None then ([], c1, s1)
              else (case Next fl r c1 of
                (wait, c2) \<Rightarrow>
                  if ctx_at (env s1) (Suc (moment s1)) \<noteq> None then ([wait], c2, s1\<lparr>moment := Suc (moment s1)\<rparr>)
                  else (case Run cfg fl rest c2 (sleep wait s1) of (ws, c, s2) \<Rightarrow> (wait # ws, c, s2))))"

section \<open>The slots over a connection\<close>

text \<open>
  What messages leave of the agent: the jobs in flight, the pause flag, the connection and the
  settings are as before, no build is left over, and frames are only added.
\<close>

definition settled :: "agent \<Rightarrow> agent \<Rightarrow> bool" where
  "settled s s' \<longleftrightarrow> inFlight s' = inFlight s \<and> a_paused s' = a_paused s \<and> has_ready s' = has_ready s \<and>
     limit s' = limit s \<and> online s' = online s \<and> workDir s' = workDir s \<and> env s' = env s \<and>
     set (building s') \<subseteq> set (building s) \<and> moment s \<le> moment s' \<and> (\<exists>fs. frames s' = frames s @ fs)"

interpretation settled: contract settled
proof
  show "settled s s" for s by (simp add: settled_def)
next
  fix s t u assume "settled s t" and "settled t u"
  then show "settled s u" by (auto simp: settled_def)
qed

lemma limit_online [simp]: "limit (s\<lparr>online := b\<rparr>) = limit s"
  by (simp add: limit_def)

lemma settled_sends:
  assumes "sends fs s t" and "settled r s"
  shows "settled r t"
  using assms by (auto simp: sends_def same_jobs_def settled_def)

lemma settled_of_sends: "sends fs s t \<Longrightarrow> settled s t"
  by (erule settled_sends) simp

lemma settled_report: "obeys settled (SendStatusUpdate d)"
  using report_sends settled_of_sends by (simp add: obeys_def) metis

lemma settled_Handle: "obeys settled (Handle msg)"
proof (rule obeysI)
  fix s r s' assume run: "Handle msg s = (r, s')"
  show "settled s s'"
  proof (cases "a_paused s")
    case True
    from Handle_paused(2) [OF this, of msg] run show ?thesis by (auto intro: settled_of_sends)
  next
    case False
    from Handle_run [OF this run] obtain k where k: "job_outcome msg r (readies k) s s'" by blast
    have base: "settled s (s\<lparr>building := removeAll pid (building s)\<rparr>)"
        "settled s (s\<lparr>jobs := J, building := removeAll pid (building s)\<rparr>)" for pid J
      by (auto simp: settled_def frames_def)
    from k show ?thesis
      unfolding job_outcome_def Let_def using base settled_sends
      by (cases r) fastforce+
  qed
qed

lemma settled_Teardown: "obeys settled (Teardown pid)"
proof (rule obeysI)
  fix s r s' assume "Teardown pid s = (r, s')"
  then have "sends [StatusUpdate (done_report pid)] (s\<lparr>jobs := map_delete pid (jobs s)\<rparr>) s'" by (rule Teardown_run)
  moreover have "settled s (s\<lparr>jobs := map_delete pid (jobs s)\<rparr>)" by (simp add: settled_def frames_def)
  ultimately show "settled s s'" by (rule settled_sends)
qed

lemma settled_dispatch: "obeys settled (dispatchMessage m)"
  unfolding dispatchMessage_def
  by (simp add: settled_Handle settled_Teardown obeys_logged settled.ret split: envelope.split)

lemma settled_read_loop: "obeys settled (read_loop inbox)"
proof (induction inbox)
  case (Cons m inbox)
  then show ?case by (cases m) (auto intro: settled.bindE settled_dispatch)
qed (simp only: read_loop.simps settled.ret)

lemma settled_maybeSendReady: "obeys settled maybeSendReady"
  unfolding obeys_def using maybeSendReady_sends settled_of_sends by metis

section \<open>The frames of a connection\<close>

lemma total_dispatch: "fst (dispatchMessage m s) = Inr ()"
  by (simp add: dispatchMessage_def split: envelope.split)

lemma dispatch_step: "bindE (dispatchMessage m) k s = k () (snd (dispatchMessage m s))"
  by (rule bindE_total) (rule total_dispatch)

lemma total_read_loop: "fst (read_loop inbox s) = Inr ()"
proof (induction inbox arbitrary: s)
  case (Cons m inbox)
  then show ?case by (cases m) (simp_all add: dispatch_step)
qed simp

lemma total_ready: "fst (maybeSendReady s) = Inr ()"
proof -
  have "fst (send_readies n x) = Inr ()" for n x
    by (induction n arbitrary: x) (auto split: sum.split)
  then show ?thesis by (simp add: maybeSendReady_def)
qed

text \<open>
  A conversation announces the free slots first; it ends unconnected, and every frame after the
  announcement answers a message.
\<close>

lemma talk_run:
  "\<exists>s'. talk ses s = (Inl (ses_end ses), s') \<and> \<not> online s' \<and>
     settled (s\<lparr>online := False\<rparr>) s' \<and>
     (\<exists>k fs. frames s' = frames s @ readies k @ fs \<and> int k \<le> free_slots s \<and>
        (takes_ready (s\<lparr>online := True\<rparr>) \<longrightarrow> int k = free_slots s))"
proof -
  let ?s = "s\<lparr>online := True\<rparr>"
  define t where "t = snd (maybeSendReady ?s)"
  define u where "u = snd (read_loop (ses_inbox ses) t)"
  have run: "talk ses s = (Inl (ses_end ses), u\<lparr>online := False\<rparr>)"
    unfolding talk_def set_connected_def bindE_reads bindE_total [OF total_ready] bindE_total [OF total_read_loop]
    by (simp add: t_def u_def)
  have "settled ?s t" unfolding t_def by (rule obeys_apply) (rule settled_maybeSendReady)
  moreover have tu: "settled t u" unfolding u_def by (rule obeys_apply) (rule settled_read_loop)
  ultimately have "settled ?s u" by (rule settled.trans)
  then have ends: "settled (s\<lparr>online := False\<rparr>) (u\<lparr>online := False\<rparr>)"
    by (simp add: settled_def frames_def)
  from maybeSendReady_sends [of ?s] obtain k where k: "sends (readies k) ?s t"
      "int k \<le> free_slots s" "takes_ready ?s \<longrightarrow> int k = free_slots s"
    unfolding t_def readies_def free_slots_def takes_ready_def by auto
  then have "frames t = frames s @ readies k" by (simp add: sends_def frames_def)
  with tu obtain fs where "frames u = frames s @ readies k @ fs" by (auto simp: settled_def)
  then have "frames (u\<lparr>online := False\<rparr>) = frames s @ readies k @ fs" by (simp add: frames_def)
  with k run ends show ?thesis by auto
qed

text \<open>
  A connection that is dialed opens with the HELLO that lists exactly the previews the agent
  runs or builds; whatever happens afterwards, it leaves the agent offline and settled.
\<close>

lemma once_run:
  assumes "ses_dial ses = None" and "\<not> online s"
  shows "\<exists>e s'. once cfg ses s = (Inl e, s') \<and> settled s s' \<and>
    (\<exists>fs. frames s' = frames s @ Hello (hello_data cfg (listed_ids s)) # fs)"
proof -
  let ?h = "Frame (Hello (hello_data cfg (listed_ids s)))"
  define t where "t = s\<lparr>trace := trace s @ [?h], moment := Suc (moment s)\<rparr>"
  have ft: "frames t = frames s @ [Hello (hello_data cfg (listed_ids s))]" by (simp add: t_def frames_def map_filter_def)
  have st: "settled s t" using ft by (auto simp: t_def settled_def)
  have off: "t\<lparr>online := False\<rparr> = t" using assms(2) by (simp add: t_def)
  show ?thesis
  proof (cases "answers (env s) (moment s) ?h")
    case (Inl e)
    then obtain e' where "wrap ''write hello'' (perform ?h) s = (Inl e', t)"
      by (simp add: wrap_def catchE_def perform_def t_def)
    then have "once cfg ses s = (Inl e', t)"
      using assms(1) by (simp add: once_def bindE_def [of "wrap x y" for x y])
    with st ft show ?thesis by simp
  next
    case (Inr x)
    then have hello: "wrap ''write hello'' (perform ?h) s = (Inr x, t)"
      by (simp add: wrap_def catchE_def perform_def t_def)
    have step: "bindE (wrap ''write hello'' (perform ?h)) k s = k x t" for k :: "string \<Rightarrow> unit run"
      by (rule bindE_step) (rule hello)
    obtain e u where talk: "talk ses t = (Inl e, u)" "settled t u" "\<exists>fs. frames u = frames t @ fs"
      using talk_run [of ses t] unfolding off by blast
    have "once cfg ses s \<in> {(Inl e, u)} \<union> {(Inl e', t) | e'. True}"
      using assms(1) step talk(1) by (auto simp: once_def split: sum.split)
    with st ft talk settled.trans show ?thesis by fastforce
  qed
qed

text \<open>While the hub cannot be reached the waits grow as those of the backoff.\<close>

lemma Run_offline:
  assumes "\<forall>x \<in> set conns. ses_dial (fst x) \<noteq> None" and "\<forall>m. ctx_at (env s) m = None"
  shows "fst (Run cfg fl conns c s) = waits fl (map snd conns) c"
  using assms
proof (induction conns arbitrary: c s)
  case (Cons x conns)
  obtain ses r where x: "x = (ses, r)" by fastforce
  then obtain e where "once cfg ses s = (Inl e, s)" using Cons.prems(1) by (auto simp: once_def)
  with x Cons show ?case
    by (auto simp: Next_def clock_sleep(2) split_beta Let_def)
qed simp

section \<open>What starting does\<close>

text \<open>
  Starting sends nothing to the hub and writes no file. It deletes worktrees of previews that
  were not restored, takes down projects of such previews, and touches no container but that of
  Traefik.
\<close>

fun start_effect :: "string \<Rightarrow> string list \<Rightarrow> effect \<Rightarrow> bool" where
  "start_effect wd ids (Exec args) \<longleftrightarrow> spares ids (Exec args)"
| "start_effect wd ids (RemoveAll p) \<longleftrightarrow> confined wd (\<lambda>i. i \<notin> set ids) (RemoveAll p)"
| "start_effect wd ids (ContainerStop c) \<longleftrightarrow> c = ''preview-traefik''"
| "start_effect wd ids (ContainerRemove c) \<longleftrightarrow> c = ''preview-traefik''"
| "start_effect wd ids (ContainerCreate opts) \<longleftrightarrow> co_name opts = ''preview-traefik''"
| "start_effect wd ids (ContainerStart c) \<longleftrightarrow> True"
| "start_effect wd ids (NetworkCreate n d a) \<longleftrightarrow> n = ''preview-net''"
| "start_effect wd ids (Output args) \<longleftrightarrow> True"
| "start_effect wd ids _ \<longleftrightarrow> False"

lemma start_network: "obeys (emits (start_effect wd ids)) (EnsureNetwork ''preview-net'')"
  unfolding EnsureNetwork_def by (intro emit_rules emits_perform) (auto split: sum.split docker_err.split intro!: emit_rules emits_perform)

lemma start_traefik: "obeys (emits (start_effect wd ids)) (EnsureTraefik sha (spec_of cfg))"
  unfolding EnsureTraefik_def create_traefik_def Let_def
  by (intro emit_rules) (auto split: sum.split docker_err.split intro!: emit_rules emits_perform
      simp: spec_of_def traefik_options_def)

definition restorable :: "agent_env \<Rightarrow> nat \<Rightarrow> string list" where
  "restorable e n = (case list_at e n hub_label of Inl _ \<Rightarrow> [] | Inr cs \<Rightarrow> List.map_filter own_preview cs)"

lemma quiet_prune_entries [quiet_rules]: "obeys quiet (prune_entries dir active acc xs)"
proof (induction xs arbitrary: acc)
  case (Cons x xs)
  have "obeys quiet (perform (RemoveAll p))" for p by (rule quiet_perform) simp
  then show ?case unfolding prune_entries.simps by (intro quiet_rules Cons.IH)
qed (simp only: prune_entries.simps quiet.ret)

lemma quiet_prune_slugs [quiet_rules]: "obeys quiet (prune_slugs dir active acc xs)"
proof (induction xs arbitrary: acc)
  case (Cons x xs)
  then show ?case unfolding prune_slugs.simps Let_def by (intro quiet_rules Cons.IH)
qed (simp only: prune_slugs.simps quiet.ret)

lemma quiet_down_each [quiet_rules]: "obeys quiet (down_each active acc ps)"
proof (induction ps arbitrary: acc)
  case (Cons p ps)
  have "obeys quiet (perform (compose_down p))" for p by (rule quiet_perform) (simp add: compose_down_def)
  then show ?case unfolding down_each.simps by (intro quiet_rules Cons.IH)
qed (simp only: down_each.simps quiet.ret)

lemma quiet_start [quiet_rules]:
  "obeys quiet (EnsureNetwork nm)" "obeys quiet (EnsureTraefik sha t)"
  "obeys quiet (PruneStaleWorktrees active)" "obeys quiet PruneComposeOrphans"
proof -
  have nets: "obeys quiet (perform (NetworkCreate a b c))" "obeys quiet (perform (ContainerCreate opts))"
      "obeys quiet (perform (ContainerStart x))" "obeys quiet (perform (ContainerStop x))"
      "obeys quiet (perform (ContainerRemove x))" "obeys quiet (perform (Output args))" for a b c opts x args
    by (rule quiet_perform, simp)+
  show "obeys quiet (EnsureNetwork nm)" unfolding EnsureNetwork_def
    by (intro quiet_rules nets) (auto split: docker_err.split intro!: quiet_rules nets)
  show "obeys quiet (EnsureTraefik sha t)" unfolding EnsureTraefik_def create_traefik_def Let_def
    by (intro quiet_rules nets) (auto split: docker_err.split intro!: quiet_rules nets)
  show "obeys quiet (PruneStaleWorktrees active)" unfolding PruneStaleWorktrees_def Let_def
    by (intro quiet_rules) (auto split: read_error.split intro!: quiet_rules)
  show "obeys quiet PruneComposeOrphans" unfolding PruneComposeOrphans_def by (intro quiet_rules nets)
qed

lemma start_of_spares: "set (listed_ids u) = set ids \<Longrightarrow> spares (listed_ids u) x \<Longrightarrow> start_effect wd ids x"
  by (cases x) auto

lemma start_of_removes: "removes wd (\<lambda>i. i \<notin> set ids) x \<Longrightarrow> start_effect wd ids x"
  by (auto simp: removes_def)

lemma restored_same:
  assumes "restored ids s t"
  shows "env t = env s" "workDir t = workDir s" "building t = building s" "inFlight t = inFlight s" "trace t = trace s"
    "moment s \<le> moment t" "repos t = repos s"
  using assms by (simp_all add: restored_def quiet_def sends_def same_jobs_def)

lemma startup_run:
  assumes entries: "entries_ok e" and wd: "WorkDir cfg \<noteq> []" and run: "agent_startup sha cfg (fresh_agent cfg e) = (r, s')"
  shows "r = Inr () \<and> (\<exists>n. list_all (start_effect (WorkDir cfg) (restorable e n)) (trace s') \<and>
     (\<forall>pid. map_of (jobs s') pid \<noteq> None \<longleftrightarrow> pid \<in> set (restorable e n))) \<and>
     has_ready s' \<and> inFlight s' = 0 \<and> building s' = [] \<and> files_ok s'"
proof -
  define s0 where "s0 = fresh_agent cfg e"
  define s1 where "s1 = snd (EnsureNetwork ''preview-net'' s0)"
  define s2 where "s2 = snd (EnsureTraefik sha (spec_of cfg) s1)"
  define s3 where "s3 = wire_runner cfg s2"
  define ids where "ids = restorable e (moment s3)"
  have q2: "quiet s0 s2" unfolding s1_def s2_def by (rule quiet.trans; rule obeys_apply; rule quiet_rules)
  have e2: "emits (start_effect (WorkDir cfg) ids) s0 s2" unfolding s1_def s2_def
    by (rule emits_trans; rule obeys_apply; rule start_network start_traefik)
  have s0: "env s0 = e" "workDir s0 = WorkDir cfg" "trace s0 = []" "jobs s0 = []" "repos s0 = []"
      "building s0 = []" "inFlight s0 = 0"
    by (simp_all add: s0_def fresh_agent_def)
  have s2: "env s2 = e" "workDir s2 = WorkDir cfg" "jobs s2 = []" "repos s2 = []" "building s2 = []" "inFlight s2 = 0"
      "list_all (start_effect (WorkDir cfg) ids) (trace s2)"
    using q2 e2 s0 by (auto simp: quiet_def sends_def same_jobs_def emits_def)
  have s3: "env s3 = e" "workDir s3 = WorkDir cfg" "jobs s3 = []" "repos s3 = []" "building s3 = []" "inFlight s3 = 0"
      "trace s3 = trace s2" "moment s3 = moment s2"
    using s2 by (simp_all add: s3_def wire_runner_def SetTraefikPort_def)
  obtain s4 where s4: "RestoreOrphans (AdvertiseHost cfg) s3 =
        (Inr (map_sum id (List.map_filter own_preview) (list_at e (moment s3) hub_label)), s4)" "restored ids s3 s4"
    using RestoreOrphans_run [of "AdvertiseHost cfg" s3] unfolding s3(1) ids_def restorable_def by blast
  define found where "found = map_sum id (List.map_filter own_preview) (list_at e (moment s3) hub_label)"
  have found: "(case found of Inl _ \<Rightarrow> [] | Inr xs \<Rightarrow> xs) = ids"
    by (simp add: found_def ids_def restorable_def split: sum.split)
  note same4 = restored_same [OF s4(2)]
  define s5 where "s5 = snd (PruneStaleWorktrees ids s4)"
  have "obeys quiet (PruneStaleWorktrees ids)" by (rule quiet_rules)
  then have q5: "quiet s4 s5" unfolding s5_def by (rule obeys_apply)
  have e5: "emits (start_effect (WorkDir cfg) ids) s4 s5"
    using prune_removes [of s4 ids "fst (PruneStaleWorktrees ids s4)" s5] same4 s3 entries wd start_of_removes
    by (auto simp: s5_def intro: emits_mono)
  define s6 where "s6 = snd (PruneComposeOrphans s5)"
  have q6: "quiet s5 s6" unfolding s6_def by (rule obeys_apply) (rule quiet_rules)
  have jobs4: "map_of (jobs s4) pid \<noteq> None \<longleftrightarrow> pid \<in> set ids" for pid
    using s4(2) s3(3) by (simp add: restored_def)
  have j5: "jobs s5 = jobs s4" "building s5 = []" using q5 same4 s3 by (simp_all add: quiet_def sends_def same_jobs_def)
  have "set (listed_ids s5) = set ids"
    using jobs4 j5 by (auto simp: set_listed_ids dom_map_of_conv_image_fst [symmetric] domIff simp del: not_None_eq)
  then have e6: "emits (start_effect (WorkDir cfg) ids) s5 s6"
    using PruneComposeOrphans_spares [of s5 "fst (PruneComposeOrphans s5)" s6] start_of_spares
    by (auto simp: s6_def intro: emits_mono)
  have step: "bindE (RestoreOrphans (AdvertiseHost cfg)) k s3 = k found s4" for k :: "docker_err + string list \<Rightarrow> unit run"
    by (rule bindE_step) (simp add: s4(1) found_def)
  have "agent_startup sha cfg s0 = (Inr (), SetMaxJobs (MaxJobs cfg) (s6\<lparr>has_ready := True\<rparr>))"
    using step found
    by (simp add: agent_startup_def s1_def s2_def s3_def s5_def s6_def modify_def)
  with run have s': "r = Inr ()" "s' = SetMaxJobs (MaxJobs cfg) (s6\<lparr>has_ready := True\<rparr>)"
    by (simp_all add: s0_def)
  from emits_trans [OF e5 e6] have "list_all (start_effect (WorkDir cfg) ids) (trace s6)" "repos s6 = []"
      "workDir s6 = WorkDir cfg" "jobs s6 = jobs s4"
    using same4 s3 s2(7) by (auto simp: emits_def)
  moreover have "inFlight s6 = 0" "building s6 = []"
    using q5 q6 same4 s3 by (simp_all add: quiet_def sends_def same_jobs_def)
  moreover have "\<forall>(pid, j) \<in> set (jobs s4). jb_mode j = buildModeDockerfile \<and> jb_repo j = []"
    using s4(2) s3(3) by (simp add: restored_def)
  ultimately show ?thesis using wd jobs4 unfolding s'
    by (auto simp: SetMaxJobs_def files_ok_def caches_ok_def job_ok_def ids_def buildModeDockerfile_def buildModeCompose_def
        simp del: not_None_eq)
qed

end
