(* ===== verification/DockerSdk.thy ===== *)
theory DockerSdk
  imports AgentWorld
begin

text \<open>
  cmd/agent/docker_sdk.go: how the options of the agent become those of the docker engine, and
  how the answers of the engine are read. The engine itself is not modelled.
\<close>

section \<open>Creating a container\<close>

record nat_binding =
  nb_ip :: string
  nb_port :: string

record engine_options =
  eo_image :: string
  eo_name :: string
  eo_labels :: "(string \<times> string) list"
  eo_cmd :: "string list"
  eo_env :: "string list"
  eo_exposed :: "string list"
  eo_bindings :: "(string \<times> nat_binding) list"
  eo_binds :: "string list"
  eo_network :: "string option"

definition port_key :: "PortBinding \<Rightarrow> string" where
  "port_key pb = itoa (pb_container pb) @ ''/'' @ (if pb_protocol pb = [] then ''tcp'' else pb_protocol pb)"

text \<open>Only container port 80 is bound on all interfaces.\<close>

definition bind_ip :: "PortBinding \<Rightarrow> string" where
  "bind_ip pb = (if pb_container pb = 80 then ''0.0.0.0'' else ''127.0.0.1'')"

text \<open>The loop over the port bindings; a later binding of a key replaces an earlier one.\<close>

fun bind_ports :: "PortBinding list \<Rightarrow> string list \<times> (string \<times> nat_binding) list \<Rightarrow> string list \<times> (string \<times> nat_binding) list" where
  "bind_ports [] acc = acc"
| "bind_ports (pb # pbs) (exposed, bindings) =
     bind_ports pbs
       (List.insert (port_key pb) exposed,
        if pb_host pb > 0
        then (port_key pb, \<lparr>nb_ip = bind_ip pb, nb_port = itoa (pb_host pb)\<rparr>) # filter (\<lambda>x. fst x \<noteq> port_key pb) bindings
        else bindings)"

definition engine_create :: "CreateOptions \<Rightarrow> engine_options" where
  "engine_create opts =
     (case bind_ports (co_ports opts) ([], []) of (exposed, bindings) \<Rightarrow>
       \<lparr>eo_image = co_image opts, eo_name = co_name opts, eo_labels = co_labels opts, eo_cmd = co_cmd opts,
        eo_env = co_env opts, eo_exposed = exposed, eo_bindings = bindings, eo_binds = co_volumes opts,
        eo_network = (case co_networks opts of [] \<Rightarrow> None | n # _ \<Rightarrow> Some n)\<rparr>)"

section \<open>Reading answers\<close>

text \<open>The filters of a listing: a key alone, or a key with its value.\<close>

definition label_filters :: "(string \<times> string) list \<Rightarrow> string list" where
  "label_filters fs = map (\<lambda>(k, v). if v = [] then k else k @ ''='' @ v) fs"

text \<open>
  The host port of an inspected container: that of \<open>80/tcp\<close> when it is bound to a number, or
  else the first number in the order in which the map of ports is visited.
\<close>

definition host_ports :: "(string \<Rightarrow> int option) \<Rightarrow> (string \<times> string list) list \<Rightarrow> (string \<times> int) list" where
  "host_ports atoi ports = List.map_filter (\<lambda>(k, hs).
     case hs of [] \<Rightarrow> None | h # _ \<Rightarrow> map_option (\<lambda>n. (k, n)) (atoi h)) ports"

definition inspect_port :: "(string \<Rightarrow> int option) \<Rightarrow> (string \<times> string list) list \<Rightarrow> int" where
  "inspect_port atoi ports =
     (case find (\<lambda>x. fst x = ''80/tcp'') (host_ports atoi ports) of
        Some (_, n) \<Rightarrow> n
      | None \<Rightarrow> (case host_ports atoi ports of [] \<Rightarrow> 0 | (_, n) # _ \<Rightarrow> n))"

text \<open>
  What the engine answers about a container: labels when it has a configuration, a status when
  it has a state, ports when it has network settings.
\<close>

record engine_container =
  ec_labels :: "(string \<times> string) list option"
  ec_status :: "string option"
  ec_ports :: "(string \<times> string list) list option"

datatype engine_err = EngineNotFound | EngineErr string

definition ContainerInspect ::
    "(string \<Rightarrow> int option) \<Rightarrow> engine_err + engine_container \<Rightarrow> docker_err + ContainerInspectResult" where
  "ContainerInspect atoi answer =
     (case answer of
        Inl EngineNotFound \<Rightarrow> Inl ErrDockerNotFound
      | Inl (EngineErr e) \<Rightarrow> Inl (DockerErr e)
      | Inr c \<Rightarrow> Inr
          \<lparr>in_host_port = (case ec_ports c of None \<Rightarrow> 0 | Some ports \<Rightarrow> inspect_port atoi ports),
           in_labels = (case ec_labels c of None \<Rightarrow> [] | Some ls \<Rightarrow> ls),
           in_status = (case ec_status c of None \<Rightarrow> [] | Some st \<Rightarrow> st)\<rparr>)"

definition NetworkInspect :: "engine_err + string \<times> string \<Rightarrow> docker_err + string \<times> string" where
  "NetworkInspect answer =
     (case answer of
        Inl EngineNotFound \<Rightarrow> Inl ErrDockerNotFound
      | Inl (EngineErr e) \<Rightarrow> Inl (DockerErr e)
      | Inr (i, driver) \<Rightarrow> Inr (i, driver))"

definition ContainerList :: "engine_err + (string \<times> (string \<times> string) list) list \<Rightarrow> engine_err + ContainerSummary list" where
  "ContainerList answer =
     (case answer of
        Inl e \<Rightarrow> Inl e
      | Inr cs \<Rightarrow> Inr (map (\<lambda>(i, ls). \<lparr>cs_id = i, cs_labels = ls\<rparr>) cs))"

section \<open>Building an image\<close>

text \<open>
  The steps of \<open>filepath.Walk\<close> below the build context, in order: a path relative to the root,
  \<open>/\<close>-separated, with whether it is a regular file and its content or the error of reading it;
  or an error of the walk itself. An archive is the list of its headers, with the content of
  regular files.
\<close>

datatype walk_step = WalkError string | Visit string bool "string + string"

fun tarDir :: "walk_step list \<Rightarrow> string + (string \<times> string option) list" where
  "tarDir [] = Inr []"
| "tarDir (WalkError e # ws) = Inl e"
| "tarDir (Visit rel regular content # ws) =
     (if rel = ''.'' then tarDir ws
      else case (if regular then map_sum id Some content else Inr None) of
        Inl e \<Rightarrow> Inl e
      | Inr c \<Rightarrow> (case tarDir ws of Inl e \<Rightarrow> Inl e | Inr tar \<Rightarrow> Inr ((rel, c) # tar)))"

record image_options =
  io_tags :: "string list"
  io_dockerfile :: string
  io_remove :: bool
  io_force_remove :: bool

definition dockertypesImageBuildOptions :: "string \<Rightarrow> string \<Rightarrow> image_options" where
  "dockertypesImageBuildOptions tag dockerfile =
     \<lparr>io_tags = [tag], io_dockerfile = dockerfile, io_remove = True, io_force_remove = True\<rparr>"

text \<open>
  The engine answers a request with an error or with a stream of messages, each of which may
  carry an error; the first one is the result of the build.
\<close>

definition drainBuildStream :: "string option list \<Rightarrow> string + unit" where
  "drainBuildStream msgs = (case List.map_filter id msgs of [] \<Rightarrow> Inr () | e # _ \<Rightarrow> Inl e)"

definition image_build ::
    "walk_step list \<Rightarrow> ((string \<times> string option) list \<Rightarrow> image_options \<Rightarrow> string + string option list) \<Rightarrow>
     string \<Rightarrow> string \<Rightarrow> string + unit" where
  "image_build walk engine tag dockerfile =
     (case tarDir walk of
        Inl e \<Rightarrow> Inl (''tar context: '' @ e)
      | Inr tar \<Rightarrow>
          (case engine tar (dockertypesImageBuildOptions tag (if dockerfile = [] then ''Dockerfile'' else dockerfile)) of
             Inl e \<Rightarrow> Inl e
           | Inr msgs \<Rightarrow> drainBuildStream msgs))"

lemma tarDir_Inr:
  "tarDir ws = Inr tar \<Longrightarrow>
     map fst tar = List.map_filter (\<lambda>w. case w of Visit rel _ _ \<Rightarrow> if rel = ''.'' then None else Some rel | _ \<Rightarrow> None) ws"
  by (induction ws arbitrary: tar rule: tarDir.induct)
    (auto simp: map_filter_simps split: if_splits sum.splits)

text \<open>A build succeeds only when the whole context was read and no message of the engine is an error.\<close>

lemma image_build_ok:
  assumes "image_build walk engine tag dockerfile = Inr ()"
  shows "\<exists>tar msgs. tarDir walk = Inr tar \<and> set msgs \<subseteq> {None} \<and>
    engine tar (dockertypesImageBuildOptions tag (if dockerfile = [] then ''Dockerfile'' else dockerfile)) = Inr msgs"
proof -
  have "set msgs \<subseteq> {None}" if "List.map_filter id msgs = []" for msgs :: "string option list"
    using that by (induction msgs) (auto simp: map_filter_simps split: option.splits)
  then show ?thesis
    using assms by (auto simp: image_build_def drainBuildStream_def split: sum.splits list.splits)
qed

section \<open>What is reachable from outside\<close>

definition public_bindings :: "engine_options \<Rightarrow> (string \<times> string) list" where
  "public_bindings eo = map (\<lambda>(k, b). (k, nb_port b)) (filter (\<lambda>(k, b). nb_ip b = ''0.0.0.0'') (eo_bindings eo))"

lemma bind_ports_sound:
  "bind_ports pbs (ex, bs) = (ex', bs') \<Longrightarrow> (k, b) \<in> set bs' \<Longrightarrow>
     (k, b) \<in> set bs \<or> (\<exists>pb \<in> set pbs. k = port_key pb \<and> pb_host pb > 0 \<and>
       b = \<lparr>nb_ip = bind_ip pb, nb_port = itoa (pb_host pb)\<rparr>)"
proof (induction pbs arbitrary: ex bs)
  case (Cons pb pbs)
  from Cons.IH [OF Cons.prems(1) [unfolded bind_ports.simps] Cons.prems(2)] show ?case
    by (auto split: if_splits)
qed simp

lemma no_host_port:
  "\<forall>pb \<in> set pbs. pb_host pb \<le> 0 \<Longrightarrow> snd (bind_ports pbs (ex, bs)) = bs"
  by (induction pbs arbitrary: ex) auto

end
