(* ===== verification/AgentProperties.thy ===== *)
theory AgentProperties
  imports AgentMain DockerSdk
begin

text \<open>
  The properties of the agent, each a corollary of the laws of its component, and for each
  property with a hypothesis an agent to which it applies.
\<close>

section \<open>A sample agent\<close>

text \<open>One service in the configuration, a Dockerfile, and a world in which every effect succeeds.\<close>

definition demo_raw :: rawPreviewConfig where
  "demo_raw = \<lparr>raw_compose = [], raw_dockerfile = [],
     raw_services = [(''web'', \<lparr>raw_port = 3000, raw_path = ''/'', raw_strip = None\<rparr>)]\<rparr>"

definition demo_env :: agent_env where
  "demo_env = \<lparr>answers = (\<lambda>_ _. Inr ''ok''), stat_at = (\<lambda>_ _. RegularFile), read_at = (\<lambda>_ _. Inr ''yaml''),
     readdir_at = (\<lambda>_ _. Inl NotExist), inspect_at = (\<lambda>_ _. Inl ErrDockerNotFound),
     list_at = (\<lambda>_ _. Inr [\<lparr>cs_id = ''c9'', cs_labels = [(''hub-preview-id'', ''p9'')]\<rparr>]),
     network_at = (\<lambda>_ _. Inr ''bridge''), routers_at = (\<lambda>_ _. Inr (200, Inr ''enabled'')),
     elapsed_at = (\<lambda>_. 0), ctx_at = (\<lambda>_. None), read_yaml = (\<lambda>_. Inr demo_raw), write_yaml = (\<lambda>_. Inr ''y''),
     compose_json = (\<lambda>_. Inr []), with_token = (\<lambda>_ _. None)\<rparr>"

definition demo_config :: Config where
  "demo_config = \<lparr>HubURL = ''ws://h'', cfg_token = ''agt_1'', AdvertiseHost = ''10.0.0.1'', LogLevel = ''info'',
     WorkDir = ''/w'', PrefetchInterval = 0, MaxJobs = 2, TraefikPort = 8080, TraefikImage = ''traefik:v3.1'',
     TraefikAPIPort = 9080, RouterReadyTimeout = 0, GitHubToken = []\<rparr>"

definition demo_agent :: agent where
  "demo_agent = (fresh_agent demo_config demo_env)\<lparr>online := True, has_ready := True, maxJobs := 2\<rparr>"

definition demo_job :: JobAssignData where
  "demo_job = \<lparr>ja_preview = ''p1'', ja_repo = ''o/r'', ja_url = ''https://github.com/o/r.git'', ja_sha = ''abc'',
     ja_branch = ''main'', ja_labels = [], ja_env = []\<rparr>"

lemmas demo_defs = demo_agent_def fresh_agent_def demo_config_def demo_env_def

lemma demo_simps [simp]:
  "\<not> a_paused demo_agent" "online demo_agent" "jobs demo_agent = []" "building demo_agent = []" "trace demo_agent = []"
  "inFlight demo_agent = 0" "workDir demo_agent = ''/w''" "repos demo_agent = []" "env demo_agent = demo_env"
  "moment demo_agent = 0" "has_ready demo_agent" "maxJobs demo_agent = 2" "frames demo_agent = []"
  by (simp_all add: demo_defs frames_def)

lemma demo_files_ok [simp]: "files_ok demo_agent"
  by (simp add: files_ok_def caches_ok_def)

lemma demo_url_ok [simp]: "url_ok ''https://github.com/o/r.git''"
  unfolding url_ok_def RepoSlug_samples(1) by simp

lemma demo_takes_ready [simp]: "takes_ready demo_agent" "free_slots demo_agent = 2"
  by (simp_all add: takes_ready_def free_slots_def limit_def) (simp add: demo_env_def)

section \<open>Jobs\<close>

lemma Handle_reports:
  assumes "\<not> a_paused s" and "Handle msg s = (r, s')"
  shows "\<exists>reports k.
    frames s' = frames s @ (if online s then map StatusUpdate reports @ readies k else []) \<and>
    (\<forall>d \<in> set reports. su_preview d = ja_preview msg) \<and> su_sha (last reports) = None \<and>
    hd reports = building_report (ja_preview msg) \<and>
    (case r of
       Inl e \<Rightarrow> jobs s' = jobs s \<and> su_error (last reports) = Some e \<and>
         map su_status reports \<in> {[''building'', ''failed''], [''building'', ''building'', ''failed'']}
     | Inr _ \<Rightarrow> map su_status reports = [''building'', ''building'', ''running''] \<and>
         (\<exists>job. jobs s' = map_store (ja_preview msg) job (jobs s) \<and> jb_repo job = ja_url msg)) \<and>
    int k \<le> free_slots s \<and> (takes_ready s \<longrightarrow> int k = free_slots s) \<and>
    inFlight s' = inFlight s \<and> building s' = removeAll (ja_preview msg) (building s)"
proof -
  let ?pid = "ja_preview msg"
  from Handle_run [OF assms] obtain k where out: "job_outcome msg r (readies k) s s'"
    and k: "int k \<le> free_slots s" "takes_ready s \<longrightarrow> int k = free_slots s" by blast
  have report: "su_preview (building_report ?pid) = ?pid" "su_preview (sha_report ?pid sha) = ?pid"
      "su_preview (failed_report ?pid reason e) = ?pid" "su_preview (running_report ?pid cid h p us) = ?pid"
      "su_status (building_report ?pid) = ''building''" "su_status (sha_report ?pid sha) = ''building''"
      "su_status (failed_report ?pid reason e) = ''failed''" "su_status (running_report ?pid cid h p us) = ''running''"
      "su_error (failed_report ?pid reason e) = Some e" "su_sha (failed_report ?pid reason e) = None"
      "su_sha (running_report ?pid cid h p us) = None" for sha reason e cid h p us
    by (simp_all add: building_report_def sha_report_def failed_report_def running_report_def status_report_def)
  show ?thesis
  proof (cases r)
    case (Inl e)
    then obtain reason shas where len: "length shas \<le> 1" and
      sent: "sends (StatusUpdate (building_report ?pid) # map (\<lambda>sha. StatusUpdate (sha_report ?pid sha)) shas @
         StatusUpdate (failed_report ?pid reason e) # readies k) (s\<lparr>building := removeAll ?pid (building s)\<rparr>) s'"
      using out unfolding job_outcome_def Let_def Inl sum.case by blast
    let ?reports = "building_report ?pid # map (sha_report ?pid) shas @ [failed_report ?pid reason e]"
    have "frames s' = frames s @ (if online s then map StatusUpdate ?reports @ readies k else [])"
      using sent by (simp add: sends_def frames_def comp_def)
    moreover have "map su_status ?reports \<in> {[''building'', ''failed''], [''building'', ''building'', ''failed'']}"
      using len report by (cases shas) auto
    moreover have "jobs s' = jobs s" "inFlight s' = inFlight s" "building s' = removeAll ?pid (building s)"
      using sent by (simp_all add: sends_def same_jobs_def)
    ultimately show ?thesis using k report Inl
      by (intro exI [of _ ?reports] exI [of _ k]) auto
  next
    case (Inr u)
    then obtain sha worktree cfg cid and files :: "string \<times> string \<times> string" where
      sent: "sends (StatusUpdate (building_report ?pid) # StatusUpdate (sha_report ?pid sha) #
          StatusUpdate (running_report ?pid cid (advHost s) (traefikPort s)
            (PreviewURLs ?pid cfg (advHost s) (traefikPort s))) # readies k)
        (s\<lparr>jobs := map_store ?pid (new_job s msg worktree cid (snd (snd files)) (fst files)) (jobs s),
           building := removeAll ?pid (building s)\<rparr>) s'"
      using out unfolding job_outcome_def Let_def Inr sum.case by blast
    let ?reports = "[building_report ?pid, sha_report ?pid sha,
      running_report ?pid cid (advHost s) (traefikPort s) (PreviewURLs ?pid cfg (advHost s) (traefikPort s))]"
    let ?job = "new_job s msg worktree cid (snd (snd files)) (fst files)"
    have "frames s' = frames s @ (if online s then map StatusUpdate ?reports @ readies k else [])"
      using sent by (simp add: sends_def frames_def)
    moreover have "jobs s' = map_store ?pid ?job (jobs s)" "jb_repo ?job = ja_url msg"
        "inFlight s' = inFlight s" "building s' = removeAll ?pid (building s)"
      using sent by (simp_all add: sends_def same_jobs_def new_job_def)
    ultimately show ?thesis using k report Inr
      by (intro exI [of _ ?reports] exI [of _ k]) auto
  qed
qed

text \<open>C4: a job the agent accepts is reported in order: building before anything is done, then
  at most one further building report, and last either running, exactly when the job is
  registered, or failed with the error returned, and then the jobs are as they were. All reports
  are about the preview of the job; after them the agent announces at most its free slots, and
  all of them when nothing hinders it. The slot of the job is given back in either case.\<close>

theorem job_protocol:
  assumes "\<not> a_paused s" and "Handle msg s = (r, s')"
  shows "\<exists>reports k.
    frames s' = frames s @ (if online s then map StatusUpdate reports @ readies k else []) \<and>
    (\<forall>d \<in> set reports. su_preview d = ja_preview msg) \<and>
    hd reports = building_report (ja_preview msg) \<and>
    (case r of
       Inl e \<Rightarrow> jobs s' = jobs s \<and> su_error (last reports) = Some e \<and>
         map su_status reports \<in> {[''building'', ''failed''], [''building'', ''building'', ''failed'']}
     | Inr _ \<Rightarrow> map su_status reports = [''building'', ''building'', ''running''] \<and>
         (\<exists>job. jobs s' = map_store (ja_preview msg) job (jobs s) \<and> jb_repo job = ja_url msg)) \<and>
    int k \<le> free_slots s \<and> (takes_ready s \<longrightarrow> int k = free_slots s) \<and>
    inFlight s' = inFlight s \<and> building s' = removeAll (ja_preview msg) (building s)"
  using Handle_reports [OF assms] by blast

theorem job_protocol_witness:
  "\<exists>reports rest. frames (snd (Handle demo_job demo_agent)) = map StatusUpdate reports @ rest \<and>
     hd reports = building_report ''p1'' \<and> su_status (last reports) \<in> {''failed'', ''running''}"
proof -
  obtain r s' where run: "Handle demo_job demo_agent = (r, s')" by fastforce
  from job_protocol [OF demo_simps(1) run] obtain reports k where
      sent: "frames s' = frames demo_agent @ (if online demo_agent then map StatusUpdate reports @ readies k else [])"
      and first: "hd reports = building_report (ja_preview demo_job)"
      and cases: "case r of
         Inl e \<Rightarrow> jobs s' = jobs demo_agent \<and> su_error (last reports) = Some e \<and>
           map su_status reports \<in> {[''building'', ''failed''], [''building'', ''building'', ''failed'']}
       | Inr _ \<Rightarrow> map su_status reports = [''building'', ''building'', ''running''] \<and>
           (\<exists>job. jobs s' = map_store (ja_preview demo_job) job (jobs demo_agent) \<and> jb_repo job = ja_url demo_job)"
    by (elim exE conjE) (rule that)
  have status: "map su_status reports \<in> {[''building'', ''failed''], [''building'', ''building'', ''failed''],
      [''building'', ''building'', ''running'']}"
    using cases by (cases r) auto
  have "frames s' = map StatusUpdate reports @ readies k" "hd reports = building_report ''p1''"
    using sent first by (simp_all add: demo_job_def)
  moreover from status have "su_status (last reports) \<in> {''failed'', ''running''}"
    by (cases reports rule: rev_cases) auto
  ultimately show ?thesis using run by auto
qed

text \<open>C18: a teardown always ends with the report that the preview is done, and the agent has
  forgotten the job: whatever docker or git answer, and also when there was no such job.\<close>

theorem teardown_done:
  "jobs (snd (Teardown pid s)) = map_delete pid (jobs s) \<and>
   frames (snd (Teardown pid s)) = frames s @ (if online s then [StatusUpdate (done_report pid)] else []) \<and>
   inFlight (snd (Teardown pid s)) = inFlight s"
  using Teardown_run [of pid s "fst (Teardown pid s)" "snd (Teardown pid s)"]
  by (simp add: sends_def same_jobs_def frames_def)

section \<open>Files\<close>

text \<open>The previews that the messages of a connection name.\<close>

definition named_previews :: "envelope option list \<Rightarrow> string list" where
  "named_previews inbox = concat (map (\<lambda>m. case m of
     Some (JobAssign d) \<Rightarrow> [ja_preview d] | Some (JobTeardown pid) \<Rightarrow> [pid] | _ \<Rightarrow> []) inbox)"

text \<open>Repositories with a directory of their own, and ids that are no paths.\<close>

definition sane_message :: "envelope option \<Rightarrow> bool" where
  "sane_message m \<longleftrightarrow> (case m of
     Some (JobAssign d) \<Rightarrow> url_ok (ja_url d) \<and> CHR ''/'' \<notin> set (ja_preview d) | _ \<Rightarrow> True)"

lemma tidy_dispatch:
  assumes "sane_message (Some m)" and "\<forall>pid \<in> set (named_previews [Some m]). ids pid"
  shows "obeys (tidy ids) (dispatchMessage m)"
proof (cases m)
  case (JobAssign d)
  with assms have "obeys (tidy ids) (Handle d)" by (intro tidy_Handle) (simp_all add: sane_message_def named_previews_def)
  then show ?thesis by (simp add: JobAssign dispatchMessage_def obeys_logged)
next
  case (JobTeardown pid)
  with assms have "obeys (tidy ids) (Teardown pid)" by (intro tidy_Teardown) (simp add: named_previews_def)
  then show ?thesis by (simp add: JobTeardown dispatchMessage_def obeys_logged)
qed (simp_all add: dispatchMessage_def tidy.ret)

lemma tidy_read_loop:
  assumes "list_all sane_message inbox" and "\<forall>pid \<in> set (named_previews inbox). ids pid"
  shows "obeys (tidy ids) (read_loop inbox)"
  using assms
proof (induction inbox)
  case (Cons m inbox)
  have rest: "obeys (tidy ids) (read_loop inbox)" using Cons by (simp add: named_previews_def)
  show ?case
  proof (cases m)
    case None
    with rest show ?thesis by simp
  next
    case (Some e)
    have "obeys (tidy ids) (dispatchMessage e)"
      using Cons.prems by (intro tidy_dispatch) (simp_all add: Some named_previews_def)
    with rest show ?thesis by (simp add: Some tidy.bindE)
  qed
qed (simp only: read_loop.simps tidy.ret)

text \<open>Over all messages of a connection the agent deletes nothing but worktrees of the
  previews they name, and writes and removes files only directly inside such worktrees; what it
  knows of its caches and jobs stays right.\<close>

lemma agent_confined:
  assumes "files_ok s" and "list_all sane_message inbox" and "read_loop inbox s = (r, s')"
  shows "files_ok s' \<and> (\<exists>new. trace s' = trace s @ new \<and>
    list_all (confined (workDir s) (\<lambda>i. i \<in> set (named_previews inbox))) new)"
proof -
  have "obeys (tidy (\<lambda>i. i \<in> set (named_previews inbox))) (read_loop inbox)"
    by (rule tidy_read_loop [OF assms(2)]) simp
  from obeysD [OF this assms(3)] assms(1) show ?thesis by (simp add: tidy_def)
qed

lemma agent_confined_witness:
  "list_all (confined ''/w'' (\<lambda>i. i \<in> {''p1'', ''p2''}))
     (trace (snd (read_loop [Some (JobAssign demo_job), None, Some (JobTeardown ''p2'')] demo_agent)))"
proof -
  have "list_all sane_message [Some (JobAssign demo_job), None, Some (JobTeardown ''p2'')]"
    by (simp add: sane_message_def demo_job_def)
  from agent_confined [OF demo_files_ok this surjective_pairing] show ?thesis
    by (simp add: named_previews_def demo_job_def)
qed

definition fetch_args :: "RepoCache \<Rightarrow> string list" where
  "fetch_args c = git c [''fetch'', ''--prune'', gitURL c, ''+refs/heads/*:refs/remotes/origin/*'']"

definition verify_args :: "RepoCache \<Rightarrow> string \<Rightarrow> string list" where
  "verify_args c sha = git c [''rev-parse'', ''--verify'', sha @ ''^{commit}'']"

lemma resolve_known:
  assumes "sha \<noteq> []" and "resolve_sha c sha branch s = (Inr x, t)"
  shows "x = sha \<and> (\<exists>new. trace t = trace s @ new \<and>
    (answers (env s) (moment s) (Exec (verify_args c sha)) \<in> range Inr \<longrightarrow> new = [Exec (verify_args c sha)]))"
proof -
  let ?v = "Exec (verify_args c sha)"
  define u where "u = s\<lparr>trace := trace s @ [?v], moment := Suc (moment s)\<rparr>"
  have v: "verify_sha c sha s = (answers (env s) (moment s) ?v, u)"
    by (simp add: verify_sha_def verify_args_def perform_def u_def)
  show ?thesis
  proof (cases "answers (env s) (moment s) ?v")
    case (Inr y)
    then have "x = sha" "t = u" using assms v by (simp_all add: resolve_sha_def)
    then show ?thesis by (simp add: u_def)
  next
    case (Inl e)
    then have run: "bindE (wrap_fetch c) (\<lambda>_. bindE (wrap (''repocache.Checkout: sha '' @ sha @ '' not found after fetch'')
        (verify_sha c sha)) (\<lambda>_. ret sha)) u = (Inr x, t)"
      using assms v by (simp add: resolve_sha_def)
    have fetches: "obeys (emits (\<lambda>_. True)) (wrap_fetch c)" "obeys (emits (\<lambda>_. True)) (wrap p (verify_sha c sha))" for p
      unfolding wrap_fetch_def verify_sha_def fetch_def by (intro emit_rules emits_perform; simp)+
    have "obeys (emits (\<lambda>_. True)) (bindE (wrap_fetch c) (\<lambda>_. bindE (wrap (''repocache.Checkout: sha '' @ sha @ '' not found after fetch'')
        (verify_sha c sha)) (\<lambda>_. ret sha)))" by (intro emit_rules fetches)
    from obeysD [OF this run] obtain new where "trace t = trace u @ new" by (auto simp: emits_def)
    moreover have "x = sha" using run by (auto simp: bindE_Inr)
    ultimately show ?thesis using Inl by (auto simp: u_def)
  qed
qed


lemma demo_checkout:
  "\<exists>path s'. Checkout ''https://github.com/o/r.git'' ''p1'' ''abc'' ''main'' demo_agent = (Inr path, s')"
proof -
  have ok: "perform e s = (Inr ''ok'', s\<lparr>trace := trace s @ [e], moment := Suc (moment s)\<rparr>)"
    if "env s = demo_env" for e and s :: agent
    using that by (simp add: perform_def demo_env_def)
  show ?thesis
    by (simp add: Checkout_def getOrCreate_def rc_Checkout_def resolve_sha_def verify_sha_def Let_def stat_path_def
        bindE_def ok wrap_def catchE_def logged_def observe_def attempt_def)
qed


section \<open>Configuration and routing\<close>

text \<open>C11: the configuration of a repository is accepted exactly when its file is found, read and
  parsed, its build files exist, it names a service, and every service is well-formed: a legal
  name, a port in range, a path from the root that no other service has.\<close>

theorem config_accepted:
  "LoadPreviewConfig yaml stat read worktree = Inr c \<longleftrightarrow>
     (\<exists>path data raw. findConfigFile stat worktree = Some path \<and> read path = Inr data \<and> yaml data = Inr raw \<and>
        (\<forall>f \<in> {raw_compose raw, raw_dockerfile raw}. f \<noteq> [] \<longrightarrow> buildFileExists stat worktree f) \<and>
        raw_services raw \<noteq> [] \<and> valid_services (pc_services c) \<and>
        pc_compose c = raw_compose raw \<and> pc_dockerfile c = raw_dockerfile raw \<and>
        pc_services c = map (\<lambda>nm. (nm, service_of (the (map_of (raw_services raw) nm)))) (sorted_keys (raw_services raw)))"
proof -
  have sum: "map_sum ConfigInvalid (\<lambda>c. c) v = Inr c \<longleftrightarrow> v = Inr c" for v by (cases v) auto
  show ?thesis
    by (auto simp: LoadPreviewConfig_def sum validate_config_Inr split: option.split sum.split read_error.split)
qed

theorem config_accepted_witness:
  "\<exists>c. LoadPreviewConfig (\<lambda>_. Inr demo_raw) (\<lambda>_. RegularFile) (\<lambda>_. Inr ''yaml'') ''/w'' = Inr c \<and>
     map_of (pc_services c) ''web'' = Some \<lparr>svc_port = 3000, svc_path = ''/'', svc_strip = True\<rparr>"
proof -
  let ?c = "\<lparr>pc_compose = [], pc_dockerfile = [],
     pc_services = [(''web'', \<lparr>svc_port = 3000, svc_path = ''/'', svc_strip = True\<rparr>)]\<rparr>"
  have "LoadPreviewConfig (\<lambda>_. Inr demo_raw) (\<lambda>_. RegularFile) (\<lambda>_. Inr ''yaml'') ''/w'' = Inr ?c"
    unfolding config_accepted
    by (simp add: demo_raw_def findConfigFile_def sorted_keys_def service_of_def valid_services_def service_ok_def
        serviceNamePattern_def service_char_def is_lower_def has_prefix_def Let_def)
  then show ?thesis by simp
qed

text \<open>C35: no two services that are routed at the same time have the same rule: neither two of one
  preview nor those of different previews.\<close>

theorem routes_distinct:
  assumes "LoadPreviewConfig y st rd wt = Inr cfg" and "LoadPreviewConfig y' st' rd' wt' = Inr cfg'"
    and "CHR ''/'' \<notin> set pid" and "CHR ''/'' \<notin> set pid'" and "pid = pid' \<longrightarrow> cfg = cfg'"
    and "(nm, svc) \<in> set (pc_services cfg)" and "(nm', svc') \<in> set (pc_services cfg')"
    and "(pid, nm) \<noteq> (pid', nm')"
  shows "route_rule (fullPath pid svc) \<noteq> route_rule (fullPath pid' svc')"
proof
  assume "route_rule (fullPath pid svc) = route_rule (fullPath pid' svc')"
  then have path: "fullPath pid svc = fullPath pid' svc'" by simp
  have ok: "valid_services (pc_services cfg)" "valid_services (pc_services cfg')"
    using assms(1,2) unfolding config_accepted by blast+
  then have "has_prefix (svc_path svc) ''/''" "has_prefix (svc_path svc') ''/''"
    using assms(6,7) by (auto simp: valid_services_def service_ok_def)
  from fullPath_inject [OF assms(3,4) this path] have same: "pid = pid'" "svc_path svc = svc_path svc'" by simp_all
  with assms(5) have "cfg' = cfg" by simp
  moreover have "inj_on (svc_path \<circ> snd) (set (pc_services cfg))"
    using ok(1) unfolding valid_services_def distinct_map by blast
  ultimately have "(nm, svc) = (nm', svc')"
    using assms(6,7) same(2) inj_onD [of "svc_path \<circ> snd" "set (pc_services cfg)" "(nm, svc)" "(nm', svc')"] by simp
  with same assms(8) show False by simp
qed

lemma demo_config_loads:
  "LoadPreviewConfig (\<lambda>_. Inr demo_raw) (\<lambda>_. RegularFile) (\<lambda>_. Inr ''yaml'') ''/w'' =
     Inr \<lparr>pc_compose = [], pc_dockerfile = [],
       pc_services = [(''web'', \<lparr>svc_port = 3000, svc_path = ''/'', svc_strip = True\<rparr>)]\<rparr>"
  by (simp add: LoadPreviewConfig_def findConfigFile_def validate_config_def demo_raw_def sorted_keys_def service_of_def
      check_service_def serviceNamePattern_def service_char_def is_lower_def Let_def)

theorem routes_distinct_witness:
  "route_rule (fullPath ''p1'' \<lparr>svc_port = 3000, svc_path = ''/'', svc_strip = True\<rparr>) \<noteq>
   route_rule (fullPath ''p2'' \<lparr>svc_port = 3000, svc_path = ''/'', svc_strip = True\<rparr>)"
  by (rule routes_distinct [OF demo_config_loads demo_config_loads, of _ _ "''web''" _ "''web''"]) simp_all

lemma FirstService_lookup:
  assumes "FirstService c = Some (nm, svc)"
  shows "map_of (pc_services c) nm = Some svc"
proof -
  obtain ks where keys: "sorted_keys (pc_services c) = nm # ks" and svc: "svc = the (map_of (pc_services c) nm)"
    using assms by (auto simp: FirstService_def split: list.splits)
  then have "nm \<in> fst ` set (pc_services c)" by (metis list.set_intros(1) sorted_keys_facts(1))
  with svc show ?thesis by (metis domIff dom_map_of_conv_image_fst option.collapse)
qed

text \<open>What a successful build has asked of docker.\<close>

lemma handleCompose_effects:
  assumes "handleCompose pid wt cf cfg s = (Inr cid, s')"
  shows "\<exists>data. write_yaml (env s) (ComposeOverride pid cfg) = Inr data \<and>
    trace s' = trace s @ [WriteFile (override_path wt pid) data,
      Exec [''docker'', ''compose'', ''-f'', cf, ''-f'', override_path wt pid, ''--project-name'', projectName pid, ''up'', ''-d'']]"
  using assms by (auto simp: handleCompose_def ComposeOverrideYAML_def or_fail_Inr bindE_Inr prog_elims lift_result_def
      split: sum.splits)

lemma handleDockerfile_effects:
  assumes "handleDockerfile pid wt cfg s = (Inr cid, s')"
  shows "\<exists>nm svc. FirstService cfg = Some (nm, svc) \<and>
    trace s' = trace s @ [ImageBuild wt (projectName pid @ '':latest''), ContainerCreate (preview_options pid nm svc), ContainerStart cid]"
  using assms
  by (auto simp: handleDockerfile_def or_fail_Inr bindE_Inr prog_elims fail_run perform_def split: option.splits sum.splits)
    (metis sum.exhaust)

definition rule_label :: "string \<Rightarrow> string \<Rightarrow> string" where
  "rule_label pid nm = ''traefik.http.routers.'' @ routerName pid nm @ ''.rule''"

lemma ServiceLabels_rule_only:
  "map_of (ServiceLabels pid nm svc) (rule_label pid nm') = (if nm' = nm then Some (route_rule (fullPath pid svc)) else None)"
proof -
  have "routerName pid nm' @ ''.rule'' \<noteq> routerName pid nm @ x" if "last x \<noteq> CHR ''e''" "x \<noteq> []" for x
  proof
    assume "routerName pid nm' @ ''.rule'' = routerName pid nm @ x"
    then have "last (routerName pid nm' @ ''.rule'') = last (routerName pid nm @ x)" by simp
    with that show False by simp
  qed
  from this [of "''.entrypoints''"] this [of "''.middlewares''"]
  have ends: "routerName pid nm' @ ''.rule'' \<noteq> routerName pid nm @ ''.entrypoints''"
    "routerName pid nm' @ ''.rule'' \<noteq> routerName pid nm @ ''.middlewares''" by simp_all
  have same: "routerName pid nm' = routerName pid nm \<longleftrightarrow> nm' = nm" by (simp add: routerName_def)
  show ?thesis
    unfolding ServiceLabels_def Let_def rule_label_def by (cases "svc_strip svc") (simp_all add: ends same)
qed

lemma override_lines:
  assumes "map_of (pc_services cfg) nm = Some svc"
  shows "\<exists>lines. (nm, [traefikNetwork], lines) \<in> set (ov_services (ComposeOverride pid cfg)) \<and>
    (\<forall>k v. map_of (ServiceLabels pid nm svc) k = Some v \<longrightarrow> k @ ''='' @ v \<in> set lines)"
proof -
  have "nm \<in> fst ` set (pc_services cfg)" using assms by (metis fst_conv image_eqI map_of_SomeD)
  then have enabled: "(nm, [traefikNetwork], label_lines (ServiceLabels pid nm svc)) \<in> set (ov_services (ComposeOverride pid cfg))"
    using assms by (auto simp: ComposeOverride_def intro!: rev_image_eqI [of nm] simp del: image_image)
  have lines: "k @ ''='' @ v \<in> set (label_lines m)" if "map_of m k = Some v" for m k v
  proof -
    have "k \<in> fst ` set m" using that by (metis fst_conv image_eqI map_of_SomeD)
    with that show ?thesis by (auto simp: label_lines_def intro!: rev_image_eqI [of k])
  qed
  with enabled show ?thesis by blast
qed

text \<open>C36: every URL reported for a preview is the address of the agent followed by exactly the
  path of its service, and a successful build has told Traefik to route this path to the service.
  With compose the override file written before \<open>up\<close> enables the service in Traefik's network,
  with the rule of this path and the port of the service among its labels. Built from a
  Dockerfile, the preview is one container with the rule of its first service: the URLs of the
  other services are reported all the same, and no label routes them.\<close>

theorem urls_are_routed:
  assumes "map_of (PreviewURLs pid cfg host port) nm = Some url" and "build pid wt cfg files s = (Inr cid, s')"
  shows "\<exists>svc new. map_of (pc_services cfg) nm = Some svc \<and> trace s' = trace s @ new \<and>
    url = ''http://'' @ (if host = [] then ''127.0.0.1'' else host) @ '':'' @ itoa port @ fullPath pid svc \<and>
    (if snd (snd files) = buildModeCompose
     then (\<exists>ov data lines. write_yaml (env s) ov = Inr data \<and>
        new = [WriteFile (override_path wt pid) data, Exec [''docker'', ''compose'', ''-f'', fst files, ''-f'', override_path wt pid,
          ''--project-name'', ''preview-'' @ pid, ''up'', ''-d'']] \<and>
        (nm, [''preview-net''], lines) \<in> set (ov_services ov) \<and>
        {''traefik.enable=true'', rule_label pid nm @ ''=PathPrefix(`'' @ fullPath pid svc @ ''`)'',
         ''traefik.http.services.'' @ routerName pid nm @ ''.loadbalancer.server.port='' @ itoa (svc_port svc)} \<subseteq> set lines)
     else (\<exists>opts. {opts. ContainerCreate opts \<in> set new} = {opts} \<and> co_networks opts = [''preview-net''] \<and>
        map_of (co_labels opts) ''traefik.enable'' = Some ''true'' \<and>
        map_of (co_labels opts) (rule_label pid nm) =
          (if map_option fst (FirstService cfg) = Some nm then Some (''PathPrefix(`'' @ fullPath pid svc @ ''`)'') else None)))"
proof -
  from assms(1) obtain svc where svc: "map_of (pc_services cfg) nm = Some svc"
      "url = url_of (if host = [] then ''127.0.0.1'' else host) port pid svc"
    unfolding PreviewURLs_lookup by blast
  obtain cf df mode where files: "files = (cf, df, mode)" by (metis prod.exhaust)
  show ?thesis
  proof (cases "mode = buildModeCompose")
    case True
    with assms(2) have "handleCompose pid wt cf cfg s = (Inr cid, s')" by (simp add: build_def files)
    from handleCompose_effects [OF this] obtain data where data: "write_yaml (env s) (ComposeOverride pid cfg) = Inr data"
      and new: "trace s' = trace s @ [WriteFile (override_path wt pid) data, Exec [''docker'', ''compose'', ''-f'', cf, ''-f'',
        override_path wt pid, ''--project-name'', projectName pid, ''up'', ''-d'']]" by blast
    from override_lines [OF svc(1), of pid] obtain lines where
      lines: "(nm, [traefikNetwork], lines) \<in> set (ov_services (ComposeOverride pid cfg))"
        "\<And>k v. map_of (ServiceLabels pid nm svc) k = Some v \<Longrightarrow> k @ ''='' @ v \<in> set lines" by blast
    have "map_of (ServiceLabels pid nm svc) ''traefik.enable'' = Some ''true''"
      "map_of (ServiceLabels pid nm svc) (rule_label pid nm) = Some (route_rule (fullPath pid svc))"
      "map_of (ServiceLabels pid nm svc) (''traefik.http.services.'' @ routerName pid nm @ ''.loadbalancer.server.port'') =
         Some (itoa (svc_port svc))"
      by (simp_all add: ServiceLabels_rule_only) (simp_all add: ServiceLabels_def Let_def)
    from this [THEN lines(2)] lines(1) data new svc True show ?thesis
      by (intro exI [of _ svc] exI conjI [OF svc(1)] conjI [OF new])
        (auto simp: files url_path route_rule_def traefikNetwork_def projectName_def intro!: exI [of _ "ComposeOverride pid cfg"] exI [of _ lines])
  next
    case False
    with assms(2) have "handleDockerfile pid wt cfg s = (Inr cid, s')" by (simp add: build_def files)
    from handleDockerfile_effects [OF this] obtain n1 s1 where first: "FirstService cfg = Some (n1, s1)"
      and new: "trace s' = trace s @ [ImageBuild wt (projectName pid @ '':latest''),
        ContainerCreate (preview_options pid n1 s1), ContainerStart cid]" by blast
    have "s1 = svc" if "n1 = nm" using that first svc(1) FirstService_lookup by force
    moreover have "rule_label pid nm \<noteq> ''hub-preview-id''" by (simp add: rule_label_def)
    ultimately have "map_of (co_labels (preview_options pid n1 s1)) (rule_label pid nm) =
        (if n1 = nm then Some (route_rule (fullPath pid svc)) else None)"
      by (auto simp: preview_options_def map_store_def map_of_delete ServiceLabels_rule_only)
    moreover have "co_networks (preview_options pid n1 s1) = [''preview-net'']"
      "map_of (co_labels (preview_options pid n1 s1)) ''traefik.enable'' = Some ''true''"
      by (simp_all add: preview_options_def traefikNetwork_def map_store_def map_of_delete ServiceLabels_def Let_def)
    ultimately show ?thesis using first False
      by (intro exI [of _ svc] exI [of _ "[ImageBuild wt (projectName pid @ '':latest''),
            ContainerCreate (preview_options pid n1 s1), ContainerStart cid]"])
        (auto simp: files svc new url_path route_rule_def intro!: exI [of _ "preview_options pid n1 s1"])
  qed
qed

theorem urls_are_routed_witness:
  "\<exists>s'. build ''p1'' ''/w'' \<lparr>pc_compose = [], pc_dockerfile = [],
       pc_services = [(''web'', \<lparr>svc_port = 3000, svc_path = ''/'', svc_strip = True\<rparr>)]\<rparr> ([], [], buildModeDockerfile) demo_agent
     = (Inr ''ok'', s') \<and>
     (\<exists>opts. ContainerCreate opts \<in> set (trace s') \<and> map_of (co_labels opts) (rule_label ''p1'' ''web'') = Some ''PathPrefix(`/p1/`)'')"
proof -
  let ?c = "\<lparr>pc_compose = [], pc_dockerfile = [],
     pc_services = [(''web'', \<lparr>svc_port = 3000, svc_path = ''/'', svc_strip = True\<rparr>)]\<rparr>"
  have mode: "buildModeDockerfile \<noteq> buildModeCompose" by (simp add: buildModeDockerfile_def buildModeCompose_def)
  have first: "FirstService ?c = Some (''web'', \<lparr>svc_port = 3000, svc_path = ''/'', svc_strip = True\<rparr>)"
    by (simp add: FirstService_def sorted_keys_def)
  have "map_of (PreviewURLs ''p1'' ?c ''h'' 80) ''web'' \<noteq> None" unfolding PreviewURLs_lookup by simp
  then obtain url where url: "map_of (PreviewURLs ''p1'' ?c ''h'' 80) ''web'' = Some url" by blast
  have ok: "answers demo_env n e = Inr ''ok''" for n e by (simp add: demo_env_def)
  obtain s' where run: "build ''p1'' ''/w'' ?c ([], [], buildModeDockerfile) demo_agent = (Inr ''ok'', s')"
    by (simp add: build_def mode handleDockerfile_def first or_fail_def catchE_def bindE_def perform_def attempt_def ok ret_def)
  from urls_are_routed [OF url run] mode first run show ?thesis by (auto simp: fullPath_def)
qed

text \<open>C20: the file of build secrets has one line per variable, in the order of their names, each the
  name, an equals sign and the value with its line breaks escaped, so no value can add a line of
  its own; two different sets of variables give different files, up to how line breaks are
  written. Without variables no file is written.\<close>

theorem dotenv_file:
  assumes "\<forall>k \<in> fst ` set vars. CHR 10 \<notin> set k \<and> CHR ''='' \<notin> set k" and "WriteDotenv path vars s = (r, s')"
  shows "if vars = [] then r = Inr () \<and> s' = s
    else (\<exists>content. trace s' = trace s @ [WriteFile path content] \<and>
      split_byte (CHR 10) content = map (\<lambda>k. k @ ''='' @ escapeDotenvValue (the (map_of vars k))) (sorted_keys vars) @ [[]] \<and>
      (\<forall>vars'. (\<forall>k \<in> fst ` set vars'. CHR 10 \<notin> set k \<and> CHR ''='' \<notin> set k) \<and> dotenv_text vars' = Some content \<longrightarrow>
         map_option escapeDotenvValue \<circ> map_of vars' = map_option escapeDotenvValue \<circ> map_of vars))"
proof (cases "vars = []")
  case True
  with assms(2) show ?thesis by (simp add: WriteDotenv_def dotenv_text_def)
next
  case False
  then obtain content where c: "dotenv_text vars = Some content" by (simp add: dotenv_text_def)
  then have "trace s' = trace s @ [WriteFile path content]"
    using assms(2) by (auto simp: WriteDotenv_def wrap_def catchE_def bindE_def perform_def split: sum.splits prod.splits)
  moreover have "split_byte (CHR 10) content = map (\<lambda>k. k @ ''='' @ escapeDotenvValue (the (map_of vars k))) (sorted_keys vars) @ [[]]"
    using dotenv_lines [OF _ c] assms(1) by (simp add: dotenv_line_def)
  moreover have "map_option escapeDotenvValue \<circ> map_of vars' = map_option escapeDotenvValue \<circ> map_of vars"
    if "\<forall>k \<in> fst ` set vars'. CHR 10 \<notin> set k \<and> CHR ''='' \<notin> set k" "dotenv_text vars' = Some content" for vars'
    using dotenv_determines [OF assms(1) that(1) c that(2)] by (simp add: comp_def)
  ultimately show ?thesis using False by auto
qed

theorem dotenv_file_witness:
  "\<exists>content. trace (snd (WriteDotenv ''/w/.env'' [(''B'', ''x'' @ [CHR 10] @ ''C=2''), (''A'', ''1'')] demo_agent)) =
       [WriteFile ''/w/.env'' content] \<and>
     split_byte (CHR 10) content = [''A=1'', ''B=x'' @ [CHR 92] @ ''nC=2'', []]"
proof -
  have "sorted_keys [(''B'', v), (''A'', w)] = [''A'', ''B'']" for v w :: string by (simp add: sorted_keys_def)
  with dotenv_file [OF _ prod.collapse [symmetric], of "[(''B'', ''x'' @ [CHR 10] @ ''C=2''), (''A'', ''1'')]" "''/w/.env''" demo_agent]
  show ?thesis by (auto simp: escapeDotenvValue_def replace_byte_def)
qed

end
