(* ===== verification/AgentLife.thy ===== *)
theory AgentLife
  imports AgentProperties
begin

text \<open>
  Properties of the life of an agent: its settings, the start, the wait for Traefik, the
  connections to the hub and the waits between them.
\<close>

section \<open>Settings and containers\<close>

text \<open>C32: an accepted command line gives settings in range: between one and 64 jobs, valid and
  different ports, a non-negative timeout; with them the Traefik container is never refused for
  a port conflict.\<close>

theorem config_in_range:
  assumes "ParseConfig w args = Inr c"
  shows "1 \<le> MaxJobs c \<and> MaxJobs c \<le> 64 \<and> 1 \<le> TraefikPort c \<and> TraefikPort c \<le> 65535 \<and>
    0 \<le> TraefikAPIPort c \<and> TraefikAPIPort c \<le> 65535 \<and> 0 \<le> RouterReadyTimeout c \<and>
    HubURL c \<noteq> [] \<and> cfg_token c \<noteq> [] \<and>
    fst (EnsureTraefik sha (spec_of c) s) \<noteq> Inl traefikPortConflict"
proof -
  from assms obtain flags where "check_config w flags = Inr c"
    by (auto simp: ParseConfig_def split: sum.splits)
  then have ok: "config_ok c" by (rule check_config_ok)
  have differ: "\<not> (ts_api (spec_of c) > 0 \<and> ts_port (spec_of c) = ts_api (spec_of c))"
    using ok by (auto simp: config_ok_def spec_of_def)
  have created: "hd e = CHR ''e''" if "create_traefik h t u = (Inl e, v)" for h t u e v
    using that by (auto simp: create_traefik_def prog_elims)
  have "hd e = CHR ''e''" if "EnsureTraefik sha (spec_of c) s = (Inl e, v)" for e v
    using that differ
    by (auto simp: EnsureTraefik_def Let_def prog_elims dest: created split: sum.splits docker_err.splits if_splits)
  then have "fst (EnsureTraefik sha (spec_of c) s) \<noteq> Inl traefikPortConflict"
    by (cases "EnsureTraefik sha (spec_of c) s") (auto simp: traefikPortConflict_def)
  with ok show ?thesis by (simp add: config_ok_def maxJobsHardCap_def)
qed

definition demo_os :: os where
  "demo_os = \<lparr>getenv = (\<lambda>k. if k = ''HUB_TOKEN'' then ''agt_1'' else []), home = Some ''/root'',
     read_int = (\<lambda>s. if list_all is_digit s \<and> s \<noteq> [] then Inr (int (digits_val s)) else Inl ''parse error''),
     scan_int = (\<lambda>_. None), read_duration = (\<lambda>_. Inr 0)\<rparr>"

theorem config_in_range_witness:
  "\<exists>c. ParseConfig demo_os [''--hub-url'', ''ws://h'', ''-max-jobs=99''] = Inr c \<and> MaxJobs c = 64"
proof -
  have os: "read_int demo_os ''99'' = Inr 99" "read_duration demo_os d = Inr 0"
      "getenv demo_os k = (if k = ''HUB_TOKEN'' then ''agt_1'' else [])" for d k
    by (simp_all add: demo_os_def is_digit_def digits_val_def digit_val_def)
  have "split_flag ''hub-url'' = (''hub-url'', None)" "split_flag ''max-jobs=99'' = (''max-jobs'', Some ''99'')"
    by (simp_all add: split_flag_def Let_def)
  then have "parse_flags demo_os [] [''--hub-url'', ''ws://h'', ''-max-jobs=99''] =
      Inr [(''max-jobs'', ''99''), (''hub-url'', ''ws://h'')]"
    by (simp add: set_flag_def os string_flags_def int_flags_def)
  then obtain c where "ParseConfig demo_os [''--hub-url'', ''ws://h'', ''-max-jobs=99''] = Inr c \<and> MaxJobs c = 64"
    by (simp add: ParseConfig_def check_config_def str_flag_def num_flag_def os envOr_def envInt_def
        clamp_jobs_def maxJobsHardCap_def)
  moreover from this config_in_range have "MaxJobs c \<le> 64" by blast
  ultimately show ?thesis by blast
qed

section \<open>Waiting for Traefik\<close>

text \<open>C30: waiting for the routers of a preview always ends. It sleeps at most for the time it was given
  and one poll interval; when moreover every step takes at most the second the HTTP client allows
  a request, it ends at most one poll interval, one second and one second per router after that
  time. Its outcome tells the truth: success means that Traefik has shown every router enabled, a
  timeout that the time is up, a cancellation that the context was cancelled. So without
  cancellation and with a router that is never enabled it times out.\<close>

theorem wait_ends:
  assumes "WaitTraefikRouters base names timeout s = (r, s')"
  shows "int (slept s') \<le> int (slept s) + max 0 timeout + traefikPollMax \<and>
    (prompt (env s) \<longrightarrow>
       clock s' \<le> clock s + max 0 timeout + traefikPollMax + int (Suc (length names)) * clientTimeout) \<and>
    frames s' = frames s \<and>
    (case r of
       Inr _ \<Rightarrow> base = [] \<or> timeout \<le> 0 \<or>
         (\<forall>nm \<in> set names. enabled_between (env s) (router_url base nm) (moment s) (moment s'))
     | Inl (RoutersTimeout e) \<Rightarrow> clock s' > clock s + timeout
     | Inl (CtxDone e) \<Rightarrow> cancelled_between (env s) e (moment s) (moment s'))"
proof (cases "base = [] \<or> timeout \<le> 0 \<or> names = []")
  case True
  with assms show ?thesis
    by (auto simp: WaitTraefikRouters_def traefikPollMax_def clientTimeout_def millisecond_def)
next
  case False
  then have run: "wait_loop base names (clock s + timeout) traefikPollInitial s = (r, s')"
    using assms by (simp add: WaitTraefikRouters_def)
  have out: "waits_from s (clock s + timeout) s' \<and>
      (r = Inr () \<longrightarrow> (\<forall>nm \<in> set names. enabled_between (env s) (router_url base nm) (moment s) (moment s'))) \<and>
      (\<forall>e. r = Inl (RoutersTimeout e) \<longrightarrow> clock s' > clock s + timeout) \<and>
      (\<forall>e. r = Inl (CtxDone e) \<longrightarrow> cancelled_between (env s) e (moment s) (moment s'))"
    by (rule wait_loop_outcome [OF _ _ run]) (simp_all add: traefikPollInitial_def traefikPollMax_def millisecond_def)
  then have "s' = s\<lparr>moment := moment s', slept := slept s'\<rparr>" by (simp add: waits_from_def)
  then have "frames s' = frames s" by (metis agent.select_convs(16) agent.surjective agent.update_convs(17,18) frames_def)
  moreover have "int (slept s') \<le> int (slept s) + max 0 timeout + traefikPollMax"
    using out False by (auto simp: waits_from_def traefikPollMax_def millisecond_def)
  moreover have "clock s' \<le> clock s + max 0 timeout + traefikPollMax + int (Suc (length names)) * clientTimeout"
    if "prompt (env s)"
    using wait_loop_time [OF that _ _ run] False
    by (simp add: traefikPollInitial_def traefikPollMax_def clientTimeout_def millisecond_def)
  ultimately show ?thesis using out by (auto split: sum.split wait_error.split)
qed

lemma demo_never_enabled:
  "env s = demo_env\<lparr>routers_at := (\<lambda>_ _. Inr (404, Inr []))\<rparr> \<Longrightarrow> \<not> enabled_between (env s) u a b"
  "env s = demo_env\<lparr>routers_at := (\<lambda>_ _. Inr (404, Inr []))\<rparr> \<Longrightarrow> \<not> cancelled_between (env s) e a b"
  by (simp_all add: enabled_between_def cancelled_between_def demo_env_def)

theorem wait_ends_witness:
  "\<exists>e s'. WaitTraefikRouters ''http://h'' [''p1-web''] (10 ^ 9)
      (demo_agent\<lparr>env := demo_env\<lparr>routers_at := (\<lambda>_ _. Inr (404, Inr []))\<rparr>\<rparr>) = (Inl (RoutersTimeout e), s') \<and>
      clock s' \<le> 325 * 10 ^ 7"
proof -
  let ?s = "demo_agent\<lparr>env := demo_env\<lparr>routers_at := (\<lambda>_ _. Inr (404, Inr []))\<rparr>\<rparr>"
  obtain r s' where run: "WaitTraefikRouters ''http://h'' [''p1-web''] (10 ^ 9) ?s = (r, s')" by fastforce
  have env: "env ?s = demo_env\<lparr>routers_at := (\<lambda>_ _. Inr (404, Inr []))\<rparr>" by simp
  have "prompt (env ?s)" by (simp add: prompt_def demo_env_def clientTimeout_def millisecond_def)
  moreover have "clock ?s = 0" by (simp add: clock_def demo_agent_def fresh_agent_def)
  ultimately have "clock s' \<le> 325 * 10 ^ 7"
    using wait_ends [OF run] by (simp add: traefikPollMax_def clientTimeout_def millisecond_def)
  moreover from wait_ends [OF run, THEN conjunct2, THEN conjunct2, THEN conjunct2] demo_never_enabled [OF env]
  have "\<exists>e. r = Inl (RoutersTimeout e)" by (cases r) (auto split: wait_error.splits)
  ultimately show ?thesis using run by blast
qed

section \<open>Connections\<close>

text \<open>C31: while the hub cannot be reached the agent keeps trying, once per dial, and before the
  attempt \<open>i + 1\<close> it waits between 79 and 121 per cent of one second times \<open>2 ^ i\<close>, or of
  thirty seconds where that is less.\<close>

theorem reconnect_waits:
  assumes "rounds fl" and "\<forall>(ses, x) \<in> set conns. ses_dial ses \<noteq> None \<and> 0 \<le> x \<and> x < 1"
    and "\<forall>m. ctx_at (env s) m = None" and "i < length conns"
  shows "length (fst (Run cfg fl conns 0 s)) = length conns \<and>
    79 * min (30 * 10 ^ 9) (10 ^ 9 * 2 ^ i) \<le> 100 * fst (Run cfg fl conns 0 s) ! i \<and>
    100 * fst (Run cfg fl conns 0 s) ! i \<le> 121 * min (30 * 10 ^ 9) (10 ^ 9 * 2 ^ i)"
proof -
  have run: "fst (Run cfg fl conns 0 s) = waits fl (map snd conns) 0"
    using assms(2,3) by (intro Run_offline) auto
  have len: "length (waits fl rs c) = length rs" for rs c
    by (induction rs arbitrary: c) (auto split: prod.split)
  have "79 * ideal (0 + i) \<le> 100 * waits fl (map snd conns) 0 ! i \<and> 100 * waits fl (map snd conns) 0 ! i \<le> 121 * ideal (0 + i)"
    by (rule waits_bounds [OF assms(1) _ step_up_0]) (use assms(2,4) in auto)
  then show ?thesis unfolding run by (simp add: len ideal_def BackoffInitial_def BackoffMax_def)
qed

definition demo_refused :: agent_session where
  "demo_refused = \<lparr>ses_dial = Some ''connection refused'', ses_welcome = Inl [], ses_inbox = [], ses_end = []\<rparr>"

theorem reconnect_waits_witness:
  "79 * 4 * 10 ^ 9 \<le> 100 * fst (Run demo_config (\<lambda>x. x) (replicate 3 (demo_refused, 1 / 2)) 0 demo_agent) ! 2"
proof -
  have "rounds (\<lambda>x. x)" by (simp add: rounds_def)
  from reconnect_waits [OF this, of "replicate 3 (demo_refused, 1 / 2)" demo_agent 2 demo_config] show ?thesis
    by (simp add: demo_refused_def) (simp add: demo_env_def)
qed

text \<open>However the connections of an agent end, refused, broken in the handshake or after any
  messages, the agent is offline between them, every slot taken by a job has been given back, no
  preview is left marked as being built, and the frames it sent stay sent.\<close>

lemma run_settles:
  assumes "Run cfg fl conns c s = (ws, c', s')" and "\<not> online s"
  shows "\<not> online s' \<and> inFlight s' = inFlight s \<and> limit s' = limit s \<and> set (building s') \<subseteq> set (building s) \<and>
    (\<exists>fs. frames s' = frames s @ fs)"
proof -
  have once: "settled t (snd (once cfg ses t))" if "\<not> online t" for ses t
  proof (cases "ses_dial ses")
    case None
    from once_run [OF this that] show ?thesis by (metis snd_conv)
  qed (simp add: once_def settled.refl)
  have idle: "settled t (t\<lparr>moment := Suc (moment t)\<rparr>)" "settled t (sleep d t)" for d t
    by (simp_all add: settled_def sleep_def frames_def)
  have "settled s (snd (snd (Run cfg fl conns c s)))"
    using assms(2)
  proof (induction conns arbitrary: c s)
    case Nil
    then show ?case by (simp add: settled.refl)
  next
    case (Cons x conns)
    obtain ses r where x: "x = (ses, r)" by fastforce
    define t where "t = snd (once cfg ses s)"
    have t: "settled s t" "\<not> online t"
      using once [OF Cons.prems] Cons.prems by (simp_all add: t_def settled_def)
    have rest: "settled s (snd (snd (Run cfg fl conns d (sleep w t))))" for d w
    proof -
      have "\<not> online (sleep w t)" using t(2) by (simp add: sleep_def)
      from Cons.IH [OF this] show ?thesis using t(1) idle(2) settled.trans by blast
    qed
    have "settled s (t\<lparr>moment := Suc (moment t)\<rparr>)" using t(1) idle(1) by (rule settled.trans)
    with t(1) rest show ?case
      by (simp add: x Let_def split_beta flip: t_def)
  qed
  with assms show ?thesis by (simp add: settled_def)
qed

lemma run_settles_witness:
  "\<not> online (snd (snd (Run demo_config (\<lambda>x. x) (replicate 3 (demo_refused, 1 / 2)) 0 (fresh_agent demo_config demo_env))))"
proof -
  obtain ws c s' where run: "Run demo_config (\<lambda>x. x) (replicate 3 (demo_refused, 1 / 2)) 0 (fresh_agent demo_config demo_env)
      = (ws, c, s')" by (metis prod.exhaust)
  have "\<not> online (fresh_agent demo_config demo_env)" by (simp add: fresh_agent_def)
  from run_settles [OF run this] show ?thesis unfolding run by simp
qed

text \<open>A connection that the hub welcomes opens with the HELLO listing exactly the previews the
  agent runs or builds, and then announces the free slots; it ends with the error of its last
  read. When nothing hinders the announcement, every free slot is announced.\<close>

lemma session_frames:
  assumes "ses_dial ses = None" and "ses_welcome ses = Inr (Inr (Welcome w))" and "\<not> online s"
    and "\<forall>m. \<exists>x. answers (env s) m (Frame (Hello (hello_data cfg (listed_ids s)))) = Inr x"
  shows "\<exists>s' k fs. once cfg ses s = (Inl (ses_end ses), s') \<and>
    frames s' = frames s @ Hello (hello_data cfg (listed_ids s)) # readies k @ fs \<and>
    hello_running (hello_data cfg (listed_ids s)) = Some (listed_ids s) \<and>
    int k \<le> free_slots s \<and> (takes_ready (s\<lparr>online := True\<rparr>) \<longrightarrow> int k = free_slots s)"
proof -
  let ?h = "Frame (Hello (hello_data cfg (listed_ids s)))"
  define t where "t = s\<lparr>trace := trace s @ [?h], moment := Suc (moment s)\<rparr>"
  have t: "frames t = frames s @ [Hello (hello_data cfg (listed_ids s))]" "free_slots t = free_slots s"
      "takes_ready (t\<lparr>online := True\<rparr>) = takes_ready (s\<lparr>online := True\<rparr>)" "\<not> online t"
    using assms(3) by (simp_all add: t_def frames_def map_filter_def free_slots_def takes_ready_def)
  from assms(4) obtain x where "answers (env s) (moment s) ?h = Inr x" by blast
  then have "wrap ''write hello'' (perform ?h) s = (Inr x, t)"
    by (simp add: wrap_def catchE_def perform_def t_def)
  then have step: "bindE (wrap ''write hello'' (perform ?h)) k s = k x t" for k :: "string \<Rightarrow> unit run"
    by (rule bindE_step)
  have "once cfg ses s = talk ses t"
    using assms(1,2) step by (simp add: once_def)
  then show ?thesis using talk_run [of ses t] unfolding t by (auto simp: hello_data_def)
qed

definition demo_session :: agent_session where
  "demo_session = \<lparr>ses_dial = None, ses_welcome = Inr (Inr (Welcome \<lparr>welcome_version = ProtoVersion, welcome_agent = ''a1''\<rparr>)),
     ses_inbox = [None, Some (JobAssign demo_job)], ses_end = ''EOF''\<rparr>"

lemma session_frames_witness:
  "\<exists>fs. frames (snd (once demo_config demo_session (demo_agent\<lparr>online := False\<rparr>))) =
     Hello (hello_data demo_config (listed_ids demo_agent)) # Ready [] 1 # Ready [] 1 # fs"
proof -
  let ?s = "demo_agent\<lparr>online := False\<rparr>"
  have env: "\<forall>m. \<exists>x. answers (env ?s) m (Frame (Hello (hello_data demo_config (listed_ids ?s)))) = Inr x"
    by simp (simp add: demo_env_def)
  have "\<exists>s' k fs. once demo_config demo_session ?s = (Inl (ses_end demo_session), s') \<and>
      frames s' = frames ?s @ Hello (hello_data demo_config (listed_ids ?s)) # readies k @ fs \<and>
      hello_running (hello_data demo_config (listed_ids ?s)) = Some (listed_ids ?s) \<and>
      int k \<le> free_slots ?s \<and> (takes_ready (?s\<lparr>online := True\<rparr>) \<longrightarrow> int k = free_slots ?s)"
    by (rule session_frames [OF _ _ _ env]) (simp_all add: demo_session_def)
  then obtain s' k fs where run: "once demo_config demo_session ?s = (Inl (ses_end demo_session), s')"
    and fs: "frames s' = frames ?s @ Hello (hello_data demo_config (listed_ids ?s)) # readies k @ fs"
    and k: "takes_ready (?s\<lparr>online := True\<rparr>) \<longrightarrow> int k = free_slots ?s" by blast
  have "?s\<lparr>online := True\<rparr> = demo_agent" using demo_simps(2) by (cases demo_agent) simp
  then have "takes_ready (?s\<lparr>online := True\<rparr>)" using demo_takes_ready by metis
  moreover have "free_slots ?s = 2" by (simp add: free_slots_def limit_def)
  ultimately have "k = 2" using k by simp
  then have "readies k = [Ready [] 1, Ready [] 1]" by (simp add: readies_def numeral_2_eq_2)
  moreover have "hello_data demo_config (listed_ids ?s) = hello_data demo_config (listed_ids demo_agent)" "frames ?s = []"
    by (simp_all add: hello_data_def listed_ids_def frames_def)
  ultimately show ?thesis using run fs by simp
qed

section \<open>Starting and Traefik\<close>

text \<open>C33: an agent starts whatever docker and Traefik answer. It then knows exactly the previews whose
  containers it found, has sent nothing to the hub, has deleted no worktree and taken down no
  project of such a preview, and has touched no container but that of Traefik.\<close>

theorem startup_safe:
  assumes "entries_ok e" and "WorkDir cfg \<noteq> []" and "agent_startup sha cfg (fresh_agent cfg e) = (r, s')"
  shows "r = Inr () \<and> (\<exists>n. list_all (start_effect (WorkDir cfg) (restorable e n)) (trace s') \<and>
     (\<forall>pid. map_of (jobs s') pid \<noteq> None \<longleftrightarrow> pid \<in> set (restorable e n))) \<and>
     has_ready s' \<and> inFlight s' = 0 \<and> building s' = [] \<and> files_ok s'"
  using startup_run [OF assms] .

theorem startup_safe_witness:
  "map_of (jobs (snd (agent_startup (\<lambda>x. x) demo_config (fresh_agent demo_config demo_env)))) ''p9'' \<noteq> None"
proof -
  have "entries_ok demo_env" by (simp add: entries_ok_def demo_env_def)
  moreover have "WorkDir demo_config \<noteq> []" by (simp add: demo_config_def)
  ultimately obtain n where known:
      "\<forall>pid. map_of (jobs (snd (agent_startup (\<lambda>x. x) demo_config (fresh_agent demo_config demo_env)))) pid \<noteq> None
         \<longleftrightarrow> pid \<in> set (restorable demo_env n)"
    using startup_safe [OF _ _ surjective_pairing] by blast
  have "restorable demo_env n = [''p9'']"
    by (simp add: restorable_def demo_env_def own_preview_def map_filter_def hub_label_def)
  with known show ?thesis by simp
qed

text \<open>C34: a running Traefik is replaced exactly when its specification changed: when the container
  found carries the hash of the specification \<open>u\<close> and SHA-256 tells the two texts apart, a
  successful run for \<open>t\<close> does nothing if image, ports and network are the same, and otherwise
  stops and removes that container, creates one with the new hash and starts it.\<close>

theorem traefik_replaced:
  assumes "EnsureTraefik sha t s = (Inr (), s')" and "inspect_at (env s) (moment s) (ts_container t) = Inr insp"
    and "label_value (in_labels insp) traefikSpecLabel = specHash sha u"
    and "inj_on sha {spec_text t, spec_text u}"
    and "\<forall>x \<in> {t, u}. CHR ''|'' \<notin> set (ts_image x) \<and> CHR ''|'' \<notin> set (ts_network x)"
  shows "if ts_image t = ts_image u \<and> ts_port t = ts_port u \<and> ts_network t = ts_network u \<and> ts_api t = ts_api u
    then trace s' = trace s
    else \<exists>cid. trace s' = trace s @ [ContainerStop (ts_container t), ContainerRemove (ts_container t),
           ContainerCreate (traefik_options (specHash sha t) t), ContainerStart cid]"
proof -
  have "specHash sha u = specHash sha t \<longleftrightarrow>
      ts_image t = ts_image u \<and> ts_port t = ts_port u \<and> ts_network t = ts_network u \<and> ts_api t = ts_api u"
    (is "?hash \<longleftrightarrow> ?same")
  proof
    assume ?hash
    then have "spec_text t = spec_text u"
      using inj_onD [OF assms(4), of "spec_text t" "spec_text u"] by (simp add: specHash_def)
    with spec_text_inject [of t u] assms(5) show ?same by simp
  next
    assume ?same
    then show ?hash by (simp add: specHash_def spec_text_def)
  qed
  with EnsureTraefik_ok [OF assms(1)] show ?thesis unfolding assms(2) sum.case assms(3) by simp
qed

definition demo_spec :: TraefikSpec where
  "demo_spec = \<lparr>ts_image = ''t'', ts_port = 80, ts_api = 0, ts_network = ''n'', ts_container = ''c''\<rparr>"

definition demo_traefik :: agent where
  "demo_traefik = demo_agent\<lparr>env := demo_env\<lparr>inspect_at := (\<lambda>_ _. Inr \<lparr>in_host_port = 80,
     in_labels = [(traefikSpecLabel, spec_text demo_spec)], in_status = []\<rparr>)\<rparr>\<rparr>"

theorem traefik_replaced_witness:
  "\<exists>cid. trace (snd (EnsureTraefik (\<lambda>x. x) (demo_spec\<lparr>ts_port := 81\<rparr>) demo_traefik)) =
     [ContainerStop ''c'', ContainerRemove ''c'',
      ContainerCreate (traefik_options (spec_text (demo_spec\<lparr>ts_port := 81\<rparr>)) (demo_spec\<lparr>ts_port := 81\<rparr>)), ContainerStart cid]"
proof -
  let ?t = "demo_spec\<lparr>ts_port := 81\<rparr>"
  have inspect: "inspect_at (env demo_traefik) (moment demo_traefik) (ts_container ?t) =
      Inr \<lparr>in_host_port = 80, in_labels = [(traefikSpecLabel, spec_text demo_spec)], in_status = []\<rparr>"
    by (simp add: demo_traefik_def)
  have ok: "perform e x = (Inr ''ok'', x\<lparr>trace := trace x @ [e], moment := Suc (moment x)\<rparr>)"
    if "env x = env demo_traefik" for x :: agent and e
    using that by (simp add: perform_def demo_traefik_def demo_env_def)
  have create: "fst (create_traefik h u x) = Inr ()" if "env x = env demo_traefik" for h u and x :: agent
    using that by (simp add: create_traefik_def wrap_def catchE_def bindE_def ok)
  have t: "ts_api ?t = 0" "ts_container ?t = ''c''" by (simp_all add: demo_spec_def)
  have "itoa 80 \<noteq> itoa 81" by simp
  then have other: "spec_text demo_spec \<noteq> spec_text ?t"
    using spec_text_inject [of demo_spec ?t] by (auto simp: demo_spec_def)
  have "fst (EnsureTraefik (\<lambda>x. x) ?t demo_traefik) = Inr ()"
    using inspect
    by (simp add: EnsureTraefik_def Let_def t other label_value_def specHash_def bindE_def
        observe_def wrap_def catchE_def logged_def ok create)
  then have "\<exists>s'. EnsureTraefik (\<lambda>x. x) ?t demo_traefik = (Inr (), s')" by (metis prod.collapse)
  then obtain s' where run: "EnsureTraefik (\<lambda>x. x) ?t demo_traefik = (Inr (), s')" by blast
  have "trace demo_traefik = []" by (simp add: demo_traefik_def)
  with traefik_replaced [OF run inspect, of demo_spec] run show ?thesis
    by (simp add: label_value_def specHash_def) (simp add: demo_spec_def specHash_def)
qed

text \<open>Nothing of an agent is reachable from outside but the HTTP entry point of Traefik: the
  container of a preview is bound to no port of the host, and of the ports of Traefik only its
  port 80 is bound on all interfaces, the API only to the loopback address.\<close>

lemma published_ports:
  "eo_bindings (engine_create (preview_options pid nm svc)) = [] \<and>
   (\<forall>(k, b) \<in> set (eo_bindings (engine_create (traefik_options hash t))).
      nb_ip b = (if k = ''80/tcp'' then ''0.0.0.0'' else ''127.0.0.1'')) \<and>
   public_bindings (engine_create (traefik_options hash t)) =
     (if ts_port t > 0 then [(''80/tcp'', itoa (ts_port t))] else [])"
proof -
  have keys: "itoa 80 = ''80''" "itoa 8080 = ''8080''" by (simp_all add: itoa_def nat_str.simps dig_def char_of_eq_iff)
  show ?thesis
    by (simp add: engine_create_def preview_options_def traefik_options_def traefik_ports_def public_bindings_def
        bind_ip_def port_key_def keys)
qed

lemma published_ports_witness:
  "public_bindings (engine_create (traefik_options [] demo_spec)) = [(''80/tcp'', ''80'')]"
proof -
  have "itoa 80 = ''80''" by (simp add: itoa_def nat_str.simps dig_def char_of_eq_iff)
  with published_ports [of "''p1''" "''web''" undefined "[]" demo_spec] show ?thesis by (simp add: demo_spec_def)
qed

end
