(* ===== verification/Composition.thy ===== *)
theory Composition
  imports HubTexts StatusSpec AgentLife
begin

text \<open>
  The hub and an agent together: what the frames of one do at the other. A connection is the
  list of frames written to it, in order.
\<close>

section \<open>The hub reads the frames of an agent\<close>

text \<open>The hub handles a list of frames of the agent.\<close>

definition hub_reads :: "bool \<Rightarrow> string \<Rightarrow> envelope list \<Rightarrow> ('e, unit) act" where
  "hub_reads rs ag fs = for_each (\<lambda>e. readLoop_frame rs ag (Some e)) fs"

lemma hub_reads_append:
  "hub_reads rs ag (xs @ ys) s = bindE (hub_reads rs ag xs) (\<lambda>_. hub_reads rs ag ys) s"
  by (induction xs arbitrary: s) (auto simp: hub_reads_def bindE_def split: prod.split sum.split)

text \<open>Reports on one preview leave every other preview alone.\<close>

definition on_preview :: "string \<Rightarrow> transitions" where
  "on_preview pid i a b \<longleftrightarrow> i = pid \<and> a \<noteq> None \<and> b \<noteq> None"

lemma reports_move:
  assumes "\<forall>d \<in> set reports. su_preview d = pid"
  shows "obeys (moves_of store_ok status_of (on_preview pid)) (hub_reads rs ag (map StatusUpdate reports) :: ('e, unit) act)"
proof -
  have "obeys (moves_of store_ok status_of (on_preview pid)) (readLoop_frame rs ag (Some (StatusUpdate d)) :: ('e, unit) act)"
    if "d \<in> set reports" for d
  proof -
    have "obeys (moves_of store_ok status_of (on_preview pid)) (OnStatusUpdate ag d)"
    proof (rule obeysI)
      fix s s' and r assume "OnStatusUpdate ag d s = (r, s')"
      from obeysD [OF moves_OnStatusUpdate this] show "moves_of store_ok status_of (on_preview pid) s s'"
        by (rule moves_of_mono) (use assms that in \<open>auto simp: reporting_def on_preview_def\<close>)
    qed
    then show ?thesis by (simp add: obeys_logged)
  qed
  then show ?thesis unfolding hub_reads_def by (intro previews.moves.for_each) auto
qed

lemma steady_reports: "obeys steady (hub_reads rs ag (map StatusUpdate reports))"
  unfolding hub_reads_def by (intro steady.for_each) (auto simp: obeys_logged steady_report)

lemma on_preview_keeps:
  "rtranclp (on_preview pid i) a b \<Longrightarrow> (i \<noteq> pid \<longrightarrow> b = a) \<and> (a \<noteq> None \<longrightarrow> b \<noteq> None)"
  by (induction rule: rtranclp_induct) (auto simp: on_preview_def)

lemma dispatching_keeps:
  "rtranclp (dispatching i) a b \<Longrightarrow> a \<noteq> Some ''queued'' \<Longrightarrow> b = a"
  by (induction rule: rtranclp_induct) (auto simp: dispatching_def)

lemma moves_readies: "obeys (moves_of store_ok status_of dispatching) (hub_reads rs ag (readies k) :: ('e, unit) act)"
proof -
  have "obeys (moves_of store_ok status_of dispatching) (readLoop_frame rs ag (Some (Ready [] 1)) :: ('e, unit) act)"
    by (simp add: obeys_logged moves_OnReady)
  then show ?thesis unfolding hub_reads_def readies_def by (intro previews.moves.for_each) auto
qed

text \<open>The last report of a preview decides its status.\<close>

lemma reports_land:
  assumes "calm s" and "store_ok s" and "pid \<noteq> []" and "status_of s pid \<noteq> None"
    and "ag \<in> arow_id ` set (tb_agents (tabs s))"
    and "\<forall>d \<in> set (ds @ [d]). su_preview d = pid" and "su_status d \<noteq> []" and "su_sha d = None"
    and "hub_reads rs ag (map StatusUpdate (ds @ [d])) s = (r :: 'e + unit, s')"
  shows "store_ok s' \<and> status_of s' = (status_of s)(pid \<mapsto> su_status d)"
proof -
  obtain q t where first: "hub_reads rs ag (map StatusUpdate ds) s = (q :: 'e + unit, t)" by fastforce
  have "obeys (moves_of store_ok status_of (on_preview pid)) (hub_reads rs ag (map StatusUpdate ds) :: ('e, unit) act)"
    by (rule reports_move) (use assms(6) in simp)
  from obeysD [OF this first] assms(2) have t: "store_ok t" "\<And>i. rtranclp (on_preview pid i) (status_of s i) (status_of t i)"
    by (simp_all add: moves_of_def)
  have steady: "calm t" "tb_agents (tabs t) = tb_agents (tabs s)"
    using obeysD [OF steady_reports first] assms(1) by (simp_all add: steady_def)
  have total: "fst (hub_reads rs ag (map StatusUpdate xs) x :: ('e + unit) \<times> hub) = Inr ()" for xs x
    by (induction xs arbitrary: x) (simp_all add: hub_reads_def bindE_def logged_def)
  have "hub_reads rs ag [StatusUpdate d] t = (r, s')"
    using assms(9) first total [of ds s] by (simp add: hub_reads_append bindE_def split: sum.splits)
  then have "s' = snd (OnStatusUpdate ag d t)" by (simp add: hub_reads_def bindE_def logged_def)
  then obtain x where run: "OnStatusUpdate ag d t = (x, s')" by (metis prod.collapse)
  have "wf_tables (tabs t)" using t(1) by (simp add: store_ok_def)
  have free: "report_sha_free d (tabs t)"
    unfolding report_sha_free_def
  proof (intro ballI impI)
    fix q assume q: "q \<in> set (tb_previews (tabs t))"
    have "\<not> sha_taken (write_fields (status_params [] [] 0 no_fields) q) (tb_previews (tabs t))"
      by (rule sha_free_unchanged [OF \<open>wf_tables (tabs t)\<close> q plain_fields(2)])
    then show "\<not> sha_taken (q\<lparr>row_sha := coalesce (row_sha q)
        (case su_sha d of None \<Rightarrow> None | Some x \<Rightarrow> nullStringFromCommitSha x)\<rparr>) (tb_previews (tabs t))"
      by (subst sha_taken_cong) (simp_all add: write_fields_def plain_fields assms(8))
  qed
  have d: "su_preview d = pid" using assms(6) by simp
  have "status_of t (su_preview d) \<noteq> None"
    using on_preview_keeps [OF t(2) [of pid]] assms(4) unfolding d by simp
  from report_lands(2) [OF steady(1) t(1) _ assms(7) this _ free run] assms(3,5)
  have "status_of s' pid = Some (su_status d)" unfolding d steady(2) by simp
  moreover have all: "store_ok s'" "\<And>i. rtranclp (on_preview pid i) (status_of s i) (status_of s' i)"
    using obeysD [OF reports_move [OF assms(6)] assms(9)] assms(2) by (simp_all add: moves_of_def)
  moreover have "status_of s' i = status_of s i" if "i \<noteq> pid" for i
    using on_preview_keeps [OF all(2) [of i]] that by simp
  ultimately show ?thesis by auto
qed

section \<open>A job, from the agent to the hub\<close>

text \<open>C6: when the hub reads the frames that an agent sends for a job, the preview of the job ends as
  failed if the job failed and as running if it runs, whatever status it had before and whatever
  READY frames follow; of the other previews at most queued ones become assigned.\<close>

theorem job_reaches_hub:
  assumes "calm s" and "db_ok (tabs s)" and "clock_ok s" and "ag \<in> arow_id ` set (tb_agents (tabs s))"
    and "ja_preview msg \<noteq> []" and "status_of s (ja_preview msg) \<noteq> None"
    and "\<not> a_paused a" and "online a" and "Handle msg a = (x, a')" and "frames a' = frames a @ sent"
    and "hub_reads rs ag sent s = (r :: 'e + unit, s')"
  shows "status_of s' (ja_preview msg) = Some (case x of Inl _ \<Rightarrow> ''failed'' | Inr _ \<Rightarrow> ''running'') \<and>
    (\<forall>i. i \<noteq> ja_preview msg \<longrightarrow> status_of s' i = status_of s i \<or>
       status_of s i = Some ''queued'' \<and> status_of s' i = Some ''assigned'')"
proof -
  let ?pid = "ja_preview msg" and ?last = "case x of Inl _ \<Rightarrow> ''failed'' | Inr _ \<Rightarrow> ''running''"
  from Handle_reports [OF assms(7,9)] assms(8,10) obtain reports k where sent: "sent = map StatusUpdate reports @ readies k"
    and about: "\<forall>d \<in> set reports. su_preview d = ?pid" "su_sha (last reports) = None"
    and statuses: "case x of
       Inl e \<Rightarrow> jobs a' = jobs a \<and> su_error (last reports) = Some e \<and>
         map su_status reports \<in> {[''building'', ''failed''], [''building'', ''building'', ''failed'']}
     | Inr _ \<Rightarrow> map su_status reports = [''building'', ''building'', ''running''] \<and>
         (\<exists>job. jobs a' = map_store ?pid job (jobs a) \<and> jb_repo job = ja_url msg)"
    by auto
  have "last (map su_status reports) = ?last \<and> reports \<noteq> []" using statuses by (cases x) auto
  then obtain ds d where ds: "reports = ds @ [d]" "su_status d = ?last" by (cases reports rule: rev_cases) auto
  obtain q t where first: "hub_reads rs ag (map StatusUpdate reports) s = (q :: 'e + unit, t)" by fastforce
  have "store_ok s" using assms(2,3) by (simp add: store_ok_def db_ok_def)
  then have t: "store_ok t" "status_of t = (status_of s)(?pid \<mapsto> ?last)"
    using reports_land [OF assms(1) _ assms(5,6,4), of ds d rs q t] about ds first by (auto split: sum.splits)
  have total: "fst (hub_reads rs ag fs y :: ('e + unit) \<times> hub) = Inr ()"
    if "\<forall>e \<in> set fs. \<exists>d p c. e = StatusUpdate d \<or> e = Ready p c" for fs y
    using that by (induction fs arbitrary: y) (auto simp: hub_reads_def bindE_def logged_def)
  have "q = Inr ()" using total [of "map StatusUpdate reports" s] first by auto
  then have "hub_reads rs ag (readies k) t = (r, s')"
    using assms(11) first by (simp add: sent hub_reads_append bindE_def)
  from obeysD [OF moves_readies this] t(1) have moved: "rtranclp (dispatching i) (status_of t i) (status_of s' i)" for i
    by (simp add: moves_of_def)
  have "status_of s' ?pid = Some ?last"
    using dispatching_keeps [OF moved [of ?pid]] t(2) by (auto split: sum.splits)
  moreover have "status_of s' i = status_of s i \<or> status_of s i = Some ''queued'' \<and> status_of s' i = Some ''assigned''"
    if "i \<noteq> ?pid" for i
    using moved [of i] that unfolding t(2)
    by (cases rule: converse_rtranclpE) (auto simp: dispatching_def dest: dispatching_keeps)
  ultimately show ?thesis by blast
qed

theorem job_reaches_hub_witness:
  "\<exists>x. status_of (snd (hub_reads True ''a1'' (frames (snd (Handle demo_job demo_agent))) (sample ''assigned'' (Some ''a1''))
     :: (hub_err + unit) \<times> hub)) ''p1'' = Some x \<and> x \<in> {''failed'', ''running''}"
proof -
  let ?s = "sample ''assigned'' (Some ''a1'')"
  obtain x a' where run: "Handle demo_job demo_agent = (x, a')" by fastforce
  obtain r s' where reads: "hub_reads True ''a1'' (frames a') ?s = (r :: hub_err + unit, s')" by fastforce
  have "ja_preview demo_job = ''p1''" "frames a' = frames demo_agent @ frames a'" by (simp_all add: demo_job_def)
  with job_reaches_hub [OF sample_calm sample_db_ok(2) sample_clock _ _ _ demo_simps(1,2) run _ reads]
  have "status_of s' ''p1'' = Some (case x of Inl _ \<Rightarrow> ''failed'' | Inr _ \<Rightarrow> ''running'')" by simp
  with run reads show ?thesis by (cases x) auto
qed

section \<open>After a reconnection\<close>

text \<open>The agent handles the teardowns of a list.\<close>

lemma teardowns_handled:
  "map_of (jobs (snd (read_loop (map (\<lambda>i. Some (JobTeardown i)) ids) a))) i =
     (if i \<in> set ids then None else map_of (jobs a) i)"
proof (induction ids arbitrary: a)
  case (Cons pid ids)
  let ?b = "snd (dispatchMessage (JobTeardown pid) a)"
  have "sends [StatusUpdate (done_report pid)] (a\<lparr>jobs := map_delete pid (jobs a)\<rparr>) (snd (Teardown pid a))"
    by (rule Teardown_run [OF surjective_pairing])
  then have "jobs ?b = map_delete pid (jobs a)"
    by (simp add: dispatchMessage_def logged_def sends_def same_jobs_def)
  with Cons.IH [of ?b] show ?case by (simp add: dispatch_step)
qed simp

text \<open>C7: after a reconnection hub and agent agree: once the hub has compared the HELLO of an agent
  that is not building anything with its database, and the agent has handled what that made the
  hub send, the previews of the agent that the hub has not marked as failed are exactly those the
  agent runs.\<close>

theorem reconnect_agrees:
  assumes "range_order ord" and "calm s" and "db_ok (tabs s)" and "clock_ok s"
    and "connFor s ag = Some c" and "c \<notin> set (broken s)" and "building a = []"
    and "syncOnHello ord True True ag (hello_data cfg (listed_ids a)) s = (r :: 'e + unit, s')"
    and "outbox s' = outbox s @ sent" and "read_loop (map (\<lambda>x. Some (snd x)) sent) a = (x, a')"
  shows "{i \<in> active_at ag (tabs s). status_of s' i \<noteq> Some ''failed''} = {i. map_of (jobs a') i \<noteq> None}"
proof -
  let ?running = "listed_ids a" and ?A = "active_at ag (tabs s)"
  have hello: "hello_running (hello_data cfg (listed_ids a)) = Some ?running" by (simp add: hello_data_def)
  note exact = syncOnHello_exact [OF assms(1-4) hello assms(8)]
  from exact(3) [OF assms(5,6)] obtain orphans where
    "outbox s' = outbox s @ map (\<lambda>i. (c, JobTeardown i)) orphans" and orphans: "set orphans = set ?running - ?A" by blast
  with assms(9) have "sent = map (\<lambda>i. (c, JobTeardown i)) orphans" by simp
  then have "map (\<lambda>x. Some (snd x)) sent = map (\<lambda>i. Some (JobTeardown i)) orphans" by (simp add: comp_def)
  with assms(10) have agent: "map_of (jobs a') i = (if i \<in> set orphans then None else map_of (jobs a) i)" for i
    using teardowns_handled [of orphans a i] by simp
  have runs: "i \<in> set ?running \<longleftrightarrow> map_of (jobs a) i \<noteq> None" for i
    using assms(7) by (auto simp: set_listed_ids map_of_eq_None_iff)
  have "status_of s i \<noteq> Some ''failed''" if "i \<in> ?A" for i
  proof -
    from that obtain q where q: "q \<in> set (tb_previews (tabs s))" "row_id q = i" "row_status q \<in> set hello_statuses"
      by (auto simp: active_at_def)
    have "wf_tables (tabs s)" using assms(3) by (simp add: db_ok_def)
    from status_of_row [OF this q(1)] q(2,3) show ?thesis by (auto simp: hello_statuses_def)
  qed
  then show ?thesis unfolding exact(2) using agent runs orphans by auto
qed

definition demo_restored :: agent where
  "demo_restored = RegisterRestoredJob ''p5'' ''c5'' ''10.0.0.1'' 8080 demo_agent"

theorem reconnect_agrees_witness:
  "map_of (jobs demo_restored) ''p5'' \<noteq> None \<and>
   map_of (jobs (snd (read_loop (map (\<lambda>x. Some (snd x)) (outbox (snd (syncOnHello (\<lambda>xs. xs) True True ''a1''
     (hello_data demo_config (listed_ids demo_restored)) (sample ''running'' (Some ''a1'')) :: (hub_err + unit) \<times> hub))))
     demo_restored))) ''p5'' = None"
proof -
  let ?s = "sample ''running'' (Some ''a1'')"
  have ord: "range_order (\<lambda>xs. xs)" by (simp add: range_order_def)
  obtain r s' where sync: "syncOnHello (\<lambda>xs. xs) True True ''a1'' (hello_data demo_config (listed_ids demo_restored)) ?s = (r :: hub_err + unit, s')"
    by fastforce
  obtain x a' where loop: "read_loop (map (\<lambda>x. Some (snd x)) (outbox s')) demo_restored = (x, a')" by fastforce
  have idle: "building demo_restored = []" by (simp add: demo_restored_def RegisterRestoredJob_def)
  have "outbox s' = outbox ?s @ outbox s'" by simp
  from reconnect_agrees [OF ord sample_calm sample_db_ok(2) sample_clock _ _ idle sync this loop, of 7]
  have agree: "{i \<in> active_at ''a1'' (tabs ?s). status_of s' i \<noteq> Some ''failed''} = {i. map_of (jobs a') i \<noteq> None}" by simp
  have "''p5'' \<notin> active_at ''a1'' (tabs ?s)" by (auto simp: active_at_def sample_row_def)
  with agree have "map_of (jobs a') ''p5'' = None" by blast
  moreover have "map_of (jobs demo_restored) ''p5'' \<noteq> None"
    by (simp add: demo_restored_def RegisterRestoredJob_def)
  ultimately show ?thesis using sync loop by simp
qed

end
