(* ===== verification/HubCommands.thy ===== *)
theory HubCommands
  imports AdminHandler Webhook
begin

text \<open>
  cmd/hub: main.go and the subcommands that read the database, \<open>migrate\<close>, \<open>agents list\<close>,
  \<open>previews list\<close> and \<open>previews show\<close>, and \<open>previews seed-stale\<close>, which writes to it. What is
  printed is the value that is encoded as JSON; the flag package reading \<open>-pr\<close> is an argument, as
  is the outcome of opening the database.
\<close>

datatype subcommand =
    RunDaemon "string list"
  | RunMigrate "string list"
  | RunAgents "string list"
  | RunPreviews "string list"
  | UnknownSubcommand string

definition hub_main :: "string list \<Rightarrow> subcommand" where
  "hub_main args =
     (case args of
        [] \<Rightarrow> RunDaemon args
      | a # rest \<Rightarrow>
          if a \<noteq> [] \<and> hd a = CHR ''-'' then RunDaemon args
          else if a = ''migrate'' then RunMigrate rest
          else if a = ''agents'' then RunAgents rest
          else if a = ''previews'' then RunPreviews rest
          else UnknownSubcommand a)"

datatype cli_err =
    AgentsUsage
  | PreviewsUsage
  | BadFlag string
  | OpenDb open_err
  | StoreFailed store_err
  | PreviewNotFound string

text \<open>The exit code of a failed subcommand: 2 for wrong arguments.\<close>

definition exit_code :: "cli_err \<Rightarrow> nat" where
  "exit_code e = (if e = AgentsUsage \<or> e = PreviewsUsage then 2 else 1)"

definition runAgents :: "open_err + unit \<Rightarrow> string list \<Rightarrow> (cli_err, agent_view list) act" where
  "runAgents opened args =
     (case args of
        [] \<Rightarrow> throw AgentsUsage
      | a # _ \<Rightarrow>
          if a \<noteq> ''list'' then throw AgentsUsage
          else bindE (raising OpenDb (lift_result opened)) (\<lambda>_.
               bindE (raising StoreFailed ListAgents) (\<lambda>as. ret (map toView as))))"

datatype previews_output = PreviewRows "PreviewView list" | OnePreview PreviewView | SeededPreview string

definition minutes_ago :: "nat \<Rightarrow> time \<Rightarrow> time" where
  "minutes_ago n t = t - n * 60 * nanos_per_sec"

text \<open>The columns the statement leaves out have the defaults of the schema.\<close>

definition seed_row :: "string \<Rightarrow> int \<Rightarrow> time \<Rightarrow> preview_row" where
  "seed_row i pr now =
     \<lparr>row_id = i, row_repo = ''fixture/repo'', row_pr = pr, row_sha = Some ''aabbcc'', row_branch = ''pr-fixture'',
      row_status = ''assigned'', row_agent = None, row_container = None, row_host = None, row_port = None,
      row_labels = ''{}'', row_error = None, row_created = iso8601 (minutes_ago 15 now),
      row_updated = iso8601 (minutes_ago 10 now), row_clone_url = [], row_urls = [], row_adhoc = 0\<rparr>"

definition seed_stale :: "preview_row \<Rightarrow> unit stmt" where
  "seed_stale p = (\<lambda>t.
     if row_id p \<in> row_id ` set (tb_previews t) \<or> (\<exists>r \<in> set (tb_previews t). same_sha_key p r) then Inl UniqueViolation
     else Inr ((), t\<lparr>tb_previews := tb_previews t @ [p]\<rparr>))"

definition runPreviews ::
    "open_err + unit \<Rightarrow> (string list \<Rightarrow> string + int) \<Rightarrow> string list \<Rightarrow> (cli_err, previews_output) act" where
  "runPreviews opened pr_flag args =
     (if args = [] then throw PreviewsUsage
      else bindE (raising OpenDb (lift_result opened)) (\<lambda>_.
        if hd args = ''list'' then
          bindE (raising StoreFailed ListAll) (\<lambda>ps. ret (PreviewRows (map PreviewToView ps)))
        else if hd args = ''show'' then
          (case tl args of
             [] \<Rightarrow> throw PreviewsUsage
           | i # _ \<Rightarrow> bindE (raising (\<lambda>e. if e = ErrNotFound then PreviewNotFound i else StoreFailed e) (GetByID i))
               (\<lambda>p. ret (OnePreview (PreviewToView p))))
        else if hd args = ''seed-stale'' then
          bindE (raising BadFlag (lift_result (pr_flag (tl args)))) (\<lambda>pr.
          bindE new_uuid (\<lambda>i.
          bindE time_now (\<lambda>now.
          bindE (raising StoreFailed (exec (seed_stale (seed_row i pr now)))) (\<lambda>_.
            ret (SeededPreview i)))))
        else throw PreviewsUsage))"

datatype migrate_output = Applied nat | Reverted | AtVersion nat bool

datatype migrate_cli_err = MigrateUsage | UnknownMigrate string | MigrateErr migrate_err

definition runMigrate ::
    "'d driver \<Rightarrow> 'd migrator \<Rightarrow> hub_config \<Rightarrow> string list \<Rightarrow> ('d, migrate_cli_err, migrate_output) prog" where
  "runMigrate d m cfg args =
     (case args of
        [] \<Rightarrow> throw MigrateUsage
      | a # _ \<Rightarrow>
          if a = ''up'' then
            bindE (raising MigrateErr (MigrateUp d m (cfg_database cfg))) (\<lambda>n. ret (Applied n))
          else if a = ''down'' then
            bindE (raising MigrateErr (MigrateDown d m (cfg_database cfg))) (\<lambda>_. ret Reverted)
          else if a = ''version'' then
            bindE (raising MigrateErr (MigrateVersion d m (cfg_database cfg))) (\<lambda>v. ret (AtVersion (fst v) (snd v)))
          else throw (UnknownMigrate a))"

section \<open>Laws\<close>

lemma raising_run:
  "raising f m s = (Inr x, s') \<longleftrightarrow> m s = (Inr x, s')"
  "snd (raising f m s) = snd (m s)"
  by (auto simp: raising_def split: prod.splits sum.splits)

lemma obeys_raising: "obeys R (raising f m) \<longleftrightarrow> obeys R m"
  by (simp add: obeys_def raising_run)

lemmas same_raising [same_rules] = obeys_raising [THEN iffD2]

text \<open>Nothing but seeding writes.\<close>

lemma runAgents_reads: "obeys tabs_same (runAgents opened args)"
  unfolding runAgents_def by (intro same_rules)

text \<open>A seeded preview has labels that are no list, so from then on no listing of the previews succeeds.\<close>

lemma seed_row_undecodable: "previewRowToDomain (seed_row i pr now) = Inl DecodeError"
  by (simp add: previewRowToDomain_def seed_row_def decodeLabels_object)

lemma ListAll_undecodable:
  assumes "q \<in> set (tb_previews (tabs s))" and "previewRowToDomain q = Inl e"
  shows "\<exists>e. fst (ListAll s) = Inl e"
proof -
  have "q \<in> set (order_desc row_created (tb_previews (tabs s)))" using assms(1) by simp
  from map_err_Inl [of q _ previewRowToDomain, OF this assms(2)]
  have "\<exists>e. map_err previewRowToDomain (order_desc row_created (tb_previews (tabs s))) = Inl e" .
  then show ?thesis
    by (auto simp: ListAll_def get_many_def listAllPreviews_def query_def exec_def bindE_def)
qed

theorem seed_breaks_lists:
  assumes "runPreviews opened pr_flag args s = (Inr (SeededPreview i), s')"
  shows "\<exists>e. fst (ListAll s') = Inl e"
proof -
  have "\<exists>q \<in> set (tb_previews (tabs s')). previewRowToDomain q = Inl DecodeError"
    using assms
    by (auto simp: runPreviews_def prog_elims raising_run seed_stale_def seed_row_undecodable
        split: if_splits list.splits)
  then show ?thesis using ListAll_undecodable by blast
qed

end
