(* ===== verification/Routes.thy ===== *)
theory Routes
  imports AdminHandler GoPath
begin

text \<open>
  internal/hub/server.go with the \<open>Register\<close> methods of the handlers: which handler serves a
  request. A path is its escaped text; \<open>net/http.ServeMux\<close> redirects one that is not clean and
  finds the handler of a clean one by walking the tree of its patterns, literal segments before
  wildcards.
\<close>

section \<open>The handlers\<close>

datatype handler =
    Health | AgentWS | GithubWebhook
  | CreateAgentH | ListAgentsH | DeleteAgentH
  | ListPreviewsH | GetPreviewH | DeletePreviewH
  | DashboardH | SettingsH | AgentTokenH | AgentDeleteFormH | PreviewRebuildH | PreviewStopH
  | AgentDetailH | TestBuildFormH | TestBuildSubmitH | AgentTeardownsH
  | ReposIndexH | RepoSecretsGetH | RepoSecretsPostH

section \<open>Patterns\<close>

text \<open>A literal segment, \<open>{name}\<close>, or the rest of the path (a final slash of the pattern).\<close>

datatype pat = Lit string | Wild | Rest

type_synonym 'h route = "string option \<times> pat list \<times> 'h"

text \<open>\<open>url.PathUnescape\<close>, which leaves a segment with a bad escape as it is.\<close>

fun unescape :: "string \<Rightarrow> string option" where
  "unescape [] = Some []"
| "unescape (c # s) =
     (if c = CHR ''%'' then
        (case s of
           a # b # rest \<Rightarrow>
             (case (hex_val a, hex_val b) of
                (Some x, Some y) \<Rightarrow> map_option ((#) (char_of (16 * x + y))) (unescape rest)
              | _ \<Rightarrow> None)
         | _ \<Rightarrow> None)
      else map_option ((#) c) (unescape s))"

definition pathUnescape :: "string \<Rightarrow> string" where
  "pathUnescape s = (case unescape s of None \<Rightarrow> s | Some r \<Rightarrow> r)"

text \<open>The segments of a path after its first slash; a final slash is a segment of its own.\<close>

fun raw_segments :: "string list \<Rightarrow> string list" where
  "raw_segments [] = []"
| "raw_segments [s] = (if s = [] then [''/''] else [pathUnescape s])"
| "raw_segments (s # rest) = pathUnescape s # raw_segments rest"

definition segments :: "string \<Rightarrow> string list" where
  "segments path = raw_segments (tl (split_byte CHR ''/'' path))"

text \<open>What the routes continue with after a segment of the given kind.\<close>

definition after :: "pat \<Rightarrow> (pat list \<times> 'h) list \<Rightarrow> (pat list \<times> 'h) list" where
  "after p rs = List.map_filter (\<lambda>(ps, h). case ps of [] \<Rightarrow> None | q # qs \<Rightarrow> if q = p then Some (qs, h) else None) rs"

definition ends_here :: "(pat list \<times> 'h) list \<Rightarrow> 'h option" where
  "ends_here rs = map_option snd (find (\<lambda>(ps, h). ps = []) rs)"

text \<open>\<open>routingNode.matchPath\<close>: the handler and the values of the wildcards.\<close>

fun matchPath :: "(pat list \<times> 'h) list \<Rightarrow> string list \<Rightarrow> ('h \<times> string list) option" where
  "matchPath rs [] = map_option (\<lambda>h. (h, [])) (ends_here rs)"
| "matchPath rs (seg # rest) =
     (case matchPath (after (Lit seg) rs) rest of
        Some x \<Rightarrow> Some x
      | None \<Rightarrow>
          (case (if seg \<noteq> ''/'' then matchPath (after Wild rs) rest else None) of
             Some (h, vs) \<Rightarrow> Some (h, seg # vs)
           | None \<Rightarrow> map_option (\<lambda>h. (h, [])) (ends_here (after Rest rs))))"

definition of_method :: "string option \<Rightarrow> 'h route list \<Rightarrow> (pat list \<times> 'h) list" where
  "of_method m rs = List.map_filter (\<lambda>(m', x). if m' = m then Some x else None) rs"

text \<open>The patterns of the method come first, for HEAD also those of GET, then those without one.\<close>

definition match_request :: "'h route list \<Rightarrow> string \<Rightarrow> string list \<Rightarrow> ('h \<times> string list) option" where
  "match_request rs meth segs =
     (case matchPath (of_method (Some meth) rs) segs of
        Some x \<Rightarrow> Some x
      | None \<Rightarrow>
          (case (if meth = ''HEAD'' then matchPath (of_method (Some ''GET'') rs) segs else None) of
             Some x \<Rightarrow> Some x
           | None \<Rightarrow> matchPath (of_method None rs) segs))"

text \<open>\<open>cleanPath\<close>: a final slash is kept.\<close>

definition cleanPath :: "string \<Rightarrow> string" where
  "cleanPath p =
     (if p = [] then ''/''
      else (let q = (if hd p = CHR ''/'' then p else CHR ''/'' # p); c = clean q in
            if last q = CHR ''/'' \<and> c \<noteq> ''/'' then c @ ''/'' else c))"

datatype 'h muxed =
    Found 'h "string list"
  | Redirect string
  | MethodNotAllowed
  | NotFound

definition mux :: "'h route list \<Rightarrow> string \<Rightarrow> string \<Rightarrow> 'h muxed" where
  "mux rs meth path =
     (if meth \<noteq> ''CONNECT'' \<and> cleanPath path \<noteq> path then Redirect (cleanPath path)
      else case match_request rs meth (segments path) of
        Some (h, vs) \<Rightarrow> Found h vs
      | None \<Rightarrow>
          if \<exists>(m, _) \<in> set rs. m \<noteq> None \<and> match_request rs (the m) (segments path) \<noteq> None
          then MethodNotAllowed else NotFound)"

section \<open>The routes\<close>

abbreviation GET :: "string option" where "GET \<equiv> Some ''GET''"
abbreviation POST :: "string option" where "POST \<equiv> Some ''POST''"
abbreviation DELETE :: "string option" where "DELETE \<equiv> Some ''DELETE''"

definition RegisterAdminOnly :: "handler route list" where
  "RegisterAdminOnly =
     [(POST, [Lit ''admin'', Lit ''agents''], CreateAgentH),
      (GET, [Lit ''admin'', Lit ''agents''], ListAgentsH),
      (DELETE, [Lit ''admin'', Lit ''agents'', Wild], DeleteAgentH)]"

definition webhook_admin_routes :: "handler route list" where
  "webhook_admin_routes =
     [(GET, [Lit ''admin'', Lit ''previews''], ListPreviewsH),
      (GET, [Lit ''admin'', Lit ''previews'', Wild], GetPreviewH),
      (DELETE, [Lit ''admin'', Lit ''previews'', Wild], DeletePreviewH)]"

definition RegisterUI :: "handler route list" where
  "RegisterUI =
     [(GET, [Lit ''admin''], DashboardH),
      (GET, [Lit ''admin'', Lit ''settings''], SettingsH),
      (GET, [Lit ''admin'', Lit ''agents'', Lit ''token''], AgentTokenH),
      (POST, [Lit ''admin'', Lit ''agents'', Wild, Lit ''delete''], AgentDeleteFormH),
      (POST, [Lit ''admin'', Lit ''previews'', Wild, Lit ''rebuild''], PreviewRebuildH),
      (POST, [Lit ''admin'', Lit ''previews'', Wild, Lit ''stop''], PreviewStopH),
      (GET, [Lit ''admin'', Lit ''agents'', Wild], AgentDetailH),
      (GET, [Lit ''admin'', Lit ''agents'', Wild, Lit ''test-build''], TestBuildFormH),
      (POST, [Lit ''admin'', Lit ''agents'', Wild, Lit ''test-build''], TestBuildSubmitH),
      (POST, [Lit ''admin'', Lit ''agents'', Wild, Lit ''teardowns''], AgentTeardownsH),
      (GET, [Lit ''admin'', Lit ''repos''], ReposIndexH),
      (GET, [Lit ''admin'', Lit ''repos'', Wild, Wild, Lit ''secrets''], RepoSecretsGetH),
      (POST, [Lit ''admin'', Lit ''repos'', Wild, Wild, Lit ''secrets''], RepoSecretsPostH)]"

definition adminMux :: "bool \<Rightarrow> bool \<Rightarrow> handler route list" where
  "adminMux webhook ui = RegisterAdminOnly @ (if webhook then webhook_admin_routes else []) @ (if ui then RegisterUI else [])"

datatype target = Public handler | AdminGate

definition mainMux :: "bool \<Rightarrow> target route list" where
  "mainMux webhook =
     [(GET, [Lit ''health''], Public Health), (GET, [Lit ''agent'', Lit ''ws''], Public AgentWS)] @
     (if webhook then [(POST, [Lit ''webhooks'', Lit ''github''], Public GithubWebhook)] else []) @
     [(None, [Lit ''admin'', Rest], AdminGate), (None, [Lit ''admin''], AdminGate)]"

datatype served = Serves handler "string list" | Refused | Answers "handler muxed"

text \<open>\<open>NewServer\<close>: the handler that the assembled server lets a request reach.\<close>

definition NewServer ::
    "bool \<Rightarrow> bool \<Rightarrow> string \<Rightarrow> string \<Rightarrow> string \<Rightarrow> (string \<times> string) option \<Rightarrow> served" where
  "NewServer webhook ui password meth path auth =
     (case mux (mainMux webhook) meth path of
        Found (Public h) vs \<Rightarrow> Serves h vs
      | Found AdminGate _ \<Rightarrow>
          (case BasicAuthMiddleware password auth of
             Unauthorized \<Rightarrow> Refused
           | PassThrough \<Rightarrow>
               (case mux (adminMux webhook ui) meth path of Found h vs \<Rightarrow> Serves h vs | x \<Rightarrow> Answers x))
      | Redirect p \<Rightarrow> Answers (Redirect p)
      | MethodNotAllowed \<Rightarrow> Answers MethodNotAllowed
      | NotFound \<Rightarrow> Answers NotFound)"

lemma server_samples:
  "NewServer True True ''pw'' ''GET'' ''/admin/agents/token'' (Some (''admin'', ''pw'')) = Serves AgentTokenH []"
  "NewServer True True ''pw'' ''GET'' ''/admin/agents/a%2Fb'' (Some (''admin'', ''pw'')) = Serves AgentDetailH [''a/b'']"
  "NewServer True True ''pw'' ''DELETE'' ''/admin/agents/token'' (Some (''admin'', ''pw'')) = Serves DeleteAgentH [''token'']"
  "NewServer True True ''pw'' ''HEAD'' ''/health'' None = Serves Health []"
  "NewServer True True ''pw'' ''POST'' ''/health'' None = Answers MethodNotAllowed"
  "NewServer True True ''pw'' ''GET'' ''//admin'' None = Answers (Redirect ''/admin'')"
  "NewServer True True ''pw'' ''GET'' ''/health/../admin'' None = Answers (Redirect ''/admin'')"
  "NewServer True True ''pw'' ''GET'' ''/admin/'' (Some (''admin'', ''pw'')) = Answers NotFound"
  "NewServer True True ''pw'' ''GET'' ''/admin/x'' None = Refused"
  by code_simp+

end
