(* ===== verification/RouteLaws.thy ===== *)
theory RouteLaws
  imports Routes
begin

text \<open>
  The tree of patterns against its declarative reading: a request reaches the handler of a
  registered pattern that fits its path, and of the one with the literal segment where two do.
\<close>

section \<open>Fitting\<close>

fun fits :: "pat list \<Rightarrow> string list \<Rightarrow> string list \<Rightarrow> bool" where
  "fits [] [] [] \<longleftrightarrow> True"
| "fits (Lit a # ps) (s # ss) vs \<longleftrightarrow> a = s \<and> fits ps ss vs"
| "fits (Wild # ps) (s # ss) (v # vs) \<longleftrightarrow> s \<noteq> ''/'' \<and> v = s \<and> fits ps ss vs"
| "fits [Rest] (s # ss) [] \<longleftrightarrow> True"
| "fits _ _ _ \<longleftrightarrow> False"

lemma fits_values: "fits ps ss vs \<Longrightarrow> fits ps ss us \<Longrightarrow> us = vs"
  by (induction ps ss vs arbitrary: us rule: fits.induct) (auto elim: fits.elims)

lemma fits_Nil [simp]: "fits [] ss vs \<longleftrightarrow> ss = [] \<and> vs = []" "fits ps [] vs \<longleftrightarrow> ps = [] \<and> vs = []"
  by (cases "([] :: pat list, ss, vs)" rule: fits.cases; simp)
    (cases "(ps, [] :: string list, vs)" rule: fits.cases; simp)

lemma fits_Lit [simp]: "fits (Lit a # ps) ss vs \<longleftrightarrow> (\<exists>rest. ss = a # rest \<and> fits ps rest vs)"
  by (cases ss) auto

lemma fits_Wild [simp]:
  "fits (Wild # ps) ss vs \<longleftrightarrow> (\<exists>v rest us. ss = v # rest \<and> v \<noteq> ''/'' \<and> vs = v # us \<and> fits ps rest us)"
  by (cases ss; cases vs) auto

lemma fits_Rest [simp]: "fits (Rest # ps) ss vs \<longleftrightarrow> ps = [] \<and> ss \<noteq> [] \<and> vs = []"
  by (cases ss; cases vs; cases ps) auto

lemma after_set: "(ps, h) \<in> set (after p rs) \<longleftrightarrow> (p # ps, h) \<in> set rs"
  by (induction rs) (auto simp: after_def map_filter_simps split: list.splits if_splits)

lemma ends_here_Some: "ends_here rs = Some h \<Longrightarrow> ([], h) \<in> set rs"
  by (auto simp: ends_here_def find_Some_iff) (metis nth_mem)

lemma ends_here_None: "ends_here rs = None \<Longrightarrow> ([], h) \<notin> set rs"
  by (auto simp: ends_here_def find_None_iff)

lemma matchPath_fits: "matchPath rs ss = Some (h, vs) \<Longrightarrow> \<exists>ps. (ps, h) \<in> set rs \<and> fits ps ss vs"
proof (induction ss arbitrary: rs vs)
  case Nil
  then show ?case using ends_here_Some by fastforce
next
  case (Cons s rest)
  consider (lit) "matchPath (after (Lit s) rs) rest = Some (h, vs)"
    | (wild) us where "s \<noteq> ''/''" "matchPath (after Wild rs) rest = Some (h, us)" "vs = s # us"
    | (final) "ends_here (after Rest rs) = Some h" "vs = []"
    using Cons.prems by (auto split: option.splits if_splits)
  then show ?case
  proof cases
    case lit
    from Cons.IH [OF this] obtain ps where "(ps, h) \<in> set (after (Lit s) rs)" "fits ps rest vs" by blast
    then show ?thesis unfolding after_set by (intro exI [of _ "Lit s # ps"]) simp
  next
    case wild
    from Cons.IH [OF wild(2)] obtain ps where "(ps, h) \<in> set (after Wild rs)" "fits ps rest us" by blast
    then show ?thesis unfolding after_set using wild by (intro exI [of _ "Wild # ps"]) simp
  next
    case final
    from ends_here_Some [OF final(1)] have "([Rest], h) \<in> set rs" by (simp add: after_set)
    then show ?thesis using final(2) by (intro exI [of _ "[Rest]"]) simp
  qed
qed

lemma matchPath_finds: "(ps, h) \<in> set rs \<Longrightarrow> fits ps ss vs \<Longrightarrow> matchPath rs ss \<noteq> None"
proof (induction ss arbitrary: ps vs rs)
  case Nil
  then show ?case using ends_here_None [of rs h] by (cases "ends_here rs") auto
next
  case (Cons s rest)
  show ?case
  proof (cases ps)
    case Nil
    with Cons.prems show ?thesis by simp
  next
    case p: (Cons p qs)
    show ?thesis
    proof (cases p)
      case (Lit a)
      then have "(qs, h) \<in> set (after (Lit s) rs)" "fits qs rest vs" using Cons.prems p by (auto simp: after_set)
      from Cons.IH [OF this] show ?thesis by auto
    next
      case Wild
      then obtain us where "s \<noteq> ''/''" "(qs, h) \<in> set (after Wild rs)" "fits qs rest us"
        using Cons.prems p by (auto simp: after_set)
      with Cons.IH [OF this(2,3)] show ?thesis by (auto split: option.splits)
    next
      case Rest
      then have "([], h) \<in> set (after Rest rs)" using Cons.prems p by (auto simp: after_set)
      then have "ends_here (after Rest rs) \<noteq> None" using ends_here_None [of "after Rest rs" h] by blast
      then show ?thesis by (auto split: option.splits)
    qed
  qed
qed

text \<open>Where only one pattern fits, its handler is found.\<close>

lemma matchPath_only:
  assumes "(ps, h) \<in> set rs" and "fits ps ss vs"
    and "\<And>qs g us. (qs, g) \<in> set rs \<Longrightarrow> fits qs ss us \<Longrightarrow> g = h \<and> us = vs"
  shows "matchPath rs ss = Some (h, vs)"
  using matchPath_finds [OF assms(1,2)] matchPath_fits [of rs ss] assms(3)
  by (cases "matchPath rs ss") fastforce+

lemma of_method_set: "(ps, h) \<in> set (of_method m rs) \<longleftrightarrow> (m, ps, h) \<in> set rs"
  by (induction rs) (auto simp: of_method_def map_filter_simps split: if_splits)

section \<open>The routes of the hub\<close>

definition verb :: "string \<Rightarrow> string" where
  "verb meth = (if meth = ''HEAD'' then ''GET'' else meth)"

definition routes :: "handler route list" where
  "routes = adminMux True True @
     [(GET, [Lit ''health''], Health), (GET, [Lit ''agent'', Lit ''ws''], AgentWS),
      (POST, [Lit ''webhooks'', Lit ''github''], GithubWebhook)]"

text \<open>The only two patterns that fit the same path: the literal one wins.\<close>

definition shadowed :: "handler \<Rightarrow> string list \<Rightarrow> bool" where
  "shadowed h vs \<longleftrightarrow> h = AgentDetailH \<and> vs = [''token'']"

lemmas admin_defs = adminMux_def RegisterAdminOnly_def webhook_admin_routes_def RegisterUI_def

text \<open>The handler of a path, written out.\<close>

definition admin_ref :: "string \<Rightarrow> string list \<Rightarrow> (handler \<times> string list) option" where
  "admin_ref m ss =
     (case ss of
        [_] \<Rightarrow> Some (DashboardH, [])
      | [_, x] \<Rightarrow>
          if x = ''agents'' then Some (if m = ''GET'' then ListAgentsH else CreateAgentH, [])
          else if x = ''previews'' then Some (ListPreviewsH, [])
          else if x = ''settings'' then Some (SettingsH, [])
          else Some (ReposIndexH, [])
      | [_, x, y] \<Rightarrow>
          if x = ''agents'' then
            if m = ''DELETE'' then Some (DeleteAgentH, [y])
            else if y = ''token'' then Some (AgentTokenH, []) else Some (AgentDetailH, [y])
          else Some (if m = ''GET'' then GetPreviewH else DeletePreviewH, [y])
      | [_, x, y, z] \<Rightarrow>
          Some (if m = ''GET'' then TestBuildFormH
                else if z = ''delete'' then AgentDeleteFormH
                else if z = ''rebuild'' then PreviewRebuildH
                else if z = ''stop'' then PreviewStopH
                else if z = ''test-build'' then TestBuildSubmitH else AgentTeardownsH, [y])
      | [_, x, y, z, _] \<Rightarrow> Some (if m = ''GET'' then RepoSecretsGetH else RepoSecretsPostH, [y, z])
      | _ \<Rightarrow> None)"

lemma admin_known:
  assumes "(Some m, ps, h) \<in> set (adminMux True True)" and "fits ps ss vs" and "\<not> shadowed h vs"
  shows "admin_ref m ss = Some (h, vs)"
  using assms(1) unfolding admin_defs
  by (simp, elim disjE; insert assms(2,3); simp; elim exE conjE; simp add: admin_ref_def shadowed_def)

lemma matchPath_empty [simp]: "matchPath [] ss = None"
  by (induction ss) (simp_all add: ends_here_def after_def map_filter_simps)

text \<open>No pattern is registered for HEAD alone, and those of the pages all have a method.\<close>

lemma admin_request:
  "match_request (adminMux True True) meth ss = matchPath (of_method (Some (verb meth)) (adminMux True True)) ss"
proof -
  have "of_method None (adminMux True True) = []" "of_method (Some ''HEAD'') (adminMux True True) = []"
    by (simp_all add: admin_defs of_method_def map_filter_simps)
  then show ?thesis by (auto simp: match_request_def verb_def split: option.split)
qed

lemma token_page:
  "matchPath (of_method GET (adminMux True True)) [''admin'', ''agents'', ''token''] = Some (AgentTokenH, [])"
  by code_simp

lemma admin_found:
  assumes "matchPath (of_method (Some m) (adminMux True True)) ss = Some (h, vs)"
  shows "admin_ref m ss = Some (h, vs) \<and> \<not> shadowed h vs \<and>
    (\<exists>ps. (Some m, ps, h) \<in> set (adminMux True True) \<and> fits ps ss vs)"
proof -
  from matchPath_fits [OF assms] obtain ps where ps: "(Some m, ps, h) \<in> set (adminMux True True)" "fits ps ss vs"
    by (auto simp: of_method_set)
  have "\<not> shadowed h vs"
  proof
    assume sh: "shadowed h vs"
    then have "m = ''GET'' \<and> ps = [Lit ''admin'', Lit ''agents'', Wild]"
      using ps(1) by (auto simp: admin_defs shadowed_def)
    then show False using ps(2) sh assms token_page by (auto simp: shadowed_def)
  qed
  with ps admin_known show ?thesis by blast
qed

lemma admin_match:
  "match_request (adminMux True True) meth ss = Some (h, vs) \<longleftrightarrow>
     (\<exists>ps. (Some (verb meth), ps, h) \<in> set (adminMux True True) \<and> fits ps ss vs \<and> \<not> shadowed h vs)"
proof
  assume "match_request (adminMux True True) meth ss = Some (h, vs)"
  then show "\<exists>ps. (Some (verb meth), ps, h) \<in> set (adminMux True True) \<and> fits ps ss vs \<and> \<not> shadowed h vs"
    unfolding admin_request using admin_found by blast
next
  assume "\<exists>ps. (Some (verb meth), ps, h) \<in> set (adminMux True True) \<and> fits ps ss vs \<and> \<not> shadowed h vs"
  then obtain ps where ps: "(Some (verb meth), ps, h) \<in> set (adminMux True True)" "fits ps ss vs" "\<not> shadowed h vs" by blast
  then have "matchPath (of_method (Some (verb meth)) (adminMux True True)) ss \<noteq> None"
    by (intro matchPath_finds) (simp_all add: of_method_set)
  then obtain g us where g: "matchPath (of_method (Some (verb meth)) (adminMux True True)) ss = Some (g, us)" by auto
  with admin_found [OF g] admin_known [OF ps] show "match_request (adminMux True True) meth ss = Some (h, vs)"
    unfolding admin_request by simp
qed

section \<open>The outer routes\<close>

text \<open>The first segment decides between the public handlers and the gate.\<close>

definition main_ref :: "string \<Rightarrow> string list \<Rightarrow> (target \<times> string list) option" where
  "main_ref m ss =
     (if m = ''GET'' \<and> ss = [''health''] then Some (Public Health, [])
      else if m = ''GET'' \<and> ss = [''agent'', ''ws''] then Some (Public AgentWS, [])
      else if m = ''POST'' \<and> ss = [''webhooks'', ''github''] then Some (Public GithubWebhook, [])
      else if ss \<noteq> [] \<and> hd ss = ''admin'' then Some (AdminGate, [])
      else None)"

lemma main_known:
  assumes "(mo, ps, t) \<in> set (mainMux True)" and "mo = None \<or> mo = Some m" and "fits ps ss vs"
  shows "main_ref m ss = Some (t, vs)"
  using assms(1) unfolding mainMux_def
  by (simp, elim disjE; insert assms(2,3); simp; elim exE conjE; simp add: main_ref_def)

lemma main_request:
  "match_request (mainMux True) meth ss =
     (case matchPath (of_method (Some (verb meth)) (mainMux True)) ss of
        Some x \<Rightarrow> Some x | None \<Rightarrow> matchPath (of_method None (mainMux True)) ss)"
proof -
  have "of_method (Some ''HEAD'') (mainMux True) = []"
    by (simp add: mainMux_def of_method_def map_filter_simps)
  then show ?thesis
    by (cases "meth = ''HEAD''") (simp_all add: match_request_def verb_def split: option.split)
qed

lemma main_match: "match_request (mainMux True) meth ss = main_ref (verb meth) ss"
proof (cases "main_ref (verb meth) ss")
  case None
  have "matchPath (of_method mo (mainMux True)) ss = None" if "mo = None \<or> mo = Some (verb meth)" for mo
  proof (rule ccontr)
    assume "matchPath (of_method mo (mainMux True)) ss \<noteq> None"
    then obtain t vs where "matchPath (of_method mo (mainMux True)) ss = Some (t, vs)" by auto
    from matchPath_fits [OF this] obtain ps where "(mo, ps, t) \<in> set (mainMux True)" "fits ps ss vs"
      by (auto simp: of_method_set)
    with main_known that None show False by fastforce
  qed
  then show ?thesis using None by (simp add: main_request)
next
  case (Some x)
  have known: "y = x" if "mo = None \<or> mo = Some (verb meth)" "matchPath (of_method mo (mainMux True)) ss = Some y" for mo y
  proof -
    obtain t vs where y: "y = (t, vs)" by fastforce
    from matchPath_fits that(2) obtain ps where "(mo, ps, t) \<in> set (mainMux True)" "fits ps ss vs"
      unfolding y by (metis of_method_set)
    with main_known that(1) Some y show ?thesis by fastforce
  qed
  have "\<exists>mo \<in> {None, Some (verb meth)}. matchPath (of_method mo (mainMux True)) ss \<noteq> None"
  proof -
    consider "verb meth = ''GET''" "ss = [''health'']" | "verb meth = ''GET''" "ss = [''agent'', ''ws'']"
      | "verb meth = ''POST''" "ss = [''webhooks'', ''github'']" | rest where "ss = ''admin'' # rest"
      using Some by (cases ss) (auto simp: main_ref_def split: if_splits)
    then show ?thesis
    proof cases
      case 1
      have "matchPath (of_method GET (mainMux True)) [''health''] \<noteq> None" by code_simp
      with 1 show ?thesis by simp
    next
      case 2
      have "matchPath (of_method GET (mainMux True)) [''agent'', ''ws''] \<noteq> None" by code_simp
      with 2 show ?thesis by simp
    next
      case 3
      have "matchPath (of_method POST (mainMux True)) [''webhooks'', ''github''] \<noteq> None" by code_simp
      with 3 show ?thesis by simp
    next
      case 4
      have "(None, [Lit ''admin''], AdminGate) \<in> set (mainMux True)" "(None, [Lit ''admin'', Rest], AdminGate) \<in> set (mainMux True)"
        by (simp_all add: mainMux_def)
      moreover have "fits [Lit ''admin''] ss [] \<or> fits [Lit ''admin'', Rest] ss []" using 4 by simp
      ultimately show ?thesis using matchPath_finds of_method_set by (metis insertI1)
    qed
  qed
  then show ?thesis using known [of None] known [of "Some (verb meth)"] Some
    by (cases "matchPath (of_method (Some (verb meth)) (mainMux True)) ss") (auto simp: main_request)
qed

section \<open>The server\<close>

text \<open>What a request reaches, for a clean path.\<close>

lemma server_serves:
  assumes "cleanPath path = path"
  shows "NewServer True True pw meth path auth = Serves h vs \<longleftrightarrow>
    (\<exists>ps. (Some (verb meth), ps, h) \<in> set routes \<and> fits ps (segments path) vs \<and> \<not> shadowed h vs \<and>
       ((\<exists>qs. ps = Lit ''admin'' # qs) \<longrightarrow> BasicAuthMiddleware pw auth = PassThrough))"
proof -
  let ?ss = "segments path"
  have admin: "\<exists>qs. ps = Lit ''admin'' # qs" if "(m, ps, g) \<in> set (adminMux True True)" for m ps g
    using that by (auto simp: admin_defs)
  have main: "mux (mainMux True) meth path =
      (case main_ref (verb meth) ?ss of Some (t, us) \<Rightarrow> Found t us | None \<Rightarrow> mux (mainMux True) meth path)"
    using assms by (simp add: mux_def main_match split: option.split)
  have pages: "mux (adminMux True True) meth path = Found h vs \<longleftrightarrow> match_request (adminMux True True) meth ?ss = Some (h, vs)" for h vs
    using assms by (auto simp: mux_def split: option.splits)
  show ?thesis
  proof (cases "?ss \<noteq> [] \<and> hd ?ss = ''admin''")
    case True
    then have "main_ref (verb meth) ?ss = Some (AdminGate, [])" by (auto simp: main_ref_def)
    then have gate: "mux (mainMux True) meth path = Found AdminGate []" using main by simp
    have "NewServer True True pw meth path auth = Serves h vs \<longleftrightarrow>
        BasicAuthMiddleware pw auth = PassThrough \<and> match_request (adminMux True True) meth ?ss = Some (h, vs)"
      unfolding pages [symmetric] by (auto simp: NewServer_def gate split: guarded.splits muxed.splits)
    moreover have "\<exists>qs. ps = Lit ''admin'' # qs"
      if "(Some (verb meth), ps, h) \<in> set routes" "fits ps ?ss vs" for ps
      using that True by (auto simp: routes_def dest: admin)
    ultimately show ?thesis using True admin
      unfolding admin_match routes_def by auto
  next
    case False
    then have "main_ref (verb meth) ?ss \<noteq> Some (AdminGate, us)" for us
      by (auto simp: main_ref_def split: if_splits)
    then have no_gate: "x \<noteq> (AdminGate, us)" if "main_ref (verb meth) ?ss = Some x" for x us
      using that by auto
    have "NewServer True True pw meth path auth = Serves h vs \<longleftrightarrow> main_ref (verb meth) ?ss = Some (Public h, vs)"
    proof (cases "main_ref (verb meth) ?ss")
      case None
      then have "mux (mainMux True) meth path \<in> {MethodNotAllowed, NotFound}"
        using assms by (simp add: mux_def main_match)
      with None show ?thesis by (auto simp: NewServer_def)
    next
      case (Some x)
      then obtain g us where "x = (Public g, us)" using no_gate by (metis prod.exhaust target.exhaust)
      with Some show ?thesis by (simp add: NewServer_def main)
    qed
    moreover have "(Some (verb meth), ps, h) \<notin> set (adminMux True True)" if "fits ps ?ss vs" for ps
      using that False by (auto dest!: admin)
    ultimately show ?thesis using False
      by (auto simp: routes_def main_ref_def shadowed_def split: if_splits)
  qed
qed

lemma server_clean:
  "NewServer w ui pw meth path auth = Serves h vs \<Longrightarrow> meth = ''CONNECT'' \<or> cleanPath path = path"
  by (auto simp: NewServer_def mux_def split: if_splits)

lemma server_gate:
  assumes "NewServer True True pw meth path auth = Serves h vs" and "h \<notin> {Health, AgentWS, GithubWebhook}"
  shows "BasicAuthMiddleware pw auth = PassThrough"
proof (cases "mux (mainMux True) meth path")
  case (Found t us)
  then have t: "main_ref (verb meth) (segments path) = Some (t, us)"
    by (auto simp: mux_def main_match split: if_splits option.splits)
  show ?thesis
  proof (cases t)
    case (Public g)
    with t have "g \<in> {Health, AgentWS, GithubWebhook}" by (auto simp: main_ref_def split: if_splits)
    with assms Found Public show ?thesis by (simp add: NewServer_def)
  next
    case AdminGate
    with assms(1) Found show ?thesis by (simp add: NewServer_def split: guarded.splits)
  qed
qed (use assms in \<open>simp_all add: NewServer_def\<close>)

end
