(* ===== verification/TokenGen.thy ===== *)
theory TokenGen
  imports AdminHandler
begin

text \<open>
  internal/hub/token/token.go: making tokens. The random bytes and bcrypt's hash, each with the
  error it may give, are arguments; the encoding is \<open>base64.RawURLEncoding\<close>.
\<close>

section \<open>Base64\<close>

definition b64_alphabet :: string where
  "b64_alphabet = ''ABCDEFGHIJKLMNOPQRSTUVWXYZabcdefghijklmnopqrstuvwxyz0123456789-_''"

definition b64 :: "nat \<Rightarrow> char" where
  "b64 n = b64_alphabet ! (n mod 64)"

text \<open>Three bytes give four digits; one or two bytes at the end give two or three, without padding.\<close>

fun base64 :: "nat list \<Rightarrow> string" where
  "base64 [] = []"
| "base64 [a] = [b64 (a div 4), b64 (a mod 4 * 16)]"
| "base64 [a, b] = [b64 (a div 4), b64 (a mod 4 * 16 + b div 16), b64 (b mod 16 * 4)]"
| "base64 (a # b # c # rest) =
     [b64 (a div 4), b64 (a mod 4 * 16 + b div 16), b64 (b mod 16 * 4 + c div 64), b64 (c mod 64)] @ base64 rest"

definition EncodeToString :: "string \<Rightarrow> string" where
  "EncodeToString s = base64 (map of_char s)"

section \<open>The generator\<close>

text \<open>\<open>Generate\<close>: the raw token and its hash. The arguments are what \<open>rand.Read\<close> puts into the 32
  bytes and \<open>bcrypt.GenerateFromPassword\<close>.\<close>

definition Generate :: "string + string \<Rightarrow> (int \<Rightarrow> string \<Rightarrow> string + string) \<Rightarrow> int \<Rightarrow> string + string \<times> string" where
  "Generate random bcrypt cost =
     (case random of
        Inl e \<Rightarrow> Inl (''token.Generate: rand: '' @ e)
      | Inr b \<Rightarrow>
          (let raw = token_prefix @ EncodeToString b in
           case bcrypt cost raw of
             Inl e \<Rightarrow> Inl (''token.Generate: bcrypt: '' @ e)
           | Inr hash \<Rightarrow> Inr (raw, hash)))"

definition Hash :: "(int \<Rightarrow> string \<Rightarrow> string + string) \<Rightarrow> int \<Rightarrow> string \<Rightarrow> string + string" where
  "Hash bcrypt cost raw = (case bcrypt cost raw of Inl e \<Rightarrow> Inl (''token.Hash: '' @ e) | Inr h \<Rightarrow> Inr h)"

lemma base64_samples:
  "EncodeToString ''Man'' = ''TWFu''" "EncodeToString ''Ma'' = ''TWE''" "EncodeToString ''M'' = ''TQ''"
  "EncodeToString (map char_of [251 :: nat, 255]) = ''-_8''"
  by code_simp+

section \<open>The text of a token\<close>

lemma b64_plain: "plain_byte (b64 n)"
proof -
  have "list_all plain_byte b64_alphabet" by code_simp
  moreover have "n mod 64 < length b64_alphabet" by (simp add: b64_alphabet_def)
  ultimately show ?thesis unfolding b64_def by (simp add: list_all_length)
qed

lemma base64_plain: "list_all plain_byte (base64 bs)"
  by (induction bs rule: base64.induct) (simp_all add: b64_plain)

lemma base64_length: "length (base64 bs) = (4 * length bs + 2) div 3"
  by (induction bs rule: base64.induct) simp_all

text \<open>A token is printable without spaces, so the header that carries it is read back.\<close>

lemma Generate_raw:
  assumes "Generate (Inr b) bcrypt cost = Inr (raw, hash)"
  shows "has_prefix raw token_prefix \<and> length raw = 4 + (4 * length b + 2) div 3 \<and> bcrypt cost raw = Inr hash \<and>
    parseBearer (''Bearer '' @ raw) = Some raw"
proof -
  have raw: "raw = token_prefix @ EncodeToString b" "bcrypt cost raw = Inr hash"
    using assms by (auto simp: Generate_def Let_def split: sum.splits)
  have "list_all plain_byte token_prefix" by code_simp
  with base64_plain have "\<forall>c \<in> set raw. plain_byte c" unfolding raw(1) EncodeToString_def by (auto simp: list_all_iff)
  moreover have ne: "raw \<noteq> []" by (simp add: raw(1) token_prefix_def)
  ultimately have "trim_space raw = raw" by (intro trim_space_plain_word)
  with ne raw show ?thesis
    by (simp add: parseBearer_def has_prefix_def token_prefix_def EncodeToString_def base64_length)
qed

section \<open>A new agent can connect\<close>

lemma createAgent_created:
  assumes "createAgentAPI (Some (nm, labels)) (Some (raw, hash)) s = (Inr rep :: 'e + reply, s1)" and "code rep = 201"
  shows "\<exists>i now. rep = wrote_agent i nm raw \<and> faults s1 = faults s \<and> seqno s \<le> seqno s1 \<and>
    tb_agents (tabs s1) = tb_agents (tabs s) @ [agent_row_of (new_agent i nm hash labels now)]"
  using assms
  by (auto simp: createAgentAPI_def prog_elims CreateAgent_def catchE_def exec_def createAgent_def new_uuid_def time_now_def
      attempt_def bindE_def writeError_def wrote_agent_def
      split: if_splits sum.splits prod.splits)

lemma rowToAgent_hash: "rowToAgent r = Inr a \<Longrightarrow> ag_token_hash a = arow_token_hash r \<and> ag_name a = arow_name r \<and> ag_id a = arow_id r"
  by (auto simp: rowToAgent_def Let_def split: option.splits)

lemma rowToAgent_decodable: "decodable_agent r \<Longrightarrow> \<exists>a. rowToAgent r = Inr a"
  by (auto simp: rowToAgent_def decodable_agent_def Let_def split: option.splits)

text \<open>Without failures the lookup finds the only agent whose hash fits.\<close>

lemma lookup_only:
  assumes "\<forall>r \<in> set (tb_agents (tabs s)). decodable_agent r" and "\<not> faults s (seqno s)"
    and raw: "parseBearer hdr = Some raw" "has_prefix raw token_prefix"
    and row: "row \<in> set (tb_agents (tabs s))" "bcrypt (arow_token_hash row) raw"
    and only: "\<And>r. r \<in> set (tb_agents (tabs s)) \<Longrightarrow> bcrypt (arow_token_hash r) raw \<Longrightarrow> r = row"
  shows "\<exists>a. rowToAgent row = Inr a \<and> ServeHTTP bcrypt hdr s = (Inr (Inr a) :: 'e + reply + Agent, step_env s)"
proof -
  let ?rows = "order_desc arow_created (tb_agents (tabs s))"
  have rows: "set ?rows = set (tb_agents (tabs s))" by simp
  obtain f where f: "\<forall>r \<in> set ?rows. rowToAgent r = Inr (f r)"
    using assms(1) rowToAgent_decodable unfolding rows by metis
  then have all: "map_err rowToAgent ?rows = Inr (map f ?rows)"
    by (intro map_err_ok) simp
  have list: "ListAgents s = (Inr (map f ?rows), step_env s)"
    using assms(2) by (simp add: ListAgents_def exec_def listAgents_def query_def bindE_def all lift_result_def step_env_def)
  let ?P = "\<lambda>a. Verify bcrypt raw (ag_token_hash a)"
  have fits: "Verify bcrypt raw (ag_token_hash (f r)) \<longleftrightarrow> r = row" if "r \<in> set ?rows" for r
    using f that rowToAgent_hash [of r "f r"] only [of r] row raw(2) by (auto simp: Verify_def rows)
  have "find ?P (map f ?rows) = Some (f row)"
  proof (cases "find ?P (map f ?rows)")
    case None
    then have "\<not> ?P (f row)" using row(1) rows by (simp add: find_None_iff)
    then show ?thesis using fits [of row] row(1) rows by simp
  next
    case (Some y)
    then obtain r where "r \<in> set ?rows" "y = f r" "?P y" using find_SomeD [OF Some] by auto
    with fits Some show ?thesis by simp
  qed
  then have "findAgentByToken bcrypt raw s = (Inr (f row), step_env s)"
    by (simp add: findAgentByToken_def bindE_def store_def list)
  moreover have "hdr \<noteq> []" using raw(1) by (auto simp: parseBearer_def has_prefix_def)
  ultimately have "ServeHTTP bcrypt hdr s = (Inr (Inr (f row)) :: 'e + reply + Agent, step_env s)"
    using raw by (simp add: ServeHTTP_def bindE_def attempt_def)
  with f row(1) rows show ?thesis by blast
qed

end
