(* ===== verification/HubAccess.thy ===== *)
theory HubAccess
  imports RouteLaws TokenGen Samples
begin

text \<open>Who reaches which handler of the hub: the properties of the assembled server.\<close>

text \<open>C39: a request for a clean path reaches exactly the handler of the registered pattern that fits
  method and path (GET patterns also serve HEAD), with the segments at the wildcards decoded; the
  page of the token wins over the page of an agent called token, and everything below /admin
  asks for the password first.\<close>

theorem routes_exact:
  assumes "cleanPath path = path"
  shows "NewServer True True pw meth path auth = Serves h vs \<longleftrightarrow>
    (\<exists>ps. (Some (verb meth), ps, h) \<in> set routes \<and> fits ps (segments path) vs \<and>
       \<not> (h = AgentDetailH \<and> vs = [''token'']) \<and>
       ((\<exists>qs. ps = Lit ''admin'' # qs) \<longrightarrow> BasicAuthMiddleware pw auth = PassThrough))"
  using server_serves [OF assms] by (simp only: shadowed_def)

theorem routes_exact_witness:
  "NewServer True True ''pw'' ''HEAD'' ''/admin/repos/o/r%2Fx/secrets'' (Some (''admin'', ''pw''))
     = Serves RepoSecretsGetH [''o'', ''r/x'']"
proof -
  have "cleanPath ''/admin/repos/o/r%2Fx/secrets'' = ''/admin/repos/o/r%2Fx/secrets''" by code_simp
  moreover have "segments ''/admin/repos/o/r%2Fx/secrets'' = [''admin'', ''repos'', ''o'', ''r/x'', ''secrets'']" by code_simp
  moreover have "(GET, [Lit ''admin'', Lit ''repos'', Wild, Wild, Lit ''secrets''], RepoSecretsGetH) \<in> set routes"
    by (simp add: routes_def admin_defs)
  moreover have "BasicAuthMiddleware ''pw'' (Some (''admin'', ''pw'')) = PassThrough" by (simp add: BasicAuthMiddleware_def)
  ultimately show ?thesis
    by (subst routes_exact) (auto simp: verb_def intro!: exI [of _ "[Lit ''admin'', Lit ''repos'', Wild, Wild, Lit ''secrets'']"])
qed

text \<open>C40: with a configuration the hub starts with, from whatever variables and flags, the only
  handlers reached without the user admin and the password of the environment, which is not empty,
  are the health check, the connection of an agent and the webhook, however method and path are
  written.\<close>

theorem admin_guarded:
  assumes "daemon_config w reconcile stale = Inr c"
    and "NewServer True True (cfg_admin_password c) meth path auth = Serves h vs"
    and "h \<notin> {Health, AgentWS, GithubWebhook}"
  shows "auth = Some (''admin'', env_var w ''ADMIN_PASSWORD'') \<and> env_var w ''ADMIN_PASSWORD'' \<noteq> []"
proof -
  have "cfg_admin_password c = env_var w ''ADMIN_PASSWORD''" by (rule daemon_config_password [OF assms(1)])
  with daemon_config_guarded(2) [OF assms(1)] server_gate [OF assms(2,3)] show ?thesis
    by (auto simp: BasicAuthMiddleware_def split: if_splits option.splits)
qed

definition demo_process :: hub_process where
  "demo_process = \<lparr>env_var = (\<lambda>k. if k = ''ADMIN_PASSWORD'' then ''pw'' else ''x''), parse_int = (\<lambda>_. None),
     parse_dur = (\<lambda>_. None)\<rparr>"

theorem admin_guarded_witness:
  "\<exists>c. daemon_config demo_process 0 0 = Inr c \<and>
     NewServer True True (cfg_admin_password c) ''GET'' ''/admin'' (Some (''admin'', ''pw'')) = Serves DashboardH [] \<and>
     env_var demo_process ''ADMIN_PASSWORD'' \<noteq> []"
proof -
  have "\<exists>c. daemon_config demo_process 0 0 = Inr c \<and> cfg_admin_password c = ''pw''"
    by (simp add: daemon_config_def Validate_def DefaultConfig_def demo_process_def Let_def)
  then obtain c where c: "daemon_config demo_process 0 0 = Inr c" "cfg_admin_password c = ''pw''" by blast
  have "NewServer True True ''pw'' ''GET'' ''/admin'' (Some (''admin'', ''pw'')) = Serves DashboardH []" by code_simp
  then have "NewServer True True (cfg_admin_password c) ''GET'' ''/admin'' (Some (''admin'', ''pw'')) = Serves DashboardH []"
    by (simp only: c(2))
  with admin_guarded [OF c(1) this] c(1) show ?thesis by blast
qed

section \<open>Tokens\<close>

text \<open>C25: an agent created with a generated token is told that token, and the token lets exactly that
  agent in when bcrypt accepts it for its own hash and for no other: the text of a token survives
  the header of the connection, its hash the database.\<close>

theorem token_admits:
  assumes "Generate (Inr random) bcrypt_hash cost = Inr (raw, hash)"
    and "createAgentAPI (Some (nm, labels)) (Some (raw, hash)) s = (Inr rep :: 'e + reply, s1)" and "code rep = 201"
    and "\<And>h. bcrypt_hash cost raw = Inr h \<Longrightarrow> bcrypt h raw"
    and "\<And>r. r \<in> set (tb_agents (tabs s)) \<Longrightarrow> \<not> bcrypt (arow_token_hash r) raw"
    and "calm s" and "db_ok (tabs s)" and "clock_ok s"
  shows "\<exists>a s2. (ServeHTTP bcrypt (''Bearer '' @ raw) s1 :: ('f + reply + Agent) \<times> hub) = (Inr (Inr a), s2) \<and>
    ag_name a = nm \<and> body rep = [(''id'', ag_id a), (''name'', nm), (''token'', raw)]"
proof -
  note raw = Generate_raw [OF assms(1)]
  from createAgent_created [OF assms(2,3)] obtain i now where new: "rep = wrote_agent i nm raw" "faults s1 = faults s"
      "seqno s \<le> seqno s1" "tb_agents (tabs s1) = tb_agents (tabs s) @ [agent_row_of (new_agent i nm hash labels now)]" by blast
  let ?row = "agent_row_of (new_agent i nm hash labels now)"
  have "db_ok (tabs s1)"
    using keepsD [OF obeysD [OF keeps_createAgent assms(2)] assms(8,7)] by simp
  then have dec: "\<forall>r \<in> set (tb_agents (tabs s1)). decodable_agent r" by (simp add: db_ok_def decodable_def)
  have calm: "\<not> faults s1 (seqno s1)" using new(2,3) assms(6) by (simp add: calm_no_fault)
  have row: "arow_token_hash ?row = hash" "arow_name ?row = nm" "arow_id ?row = i"
    by (simp_all add: agent_row_of_def new_agent_def)
  have mem: "?row \<in> set (tb_agents (tabs s1))" by (simp add: new(4))
  have own: "bcrypt (arow_token_hash ?row) raw" unfolding row(1) by (rule assms(4)) (simp add: raw)
  have only: "r = ?row" if "r \<in> set (tb_agents (tabs s1))" "bcrypt (arow_token_hash r) raw" for r
    using that assms(5) [of r] unfolding new(4) by auto
  from raw have header: "parseBearer (''Bearer '' @ raw) = Some raw" "has_prefix raw token_prefix" by simp_all
  from lookup_only [where bcrypt = bcrypt, OF dec calm header mem own only]
  obtain a where a: "rowToAgent ?row = Inr a"
      "(ServeHTTP bcrypt (''Bearer '' @ raw) s1 :: ('f + reply + Agent) \<times> hub) = (Inr (Inr a), step_env s1)"
    by blast
  from rowToAgent_hash [OF a(1)] row have names: "ag_name a = nm" "ag_id a = i" by simp_all
  then have "body rep = [(''id'', ag_id a), (''name'', nm), (''token'', raw)]" by (simp add: new(1) wrote_agent_def)
  with a(2) names(1) show ?thesis by blast
qed

theorem token_admits_witness:
  "\<exists>raw hash rep s1 (a :: Agent) s2. Generate (Inr (replicate 32 (CHR ''x''))) (\<lambda>c p. Inr (''$'' @ p)) 10 = Inr (raw, hash) \<and>
     (createAgentAPI (Some (''n2'', [])) (Some (raw, hash)) (sample ''queued'' None) :: (hub_err + reply) \<times> hub) = (Inr rep, s1) \<and>
     (ServeHTTP (\<lambda>h p. h = ''$'' @ p) (''Bearer '' @ raw) s1 :: (hub_err + reply + Agent) \<times> hub) = (Inr (Inr a), s2) \<and>
     ag_name a = ''n2''"
proof -
  let ?hash = "\<lambda>(c :: int) p. Inr (''$'' @ p) :: string + string"
  obtain raw hash where gen: "Generate (Inr (replicate 32 (CHR ''x''))) ?hash 10 = Inr (raw, hash)"
    by (simp add: Generate_def Let_def)
  obtain rep s1 where new: "(createAgentAPI (Some (''n2'', [])) (Some (raw, hash)) (sample ''queued'' None) :: (hub_err + reply) \<times> hub)
      = (Inr rep, s1)" and created: "code rep = 201"
    by (simp add: createAgentAPI_def nameRE_def name_char_def is_letter_def is_lower_def is_upper_def is_digit_def new_uuid_def time_now_def bindE_def attempt_def
        CreateAgent_def catchE_def exec_def createAgent_def agent_row_of_def new_agent_def wrote_agent_def sample_def sample_agent_def step_env_def)
  have other: "\<not> arow_token_hash r = ''$'' @ raw" if "r \<in> set (tb_agents (tabs (sample ''queued'' None)))" for r
    using that by (simp add: sample_agent_def)
  have own: "h = ''$'' @ raw" if "?hash 10 raw = Inr h" for h using that by simp
  from token_admits [where bcrypt = "\<lambda>h p. h = ''$'' @ p", OF gen new created own other sample_calm sample_db_ok(1) sample_clock]
  show ?thesis using gen new by blast
qed

end
