(* ===== verification/AgentShutdown.thy ===== *)
theory AgentShutdown
  imports AgentMain RunnerLaws
begin

text \<open>
  cmd/agent/main.go: the exit codes of the program and the drain on a termination signal. After
  the signal no job is accepted, and the agent waits for those in flight, polling every 200
  milliseconds until 30 seconds have passed.
\<close>

section \<open>The program\<close>

text \<open>\<open>run\<close> stands for what follows the parsing of the flags: an error or the end.\<close>

definition agent_main :: "os \<Rightarrow> (Config \<Rightarrow> string option) \<Rightarrow> string list \<Rightarrow> nat" where
  "agent_main w run args =
     (case args of
        [] \<Rightarrow> 2
      | a # rest \<Rightarrow>
          if a \<noteq> ''start'' then 2
          else (case ParseConfig w rest of
            Inl (MissingRequiredFlag _) \<Rightarrow> 2
          | Inl _ \<Rightarrow> 1
          | Inr cfg \<Rightarrow> (case run cfg of None \<Rightarrow> 0 | Some _ \<Rightarrow> 1)))"

section \<open>The drain\<close>

definition drain_poll :: nat where "drain_poll = 200 * 10 ^ 6"

definition agentShutdownDrainTimeout :: nat where "agentShutdownDrainTimeout = 30 * 10 ^ 9"

text \<open>
  \<open>busy t\<close> is the number of jobs in flight at time \<open>t\<close>, \<open>late t\<close> by how much a sleep begun at \<open>t\<close>
  overruns. The result is the time at which the loop ends.
\<close>

function drain :: "(nat \<Rightarrow> int) \<Rightarrow> (nat \<Rightarrow> nat) \<Rightarrow> nat \<Rightarrow> nat \<Rightarrow> nat" where
  "drain busy late deadline now =
     (if busy now > 0 \<and> now < deadline then drain busy late deadline (now + drain_poll + late now) else now)"
  by auto
termination by (relation "measure (\<lambda>(busy, late, deadline, now). deadline - now)") (auto simp: drain_poll_def)

declare drain.simps [simp del]

lemma drain_step:
  "busy now > 0 \<and> now < deadline \<Longrightarrow>
     drain busy late deadline now = drain busy late deadline (now + drain_poll + late now)"
  by (subst drain.simps) simp

lemma drain_stop: "\<not> (busy now > 0 \<and> now < deadline) \<Longrightarrow> drain busy late deadline now = now"
  by (subst drain.simps) (rule if_not_P)

definition shutdown_agent :: "(nat \<Rightarrow> int) \<Rightarrow> (nat \<Rightarrow> nat) \<Rightarrow> nat \<Rightarrow> agent \<Rightarrow> nat \<times> bool \<times> agent" where
  "shutdown_agent busy late now s =
     (let t = drain busy late (now + agentShutdownDrainTimeout) now in (t, busy t > 0, Pause_agent s))"

text \<open>The loop ends at the latest one poll after its deadline, and before that only when no job is left.\<close>

lemma drain_ends:
  assumes "\<And>t. late t \<le> L"
  shows "drain busy late deadline now \<le> max now (deadline + drain_poll + L)"
  using assms
proof (induction busy late deadline now rule: drain.induct)
  case (1 busy late deadline now)
  show ?case
  proof (cases "busy now > 0 \<and> now < deadline")
    case True
    have "now + drain_poll + late now \<le> deadline + drain_poll + L"
      using True "1.prems" [of now] by simp
    with "1.IH" [OF True "1.prems"] show ?thesis using True by (simp add: drain_step)
  next
    case False
    then show ?thesis by (simp add: drain_stop)
  qed
qed

lemma drain_outcome: "busy (drain busy late deadline now) \<le> 0 \<or> deadline \<le> drain busy late deadline now"
proof (induction busy late deadline now rule: drain.induct)
  case (1 busy late deadline now)
  show ?case
  proof (cases "busy now > 0 \<and> now < deadline")
    case True
    with "1.IH" [OF True] show ?thesis by (simp add: drain_step)
  next
    case False
    then show ?thesis by (auto simp: drain_stop)
  qed
qed

text \<open>A signalled agent takes no job: an assignment is answered as failed and changes nothing else.\<close>

lemma paused_rejects:
  "Handle msg (Pause_agent s) = (Inr (), s') \<Longrightarrow>
     sends [StatusUpdate (failed_report (ja_preview msg) ''agent shutting down'' ''agent shutting down'')] (Pause_agent s) s'"
  using report_sends [of "failed_report (ja_preview msg) ''agent shutting down'' ''agent shutting down''" "Pause_agent s"]
  by (simp add: Handle_def Pause_agent_def gets_def bindE_def logged_def)

theorem shutdown_drains:
  assumes "shutdown_agent busy late now s = (t, timed_out, s')" and "\<And>u. late u \<le> L"
  shows "t \<le> now + agentShutdownDrainTimeout + drain_poll + L" and "a_paused s'"
    and "timed_out \<Longrightarrow> now + agentShutdownDrainTimeout \<le> t"
  using assms(1) drain_ends [of late L busy "now + agentShutdownDrainTimeout" now, OF assms(2)]
    drain_outcome [of busy late "now + agentShutdownDrainTimeout" now]
  by (auto simp: shutdown_agent_def Let_def Pause_agent_def)

end
