(* ===== verification/RunnerTasks.thy ===== *)
theory RunnerTasks
  imports AgentMain
begin

text \<open>
  The goroutines of the agent (internal/agent/client.go, \<open>dispatchMessage\<close>): every JOB_ASSIGN and
  every JOB_TEARDOWN is handled in a goroutine of its own, which outlives the connection it came
  from. A task is what such a goroutine has left to do; a step of it is a part of \<open>Handle\<close> or
  \<open>Teardown\<close> between two accesses to what the goroutines share: the jobs, the marks of previews
  being built, the number of jobs in flight, the caches. The connection loop's HELLO is a task of
  two steps, one per read of \<open>RunningPreviewIDs\<close>. Steps of all tasks and of the connection
  come in any order. A step writes its frames as one block, and the two updates at the start and
  at the end of \<open>Handle\<close> (mark and slot) are one step each.
\<close>

section \<open>Tasks\<close>

type_synonym prepared = "PreviewConfig \<times> (string \<times> string \<times> string) \<times> string"

datatype task =
    Arrived JobAssignData
  | Refused JobAssignData
  | Accepted JobAssignData
  | CheckedOut JobAssignData string
  | Built JobAssignData string prepared
  | Registered JobAssignData string prepared
  | Leaving JobAssignData string
  | Freed JobAssignData string
  | Dropping JobAssignData
  | Announcing
  | Removing string
  | Stopping string runningJob
  | Stopped string runningJob
  | Forgetting string
  | Finishing string
  | Listing Config
  | Listed Config "string list"
  | Ended

text \<open>\<open>Handle\<close> between the checkout and the registration of the job.\<close>

definition build_part :: "JobAssignData \<Rightarrow> string \<Rightarrow> prepared run" where
  "build_part msg worktree =
     bindE (logged (WriteDotenv (path_join [worktree, ''.env'']) (ja_env msg))) (\<lambda>_.
     bindE (resolve_head worktree) (\<lambda>sha.
     bindE (logged (SendStatusUpdate (sha_report (ja_preview msg) sha))) (\<lambda>_.
     prepare_job (ja_preview msg) worktree)))"

definition store_job :: "JobAssignData \<Rightarrow> string \<Rightarrow> prepared \<Rightarrow> agent \<Rightarrow> agent" where
  "store_job msg worktree x s = (case x of (cfg, files, cid) \<Rightarrow>
     s\<lparr>jobs := map_store (ja_preview msg) (new_job s msg worktree cid (snd (snd files)) (fst files)) (jobs s)\<rparr>)"

definition report_job :: "JobAssignData \<Rightarrow> prepared \<Rightarrow> unit run" where
  "report_job msg x = (case x of (cfg, files, cid) \<Rightarrow>
     bindE (gets (\<lambda>s. running_report (ja_preview msg) cid (advHost s) (traefikPort s)
              (PreviewURLs (ja_preview msg) cfg (advHost s) (traefikPort s)))) (\<lambda>rep.
     logged (SendStatusUpdate rep)))"

fun task_step :: "task \<Rightarrow> agent \<Rightarrow> task \<times> agent" where
  "task_step (Arrived d) s =
     (if a_paused s then (Refused d, s) else (Accepted d, begin_job (ja_preview d) s))"
| "task_step (Refused d) s =
     (Ended, snd (SendStatusUpdate (failed_report (ja_preview d) ''agent shutting down'' ''agent shutting down'') s))"
| "task_step (Accepted d) s =
     (case checkout_job d s of (Inl _, s') \<Rightarrow> (Leaving d [], s') | (Inr worktree, s') \<Rightarrow> (CheckedOut d worktree, s'))"
| "task_step (CheckedOut d worktree) s =
     (case build_part d worktree s of (Inl _, s') \<Rightarrow> (Leaving d worktree, s') | (Inr x, s') \<Rightarrow> (Built d worktree x, s'))"
| "task_step (Built d worktree x) s = (Registered d worktree x, store_job d worktree x s)"
| "task_step (Registered d worktree x) s = (Leaving d worktree, snd (report_job d x s))"
| "task_step (Leaving d worktree) s = (Freed d worktree, released d s)"
| "task_step (Freed d worktree) s =
     (if worktree \<noteq> [] \<and> map_of (jobs s) (ja_preview d) = None then Dropping d else Announcing, s)"
| "task_step (Dropping d) s = (Announcing, snd (Remove (ja_url d) (ja_preview d) s))"
| "task_step Announcing s = (Ended, snd (maybeSendReady s))"
| "task_step (Removing pid) s =
     (case map_of (jobs s) pid of None \<Rightarrow> (Finishing pid, s) | Some job \<Rightarrow> (Stopping pid job, s))"
| "task_step (Stopping pid job) s = (Stopped pid job, snd (stop_job pid job s))"
| "task_step (Stopped pid job) s =
     (Forgetting pid, if jb_repo job \<noteq> [] then snd (Remove (jb_repo job) pid s) else s)"
| "task_step (Forgetting pid) s = (Finishing pid, s\<lparr>jobs := map_delete pid (jobs s)\<rparr>)"
| "task_step (Finishing pid) s = (Ended, snd (SendStatusUpdate (done_report pid) s))"
| "task_step (Listing cfg) s = (Listed cfg (map fst (jobs s)), s)"
| "task_step (Listed cfg running) s =
     (Ended, snd (perform (Frame (Hello (hello_data cfg (running_ids running (building s))))) s))"
| "task_step Ended s = (Ended, s)"

section \<open>A task alone\<close>

fun rank :: "task \<Rightarrow> nat" where
  "rank (Arrived _) = 9"
| "rank (Refused _) = 1"
| "rank (Accepted _) = 8"
| "rank (CheckedOut _ _) = 7"
| "rank (Built _ _ _) = 6"
| "rank (Registered _ _ _) = 5"
| "rank (Leaving _ _) = 4"
| "rank (Freed _ _) = 3"
| "rank (Dropping _) = 2"
| "rank Announcing = 1"
| "rank (Removing _) = 5"
| "rank (Stopping _ _) = 4"
| "rank (Stopped _ _) = 3"
| "rank (Forgetting _) = 2"
| "rank (Finishing _) = 1"
| "rank (Listing _) = 2"
| "rank (Listed _ _) = 1"
| "rank Ended = 0"

lemma rank_step: "t \<noteq> Ended \<Longrightarrow> rank (fst (task_step t s)) < rank t"
  by (cases t) (auto split: prod.split sum.split option.split)

text \<open>A goroutine that nothing interrupts.\<close>

function solo :: "task \<Rightarrow> agent \<Rightarrow> agent" where
  "solo t s = (if t = Ended then s else (case task_step t s of (t', s') \<Rightarrow> solo t' s'))"
  by pat_completeness auto
termination
proof (relation "measure (rank \<circ> fst)")
  fix t s t' s' assume "t \<noteq> Ended" and "(t', s') = task_step t s"
  then show "((t', s'), (t, s)) \<in> measure (rank \<circ> fst)" using rank_step [of t s] by (metis comp_def fst_conv in_measure)
qed simp

declare solo.simps [simp del]

lemma solo_step: "t \<noteq> Ended \<Longrightarrow> solo t s = solo (fst (task_step t s)) (snd (task_step t s))"
  by (subst solo.simps) (simp split: prod.split)

lemma solo_Ended [simp]: "solo Ended s = s"
  by (subst solo.simps) simp

lemma solo_Announcing: "solo Announcing s = snd (maybeSendReady s)"
  by (simp add: solo_step)

lemma solo_Leaving: "solo (Leaving d worktree) s = snd (end_job d worktree s)"
proof -
  have "released d s = s\<lparr>building := removeAll (ja_preview d) (building s), inFlight := inFlight s - 1\<rparr>"
    by (simp add: released_def)
  then show ?thesis
    by (simp add: solo_step solo_Announcing end_job_def Let_def)
qed

lemma build_job_parts: "build_job msg worktree = bindE (build_part msg worktree) (register_job msg worktree)"
  by (simp only: build_job_split build_part_def bindE_assoc)

lemma register_job_parts: "register_job msg worktree x = bindE (modify (store_job msg worktree x)) (\<lambda>_. report_job msg x)"
  unfolding register_job_def store_job_def report_job_def by (cases x) simp

text \<open>The steps of a job, run without a break, are \<open>Handle\<close>; those of a teardown are \<open>Teardown\<close>.\<close>

lemma solo_Built: "solo (Built d worktree x) s = snd (end_job d worktree (snd (register_job d worktree x s)))"
  by (simp add: solo_step solo_Leaving register_job_parts)

lemma solo_CheckedOut: "solo (CheckedOut d worktree) s = snd (end_job d worktree (snd (build_job d worktree s)))"
proof -
  obtain r s' where "build_part d worktree s = (r, s')" by fastforce
  then show ?thesis
    by (cases r) (simp_all add: solo_step [of "CheckedOut d worktree"] solo_Leaving solo_Built build_job_parts bindE_def)
qed

lemma solo_Accepted: "solo (Accepted d) s = snd (handle_job d s)"
proof -
  have "fst (end_job d w u) = Inr ()" for w u using end_job_run by blast
  then have fin: "snd (bindE (end_job d w) (\<lambda>_. k) u) = snd (k (snd (end_job d w u)))" for w u and k :: "unit run"
    by (simp add: bindE_total)
  obtain r s' where c: "checkout_job d s = (r, s')" by fastforce
  then show ?thesis
    by (cases r) (simp_all add: solo_step [of "Accepted d"] solo_Leaving solo_CheckedOut handle_job_def fin throw_def lift_result_def split: sum.split)
qed

lemma solo_Handle: "solo (Arrived d) s = snd (Handle d s)"
  by (cases "a_paused s")
    (simp_all add: solo_step [of "Arrived d"] solo_step [of "Refused d"] solo_Accepted Handle_def logged_def)

lemma solo_Teardown: "solo (Removing pid) s = snd (Teardown pid s)"
proof (cases "map_of (jobs s) pid")
  case None
  then show ?thesis
    by (simp add: solo_step [of "Removing pid"] solo_step [of "Finishing pid"] Teardown_def logged_def)
next
  case (Some job)
  have total: "fst (stop_job pid job x) = Inr ()" for x by (simp add: stop_job_def)
  have "snd (wrap p m x) = snd (m x)" for p and m :: "unit run" and x
    by (simp add: wrap_def catchE_def split: prod.split sum.split)
  with Some show ?thesis
    by (simp add: solo_step Teardown_def bindE_total [OF total])
qed

text \<open>The two reads for HELLO without a break give what \<open>once\<close> sends.\<close>

lemma solo_Listing: "solo (Listing cfg) s = snd (perform (Frame (Hello (hello_data cfg (listed_ids s)))) s)"
  by (simp add: solo_step [of "Listing cfg"] solo_step [of "Listed cfg js" for js] listed_ids_def)

section \<open>Every task ends\<close>

lemma rank_ended: "rank t = 0 \<longleftrightarrow> t = Ended"
  by (cases t) auto

lemma rank_bound: "rank t \<le> 9"
  by (cases t) auto

lemma rank_down: "rank (fst (task_step t s)) \<le> rank t - 1"
  using rank_step [of t s] by (cases "t = Ended") auto

end
