(* ===== verification/Interleaving.thy ===== *)
theory Interleaving
  imports RunnerTasks AgentProperties
begin

text \<open>
  The agent with all its goroutines: what happens is a sequence of events, each a message the read
  loop takes, a step of one task, or a step of the connection loop; nothing is assumed about their
  order. The laws hold for every sequence.
\<close>

section \<open>Events\<close>

datatype event =
    Message envelope
  | Step nat
  | SayHello
  | Connected
  | Disconnected
  | PauseJobs

fun arrivals :: "envelope \<Rightarrow> task list" where
  "arrivals (JobAssign d) = [Arrived d]"
| "arrivals (JobTeardown pid) = [Removing pid]"
| "arrivals _ = []"

text \<open>
  \<open>once\<close> reads what HELLO lists, and writes it, without a connection; after WELCOME it sets one
  and announces the slots.
\<close>

fun advance :: "Config \<Rightarrow> event \<Rightarrow> agent \<times> task list \<Rightarrow> agent \<times> task list" where
  "advance cfg (Message m) (s, ts) = (s, if online s then ts @ arrivals m else ts)"
| "advance cfg (Step i) (s, ts) =
     (if i < length ts then (case task_step (ts ! i) s of (t, s') \<Rightarrow> (s', ts[i := t])) else (s, ts))"
| "advance cfg SayHello (s, ts) =
     (s, if online s then ts else ts @ [Listing cfg])"
| "advance cfg Connected (s, ts) = (if online s then (s, ts) else (s\<lparr>online := True\<rparr>, ts @ [Announcing]))"
| "advance cfg Disconnected (s, ts) = (s\<lparr>online := False\<rparr>, ts)"
| "advance cfg PauseJobs (s, ts) = (Pause_agent s, ts)"

definition run_events :: "Config \<Rightarrow> event list \<Rightarrow> agent \<times> task list \<Rightarrow> agent \<times> task list" where
  "run_events cfg evs x = fold (advance cfg) evs x"

lemma run_events_simps [simp]:
  "run_events cfg [] x = x"
  "run_events cfg (e # evs) x = run_events cfg evs (advance cfg e x)"
  by (simp_all add: run_events_def)

section \<open>From single steps to all interleavings\<close>

text \<open>
  A law of the steps of the tasks, each under what is known of it, and of the steps of the
  connection is a law of every interleaving.
\<close>

locale interleaved = contract R for R :: "agent \<Rightarrow> agent \<Rightarrow> bool" +
  fixes cfg :: Config and inv :: "agent \<Rightarrow> bool" and known :: "task \<Rightarrow> bool" and admits :: "event \<Rightarrow> bool"
  assumes of_step: "known t \<Longrightarrow> inv s \<Longrightarrow> task_step t s = (t', s') \<Longrightarrow> known t' \<and> inv s' \<and> R s s'"
    and of_message: "admits (Message m) \<Longrightarrow> list_all known (arrivals m)"
    and of_own: "known Announcing" "known (Listing c)"
    and of_connection: "inv s \<Longrightarrow> e \<in> {SayHello, Connected, Disconnected, PauseJobs} \<Longrightarrow>
      inv (fst (advance cfg e (s, ts))) \<and> R s (fst (advance cfg e (s, ts)))"
begin

lemma one:
  assumes "inv s" and "list_all known ts" and "admits e" and adv: "advance cfg e (s, ts) = (s', ts')"
  shows "inv s' \<and> R s s' \<and> list_all known ts'"
proof (cases e)
  case (Message m)
  with assms of_message [of m] show ?thesis by (auto split: if_splits)
next
  case (Step i)
  show ?thesis
  proof (cases "i < length ts")
    case True
    obtain t where t: "task_step (ts ! i) s = (t, s')" "ts' = ts[i := t]"
      using adv True by (auto simp: Step split: prod.splits)
    moreover have "known (ts ! i)" using assms(2) True by (simp add: list_all_length)
    ultimately have "known t \<and> inv s' \<and> R s s'" using of_step assms(1) by blast
    with assms(2) True show ?thesis unfolding t(2) by (auto simp: list_all_length nth_list_update)
  next
    case False
    with assms show ?thesis by (simp add: Step)
  qed
next
  case Connected
  with assms of_connection [of s e ts] of_own show ?thesis by (auto split: if_splits)
next
  case SayHello
  with assms of_connection [of s e ts] of_own show ?thesis by (auto split: if_splits)
next
  case Disconnected
  with assms of_connection [of s e ts] show ?thesis by auto
next
  case PauseJobs
  with assms of_connection [of s e ts] show ?thesis by auto
qed

lemma all:
  assumes "inv s" and "list_all known ts" and "list_all admits evs" and "run_events cfg evs (s, ts) = (s', ts')"
  shows "inv s' \<and> R s s' \<and> list_all known ts'"
  using assms
proof (induction evs arbitrary: s ts)
  case Nil
  then show ?case by simp
next
  case (Cons e evs)
  obtain u us where adv: "advance cfg e (s, ts) = (u, us)" by fastforce
  have "inv u \<and> R s u \<and> list_all known us"
    by (rule one [OF _ _ _ adv]) (use Cons.prems in simp_all)
  moreover from this have "inv s' \<and> R u s' \<and> list_all known ts'"
    using Cons.IH [of u us] Cons.prems adv by simp
  ultimately show ?case using trans by blast
qed

end

section \<open>The files\<close>

text \<open>What is known of a task that only touches the previews of \<open>ids\<close> below the work directory.\<close>

definition job_known :: "(string \<Rightarrow> bool) \<Rightarrow> JobAssignData \<Rightarrow> bool" where
  "job_known ids d \<longleftrightarrow> url_ok (ja_url d) \<and> CHR ''/'' \<notin> set (ja_preview d) \<and> ids (ja_preview d)"

fun file_task :: "string \<Rightarrow> (string \<Rightarrow> bool) \<Rightarrow> task \<Rightarrow> bool" where
  "file_task wd ids (Arrived d) \<longleftrightarrow> job_known ids d"
| "file_task wd ids (Accepted d) \<longleftrightarrow> job_known ids d"
| "file_task wd ids (CheckedOut d w) \<longleftrightarrow> job_known ids d \<and> worktree_dir wd (RepoSlug (ja_url d)) (ja_preview d) w"
| "file_task wd ids (Built d w x) \<longleftrightarrow> job_known ids d \<and> worktree_dir wd (RepoSlug (ja_url d)) (ja_preview d) w"
| "file_task wd ids (Registered d w x) \<longleftrightarrow> job_known ids d"
| "file_task wd ids (Leaving d w) \<longleftrightarrow> job_known ids d"
| "file_task wd ids (Freed d w) \<longleftrightarrow> job_known ids d"
| "file_task wd ids (Dropping d) \<longleftrightarrow> job_known ids d"
| "file_task wd ids (Removing pid) \<longleftrightarrow> ids pid"
| "file_task wd ids (Stopping pid j) \<longleftrightarrow> ids pid \<and> job_ok wd pid j"
| "file_task wd ids (Stopped pid j) \<longleftrightarrow> ids pid \<and> job_ok wd pid j"
| "file_task wd ids _ \<longleftrightarrow> True"

definition files_at :: "string \<Rightarrow> agent \<Rightarrow> bool" where
  "files_at wd s \<longleftrightarrow> files_ok s \<and> workDir s = wd"

lemma files_at_tidy: "files_at wd s \<Longrightarrow> tidy_in wd ids s s' \<Longrightarrow> files_at wd s'"
  by (simp add: files_at_def tidy_in_def tidy_def)

lemma files_at_obeys:
  "files_at wd s \<Longrightarrow> obeys (tidy_in wd ids) m \<Longrightarrow> files_at wd (snd (m s)) \<and> tidy_in wd ids s (snd (m s))"
  using files_at_tidy obeys_apply by metis

lemma files_at_run:
  "files_at wd s \<Longrightarrow> obeys (tidy_in wd ids) m \<Longrightarrow> m s = (r, s') \<Longrightarrow> files_at wd s' \<and> tidy_in wd ids s s'"
  using files_at_obeys by (metis snd_conv)

lemma files_at_update:
  assumes "files_at wd s" and "files_ok s'" and "workDir s' = wd" and "trace s' = trace s"
  shows "files_at wd s' \<and> tidy_in wd ids s s'"
  using assms by (simp add: files_at_def tidy_in_def tidy_def)

lemma tidy_in_build_part:
  assumes "worktree_dir wd slug (ja_preview d) w" and "ids (ja_preview d)"
  shows "obeys (tidy_in wd ids) (build_part d w)"
proof -
  have head: "obeys (emits (confined wd ids)) (resolve_head w)"
    unfolding resolve_head_def by (intro emit_rules emits_perform) simp
  note dotenv = confined_dotenv [of wd slug "ja_preview d" w ids, OF assms]
  note prepare = confined_builds [of wd slug "ja_preview d" w ids, OF assms]
  show ?thesis unfolding build_part_def
    by (intro tidy_in_rules tidy_in_of_emits [OF dotenv] tidy_in_of_emits [OF head] tidy_in_of_emits [OF prepare])
qed

lemma tidy_in_stop_job:
  assumes "ids pid" and "job_ok wd pid j"
  shows "obeys (tidy_in wd ids) (stop_job pid j)"
proof -
  have "confined wd ids (RemoveFile (override_path (jb_worktree j) pid))" if "jb_mode j = buildModeCompose"
    using confined_override assms that by (auto simp: job_ok_def)
  moreover have "confined wd ids (Exec [''docker'', ''compose'', ''--project-name'', projectName pid, ''down''])"
    using assms(1) by (simp add: projectName_def job_commands)
  ultimately show ?thesis unfolding stop_job_def
    by (auto intro!: tidy_in_rules tidy_in_of_emits [OF emits_perform] simp del: confined.simps(4))
qed

lemma file_step:
  assumes known: "file_task wd ids t" and inv: "files_at wd s" and step: "task_step t s = (t', s')"
  shows "file_task wd ids t' \<and> files_at wd s' \<and> tidy_in wd ids s s'"
proof -
  have same: "files_at wd s \<and> tidy_in wd ids s s" using inv by simp
  have ok: "files_ok s" "workDir s = wd" using inv by (simp_all add: files_at_def)
  show ?thesis
  proof (cases t)
    case (Arrived d)
    have "files_ok (begin_job (ja_preview d) s)" using ok by (simp add: files_ok_def caches_ok_def begin_job_def)
    with files_at_update [OF inv this] ok same known step Arrived show ?thesis
      by (auto simp: begin_job_def split: if_splits)
  next
    case (Refused d)
    with files_at_obeys [OF inv tidy_in_report] step show ?thesis by auto
  next
    case (Accepted d)
    then have d: "url_ok (ja_url d)" "CHR ''/'' \<notin> set (ja_preview d)" "ids (ja_preview d)"
      using known by (simp_all add: job_known_def)
    obtain r u where c: "checkout_job d s = (r, u)" by fastforce
    then have "files_at wd u \<and> tidy_in wd ids s u" using files_at_run [OF inv tidy_in_checkout_job] d by blast
    moreover have "worktree_dir wd (RepoSlug (ja_url d)) (ja_preview d) w" if "r = Inr w" for w
      using checkout_job_worktree [of d s w u] c that ok d by simp
    ultimately show ?thesis using step known Accepted c by (cases r) auto
  next
    case (CheckedOut d w)
    then have d: "worktree_dir wd (RepoSlug (ja_url d)) (ja_preview d) w" "ids (ja_preview d)"
      using known by (simp_all add: job_known_def)
    obtain r u where c: "build_part d w s = (r, u)" by fastforce
    then have "files_at wd u \<and> tidy_in wd ids s u" using files_at_run [OF inv tidy_in_build_part [of wd _ d w ids, OF d]] by blast
    with step known CheckedOut c show ?thesis by (cases r) auto
  next
    case (Built d w x)
    then have d: "worktree_dir wd (RepoSlug (ja_url d)) (ja_preview d) w" "url_ok (ja_url d)" "CHR ''/'' \<notin> set (ja_preview d)"
      using known by (simp_all add: job_known_def)
    have "files_ok (store_job d w x s)" unfolding store_job_def
      using ok d by (auto intro!: files_ok_store simp: job_ok_def new_job_def split: prod.split)
    from files_at_update [OF inv this] known step Built ok show ?thesis
      by (auto simp: store_job_def split: prod.splits)
  next
    case (Registered d w x)
    have "obeys (tidy_in wd ids) (report_job d x)" unfolding report_job_def by (intro tidy_in_rules)
    with files_at_obeys [OF inv this] known step Registered show ?thesis by auto
  next
    case (Leaving d w)
    have "files_ok (released d s)" using ok by (simp add: files_ok_def caches_ok_def released_def)
    from files_at_update [OF inv this] known step Leaving ok show ?thesis by (auto simp: released_def)
  next
    case (Freed d w)
    with same known step show ?thesis by auto
  next
    case (Dropping d)
    then have "obeys (tidy_in wd ids) (Remove (ja_url d) (ja_preview d))"
      using known by (intro tidy_in_cache) (simp_all add: job_known_def)
    from files_at_obeys [OF inv this] step Dropping show ?thesis by auto
  next
    case Announcing
    with files_at_obeys [OF inv tidy_in_maybeSendReady] step show ?thesis by auto
  next
    case (Removing pid)
    have "job_ok wd pid j" if "map_of (jobs s) pid = Some j" for j
      using map_of_SomeD [OF that] ok by (auto simp: files_ok_def)
    with same known step Removing show ?thesis by (auto split: option.splits)
  next
    case (Stopping pid j)
    with known have "obeys (tidy_in wd ids) (stop_job pid j)" by (intro tidy_in_stop_job) simp_all
    from files_at_obeys [OF inv this] known step Stopping show ?thesis by auto
  next
    case (Stopped pid j)
    have "obeys (tidy_in wd ids) (Remove (jb_repo j) pid)" if "jb_repo j \<noteq> []"
      using known that Stopped by (intro tidy_in_cache) (simp_all add: job_ok_def)
    from files_at_obeys [OF inv this] same known step Stopped show ?thesis by (auto split: if_splits)
  next
    case (Forgetting pid)
    from files_at_update [OF inv files_ok_delete [OF ok(1), of pid]] known step Forgetting ok show ?thesis by auto
  next
    case (Finishing pid)
    with files_at_obeys [OF inv tidy_in_report] step show ?thesis by auto
  next
    case (Listing cfg)
    with same step show ?thesis by auto
  next
    case (Listed cfg js)
    have "obeys (tidy_in wd ids) (perform (Frame (Hello h)))" for h
      by (rule tidy_in_of_emits [OF emits_perform]) simp
    from files_at_obeys [OF inv this] step Listed show ?thesis by auto
  next
    case Ended
    with same step show ?thesis by auto
  qed
qed

text \<open>A message names its previews, and only sane messages are admitted.\<close>

fun names :: "event \<Rightarrow> string list" where
  "names (Message (JobAssign d)) = [ja_preview d]"
| "names (Message (JobTeardown pid)) = [pid]"
| "names _ = []"

fun sane_event :: "event \<Rightarrow> bool" where
  "sane_event (Message (JobAssign d)) \<longleftrightarrow> url_ok (ja_url d) \<and> CHR ''/'' \<notin> set (ja_preview d)"
| "sane_event _ \<longleftrightarrow> True"

definition files_event :: "(string \<Rightarrow> bool) \<Rightarrow> event \<Rightarrow> bool" where
  "files_event ids e \<longleftrightarrow> sane_event e \<and> list_all ids (names e)"

lemma files_connection:
  assumes "files_at wd s" and "e \<in> {SayHello, Connected, Disconnected, PauseJobs}"
  shows "files_at wd (fst (advance cfg e (s, ts))) \<and> tidy_in wd ids s (fst (advance cfg e (s, ts)))"
proof -
  have same: "files_at wd s \<and> tidy_in wd ids s s" using assms(1) by simp
  have conn: "files_at wd (s\<lparr>online := b\<rparr>) \<and> tidy_in wd ids s (s\<lparr>online := b\<rparr>)" for b
    by (rule files_at_update) (use assms(1) in \<open>auto simp: files_at_def files_ok_def caches_ok_def\<close>)
  have pause: "files_at wd (Pause_agent s) \<and> tidy_in wd ids s (Pause_agent s)"
    by (rule files_at_update) (use assms(1) in \<open>auto simp: files_at_def files_ok_def caches_ok_def Pause_agent_def\<close>)
  from same conn pause assms(2) show ?thesis by auto
qed

interpretation confinement: interleaved "tidy_in wd ids" cfg "files_at wd" "file_task wd ids" "files_event ids"
  for wd ids cfg
proof
  show "list_all (file_task wd ids) (arrivals m)" if "files_event ids (Message m)" for m
    using that by (cases m) (simp_all add: files_event_def job_known_def)
next
  show "file_task wd ids t' \<and> files_at wd s' \<and> tidy_in wd ids s s'"
    if "file_task wd ids t" "files_at wd s" "task_step t s = (t', s')" for t s t' s'
    using that by (rule file_step)
next
  show "files_at wd (fst (advance cfg e (s, ts))) \<and> tidy_in wd ids s (fst (advance cfg e (s, ts)))"
    if "files_at wd s" "e \<in> {SayHello, Connected, Disconnected, PauseJobs}" for s e ts
    using that by (rule files_connection)
qed simp_all

end
