(* ===== verification/SlotLaws.thy ===== *)
theory SlotLaws
  imports Interleaving
begin

text \<open>
  The slots and the marks of previews being built under every interleaving: a task holds a slot
  from the moment it accepts a job until the deferred function of \<open>Handle\<close> gives it back.
\<close>

section \<open>Steps that keep them\<close>

definition keeps :: "agent \<Rightarrow> agent \<Rightarrow> bool" where
  "keeps s s' \<longleftrightarrow> inFlight s' = inFlight s \<and> building s' = building s"

lemma keeps_sends: "sends fs s s' \<Longrightarrow> keeps s s'"
  by (simp add: keeps_def sends_def same_jobs_def)

lemma keeps_report: "keeps s (snd (SendStatusUpdate d s))"
  using report_sends by (rule keeps_sends)

lemma keeps_quiet: "obeys quiet m \<Longrightarrow> keeps s (snd (m s))"
  by (rule keeps_sends, rule sends_Nil, rule obeys_apply)

text \<open>What the part of a job up to its registration writes.\<close>

lemma build_part_run:
  assumes "build_part d w s = (r, s')"
  shows "\<exists>sha. (case r of
      Inr _ \<Rightarrow> sends [StatusUpdate (sha_report (ja_preview d) sha)] s s'
    | Inl e \<Rightarrow> \<exists>reason. sends [StatusUpdate (sha_report (ja_preview d) sha),
                            StatusUpdate (failed_report (ja_preview d) reason e)] s s')"
proof -
  let ?pid = "ja_preview d"
  define s1 where "s1 = snd (WriteDotenv (path_join [w, ''.env'']) (ja_env d) s)"
  have s1: "quiet s s1" unfolding s1_def by (rule obeys_apply [OF quiet_WriteDotenv])
  obtain sha s2 where head: "(resolve_head w :: string run) s1 = (Inr sha, s2)"
    using resolve_head_total by (metis prod.collapse)
  then have "quiet s1 s2" by (rule obeysD [OF quiet_resolve_head])
  with s1 have s2: "quiet s s2" by (rule quiet.trans)
  define s3 where "s3 = snd (SendStatusUpdate (sha_report ?pid sha) s2)"
  have s3: "sends [StatusUpdate (sha_report ?pid sha)] s s3" unfolding s3_def by (rule quiet_sends [OF s2 report_sends])
  have "prepare_job ?pid w s3 = (r, s')"
    using assms unfolding build_part_def bindE_logged s1_def [symmetric] s3_def
    by (simp only: bindE_step [where m = "resolve_head w", OF head])
  then have "reported ?pid r s3 s'" by (rule builds_run [OF builds_prepare])
  from reported_trans [OF s3 this] show ?thesis by (cases r) auto
qed

lemma checkout_sends: "checkout_job d s = (r, s') \<Longrightarrow> \<exists>fs. sends fs s s'"
  using checkout_job_run [of d s r s'] by (cases r) auto

lemma build_part_sends: "build_part d w s = (r, s') \<Longrightarrow> \<exists>fs. sends fs s s'"
  using build_part_run [of d w s r s'] by (cases r) auto

lemma report_job_sends: "\<exists>fs. sends fs s (snd (report_job d x s))"
  using report_sends by (cases x) (auto simp: report_job_def logged_def)

section \<open>Slots\<close>

fun holds :: "task \<Rightarrow> string option" where
  "holds (Accepted d) = Some (ja_preview d)"
| "holds (CheckedOut d _) = Some (ja_preview d)"
| "holds (Built d _ _) = Some (ja_preview d)"
| "holds (Registered d _ _) = Some (ja_preview d)"
| "holds (Leaving d _) = Some (ja_preview d)"
| "holds _ = None"

definition holders :: "task list \<Rightarrow> string list" where
  "holders ts = List.map_filter holds ts"

text \<open>A step takes or gives back the slot that the task holds after or before it, and its mark.\<close>

definition step_law :: "task \<Rightarrow> agent \<Rightarrow> task \<Rightarrow> agent \<Rightarrow> bool" where
  "step_law t s t' s' \<longleftrightarrow>
     inFlight s' = inFlight s + of_bool (holds t' \<noteq> None) - of_bool (holds t \<noteq> None) \<and>
     set (building s') \<subseteq> (set (building s) - set_option (holds t)) \<union> set_option (holds t') \<and>
     (set_option (holds t) \<subseteq> set (building s) \<longrightarrow>
        (set (building s) - set_option (holds t)) \<union> set_option (holds t') \<subseteq> set (building s'))"

lemma step_law_keeps: "holds t' = holds t \<Longrightarrow> keeps s s' \<Longrightarrow> step_law t s t' s'"
  by (auto simp: step_law_def keeps_def)

lemma step_slots:
  assumes step: "task_step t s = (t', s')"
  shows "step_law t s t' s'"
proof (cases t)
  case (Arrived d)
  with step show ?thesis by (auto simp: step_law_def begin_job_def split: if_splits)
next
  case (Refused d)
  with step show ?thesis using keeps_report by (intro step_law_keeps) auto
next
  case (Accepted d)
  obtain r u where c: "checkout_job d s = (r, u)" by fastforce
  then have "keeps s u" using checkout_sends keeps_sends by blast
  with step Accepted c show ?thesis by (intro step_law_keeps) (auto split: sum.splits)
next
  case (CheckedOut d w)
  obtain r u where c: "build_part d w s = (r, u)" by fastforce
  then have "keeps s u" using build_part_sends keeps_sends by blast
  with step CheckedOut c show ?thesis by (intro step_law_keeps) (auto split: sum.splits)
next
  case (Built d w x)
  with step show ?thesis by (intro step_law_keeps) (auto simp: keeps_def store_job_def split: prod.split)
next
  case (Registered d w x)
  have "keeps s (snd (report_job d x s))" using report_job_sends keeps_sends by blast
  with step Registered show ?thesis by (intro step_law_keeps) auto
next
  case (Leaving d w)
  with step show ?thesis by (auto simp: step_law_def released_def)
next
  case (Freed d w)
  with step show ?thesis by (intro step_law_keeps) (auto simp: keeps_def)
next
  case (Dropping d)
  with step show ?thesis using keeps_quiet [OF quiet_cache_ops(3)] by (intro step_law_keeps) auto
next
  case Announcing
  have "keeps s (snd (maybeSendReady s))" using maybeSendReady_sends keeps_sends by blast
  with step Announcing show ?thesis by (intro step_law_keeps) auto
next
  case (Removing pid)
  with step show ?thesis by (intro step_law_keeps) (auto simp: keeps_def split: option.splits)
next
  case (Stopping pid j)
  with step show ?thesis using keeps_quiet [OF quiet_stop_job] by (intro step_law_keeps) auto
next
  case (Stopped pid j)
  with step show ?thesis using keeps_quiet [OF quiet_cache_ops(3)]
    by (intro step_law_keeps) (auto simp: keeps_def)
next
  case (Forgetting pid)
  with step show ?thesis by (intro step_law_keeps) (auto simp: keeps_def)
next
  case (Finishing pid)
  with step show ?thesis using keeps_report by (intro step_law_keeps) auto
next
  case (Listing cfg)
  with step show ?thesis by (intro step_law_keeps) (auto simp: keeps_def)
next
  case (Listed cfg js)
  with step show ?thesis by (intro step_law_keeps) (auto simp: keeps_def perform_def)
next
  case Ended
  with step show ?thesis by (intro step_law_keeps) (auto simp: keeps_def)
qed

section \<open>The two kinds of events\<close>

text \<open>
  An event is a step of one task, which leaves the others as they are, or one of the connection,
  which only adds tasks that hold nothing yet.
\<close>

lemma advance_kinds:
  assumes "advance cfg e (s, ts) = (s', ts')"
  shows "(\<exists>i xs t ys t'. e = Step i \<and> ts = xs @ t # ys \<and> ts' = xs @ t' # ys \<and> task_step t s = (t', s')) \<or>
    (keeps s s' \<and> (\<exists>fs. frames s' = frames s @ fs \<and> set fs \<subseteq> range Hello) \<and>
     (\<exists>new. ts' = ts @ new \<and> (\<forall>m. e = Message m \<longrightarrow> new = (if online s then arrivals m else [])) \<and>
        ((\<forall>m. e \<noteq> Message m) \<longrightarrow> set new \<subseteq> {Announcing, Listing cfg})))"
proof (cases e)
  case (Step i)
  show ?thesis
  proof (cases "i < length ts")
    case True
    then have split: "ts = take i ts @ ts ! i # drop (Suc i) ts" "ts[i := t] = take i ts @ t # drop (Suc i) ts" for t
      by (simp_all add: id_take_nth_drop [symmetric] upd_conv_take_nth_drop)
    obtain t where "task_step (ts ! i) s = (t, s')" "ts' = ts[i := t]"
      using assms True by (auto simp: Step split: prod.splits)
    with split Step show ?thesis by metis
  next
    case False
    with assms show ?thesis by (auto simp: Step keeps_def)
  qed
qed (use assms in \<open>auto simp: keeps_def frames_def Pause_agent_def split: if_splits\<close>)

lemma holds_arrivals [simp]: "t \<in> set (arrivals m) \<Longrightarrow> holds t = None"
  by (cases m) auto

lemma holders_simps [simp]:
  "holders [] = []"
  "holders (t # ts) = (case holds t of None \<Rightarrow> holders ts | Some p \<Rightarrow> p # holders ts)"
  "holders (xs @ ys) = holders xs @ holders ys"
  by (simp_all add: holders_def map_filter_simps map_filter_def split: option.split)

lemma holders_none: "(\<And>t. t \<in> set ts \<Longrightarrow> holds t = None) \<Longrightarrow> holders ts = []"
  by (induction ts) simp_all

text \<open>An event gives no task more to do, and its own task less.\<close>

lemma advance_rank:
  assumes "advance cfg e (s, ts) = (s', ts')" and "i < length ts"
  shows "i < length ts' \<and> rank (ts' ! i) \<le> rank (ts ! i) - of_bool (e = Step i)"
proof (cases e)
  case (Step j)
  show ?thesis
  proof (cases "j < length ts")
    case True
    obtain t where "task_step (ts ! j) s = (t, s')" "ts' = ts[j := t]"
      using assms(1) True by (auto simp: Step split: prod.splits)
    moreover from this have "rank t \<le> rank (ts ! j) - 1" using rank_down by (metis fst_conv)
    ultimately show ?thesis using assms(2) by (auto simp: Step nth_list_update)
  next
    case False
    with assms show ?thesis by (auto simp: Step)
  qed
qed (use assms in \<open>auto simp: nth_append split: if_splits\<close>)

lemma run_rank:
  assumes "run_events cfg evs (s, ts) = (s', ts')" and "i < length ts"
  shows "i < length ts' \<and> rank (ts' ! i) \<le> rank (ts ! i) - count_list evs (Step i)"
  using assms
proof (induction evs arbitrary: s ts)
  case Nil
  then show ?case by simp
next
  case (Cons e evs)
  obtain u us where adv: "advance cfg e (s, ts) = (u, us)" by fastforce
  from advance_rank [OF adv Cons.prems(2)] have one: "i < length us" "rank (us ! i) \<le> rank (ts ! i) - of_bool (e = Step i)"
    by simp_all
  have "run_events cfg evs (u, us) = (s', ts')" using Cons.prems(1) adv by simp
  from Cons.IH [OF this one(1)] one(2) show ?case by auto
qed

lemma run_length: "run_events cfg evs (s, ts) = (s', ts') \<Longrightarrow> length ts \<le> length ts'"
  using run_rank by (metis not_le order_less_irrefl)

text \<open>Between two of its steps a task stays as it is.\<close>

lemma advance_other:
  assumes "i < length ts" and "e \<noteq> Step i"
  shows "i < length (snd (advance cfg e (s, ts))) \<and> snd (advance cfg e (s, ts)) ! i = ts ! i"
  using assms by (cases e) (auto simp: nth_append split: prod.split)

lemma run_other:
  assumes "run_events cfg evs (s, ts) = (s', ts')" and "i < length ts" and "Step i \<notin> set evs"
  shows "i < length ts' \<and> ts' ! i = ts ! i"
  using assms
proof (induction evs arbitrary: s ts)
  case Nil
  then show ?case by simp
next
  case (Cons e evs)
  obtain u us where adv: "advance cfg e (s, ts) = (u, us)" by fastforce
  with advance_other [of i ts e cfg s] Cons.prems have "i < length us" "us ! i = ts ! i" by auto
  with Cons adv show ?case by simp
qed

text \<open>Nine steps end a task, whatever happens between them.\<close>

lemma run_ends:
  assumes "run_events cfg evs (s, ts) = (s', ts')" and "i < length ts" and "9 \<le> count_list evs (Step i)"
  shows "ts' ! i = Ended"
  using run_rank [OF assms(1,2)] rank_bound [of "ts ! i"] assms(3) by (simp add: rank_ended [symmetric])

section \<open>Counting\<close>

definition counted :: "agent \<times> task list \<Rightarrow> bool" where
  "counted x \<longleftrightarrow> inFlight (fst x) = int (length (holders (snd x))) \<and> set (building (fst x)) \<subseteq> set (holders (snd x))"

lemma counted_advance:
  assumes "counted x"
  shows "counted (advance cfg e x)"
proof -
  obtain s ts s' ts' where x: "x = (s, ts)" and adv: "advance cfg e (s, ts) = (s', ts')" by (metis prod.exhaust)
  from assms have inv: "inFlight s = int (length (holders ts))" "set (building s) \<subseteq> set (holders ts)"
    by (simp_all add: counted_def x)
  from advance_kinds [OF adv] have "counted (s', ts')"
  proof (elim disjE exE conjE)
    fix i xs t ys t' assume "e = Step i" and ts: "ts = xs @ t # ys" "ts' = xs @ t' # ys" and step: "task_step t s = (t', s')"
    from step_slots [OF step] inv show ?thesis
      by (auto simp: ts step_law_def counted_def split: option.splits)
  next
    fix fs new assume "keeps s s'" and ts: "ts' = ts @ new"
      and msg: "\<forall>m. e = Message m \<longrightarrow> new = (if online s then arrivals m else [])" "(\<forall>m. e \<noteq> Message m) \<longrightarrow> set new \<subseteq> {Announcing, Listing cfg}"
    have "holds t = None" if "t \<in> set new" for t
      using msg that by (cases e) (auto split: if_splits)
    then have "holders new = []" by (rule holders_none)
    with inv \<open>keeps s s'\<close> show ?thesis by (simp add: ts counted_def keeps_def)
  qed
  then show ?thesis by (simp add: x adv)
qed

lemma counted_run: "counted x \<Longrightarrow> counted (run_events cfg evs x)"
  by (induction evs arbitrary: x) (simp_all add: counted_advance)

section \<open>Marks\<close>

text \<open>The preview of a task until it gives its slot back.\<close>

fun job_of :: "task \<Rightarrow> string option" where
  "job_of (Arrived d) = Some (ja_preview d)"
| "job_of t = holds t"

definition jobs_of :: "task list \<Rightarrow> string list" where
  "jobs_of ts = List.map_filter job_of ts"

lemma jobs_of_simps [simp]:
  "jobs_of [] = []"
  "jobs_of (t # ts) = (case job_of t of None \<Rightarrow> jobs_of ts | Some p \<Rightarrow> p # jobs_of ts)"
  "jobs_of (xs @ ys) = jobs_of xs @ jobs_of ys"
  by (simp_all add: jobs_of_def map_filter_simps map_filter_def split: option.split)

lemma job_of_holds: "holds t = Some p \<Longrightarrow> job_of t = Some p"
  by (cases t) auto

lemma holders_jobs: "set (holders ts) \<subseteq> set (jobs_of ts)"
  by (induction ts) (auto split: option.splits dest: job_of_holds)

lemma job_of_step: "task_step t s = (t', s') \<Longrightarrow> job_of t' = None \<or> job_of t' = job_of t"
  by (cases t) (auto split: prod.splits sum.splits option.splits if_splits)

fun assigned :: "event \<Rightarrow> string list" where
  "assigned (Message (JobAssign d)) = [ja_preview d]"
| "assigned _ = []"

definition assignments :: "event list \<Rightarrow> string list" where
  "assignments evs = concat (map assigned evs)"

text \<open>No preview is in two jobs, and exactly those whose task holds a slot are marked.\<close>

definition marked :: "string list \<Rightarrow> agent \<times> task list \<Rightarrow> bool" where
  "marked later x \<longleftrightarrow> distinct (jobs_of (snd x) @ later) \<and> set (holders (snd x)) \<subseteq> set (building (fst x))"

lemma marked_advance:
  assumes "marked (assigned e @ later) x"
  shows "marked later (advance cfg e x)"
proof -
  obtain s ts s' ts' where x: "x = (s, ts)" and adv: "advance cfg e (s, ts) = (s', ts')" by (metis prod.exhaust)
  from assms have inv: "distinct (jobs_of ts @ assigned e @ later)" "set (holders ts) \<subseteq> set (building s)"
    by (simp_all add: marked_def x)
  from advance_kinds [OF adv] have "marked later (s', ts')"
  proof (elim disjE exE conjE)
    fix i xs t ys t' assume "e = Step i" and ts: "ts = xs @ t # ys" "ts' = xs @ t' # ys" and step: "task_step t s = (t', s')"
    have "distinct (jobs_of ts' @ later)"
      using inv(1) job_of_step [OF step] by (auto simp: ts split: option.splits)
    moreover have "p \<in> set (building s')" if "p \<in> set (holders ts')" for p
    proof (cases "holds t' = Some p")
      case True
      with step_slots [OF step] inv(2) show ?thesis by (auto simp: ts step_law_def split: option.splits)
    next
      case False
      with that have p: "p \<in> set (holders xs) \<union> set (holders ys)" by (auto simp: ts split: option.splits)
      then have "holds t \<noteq> Some p"
        using inv(1) holders_jobs by (fastforce simp: ts dest: job_of_holds)
      with p step_slots [OF step] inv(2) show ?thesis
        by (fastforce simp: ts step_law_def split: option.splits)
    qed
    ultimately show ?thesis by (auto simp: marked_def)
  next
    fix fs new assume keep: "keeps s s'" and ts: "ts' = ts @ new"
      and msg: "\<forall>m. e = Message m \<longrightarrow> new = (if online s then arrivals m else [])" "(\<forall>m. e \<noteq> Message m) \<longrightarrow> set new \<subseteq> {Announcing, Listing cfg}"
    have "holds t = None" if "t \<in> set new" for t
      using msg that by (cases e) (auto split: if_splits)
    then have none: "holders new = []" by (rule holders_none)
    have "distinct (jobs_of ts' @ later)"
    proof (cases "\<exists>m. e = Message m")
      case True
      then obtain m where m: "e = Message m" by blast
      then have "new = [] \<or> new = arrivals m" using msg(1) by auto
      with inv(1) show ?thesis by (cases m) (auto simp: ts m)
    next
      case False
      then have "set new \<subseteq> {Announcing, Listing cfg}" using msg(2) by blast
      then have "jobs_of new = []" by (induction new) auto
      with inv(1) show ?thesis by (auto simp: ts)
    qed
    with inv keep none show ?thesis by (simp add: ts marked_def keeps_def)
  qed
  then show ?thesis by (simp add: x adv)
qed

lemma marked_run:
  "marked (assignments evs @ later) x \<Longrightarrow> marked later (run_events cfg evs x)"
  by (induction evs arbitrary: x) (simp_all add: assignments_def marked_advance)

end
