(* ===== verification/ReportOrder.thy ===== *)
theory ReportOrder
  imports SlotLaws "HOL-Library.Sublist"
begin

text \<open>
  What a job tells the hub under every interleaving: the reports about a preview that is assigned
  once, apart from the done reports of teardowns, are those of the job, in its order.
\<close>

section \<open>The story of a preview\<close>

fun told_by :: "string \<Rightarrow> envelope \<Rightarrow> string option" where
  "told_by pid (StatusUpdate d) = (if su_preview d = pid \<and> su_status d \<noteq> ''done'' then Some (su_status d) else None)"
| "told_by pid _ = None"

definition story :: "string \<Rightarrow> envelope list \<Rightarrow> string list" where
  "story pid fs = List.map_filter (told_by pid) fs"

lemma story_simps [simp]:
  "story pid [] = []"
  "story pid (f # fs) = (case told_by pid f of None \<Rightarrow> story pid fs | Some st \<Rightarrow> st # story pid fs)"
  "story pid (fs @ gs) = story pid fs @ story pid gs"
  by (simp_all add: story_def map_filter_simps map_filter_def split: option.split)

lemma story_readies [simp]: "story pid (replicate k (Ready a n)) = []"
  by (induction k) simp_all

lemma story_hellos: "set fs \<subseteq> range Hello \<Longrightarrow> story pid fs = []"
  by (induction fs) auto

lemma told_reports [simp]:
  "told_by q (StatusUpdate (building_report pid)) = (if pid = q then Some ''building'' else None)"
  "told_by q (StatusUpdate (sha_report pid sha)) = (if pid = q then Some ''building'' else None)"
  "told_by q (StatusUpdate (failed_report pid reason e)) = (if pid = q then Some ''failed'' else None)"
  "told_by q (StatusUpdate (running_report pid cid h p us)) = (if pid = q then Some ''running'' else None)"
  "told_by q (StatusUpdate (done_report pid)) = None"
  by (simp_all add: building_report_def sha_report_def failed_report_def running_report_def done_report_def status_report_def)

declare told_by.simps(1) [simp del]

text \<open>The preview of a task that still has something to tell, and what it has told.\<close>

fun telling :: "task \<Rightarrow> string option" where
  "telling (Arrived d) = Some (ja_preview d)"
| "telling (Refused d) = Some (ja_preview d)"
| "telling (Accepted d) = Some (ja_preview d)"
| "telling (CheckedOut d _) = Some (ja_preview d)"
| "telling (Built d _ _) = Some (ja_preview d)"
| "telling (Registered d _ _) = Some (ja_preview d)"
| "telling _ = None"

definition ends :: "string list set" where
  "ends = {[''failed''], [''building'', ''failed''], [''building'', ''building'', ''failed''],
           [''building'', ''building'', ''running'']}"

fun told :: "task \<Rightarrow> string list \<Rightarrow> bool" where
  "told (Arrived _) w \<longleftrightarrow> w = []"
| "told (Refused _) w \<longleftrightarrow> w = []"
| "told (Accepted _) w \<longleftrightarrow> w = []"
| "told (CheckedOut _ _) w \<longleftrightarrow> w = [''building'']"
| "told (Built _ _ _) w \<longleftrightarrow> w = [''building'', ''building'']"
| "told (Registered _ _ _) w \<longleftrightarrow> w = [''building'', ''building'']"
| "told _ w \<longleftrightarrow> w \<in> ends"

lemma told_end: "telling t = None \<Longrightarrow> told t w \<longleftrightarrow> w \<in> ends"
  by (cases t) auto

text \<open>A step tells the next part of its own story and nothing of another.\<close>

definition tells :: "task \<Rightarrow> task \<Rightarrow> envelope list \<Rightarrow> bool" where
  "tells t t' fs \<longleftrightarrow> (case telling t of
     None \<Rightarrow> telling t' = None \<and> (\<forall>q. story q fs = [])
   | Some p \<Rightarrow> telling t' \<in> {None, Some p} \<and> (\<forall>q. q \<noteq> p \<longrightarrow> story q fs = []) \<and>
       (\<forall>w. told t w \<longrightarrow> told t' (w @ story p fs)))"

definition step_told :: "task \<Rightarrow> agent \<Rightarrow> task \<Rightarrow> agent \<Rightarrow> bool" where
  "step_told t s t' s' \<longleftrightarrow> online s' = online s \<and>
     (\<exists>fs gs. frames s' = frames s @ gs \<and> (gs = fs \<or> \<not> online s \<and> (\<forall>q. story q gs = [])) \<and> tells t t' fs)"

lemma step_told_sends: "sends fs s s' \<Longrightarrow> tells t t' fs \<Longrightarrow> step_told t s t' s'"
  by (auto simp: step_told_def sends_def same_jobs_def)

lemma step_told_quiet: "obeys quiet m \<Longrightarrow> tells t t' [] \<Longrightarrow> step_told t s t' (snd (m s))"
  by (rule step_told_sends, rule sends_Nil, rule obeys_apply)

lemma step_told_none: "online s' = online s \<Longrightarrow> trace s' = trace s \<Longrightarrow> tells t t' [] \<Longrightarrow> step_told t s t' s'"
  by (auto simp: step_told_def frames_def)

lemma step_tells:
  assumes step: "task_step t s = (t', s')"
  shows "step_told t s t' s'"
proof (cases t)
  case (Arrived d)
  with step show ?thesis
    by (intro step_told_none) (auto simp: begin_job_def tells_def split: if_splits)
next
  case (Refused d)
  with step show ?thesis
    by (auto intro!: step_told_sends [OF report_sends] simp: tells_def ends_def)
next
  case (Accepted d)
  obtain r u where c: "checkout_job d s = (r, u)" by fastforce
  with checkout_job_run [OF c] step Accepted show ?thesis
    by (cases r) (auto intro!: step_told_sends simp: tells_def ends_def)
next
  case (CheckedOut d w)
  obtain r u where c: "build_part d w s = (r, u)" by fastforce
  with build_part_run [OF c] step CheckedOut show ?thesis
    by (cases r) (auto intro!: step_told_sends simp: tells_def ends_def)
next
  case (Built d w x)
  with step show ?thesis by (intro step_told_none) (auto simp: store_job_def tells_def split: prod.splits)
next
  case (Registered d w x)
  obtain cfg files cid where x: "x = (cfg, files, cid)" by (metis prod.exhaust)
  show ?thesis using step Registered
    by (auto intro!: step_told_sends [OF report_sends] simp: report_job_def x logged_def tells_def ends_def)
next
  case (Leaving d w)
  with step show ?thesis by (intro step_told_none) (auto simp: released_def tells_def)
next
  case (Freed d w)
  with step show ?thesis by (intro step_told_none) (auto simp: tells_def)
next
  case (Dropping d)
  with step show ?thesis by (auto intro!: step_told_quiet [OF quiet_cache_ops(3)] simp: tells_def)
next
  case Announcing
  from maybeSendReady_sends [of s] step Announcing show ?thesis
    by (auto intro!: step_told_sends simp: tells_def)
next
  case (Removing pid)
  with step show ?thesis by (intro step_told_none) (auto simp: tells_def split: option.splits)
next
  case (Stopping pid j)
  with step show ?thesis by (auto intro!: step_told_quiet [OF quiet_stop_job] simp: tells_def)
next
  case (Stopped pid j)
  with step show ?thesis
    by (cases "jb_repo j = []")
      (auto intro!: step_told_quiet [OF quiet_cache_ops(3)] intro: step_told_none simp: tells_def)
next
  case (Forgetting pid)
  with step show ?thesis by (intro step_told_none) (auto simp: tells_def)
next
  case (Finishing pid)
  with step show ?thesis by (auto intro!: step_told_sends [OF report_sends] simp: tells_def)
next
  case (Listing cfg)
  with step show ?thesis by (intro step_told_none) (auto simp: tells_def)
next
  case (Listed cfg js)
  have "frames s' = frames s @ [Hello (hello_data cfg (running_ids js (building s)))]" "online s' = online s"
    using step Listed by (auto simp: frames_def perform_def map_filter_def)
  moreover have "tells t t' [Hello h]" for h using step Listed by (auto simp: tells_def)
  ultimately show ?thesis unfolding step_told_def by blast
next
  case Ended
  with step show ?thesis by (intro step_told_none) (auto simp: tells_def)
qed

section \<open>All interleavings\<close>

text \<open>
  What is told so far of a preview, with the number of assignments of it to come: nothing before
  its assignment, then what its only task has told, and in the end a whole story. With \<open>conn\<close>
  the connection has never been lost, so an assignment to come is one not yet taken.
\<close>

definition about :: "string \<Rightarrow> task list \<Rightarrow> task list" where
  "about pid ts = filter (\<lambda>t. telling t = Some pid) ts"

definition told_so_far :: "string \<Rightarrow> bool \<Rightarrow> nat \<Rightarrow> nat \<Rightarrow> task list \<Rightarrow> string list \<Rightarrow> bool" where
  "told_so_far pid conn given later ts w \<longleftrightarrow>
     (about pid ts = [] \<and> w = [] \<and> later \<le> 1 \<and> (conn \<longrightarrow> later = given)) \<or>
     (\<exists>t. about pid ts = [t] \<and> told t w \<and> later = 0) \<or>
     (about pid ts = [] \<and> w \<in> ends \<and> later = 0)"

definition assignments_of :: "string \<Rightarrow> event list \<Rightarrow> nat" where
  "assignments_of pid evs = count_list (assignments evs) pid"

lemma assignments_of_simps [simp]:
  "assignments_of pid [] = 0"
  "assignments_of pid (e # evs) = count_list (assigned e) pid + assignments_of pid evs"
  by (simp_all add: assignments_of_def assignments_def)

lemma told_advance:
  assumes so_far: "told_so_far pid conn given (count_list (assigned e) pid + later) ts w"
    and adv: "advance cfg e (s, ts) = (s', ts')" and conn: "conn \<longrightarrow> online s"
  shows "\<exists>fs w'. frames s' = frames s @ fs \<and> told_so_far pid conn given later ts' w' \<and>
    (\<exists>v. w' = w @ v \<and> (story pid fs = v \<or> (\<not> online s \<and> story pid fs = [])))"
proof -
  from advance_kinds [OF adv] show ?thesis
  proof (elim disjE exE conjE)
    fix i xs t ys t'
    assume e: "e = Step i" and ts: "ts = xs @ t # ys" "ts' = xs @ t' # ys" and step: "task_step t s = (t', s')"
    from step_tells [OF step] obtain fs gs where fs: "frames s' = frames s @ gs" and t: "tells t t' fs"
      and sent: "story pid gs = story pid fs \<or> (\<not> online s \<and> story pid gs = [])"
      by (auto simp: step_told_def)
    have "\<exists>w'. told_so_far pid conn given later ts' w' \<and> w' = w @ story pid fs"
    proof (cases "telling t = Some pid")
      case False
      then have "story pid fs = []" "about pid ts' = about pid ts"
        using t by (auto simp: tells_def ts about_def split: option.splits)
      with so_far show ?thesis by (simp add: told_so_far_def e)
    next
      case True
      then have "about pid ts = about pid xs @ t # about pid ys" by (simp add: ts about_def)
      with so_far have one: "about pid xs = []" "about pid ys = []" "told t w" "later = 0"
        by (auto simp: told_so_far_def e append_eq_Cons_conv)
      have t': "told t' (w @ story pid fs)" "telling t' \<in> {None, Some pid}"
        using t True one(3) by (auto simp: tells_def)
      have "about pid ts' = (if telling t' = Some pid then [t'] else [])"
        using one by (simp add: ts about_def)
      with t' one(4) told_end show ?thesis by (auto simp: told_so_far_def)
    qed
    with fs sent show ?thesis by blast
  next
    fix fs new assume fs: "frames s' = frames s @ fs" "set fs \<subseteq> range Hello" and ts: "ts' = ts @ new"
      and msg: "\<forall>m. e = Message m \<longrightarrow> new = (if online s then arrivals m else [])" "(\<forall>m. e \<noteq> Message m) \<longrightarrow> set new \<subseteq> {Announcing, Listing cfg}"
    have "told_so_far pid conn given later ts' w"
    proof (cases "pid \<in> set (assigned e)")
      case True
      then obtain d where d: "e = Message (JobAssign d)" "ja_preview d = pid" by (cases e rule: assigned.cases) auto
      with so_far have "about pid ts = []" "w = []" "later = 0" "conn \<longrightarrow> given = 1" by (auto simp: told_so_far_def)
      with msg(1) d conn show ?thesis by (auto simp: told_so_far_def ts about_def)
    next
      case False
      have "telling t \<noteq> Some pid" if "t \<in> set new" for t
        using that msg False by (cases e rule: assigned.cases) (auto split: if_splits)
      then have "about pid ts' = about pid ts" by (simp add: ts about_def)
      with so_far False show ?thesis by (simp add: told_so_far_def count_list_0_iff)
    qed
    with fs story_hellos show ?thesis by auto
  qed
qed

lemma online_advance:
  assumes "online s" and "e \<noteq> Disconnected"
  shows "online (fst (advance cfg e (s, ts)))"
proof (cases e)
  case (Step i)
  obtain t s' where step: "task_step (ts ! i) s = (t, s')" by fastforce
  from step_tells [OF step] assms(1) step show ?thesis by (simp add: Step step_told_def)
qed (use assms in \<open>auto simp: Pause_agent_def\<close>)

lemma told_run:
  assumes "told_so_far pid conn given (assignments_of pid evs) ts w"
    and "conn \<longrightarrow> online s \<and> Disconnected \<notin> set evs"
    and "run_events cfg evs (s, ts) = (s', ts')"
  shows "\<exists>fs v. frames s' = frames s @ fs \<and> told_so_far pid conn given 0 ts' (w @ v) \<and>
    subseq (story pid fs) v \<and> (conn \<longrightarrow> story pid fs = v)"
  using assms
proof (induction evs arbitrary: s ts w)
  case Nil
  then show ?case by (auto intro!: exI [of _ "[]"])
next
  case (Cons e evs)
  obtain u us where adv: "advance cfg e (s, ts) = (u, us)" by fastforce
  have conn: "conn \<longrightarrow> online s" using Cons.prems(2) by blast
  from told_advance [OF Cons.prems(1) [unfolded assignments_of_simps] adv conn] obtain fs v where
    one: "frames u = frames s @ fs" "told_so_far pid conn given (assignments_of pid evs) us (w @ v)"
      "story pid fs = v \<or> (\<not> online s \<and> story pid fs = [])" by blast
  have "conn \<longrightarrow> online u \<and> Disconnected \<notin> set evs"
    using online_advance [of s e cfg ts] Cons.prems(2) adv by auto
  moreover have "run_events cfg evs (u, us) = (s', ts')" using Cons.prems(3) adv by simp
  ultimately obtain gs v' where rest: "frames s' = frames u @ gs" "told_so_far pid conn given 0 ts' ((w @ v) @ v')"
      "subseq (story pid gs) v'" "conn \<longrightarrow> story pid gs = v'"
    using Cons.IH [OF one(2)] by blast
  have "subseq (story pid fs) v" using one(3) by auto
  with one rest conn show ?case
    by (intro exI [of _ "fs @ gs"] exI [of _ "v @ v'"]) (auto intro: list_emb_append_mono)
qed

lemma ends_prefix:
  assumes "told t w"
  shows "\<exists>x \<in> ends. prefix w x"
  using assms by (cases t) (auto simp: ends_def)

text \<open>Without a further assignment, only tasks already there are about a preview.\<close>

definition about_below :: "string \<Rightarrow> nat \<Rightarrow> task list \<Rightarrow> bool" where
  "about_below pid n ts \<longleftrightarrow> (\<forall>i < length ts. telling (ts ! i) = Some pid \<longrightarrow> i < n)"

lemma about_below_advance:
  assumes "about_below pid n ts" and "n \<le> length ts" and "pid \<notin> set (assigned e)"
    and adv: "advance cfg e (s, ts) = (s', ts')"
  shows "about_below pid n ts'"
proof (cases e)
  case (Step j)
  show ?thesis
  proof (cases "j < length ts")
    case True
    obtain t where t: "task_step (ts ! j) s = (t, s')" "ts' = ts[j := t]"
      using adv True by (auto simp: Step split: prod.splits)
    from step_tells [OF t(1)] have "telling t = None \<or> telling t = telling (ts ! j)"
      by (auto simp: step_told_def tells_def split: option.splits)
    with assms(1) True show ?thesis by (auto simp: t(2) about_below_def nth_list_update)
  next
    case False
    with assms show ?thesis by (auto simp: Step)
  qed
next
  case (Message m)
  have "telling t \<noteq> Some pid" if "t \<in> set (arrivals m)" for t
    using that assms(3) by (cases m) (auto simp: Message)
  with assms(1) adv show ?thesis
    by (auto simp: Message about_below_def nth_append all_set_conv_all_nth split: if_splits)
next
  case Connected
  with assms show ?thesis by (auto simp: about_below_def nth_append less_Suc_eq split: if_splits)
next
  case SayHello
  with assms show ?thesis by (auto simp: about_below_def nth_append less_Suc_eq split: if_splits)
qed (use assms in auto)

lemma about_below_run:
  assumes "about_below pid n ts" and "n \<le> length ts" and "assignments_of pid evs = 0"
    and "run_events cfg evs (s, ts) = (s', ts')"
  shows "about_below pid n ts'"
  using assms
proof (induction evs arbitrary: s ts)
  case Nil
  then show ?case by simp
next
  case (Cons e evs)
  obtain u us where adv: "advance cfg e (s, ts) = (u, us)" by fastforce
  have no: "pid \<notin> set (assigned e)" "assignments_of pid evs = 0" using Cons.prems(3) by (simp_all add: count_list_0_iff)
  have "n \<le> length us" using run_length [of cfg "[e]" s ts u us] adv Cons.prems(2) by simp
  moreover have "run_events cfg evs (u, us) = (s', ts')" using Cons.prems(4) adv by simp
  ultimately show ?case using Cons.IH about_below_advance [OF Cons.prems(1,2) no(1) adv] no(2) by blast
qed

lemma none_about:
  assumes "run_events cfg evs (s, ts) = (s', ts')" and "assignments_of pid evs = 0"
    and "\<And>i. i < length ts \<Longrightarrow> 9 \<le> count_list evs (Step i)"
  shows "about pid ts' = []"
proof (rule ccontr)
  assume "about pid ts' \<noteq> []"
  then obtain i where i: "i < length ts'" "telling (ts' ! i) = Some pid"
    by (auto simp: about_def filter_empty_conv in_set_conv_nth)
  have "about_below pid (length ts) ts'"
    by (rule about_below_run [OF _ _ assms(2,1)]) (simp_all add: about_below_def)
  with i have "i < length ts" by (simp add: about_below_def)
  then have "ts' ! i = Ended" using run_ends [OF assms(1)] assms(3) by blast
  with i(2) show False by simp
qed

lemma told_subseq:
  assumes "told_so_far pid conn given later ts w"
  shows "\<exists>x \<in> ends. subseq w x"
proof -
  have "\<exists>x \<in> ends. prefix w x"
    using assms ends_prefix by (fastforce simp: told_so_far_def ends_def)
  then show ?thesis using prefix_imp_subseq by blast
qed

end
