(* ===== verification/AgentInterleaving.thy ===== *)
theory AgentInterleaving
  imports ReportOrder
begin

text \<open>
  The properties of the agent with all its goroutines: what holds for every order of the messages,
  of the steps of the jobs and teardowns, and of the connection.
\<close>

section \<open>Files\<close>

definition named :: "event list \<Rightarrow> string list" where
  "named evs = concat (map names evs)"


text \<open>Two jobs and a teardown, taken in turns over two connections.\<close>

definition demo_events :: "event list" where
  "demo_events = [Message (JobAssign demo_job), Message (JobTeardown ''p2''), Step 0, Step 1, Step 0,
     Disconnected, Message (JobAssign (demo_job\<lparr>ja_preview := ''p2''\<rparr>)), Step 0, SayHello, Connected,
     Message (JobAssign (demo_job\<lparr>ja_preview := ''p3''\<rparr>)), Step 3, Step 1, Step 0, Step 2]"


section \<open>Slots\<close>

text \<open>C10: however goroutines and connections interleave, the number of jobs in flight is that of
  the tasks between accepting a job and the deferred function of Handle, so it is never negative
  and zero when all goroutines have ended; only previews of such tasks are marked as being built,
  and when no preview is assigned twice, all of them are. A HELLO lists exactly the previews whose
  jobs were registered when the first of its two reads was made, and those that are marked when
  the second is: what happens to the jobs in between is not in it.\<close>

theorem slots_counted:
  assumes "run_events cfg evs (s, []) = (s', ts)" and "inFlight s = 0" and "building s = []"
  shows "inFlight s' = int (length (holders ts)) \<and> set (building s') \<subseteq> set (holders ts) \<and>
    (distinct (assignments evs) \<longrightarrow> set (building s') = set (holders ts)) \<and>
    (\<forall>evs1 evs2 s1 ts1 i c. evs = evs1 @ Step i # evs2 \<and> run_events cfg evs1 (s, []) = (s1, ts1) \<and>
       i < length ts1 \<and> ts1 ! i = Listing c \<and> Step i \<notin> set evs2 \<longrightarrow>
       (\<exists>listed. frames (snd (task_step (ts ! i) s')) = frames s' @ [Hello (hello_data c listed)] \<and>
          set listed = fst ` set (jobs s1) \<union> set (building s')))"
proof (intro conjI allI impI)
  have "counted (s, [])" using assms(2,3) by (simp add: counted_def)
  from counted_run [OF this, of cfg evs] have counted: "counted (s', ts)" using assms(1) by simp
  then show "inFlight s' = int (length (holders ts))" "set (building s') \<subseteq> set (holders ts)"
    by (simp_all add: counted_def)
  show "set (building s') = set (holders ts)" if "distinct (assignments evs)"
  proof -
    have "marked (assignments evs @ []) (s, [])" using that by (simp add: marked_def)
    from marked_run [OF this, of cfg] counted show ?thesis using assms(1) by (auto simp: marked_def counted_def)
  qed
next
  fix evs1 evs2 s1 ts1 i c
  assume "evs = evs1 @ Step i # evs2 \<and> run_events cfg evs1 (s, []) = (s1, ts1) \<and>
    i < length ts1 \<and> ts1 ! i = Listing c \<and> Step i \<notin> set evs2"
  then have "run_events cfg evs2 (s1, ts1[i := Listed c (map fst (jobs s1))]) = (s', ts)"
      "i < length ts1" "Step i \<notin> set evs2"
    using assms(1) by (auto simp: run_events_def)
  from run_other [OF this(1) _ this(3)] this(2) have "ts ! i = Listed c (map fst (jobs s1))" by simp
  then show "\<exists>listed. frames (snd (task_step (ts ! i) s')) = frames s' @ [Hello (hello_data c listed)] \<and>
      set listed = fst ` set (jobs s1) \<union> set (building s')"
    by (intro exI [of _ "running_ids (map fst (jobs s1)) (building s')"]) (auto simp: frames_def perform_def map_filter_def)
qed

theorem slots_counted_witness:
  "inFlight (fst (run_events demo_config demo_events (demo_agent, []))) \<ge> 0 \<and>
   (\<exists>s' ts. run_events demo_config [Disconnected, SayHello, Step 0] (demo_agent, []) = (s', ts) \<and>
      frames (snd (task_step (ts ! 0) s')) = [Hello (hello_data demo_config [])])"
proof -
  from slots_counted [OF prod.collapse [symmetric] demo_simps(6) demo_simps(4), of demo_config demo_events]
  have counted: "inFlight (fst (run_events demo_config demo_events (demo_agent, []))) \<ge> 0" by simp
  let ?evs = "[Disconnected, SayHello, Step 0]" and ?off = "demo_agent\<lparr>online := False\<rparr>"
  obtain s' ts where run: "run_events demo_config ?evs (demo_agent, []) = (s', ts)" by fastforce
  have "run_events demo_config [Disconnected, SayHello] (demo_agent, []) = (?off, [Listing demo_config])" by simp
  then have "?evs = [Disconnected, SayHello] @ Step 0 # [] \<and>
      run_events demo_config [Disconnected, SayHello] (demo_agent, []) = (?off, [Listing demo_config]) \<and>
      0 < length [Listing demo_config] \<and> [Listing demo_config] ! 0 = Listing demo_config \<and> Step 0 \<notin> set []" by simp
  with slots_counted [OF run demo_simps(6) demo_simps(4)] have "\<exists>listed.
      frames (snd (task_step (ts ! 0) s')) = frames s' @ [Hello (hello_data demo_config listed)] \<and>
      set listed = fst ` set (jobs ?off) \<union> set (building s')" by meson
  then obtain listed where "frames (snd (task_step (ts ! 0) s')) = frames s' @ [Hello (hello_data demo_config listed)]"
      "set listed = fst ` set (jobs ?off) \<union> set (building s')" by blast
  moreover have "s' = ?off" using run by simp
  ultimately have "frames (snd (task_step (ts ! 0) s')) = [Hello (hello_data demo_config [])]" by (simp add: frames_def)
  with counted run show ?thesis by auto
qed

text \<open>
  The mark is one per preview, not one per job: the job that ends first takes it from another job
  of the same preview. And nothing in the agent bounds the jobs by its slots.
\<close>

lemma mark_lost:
  assumes "task_step (Leaving d w) (begin_job (ja_preview d) (begin_job (ja_preview d) s)) = (t', s')"
  shows "inFlight s' = inFlight s + 1 \<and> ja_preview d \<notin> set (building s')"
  using assms by (auto simp: released_def begin_job_def)

text \<open>
  A job that is registered after the first read of a HELLO and loses its mark before the second is
  not listed: the preview runs, and the hub, told that it does not, marks it as failed.
\<close>

lemma hello_misses:
  assumes "jobs s = []" and "building s = [ja_preview d]"
    and "run_events cfg [Step 1, Step 0, Step 0, Step 0, Step 1] (s, [Built d w x, Listing c]) = (s', ts)"
  shows "(\<exists>fs. frames s' = frames s @ fs @ [Hello (hello_data c [])]) \<and> map fst (jobs s') = [ja_preview d]"
proof -
  define t where "t = snd (report_job d x (store_job d w x s))"
  obtain fs where "sends fs (store_job d w x s) t" using report_job_sends t_def by blast
  then have t: "\<exists>gs. frames t = frames s @ gs" "map fst (jobs t) = [ja_preview d]" "building t = [ja_preview d]"
    using assms(1,2) by (auto simp: sends_def same_jobs_def store_job_def frames_def map_store_def split: prod.splits)
  have "s' = snd (perform (Frame (Hello (hello_data c []))) (released d t))"
    using assms t(3) by (auto simp: t_def [symmetric] released_def running_ids_def)
  with t show ?thesis by (auto simp: frames_def perform_def map_filter_def released_def)
qed

lemma limit_exceeded:
  "inFlight (fst (run_events demo_config
     [Message (JobAssign d1), Message (JobAssign d2), Message (JobAssign d3), Step 0, Step 1, Step 2]
     (demo_agent, []))) = 3 \<and> maxJobs demo_agent = 2"
  by (simp add: begin_job_def)

section \<open>Reports\<close>

text \<open>C5: the reports about a preview assigned at most once, apart from the done reports of
  teardowns, are in this order, whatever the other goroutines do: at most two that it is building,
  then one that it failed or that it runs, or only one that it failed; some may be missing, none is
  repeated and nothing follows the last. On a connection that lasts none is missing as soon as each
  goroutine there was at the assignment has run nine steps: every job ends with its last report.\<close>

theorem job_told:
  assumes "run_events cfg evs1 (s, []) = (s1, ts1)" and "run_events cfg evs2 (s1, ts1) = (s2, ts2)"
    and "assignments_of pid evs1 + assignments_of pid evs2 \<le> 1"
  shows "\<exists>new. frames s2 = frames s @ new \<and> (\<exists>x \<in> ends. subseq (story pid new) x) \<and>
    (online s \<and> Disconnected \<notin> set (evs1 @ evs2) \<and> assignments_of pid evs1 = 1 \<and>
       (\<forall>i < length ts1. 9 \<le> count_list evs2 (Step i)) \<longrightarrow> story pid new \<in> ends)"
proof -
  define conn where "conn = (online s \<and> Disconnected \<notin> set (evs1 @ evs2))"
  define n where "n = assignments_of pid (evs1 @ evs2)"
  have n: "n = assignments_of pid evs1 + assignments_of pid evs2"
    by (simp add: n_def assignments_of_def assignments_def)
  have run: "run_events cfg (evs1 @ evs2) (s, []) = (s2, ts2)"
    using assms(1,2) by (simp add: run_events_def)
  have "told_so_far pid conn n n [] []"
    using assms(3) n by (simp add: told_so_far_def about_def)
  from told_run [OF this [unfolded n_def] _ run] obtain new v where new: "frames s2 = frames s @ new"
      "told_so_far pid conn n 0 ts2 v" "subseq (story pid new) v" "conn \<longrightarrow> story pid new = v"
    unfolding conn_def n_def by auto
  have "\<exists>x \<in> ends. subseq v x" by (rule told_subseq [OF new(2)])
  then have "\<exists>x \<in> ends. subseq (story pid new) x" using new(3) subseq_order.trans by blast
  moreover have "v \<in> ends" if "assignments_of pid evs1 = 1" "\<forall>i < length ts1. 9 \<le> count_list evs2 (Step i)" conn
  proof -
    have "about pid ts2 = []" by (rule none_about [OF assms(2)]) (use that assms(3) in auto)
    with new(2) that(1,3) n show ?thesis by (simp add: told_so_far_def)
  qed
  ultimately show ?thesis using new(1,4) unfolding conn_def by blast
qed

theorem job_told_witness:
  "story ''p1'' (frames (fst (run_events demo_config (replicate 9 (Step 0))
     (run_events demo_config [Message (JobAssign demo_job)] (demo_agent, []))))) \<in> ends"
proof -
  let ?e1 = "[Message (JobAssign demo_job)]" and ?e2 = "replicate 9 (Step 0)"
  have one: "run_events demo_config ?e1 (demo_agent, []) = (demo_agent, [Arrived demo_job])" by simp
  have first: "assignments_of ''p1'' ?e1 = 1" by (simp add: demo_job_def)
  have "assignments_of ''p1'' ?e1 + assignments_of ''p1'' ?e2 \<le> 1"
    using first by (simp add: assignments_of_def assignments_def)
  moreover have "Disconnected \<notin> set (?e1 @ ?e2)" by simp
  moreover have "\<forall>i < length [Arrived demo_job]. 9 \<le> count_list ?e2 (Step i)" by (simp add: numeral_eq_Suc)
  ultimately have "\<exists>new. frames (fst (run_events demo_config ?e2 (demo_agent, [Arrived demo_job]))) = frames demo_agent @ new \<and>
      story ''p1'' new \<in> ends"
    using demo_simps(2) first job_told [OF one prod.collapse [symmetric], of "''p1''" ?e2] by blast
  then show ?thesis unfolding one by (elim exE conjE) (simp only: demo_simps append_Nil)
qed

section \<open>A teardown while a job builds\<close>

text \<open>C19: a teardown that arrives while the preview is being built finds no job: it only reports
  the preview as done, and the build goes on. When it succeeds, the job is registered and the
  preview reported as running after it was reported as done.\<close>

theorem teardown_during_build:
  assumes "map_of (jobs s) (ja_preview d) = None" and "online s"
    and "fst (build_part d w (snd (SendStatusUpdate (done_report (ja_preview d)) s))) = Inr x"
    and "run_events cfg [Message (JobTeardown (ja_preview d)), Step 1, Step 1, Step 0, Step 0, Step 0]
           (s, [CheckedOut d w]) = (s', ts)"
  shows "\<exists>sha rep. frames s' = frames s @
      [StatusUpdate (done_report (ja_preview d)), StatusUpdate (sha_report (ja_preview d) sha), StatusUpdate rep] \<and>
    su_preview rep = ja_preview d \<and> su_status rep = ''running'' \<and>
    (\<exists>job. map_of (jobs s') (ja_preview d) = Some job) \<and> ts = [Leaving d w, Ended]"
proof -
  let ?pid = "ja_preview d"
  define u where "u = snd (SendStatusUpdate (done_report ?pid) s)"
  obtain v where v: "build_part d w u = (Inr x, v)" using assms(3) by (metis u_def prod.collapse)
  obtain cfg' files cid where x: "x = (cfg', files, cid)" by (metis prod.exhaust)
  define v' where "v' = store_job d w x v"
  let ?rep = "running_report ?pid cid (advHost v') (traefikPort v') (PreviewURLs ?pid cfg' (advHost v') (traefikPort v'))"
  have run: "s' = snd (SendStatusUpdate ?rep v')" "ts = [Leaving d w, Ended]"
    using assms(1,2,4) v by (simp_all add: u_def [symmetric] v'_def [unfolded x, symmetric] report_job_def x logged_def)
  have u: "sends [StatusUpdate (done_report ?pid)] s u" unfolding u_def by (rule report_sends)
  from build_part_run [OF v] obtain sha where "sends [StatusUpdate (sha_report ?pid sha)] u v" by auto
  from sends_trans [OF u this] have "frames v = frames s @ [StatusUpdate (done_report ?pid), StatusUpdate (sha_report ?pid sha)]"
      "online v" using assms(2) by (simp_all add: sends_def same_jobs_def)
  then have v': "frames v' = frames s @ [StatusUpdate (done_report ?pid), StatusUpdate (sha_report ?pid sha)]" "online v'"
      "\<exists>job. map_of (jobs v') ?pid = Some job"
    by (simp_all add: v'_def store_job_def x frames_def)
  have "sends [StatusUpdate ?rep] v' s'" unfolding run(1) by (rule report_sends)
  then have "frames s' = frames v' @ [StatusUpdate ?rep]" "jobs s' = jobs v'"
    using v'(2) by (simp_all add: sends_def same_jobs_def)
  with v' run(2) show ?thesis by (auto simp: running_report_def status_report_def)
qed

text \<open>In the sample world every effect, and so every build, succeeds.\<close>

definition demo_ok :: "'a run \<Rightarrow> ('a \<Rightarrow> bool) \<Rightarrow> bool" where
  "demo_ok m P \<longleftrightarrow> (\<forall>u. env u = demo_env \<and> routerReadyTimeout u = 0 \<longrightarrow>
     (\<exists>x u'. m u = (Inr x, u') \<and> P x \<and> env u' = demo_env \<and> routerReadyTimeout u' = 0))"

lemma demo_bind: "demo_ok m Q \<Longrightarrow> (\<And>x. Q x \<Longrightarrow> demo_ok (k x) P) \<Longrightarrow> demo_ok (bindE m k) P"
  unfolding demo_ok_def bindE_def by fastforce

lemma demo_effects:
  "P x \<Longrightarrow> demo_ok (ret x) P"
  "demo_ok (perform e) (\<lambda>_. True)"
  "(\<And>n. P (f demo_env n)) \<Longrightarrow> demo_ok (observe f) P"
  "demo_ok (SendStatusUpdate d) (\<lambda>_. True) \<Longrightarrow> demo_ok (logged (SendStatusUpdate d)) (\<lambda>_. True)"
  "demo_ok m P \<Longrightarrow> demo_ok (or_fail pid reason m) P"
  "demo_ok m P \<Longrightarrow> demo_ok (wrap reason m) P"
  "demo_ok (waitRouters pid cfg mode) (\<lambda>_. True)"
  by (auto simp: demo_ok_def perform_def observe_def demo_env_def or_fail_def catchE_def wrap_def logged_def waitRouters_def ret_def
      split: prod.splits sum.splits)

lemma demo_logged: "demo_ok (logged (SendStatusUpdate d)) (\<lambda>_. True)"
  by (auto simp: demo_ok_def logged_def SendStatusUpdate_def send_frame_def perform_def bindE_def demo_env_def)

lemma demo_dotenv: "demo_ok (logged (WriteDotenv path [])) (\<lambda>_. True)"
  by (auto simp: demo_ok_def logged_def WriteDotenv_def dotenv_text_def)

lemma demo_head: "demo_ok (resolve_head w) (\<lambda>_. True)"
  by (simp add: demo_ok_def resolve_head_def perform_def)

lemma demo_load: "demo_ok (load_config pid ''/w'') (\<lambda>_. True)"
  using demo_config_loads by (simp add: demo_ok_def load_config_def demo_env_def)

lemma demo_detect:
  "demo_ok (bindE (observe (\<lambda>e n. detectBuildFiles (stat_at e n) w cfg)) lift_result) (\<lambda>f. snd (snd f) = buildModeCompose)"
  by (simp add: demo_ok_def detectBuildFiles_def demo_env_def lift_result_def stat_ok_def)

lemma demo_build: "snd (snd f) = buildModeCompose \<Longrightarrow> demo_ok (build pid w cfg f) (\<lambda>_. True)"
proof -
  have "demo_ok (ComposeOverrideYAML pid cfg) (\<lambda>_. True)"
    by (simp add: demo_ok_def ComposeOverrideYAML_def demo_env_def lift_result_def)
  moreover assume "snd (snd f) = buildModeCompose"
  ultimately show ?thesis unfolding build_def handleCompose_def
    by (cases f) (auto intro!: demo_bind [where Q = "\<lambda>_. True"] demo_effects)
qed

lemma demo_builds: "demo_ok (build_part demo_job ''/w'') (\<lambda>_. True)"
proof -
  have "ja_env demo_job = []" by (simp add: demo_job_def)
  then show ?thesis unfolding build_part_def prepare_job_def
    by (auto intro!: demo_bind [OF demo_dotenv] demo_bind [OF demo_head] demo_bind [OF demo_logged]
        demo_bind [OF demo_load] demo_bind [OF demo_effects(5) [OF demo_detect]] demo_bind [OF demo_build]
        demo_bind [OF demo_effects(7)] demo_effects(1))
qed

theorem teardown_during_build_witness:
  "story ''p1'' (frames (fst (run_events demo_config
       [Message (JobTeardown ''p1''), Step 1, Step 1, Step 0, Step 0, Step 0]
       (demo_agent, [CheckedOut demo_job ''/w''])))) = [''building'', ''running'']"
proof -
  let ?evs = "[Message (JobTeardown (ja_preview demo_job)), Step 1, Step 1, Step 0, Step 0, Step 0]"
  let ?d = "done_report (ja_preview demo_job)"
  have "sends [StatusUpdate ?d] demo_agent (snd (SendStatusUpdate ?d demo_agent))" by (rule report_sends)
  then have "env (snd (SendStatusUpdate ?d demo_agent)) = demo_env" "routerReadyTimeout (snd (SendStatusUpdate ?d demo_agent)) = 0"
    by (simp_all add: sends_def same_jobs_def) (simp add: demo_defs)
  with demo_builds obtain x where x: "fst (build_part demo_job ''/w'' (snd (SendStatusUpdate ?d demo_agent))) = Inr x"
    unfolding demo_ok_def by (metis fst_conv)
  have "map_of (jobs demo_agent) (ja_preview demo_job) = None" by simp
  from teardown_during_build [OF this demo_simps(2) x prod.collapse [symmetric], of demo_config]
  obtain sha rep where "frames (fst (run_events demo_config ?evs (demo_agent, [CheckedOut demo_job ''/w'']))) =
      [StatusUpdate ?d, StatusUpdate (sha_report (ja_preview demo_job) sha), StatusUpdate rep]"
    and "su_preview rep = ja_preview demo_job" "su_status rep = ''running''"
    by auto
  moreover have "ja_preview demo_job = ''p1''" by (simp add: demo_job_def)
  ultimately have "story ''p1'' [StatusUpdate rep] = [''running'']" "ja_preview demo_job = ''p1''"
      "frames (fst (run_events demo_config ?evs (demo_agent, [CheckedOut demo_job ''/w'']))) =
        [StatusUpdate ?d, StatusUpdate (sha_report (ja_preview demo_job) sha), StatusUpdate rep]"
    by (simp_all add: told_by.simps(1))
  then show ?thesis by (simp del: run_events_simps)
qed

end
