(* ===== verification/Spec2Isabelle.thy ===== *)
theory Spec2Isabelle
  imports Composition HubCommands HubAccess AgentShutdown AgentInterleaving
begin

text \<open>
  \<^bold>\<open>The program.\<close> A hub (cmd/hub, internal/hub, internal/store, internal/db) keeps previews of pull
  requests in an SQLite database, takes GitHub webhooks and the actions of an administrator, and
  hands queued previews to agents (cmd/agent, internal/agent) over WebSocket connections. An agent
  checks the commit out, builds and runs it with docker, routes it through a Traefik container and
  reports every change of its status. internal/protocol holds the messages: HELLO, WELCOME, READY,
  JOB_ASSIGN, STATUS_UPDATE, JOB_TEARDOWN.

  \<^bold>\<open>Shape of the model.\<close> A Go function that may fail over a state is a program of type
  \<open>'s \<Rightarrow> ('e + 'a) \<times> 's\<close> (Prelude: \<open>ret\<close>, \<open>throw\<close>, \<open>bindE\<close>, \<open>catchE\<close>, \<open>attempt\<close> for a call whose error is
  inspected, \<open>logged\<close> for one whose error is only logged). The state of the hub is the record \<open>hub\<close>
  (World): the tables, the registered connections, the frames written, the connections whose writes
  fail, the pause flag, and the environment, that is which database calls fail, the identifiers
  that \<open>uuid.NewString\<close> draws and the times that \<open>time.Now\<close> gives. The state of an agent is the
  record \<open>agent\<close> (AgentWorld): the fields of \<open>Runner\<close>, \<open>MultiRepoCache\<close> and \<open>Client\<close>, the trace of
  everything it did outside the process (commands, docker calls, files, frames) and the
  environment that answers. Go strings are byte strings, Go maps association lists or partial
  functions, \<open>int\<close> is unbounded (the program only counts and compares), times and durations are
  nanoseconds.

  \<^bold>\<open>Theories of the hub.\<close>
  \<^item> GoStrings, GoTime, GoPath: what the program uses of \<open>strings\<close>, \<open>strconv\<close>, \<open>time\<close> and
    \<open>path/filepath\<close>, written out.
  \<^item> Database (internal/db/sqlite/*.sql.go, models.go, migrations): every query as a function of the
    tables with the constraints of the schema. LabelCodec and UrlCodec: the JSON of the columns
    \<open>labels\<close> and \<open>preview_urls\<close>, byte by byte.
  \<^item> PreviewStore, AgentStore, SecretStore (preview_store.go, agent_store.go, repo_secret_store.go,
    store.go): the operations with their transactions. PreviewStoreLaws, StoreOutcome,
    PreviewContracts, DbInvariant, DbHistory: their results on every branch, the invariant \<open>db_ok\<close>
    (constraints, decodable texts, an event journal that explains every status) and the history.
  \<^item> StatusStore: the contract that the clients of the preview store rely on, as the locales
    \<open>status_store\<close> and \<open>queue_store\<close>; StatusSpec: the store as an abstract board of statuses and the
    refinement.
  \<^item> Protocol (messages.go), Registry (ws_registry.go, labels.go), Dispatcher (dispatcher.go),
    StatusUpdate (status_update.go), Reconciler (reconciler.go), Webhook, WebhookLaws, WebhookCases
    (webhook_handler.go), WsHandler, WsLaws (ws_handler.go, token.go), AdminHandler
    (admin_handler.go, auth.go), AdminUI, AdminActions (admin_ui.go), SecretsForm
    (admin_ui_repo_secrets*.go), HubConfig (config.go, open.go, migrate.go), HubCommands (the
    subcommands of cmd/hub).
  \<^item> Routes and RouteLaws (server.go and the \<open>Register\<close> methods): the patterns of the two muxes, how
    \<open>net/http\<close> matches them, and the password gate before /admin; TokenGen (token.go).
  \<^item> System (daemon.go, server.go): the running daemon as the step relation \<open>hub_step\<close>, one rule per
    entry point, its runs \<open>hub_run\<close>, and the locale \<open>daemon_contract\<close> that lifts what every entry
    point keeps to all runs.
  \<^item> HubProperties, HubFlows, HubTexts, HubAccess: the properties; Samples: the states their witnesses use.

  \<^bold>\<open>Theories of the agent.\<close> AgentWorld (docker.go and the state), DockerSdk (docker_sdk.go),
  PreviewConfig (preview_config.go), TraefikLabels (labels.go), Dotenv (dotenv.go), RepoCache and
  RepoCacheLaws (repocache.go, repocache_multi.go), Runner, RunnerLaws and RunnerFiles (runner.go,
  runner_ready.go), Slots (ready.go), Traefik and TraefikReady (traefik.go, traefik_ready.go),
  Orphans (orphan_restore.go, compose_orphan.go), Backoff (backoff.go), AgentConfig (config.go),
  AgentMain (client.go and the start in main.go), AgentShutdown (exit codes and drain in main.go);
  AgentProperties and AgentLife hold the properties. There a message is handled to its end before
  the next is read; in fact client.go handles each in a goroutine of its own. RunnerTasks cuts
  \<open>Handle\<close> and \<open>Teardown\<close> into the steps of such a goroutine (\<open>task\<close>, \<open>task_step\<close>; run without a
  break they are \<open>Handle\<close> and \<open>Teardown\<close>: \<open>solo_Handle\<close>, \<open>solo_Teardown\<close>), Interleaving runs any
  sequence of messages, steps of tasks and steps of the connection, SlotLaws and ReportOrder hold
  the laws of all such sequences and AgentInterleaving the properties. Composition lets the hub read what an agent
  sends and the agent what the hub sends.

  \<^bold>\<open>Interfaces.\<close> A relation between the states before and after a call that is reflexive and
  transitive is a \<open>contract\<close> (Prelude); the locale gives the rules by which a composed program
  obeys it, and the interpretations are the invariants, frames and histories of both processes.
  \<open>secret_map\<close> (SecretStore) is \<open>store.RepoSecretStore\<close> as a map of maps, \<open>frame_sender\<close> (Registry)
  is \<open>JobSender\<close> and \<open>TeardownSender\<close>, \<open>interleaved\<close> (Interleaving) lifts a law of the single
  steps of goroutines and connection to all their interleavings; every locale is interpreted on the model of the code.

  \<^bold>\<open>What is shown.\<close> For the hub: the invariant and the history over all runs; that a claim is
  exclusive, that a READY is answered and what it may do when calls fail; the decision matrix of
  the webhook; the handshake; the comparison on HELLO; the tick of the reconciler; what a status
  report does, and when it is lost; the form of the secrets; that what
  is stored is read back and what is reported is shown; which request reaches which handler and who reaches the admin pages;
  the way of a token from its creation to the connection of its agent. For the agent: the protocol of a job and
  of a teardown, the files and containers it may touch, the checkout, the check of
  \<open>.preview.yml\<close>, routes and URLs, the lines of the \<open>.env\<close> file, its settings, start, connections and waits; under
  every interleaving of its goroutines, the files it touches and the commands it runs, the count of
  its jobs and what a HELLO lists, the order and the arrival of its reports, and what a teardown during a build does. For
  both: that the outcome of a job reaches the hub, and that they agree after a reconnection.

  \<^bold>\<open>Termination, bounds, fuel.\<close> No definition uses fuel. Loops over data are structural. The wait for
  Traefik and the drain on shutdown end because their measure is the time left: the model of a
  sleep advances the clock by the time slept, and every reading of the clock may add a delay; where
  a bound on the time itself is stated, \<open>prompt\<close> bounds these delays by the timeout of the HTTP
  client. The reconnection loop, which is endless, runs over the list of connections that the
  network gives it. Between two readings of the environment \<open>seqno\<close> and \<open>moment\<close> increase, so that
  answers may differ from call to call. The trace of an agent holds what it attempted, also what
  failed; the outbox of the hub holds the frames that were written.

  \<^bold>\<open>Abstractions.\<close> An entry point of the hub is handled to its end before the next; the interleavings
  considered are those of whole entry points, and the mutexes have no counterpart. A step of a
  task of an agent ends at the accesses to what its goroutines share; a checkout, a build and a
  removal are one step each, and so is each of the two reads of the jobs and marks behind a HELLO
  (one \<open>sync.Map.Range\<close> is one read). Parameters stand for HMAC-SHA256 and the JSON decoding of a
  webhook, bcrypt and random bytes, \<open>url.Parse\<close>, SHA-256, the YAML reader and writer, reading numbers and
  durations from flags and variables, the rounding of \<open>float64\<close>, the order in which Go visits a map
  (\<open>range_order\<close>), the SQLite driver and golang-migrate where a database is opened or migrated.
  Git, docker, Traefik and the file system are the environment of the agent. \<open>calm\<close> states that no
  database call fails and that identifiers are fresh, \<open>clock_ok\<close> that times lie between the years 1
  and 9999.

  \<^bold>\<open>Not modelled.\<close> HTTP and WebSocket libraries (deadlines, pings, close frames), how docker
  compose reads the \<open>.env\<close> file and Traefik its labels, the HTML
  templates, the scripts of the migrations (the schema they end in is), loggers, the delivery of
  signals, the fields \<open>Title\<close> and \<open>RequestPath\<close> of pages where they are constant or repeat what the
  page or the request says, \<open>allocatePort\<close> and the queries without a caller. \<open>strconv.Quote\<close> leaves
  bytes above 0x7F as they are in the model; it occurs in error texts only.
\<close>

end
